(* ===== verification/Prelude.thy ===== *)
theory Prelude
  imports Complex_Main "HOL-Library.Char_ord" "HOL-Library.List_Lexorder"
    "HOL-Library.Product_Lexorder" "HOL-Library.Multiset"
begin

text \<open>
  Shared vocabulary of the development: Python's exceptions as values, the rounding functions of
  the language, ordered dictionaries (\<open>dict\<close> and \<open>OrderedDict\<close> keep insertion order), and the
  generic lemmas on them. Floats are modelled as \<open>real\<close>: comparisons and arithmetic are exact,
  rounding errors, infinities and NaN are outside the model.
\<close>

named_theorems frame \<open>fields an operation leaves unchanged\<close>
named_theorems od_simps \<open>what an ordered dictionary returns after an operation\<close>

section \<open>Exceptions as values\<close>

datatype py_error =
    ValueError
  | KeyError
  | IndexError
  | ZeroDivisionError
  | AttributeError
  | TypeError
  | RuntimeError
  | AssertionError
  | FileNotFoundError

type_synonym 'a result = "py_error + 'a"

text \<open>Sequencing: the continuation runs only when no exception was raised.\<close>

definition rbind :: "'e + 'a \<Rightarrow> ('a \<Rightarrow> 'e + 'b) \<Rightarrow> 'e + 'b" where
  "rbind r f = (case r of Inl e \<Rightarrow> Inl e | Inr x \<Rightarrow> f x)"

lemma rbind_Inl [simp]: "rbind (Inl e) f = Inl e"
  by (simp add: rbind_def)

lemma rbind_Inr [simp]: "rbind (Inr x) f = f x"
  by (simp add: rbind_def)

lemma rbind_eq_Inr: "rbind r f = Inr y \<longleftrightarrow> (\<exists>x. r = Inr x \<and> f x = Inr y)"
  by (cases r) auto

lemma rbind_InrE: "rbind r f = Inr y \<Longrightarrow> (\<And>x. r = Inr x \<Longrightarrow> f x = Inr y \<Longrightarrow> P) \<Longrightarrow> P"
  by (cases r) auto

lemma rbind_cong [fundef_cong]:
  "r = r' \<Longrightarrow> (\<And>x. r' = Inr x \<Longrightarrow> f x = g x) \<Longrightarrow> rbind r f = rbind r' g"
  by (cases r') auto

definition require :: "bool \<Rightarrow> 'e \<Rightarrow> 'e + unit" where
  "require b e = (if b then Inr () else Inl e)"

lemma require_Inr [simp]: "require b e = Inr u \<longleftrightarrow> b"
  by (simp add: require_def)

lemma require_Inl [simp]: "require b e = Inl e' \<longleftrightarrow> \<not> b \<and> e' = e"
  by (auto simp: require_def)

lemma require_True [simp]: "require True e = Inr ()"
  by (simp add: require_def)

lemma require_False [simp]: "require False e = Inl e"
  by (simp add: require_def)

text \<open>A loop whose body can raise: the first exception stops it.\<close>

fun rmap :: "('a \<Rightarrow> 'e + 'b) \<Rightarrow> 'a list \<Rightarrow> 'e + 'b list" where
  "rmap f [] = Inr []"
| "rmap f (x # xs) = rbind (f x) (\<lambda>y. rbind (rmap f xs) (\<lambda>ys. Inr (y # ys)))"

lemma rmap_Inr_length: "rmap f xs = Inr ys \<Longrightarrow> length ys = length xs"
  by (induction xs arbitrary: ys) (auto simp: rbind_eq_Inr)

lemma rmap_Inr_nth: "rmap f xs = Inr ys \<Longrightarrow> i < length xs \<Longrightarrow> f (xs ! i) = Inr (ys ! i)"
proof (induction xs arbitrary: ys i)
  case Nil
  then show ?case by simp
next
  case (Cons x xs)
  then show ?case by (cases i) (auto simp: rbind_eq_Inr)
qed

section \<open>Rounding\<close>

text \<open>\<open>int(x)\<close> truncates towards zero; \<open>round(x)\<close> rounds half to even.\<close>

definition py_int :: "real \<Rightarrow> int" where
  "py_int x = (if 0 \<le> x then \<lfloor>x\<rfloor> else \<lceil>x\<rceil>)"

definition py_round :: "real \<Rightarrow> int" where
  "py_round x =
     (let f = \<lfloor>x\<rfloor>; d = x - real_of_int f
      in if d < 1 / 2 then f else if 1 / 2 < d then f + 1 else if even f then f else f + 1)"

text \<open>\<open>round(x, n)\<close>\<close>

definition py_round_to :: "nat \<Rightarrow> real \<Rightarrow> real" where
  "py_round_to n x = real_of_int (py_round (x * 10 ^ n)) / 10 ^ n"

lemma py_int_nonneg: "0 \<le> x \<Longrightarrow> py_int x = \<lfloor>x\<rfloor>"
  by (simp add: py_int_def)

lemma py_int_of_int [simp]: "py_int (real_of_int n) = n"
  by (simp add: py_int_def)

lemma py_int_mono: "x \<le> y \<Longrightarrow> py_int x \<le> py_int y"
  unfolding py_int_def by (auto simp: floor_mono ceiling_mono) (meson ceiling_le_zero le_cases order_trans zero_le_floor)

lemma py_round_error: "\<bar>real_of_int (py_round x) - x\<bar> \<le> 1 / 2"
proof -
  have "real_of_int \<lfloor>x\<rfloor> \<le> x" "x < real_of_int \<lfloor>x\<rfloor> + 1" by linarith+
  then show ?thesis unfolding py_round_def Let_def by (auto simp: abs_le_iff)
qed

lemma py_round_of_int [simp]: "py_round (real_of_int n) = n"
  by (simp add: py_round_def)

lemma py_round_near: "\<bar>x - real_of_int n\<bar> < 1 / 2 \<Longrightarrow> py_round x = n"
  using py_round_error [of x] by linarith

text \<open>Rounding to even never leaves a symmetric integer interval.\<close>

lemma py_round_abs_le: "\<bar>x\<bar> \<le> real_of_int n \<Longrightarrow> \<bar>py_round x\<bar> \<le> n"
  using py_round_error [of x] by linarith

section \<open>Ordered dictionaries\<close>

text \<open>
  A \<open>dict\<close> or \<open>OrderedDict\<close> is the list of its items in insertion order: \<open>d[k] = v\<close> replaces in
  place or appends, \<open>move_to_end\<close> and \<open>popitem(last=False)\<close> are those of \<open>OrderedDict\<close>.
\<close>

type_synonym ('k, 'v) odict = "('k \<times> 'v) list"

abbreviation od_keys :: "('k, 'v) odict \<Rightarrow> 'k list" where
  "od_keys d \<equiv> map fst d"

fun od_set :: "'k \<Rightarrow> 'v \<Rightarrow> ('k, 'v) odict \<Rightarrow> ('k, 'v) odict" where
  "od_set k v [] = [(k, v)]"
| "od_set k v ((k', v') # d) = (if k = k' then (k, v) # d else (k', v') # od_set k v d)"

definition od_get :: "('k, 'v) odict \<Rightarrow> 'k \<Rightarrow> 'v option" where
  "od_get d k = map_of d k"

definition od_del :: "'k \<Rightarrow> ('k, 'v) odict \<Rightarrow> ('k, 'v) odict" where
  "od_del k d = filter (\<lambda>kv. fst kv \<noteq> k) d"

definition od_move_to_end :: "'k \<Rightarrow> ('k, 'v) odict \<Rightarrow> ('k, 'v) odict" where
  "od_move_to_end k d = (case od_get d k of None \<Rightarrow> d | Some v \<Rightarrow> od_del k d @ [(k, v)])"

fun od_popfirst :: "('k, 'v) odict \<Rightarrow> (('k \<times> 'v) \<times> ('k, 'v) odict) option" where
  "od_popfirst [] = None"
| "od_popfirst (kv # d) = Some (kv, d)"

definition od_ok :: "('k, 'v) odict \<Rightarrow> bool" where
  "od_ok d = distinct (od_keys d)"

lemma od_get_Nil [simp]: "od_get [] k = None"
  by (simp add: od_get_def)

lemma od_get_Cons [simp]: "od_get ((k', v) # d) k = (if k = k' then Some v else od_get d k)"
  by (simp add: od_get_def)

lemma od_get_set [od_simps, simp]: "od_get (od_set k v d) k' = (if k' = k then Some v else od_get d k')"
  by (induction d) auto

lemma od_keys_set: "fst ` set (od_set k v d) = insert k (fst ` set d)"
  by (induction k v d rule: od_set.induct) (auto split: if_splits)

lemma od_get_None_iff: "od_get d k = None \<longleftrightarrow> k \<notin> fst ` set d"
  by (auto simp: od_get_def map_of_eq_None_iff)

lemma od_ok_set: "od_ok d \<Longrightarrow> od_ok (od_set k v d)"
  by (induction k v d rule: od_set.induct) (auto simp: od_ok_def od_keys_set)

lemma od_get_del [od_simps, simp]: "od_get (od_del k d) k' = (if k' = k then None else od_get d k')"
  by (induction d) (auto simp: od_del_def)

lemma od_keys_del: "fst ` set (od_del k d) = fst ` set d - {k}"
  by (auto simp: od_del_def)

lemma od_ok_del: "od_ok d \<Longrightarrow> od_ok (od_del k d)"
  by (induction d) (auto simp: od_ok_def od_del_def)

lemma od_get_append: "od_get (d @ d') k = (case od_get d k of None \<Rightarrow> od_get d' k | Some v \<Rightarrow> Some v)"
  by (simp add: od_get_def map_add_def split: option.splits)

lemma od_get_move [od_simps, simp]: "od_get (od_move_to_end k d) k' = od_get d k'"
  by (auto simp: od_move_to_end_def od_get_append split: option.splits)

lemma od_ok_move: "od_ok d \<Longrightarrow> od_ok (od_move_to_end k d)"
  using od_ok_del [of d k] od_keys_del [of k d]
  by (auto simp: od_move_to_end_def od_ok_def split: option.splits)

lemma od_ok_Cons: "od_ok ((k, v) # d) \<longleftrightarrow> od_get d k = None \<and> od_ok d"
  by (auto simp: od_ok_def od_get_None_iff)

lemma length_od_set: "length (od_set k v d) = (if od_get d k = None then Suc (length d) else length d)"
  by (induction k v d rule: od_set.induct) (auto split: if_splits)

lemma od_del_absent: "od_get d k = None \<Longrightarrow> od_del k d = d"
  by (auto simp: od_del_def od_get_None_iff intro!: filter_True)

lemma length_od_del: "od_ok d \<Longrightarrow> od_get d k = Some v \<Longrightarrow> Suc (length (od_del k d)) = length d"
proof (induction d)
  case Nil
  then show ?case by simp
next
  case (Cons kv d)
  obtain k' v' where kv: "kv = (k', v')" by force
  show ?case
  proof (cases "k = k'")
    case True
    with Cons.prems kv have "od_del k d = d" by (auto simp: od_ok_Cons od_del_absent)
    with True kv show ?thesis by (simp add: od_del_def)
  next
    case False
    with Cons kv show ?thesis by (auto simp: od_ok_Cons od_del_def)
  qed
qed

lemma length_od_move: "od_ok d \<Longrightarrow> length (od_move_to_end k d) = length d"
  by (auto simp: od_move_to_end_def length_od_del split: option.splits)

lemma od_set_set: "set (od_set k v d) \<subseteq> insert (k, v) (set d)"
  by (induction k v d rule: od_set.induct) auto

lemma od_in_set: "(k, v) \<in> set (od_set k v d)"
  by (induction k v d rule: od_set.induct) auto

lemma od_get_in_set: "od_get d k = Some v \<Longrightarrow> (k, v) \<in> set d"
  by (simp add: od_get_def map_of_SomeD)

lemma od_get_of_in_set: "od_ok d \<Longrightarrow> (k, v) \<in> set d \<Longrightarrow> od_get d k = Some v"
  by (simp add: od_get_def od_ok_def)

lemma od_in_set_iff: "od_ok d \<Longrightarrow> (k, v) \<in> set d \<longleftrightarrow> od_get d k = Some v"
  using od_get_of_in_set od_get_in_set by metis

lemma set_od_move: "od_ok d \<Longrightarrow> set (od_move_to_end k d) = set d"
  by (rule set_eqI) (auto simp: od_in_set_iff od_ok_move)

text \<open>
  The interface the two caches of the program use (the prefix cache of the router and the store of
  the LMCache mock): a bounded recency queue. The client lemmas are about inserting and then
  dropping the oldest entry while the bound is exceeded.
\<close>

locale recency_dict =
  fixes get :: "'d \<Rightarrow> 'k \<Rightarrow> 'v option"
    and put :: "'k \<Rightarrow> 'v \<Rightarrow> 'd \<Rightarrow> 'd"
    and touch :: "'k \<Rightarrow> 'd \<Rightarrow> 'd"
    and pop :: "'d \<Rightarrow> (('k \<times> 'v) \<times> 'd) option"
    and len :: "'d \<Rightarrow> nat"
    and ok :: "'d \<Rightarrow> bool"
  assumes get_put: "get (put k v d) k' = (if k' = k then Some v else get d k')"
    and ok_put: "ok d \<Longrightarrow> ok (put k v d)"
    and len_put: "len (put k v d) = (if get d k = None then Suc (len d) else len d)"
    and get_touch: "get (touch k d) k' = get d k'"
    and ok_touch: "ok d \<Longrightarrow> ok (touch k d)"
    and len_touch: "ok d \<Longrightarrow> len (touch k d) = len d"
    and pop_None: "pop d = None \<longleftrightarrow> len d = 0"
    and pop_get: "ok d \<Longrightarrow> pop d = Some ((k, v), d') \<Longrightarrow>
          get d k = Some v \<and> get d' k = None \<and> (\<forall>k'. k' \<noteq> k \<longrightarrow> get d' k' = get d k')"
    and pop_ok: "ok d \<Longrightarrow> pop d = Some (kv, d') \<Longrightarrow> ok d' \<and> Suc (len d') = len d"
begin

lemma pop_exists: "0 < len d \<Longrightarrow> \<exists>k v d'. pop d = Some ((k, v), d')"
  by (cases "pop d") (auto simp: pop_None)

lemma pop_subset: "ok d \<Longrightarrow> pop d = Some (kv, d') \<Longrightarrow> get d' k = Some v \<Longrightarrow> get d k = Some v"
  by (cases kv) (metis option.distinct(1) pop_get)

lemma insert_pop_len:
  assumes "ok d" and "int (len d) \<le> max 0 cap" and "pop (put k v d) = Some (kv, d')"
  shows "int (len d') \<le> max 0 cap"
proof -
  have "Suc (len d') = len (put k v d)"
    using pop_ok [OF ok_put [OF assms(1)] assms(3)] by blast
  then show ?thesis using assms(2) by (auto simp: len_put split: if_splits)
qed

lemma insert_keep_len:
  "int (len d) \<le> max 0 cap \<Longrightarrow> \<not> cap < int (len (put k v d)) \<Longrightarrow> int (len (put k v d)) \<le> max 0 cap"
  by auto

end

interpretation od: recency_dict od_get od_set od_move_to_end od_popfirst length od_ok
proof (unfold_locales, goal_cases)
  case (7 d)
  then show ?case by (cases d) auto
next
  case (8 d k v d')
  then show ?case by (cases d) (auto simp: od_ok_Cons)
next
  case (9 d kv d')
  then show ?case by (cases d) (auto simp: od_ok_def)
qed (auto simp: od_ok_set od_ok_move length_od_set length_od_move)

section \<open>Strings\<close>

text \<open>
  Strings are lists of characters below 128, on which UTF-8 encoding is the identity.
\<close>

definition py_startswith :: "string \<Rightarrow> string \<Rightarrow> bool" where
  "py_startswith s p = (take (length p) s = p)"

lemma py_startswith_append [simp]: "py_startswith (p @ s) p"
  by (simp add: py_startswith_def)

fun joined :: "string \<Rightarrow> string list \<Rightarrow> string" where
  "joined sep [] = []"
| "joined sep [x] = x"
| "joined sep (x # y # xs) = x @ sep @ joined sep (y # xs)"

section \<open>Loops against a deadline\<close>

text \<open>
  Induction for a loop that runs until a clock \<open>m\<close> passes a deadline, and advances it by at least \<open>gap\<close> in every round.
\<close>

lemma deadline_induct [consumes 1]:
  fixes m :: "'a \<Rightarrow> real"
  assumes "0 < gap" and step: "\<And>x. (\<And>y. m x < d \<Longrightarrow> m x + gap \<le> m y \<Longrightarrow> P y) \<Longrightarrow> P x"
  shows "P x"
proof (induction "nat \<lceil>(d - m x) / gap\<rceil>" arbitrary: x rule: less_induct)
  case less
  show ?case
  proof (rule step)
    fix y
    assume lt: "m x < d" and adv: "m x + gap \<le> m y"
    have "(d - m y) / gap \<le> (d - m x) / gap - 1"
      using divide_right_mono [of "d - m y" "d - m x - gap" gap] adv assms(1) by (simp add: diff_divide_distrib)
    then have "\<lceil>(d - m y) / gap\<rceil> \<le> \<lceil>(d - m x) / gap\<rceil> - 1" by (metis ceiling_diff_one ceiling_mono)
    moreover have "0 < \<lceil>(d - m x) / gap\<rceil>" using lt assms(1) by simp
    ultimately show "P y" by (intro less) linarith
  qed
qed

end
