(* ===== verification/PyText.thy ===== *)
theory PyText
  imports Prelude
begin

text \<open>
  Text operations of Python the program uses: decimal rendering of integers (with the zero padding of
  \<open>f"{i:05d}"\<close>), whitespace splitting and stripping, \<open>join\<close>, and ASCII case conversion. The lemmas are
  the facts identifiers and token counts rest on: rendering is injective, and splitting a joined list
  of words gives the words back.
\<close>

section \<open>Decimal rendering\<close>

definition digit_char :: "nat \<Rightarrow> char" where
  "digit_char d = char_of (48 + d)"

fun nat_str :: "nat \<Rightarrow> string" where
  "nat_str n = (if n < 10 then [digit_char n] else nat_str (n div 10) @ [digit_char (n mod 10)])"

declare nat_str.simps [simp del]

definition int_str :: "int \<Rightarrow> string" where
  "int_str i = (if i < 0 then CHR ''-'' # nat_str (nat (- i)) else nat_str (nat i))"

definition zero_pad :: "nat \<Rightarrow> string \<Rightarrow> string" where
  "zero_pad w s = replicate (w - length s) (CHR ''0'') @ s"

definition is_digit :: "char \<Rightarrow> bool" where
  "is_digit c \<longleftrightarrow> 48 \<le> (of_char c :: nat) \<and> (of_char c :: nat) \<le> 57"

definition digit_val :: "char \<Rightarrow> nat" where
  "digit_val c = of_char c - 48"

definition str_nat :: "string \<Rightarrow> nat" where
  "str_nat s = foldl (\<lambda>v c. 10 * v + digit_val c) 0 s"

lemma of_digit_char: "d < 10 \<Longrightarrow> (of_char (digit_char d) :: nat) = 48 + d"
  by (simp add: digit_char_def)

lemma is_digit_digit_char: "d < 10 \<Longrightarrow> is_digit (digit_char d)"
  by (simp add: is_digit_def of_digit_char)

lemma nat_str_digits: "c \<in> set (nat_str n) \<Longrightarrow> is_digit c"
proof (induction n rule: nat_str.induct)
  case (1 n)
  then show ?case
    by (subst (asm) nat_str.simps) (auto simp: is_digit_digit_char split: if_splits)
qed

lemma nat_str_nonempty [simp]: "nat_str n \<noteq> []"
  by (subst nat_str.simps) simp

lemma str_nat_append: "str_nat (s @ [c]) = 10 * str_nat s + digit_val c"
  by (simp add: str_nat_def)

lemma str_nat_nat_str [simp]: "str_nat (nat_str n) = n"
proof (induction n rule: nat_str.induct)
  case (1 n)
  show ?case
  proof (cases "n < 10")
    case True
    then show ?thesis
      by (subst nat_str.simps) (simp add: str_nat_def digit_val_def of_digit_char)
  next
    case False
    with "1.IH" show ?thesis
      by (subst nat_str.simps) (simp add: str_nat_append digit_val_def of_digit_char)
  qed
qed

lemma nat_str_inj [simp]: "nat_str m = nat_str n \<longleftrightarrow> m = n"
  by (metis str_nat_nat_str)

lemma int_str_inj [simp]: "int_str i = int_str j \<longleftrightarrow> i = j"
proof -
  have minus: "CHR ''-'' # s \<noteq> nat_str n" for s n
    using nat_str_digits [of "CHR ''-''" n] by (auto simp: is_digit_def dest: sym)
  show ?thesis
    using minus minus [symmetric] by (auto simp: int_str_def)
qed

lemma int_str_chars: "c \<in> set (int_str i) \<Longrightarrow> is_digit c \<or> c = CHR ''-''"
  using nat_str_digits by (auto simp: int_str_def split: if_splits)

lemma int_str_nonempty [simp]: "int_str i \<noteq> []"
  by (simp add: int_str_def)

lemma str_nat_zeros: "str_nat (replicate k (CHR ''0'') @ s) = str_nat s"
  by (induction k) (simp_all add: str_nat_def digit_val_def)

lemma zero_pad_nat_inj: "zero_pad w (nat_str m) = zero_pad w (nat_str n) \<longleftrightarrow> m = n"
  by (metis str_nat_nat_str str_nat_zeros zero_pad_def)

text \<open>\<open>f"{x:.kf}"\<close>, ties to even as for the exact value; \<open>f"{s:<w}"\<close> and \<open>f"{s:>w}"\<close>.\<close>

definition fixed_str :: "nat \<Rightarrow> real \<Rightarrow> string" where
  "fixed_str k x =
     (let n = py_round (\<bar>x\<bar> * 10 ^ k);
          whole = nat_str (nat (n div 10 ^ k));
          frac = zero_pad k (nat_str (nat (n mod 10 ^ k)))
      in (if x < 0 then ''-'' else []) @ (if k = 0 then whole else whole @ ''.'' @ frac))"

definition ljust :: "nat \<Rightarrow> string \<Rightarrow> string" where
  "ljust w s = s @ replicate (w - length s) (CHR '' '')"

definition rjust :: "nat \<Rightarrow> string \<Rightarrow> string" where
  "rjust w s = replicate (w - length s) (CHR '' '') @ s"

text \<open>\<open>needle in s\<close>\<close>

fun py_contains :: "string \<Rightarrow> string \<Rightarrow> bool" where
  "py_contains needle [] = (needle = [])"
| "py_contains needle (c # s) = (take (length needle) (c # s) = needle \<or> py_contains needle s)"

lemma py_contains_prefix: "py_contains needle (needle @ s)"
proof (cases "needle @ s")
  case Nil
  then show ?thesis by simp
next
  case (Cons c u)
  then have "take (length needle) (c # u) = needle" by (metis append_eq_conv_conj)
  then show ?thesis by (simp add: Cons)
qed

lemma py_contains_append: "py_contains needle s \<Longrightarrow> py_contains needle (u @ s)"
  by (induction u) auto

section \<open>Whitespace\<close>

definition is_space :: "char \<Rightarrow> bool" where
  "is_space c \<longleftrightarrow> (let n = (of_char c :: nat) in (9 \<le> n \<and> n \<le> 13) \<or> (28 \<le> n \<and> n \<le> 32))"

text \<open>\<open>s.split()\<close>: the maximal runs of characters that are not whitespace; \<open>w\<close> is the current run.\<close>

fun split_acc :: "string \<Rightarrow> string \<Rightarrow> string list" where
  "split_acc w [] = (if w = [] then [] else [w])"
| "split_acc w (c # s) =
     (if is_space c then (if w = [] then split_acc [] s else w # split_acc [] s)
      else split_acc (w @ [c]) s)"

definition py_split :: "string \<Rightarrow> string list" where
  "py_split s = split_acc [] s"

definition py_strip :: "string \<Rightarrow> string" where
  "py_strip s = rev (dropWhile is_space (rev (dropWhile is_space s)))"

definition is_word :: "string \<Rightarrow> bool" where
  "is_word w \<longleftrightarrow> w \<noteq> [] \<and> (\<forall>c\<in>set w. \<not> is_space c)"

lemma split_acc_chars: "\<forall>c\<in>set v. \<not> is_space c \<Longrightarrow> split_acc w (v @ s) = split_acc (w @ v) s"
  by (induction v arbitrary: w) auto

lemma split_acc_spaces: "\<forall>c\<in>set v. is_space c \<Longrightarrow> split_acc [] (v @ s) = split_acc [] s"
  by (induction v) auto

text \<open>A word, then whitespace, then the rest.\<close>

lemma split_word_sep:
  assumes "is_word w" "sep \<noteq> []" "\<forall>c\<in>set sep. is_space c"
  shows "py_split (w @ sep @ s) = w # py_split s"
proof -
  obtain c sep' where sep: "sep = c # sep'" using assms(2) by (cases sep) auto
  have "py_split (w @ sep @ s) = split_acc w (c # sep' @ s)"
    using assms(1) split_acc_chars [of w "[]" "sep @ s"] by (simp add: py_split_def is_word_def sep)
  also have "\<dots> = w # split_acc [] (sep' @ s)" using assms(1,3) sep by (simp add: is_word_def)
  also have "split_acc [] (sep' @ s) = py_split s" using assms(3) sep by (simp add: py_split_def split_acc_spaces)
  finally show ?thesis .
qed

lemma split_word: "is_word w \<Longrightarrow> py_split w = [w]"
  using split_acc_chars [of w "[]" "[]"] by (simp add: py_split_def is_word_def)

lemma split_Nil [simp]: "py_split [] = []"
  by (simp add: py_split_def)

lemma split_joined:
  assumes "\<forall>w\<in>set ws. is_word w" "sep \<noteq> []" "\<forall>c\<in>set sep. is_space c"
  shows "py_split (joined sep ws) = ws"
  using assms by (induction sep ws rule: joined.induct) (simp_all add: split_word split_word_sep)

lemma split_joined_rest:
  assumes "\<forall>w\<in>set ws. is_word w" "ws \<noteq> []" "sep \<noteq> []" "\<forall>c\<in>set sep. is_space c"
    "sep' \<noteq> []" "\<forall>c\<in>set sep'. is_space c"
  shows "py_split (joined sep ws @ sep' @ s) = ws @ py_split s"
  using assms by (induction sep ws rule: joined.induct) (simp_all add: split_word_sep)

text \<open>Splitting at the first mark is unique.\<close>

lemma until_mark:
  assumes "c \<notin> set v" "c \<notin> set w"
  shows "v @ c # s = w @ c # t \<longleftrightarrow> v = w \<and> s = t"
proof
  assume eq: "v @ c # s = w @ c # t"
  have tw: "takeWhile (\<lambda>x. x \<noteq> c) (u @ c # r) = u" if "c \<notin> set u" for u r
    using that by (induction u) auto
  have "v = w" using arg_cong [OF eq, of "takeWhile (\<lambda>x. x \<noteq> c)"] tw [OF assms(1)] tw [OF assms(2)] by simp
  then show "v = w \<and> s = t" using eq by simp
qed auto

text \<open>\<open>s.splitlines()\<close> on characters below 128; a carriage return before a line feed is part of the break.\<close>

definition line_break :: "char \<Rightarrow> bool" where
  "line_break c \<longleftrightarrow> of_char c \<in> {10, 11, 12, 13, 28, 29, 30 :: nat}"

fun lines_acc :: "string \<Rightarrow> string \<Rightarrow> string list" where
  "lines_acc cur [] = (if cur = [] then [] else [rev cur])"
| "lines_acc cur (c # s) =
     (if \<not> line_break c then lines_acc (c # cur) s
      else rev cur # (case s of d # s' \<Rightarrow> if of_char c = (13 :: nat) \<and> of_char d = (10 :: nat) then lines_acc [] s' else lines_acc [] s
                      | [] \<Rightarrow> lines_acc [] s))"

definition py_splitlines :: "string \<Rightarrow> string list" where
  "py_splitlines s = lines_acc [] s"

text \<open>\<open>s.rstrip("/")\<close>\<close>

definition rstrip_slash :: "string \<Rightarrow> string" where
  "rstrip_slash s = rev (dropWhile (\<lambda>c. c = CHR ''/'') (rev s))"

text \<open>\<open>s.split(sep)\<close> for a single character\<close>

fun split_char :: "char \<Rightarrow> string \<Rightarrow> string list" where
  "split_char sep [] = [[]]"
| "split_char sep (c # s) =
     (if c = sep then [] # split_char sep s
      else (case split_char sep s of [] \<Rightarrow> [[c]] | w # ws \<Rightarrow> (c # w) # ws))"

text \<open>\<open>str\<close> of a list of strings (without quotes in them) and of a list of integers\<close>

definition str_list :: "string list \<Rightarrow> string" where
  "str_list xs = ''['' @ joined '', '' (map (\<lambda>x. [CHR 0x27] @ x @ [CHR 0x27]) xs) @ '']''"

definition int_list :: "int list \<Rightarrow> string" where
  "int_list xs = ''['' @ joined '', '' (map int_str xs) @ '']''"

section \<open>Case\<close>

definition char_upper :: "char \<Rightarrow> char" where
  "char_upper c = (let n = (of_char c :: nat) in if 97 \<le> n \<and> n \<le> 122 then char_of (n - 32) else c)"

definition char_lower :: "char \<Rightarrow> char" where
  "char_lower c = (let n = (of_char c :: nat) in if 65 \<le> n \<and> n \<le> 90 then char_of (n + 32) else c)"

definition py_lower :: "string \<Rightarrow> string" where
  "py_lower s = map char_lower s"

fun py_capitalize :: "string \<Rightarrow> string" where
  "py_capitalize [] = []"
| "py_capitalize (c # s) = char_upper c # map char_lower s"

lemma is_space_upper [simp]: "is_space (char_upper c) = is_space c"
  by (auto simp: is_space_def char_upper_def Let_def)

lemma is_space_lower [simp]: "is_space (char_lower c) = is_space c"
  by (auto simp: is_space_def char_lower_def Let_def)

lemma is_word_capitalize [simp]: "is_word (py_capitalize w) = is_word w"
  by (cases w) (auto simp: is_word_def)

lemma is_word_append: "is_word v \<Longrightarrow> \<forall>c\<in>set w. \<not> is_space c \<Longrightarrow> is_word (v @ w)"
  by (auto simp: is_word_def)

section \<open>Numbers read from text\<close>

text \<open>\<open>int(s)\<close> of a stripped string: an optional sign, then digits with single underscores between them.\<close>

fun digit_groups :: "string \<Rightarrow> bool" where
  "digit_groups [] = False"
| "digit_groups [c] = is_digit c"
| "digit_groups (c # d # s) = (is_digit c \<and> (if d = CHR ''_'' then digit_groups s else digit_groups (d # s)))"

definition parse_int :: "string \<Rightarrow> int result" where
  "parse_int s =
     (let body = (if take 1 s \<in> {''-'', ''+''} then drop 1 s else s)
      in if digit_groups body
         then Inr ((if take 1 s = ''-'' then -1 else 1) * int (str_nat (filter (\<lambda>c. c \<noteq> CHR ''_'') body)))
         else Inl ValueError)"

text \<open>
  \<open>float(s)\<close>: a stripped decimal with an optional sign, fraction and exponent; \<open>None\<close> is the \<open>ValueError\<close>. The spellings
  of infinity and NaN are outside the reals and rejected here.
\<close>

definition digits_of :: "string \<Rightarrow> string" where
  "digits_of s = filter (\<lambda>c. c \<noteq> CHR ''_'') s"

definition parse_mantissa :: "string \<Rightarrow> real option" where
  "parse_mantissa s =
     (let ip = takeWhile (\<lambda>c. c \<noteq> CHR ''.'') s; rest = dropWhile (\<lambda>c. c \<noteq> CHR ''.'') s; fp = drop 1 rest
      in if (ip = [] \<or> digit_groups ip) \<and> (fp = [] \<or> digit_groups fp) \<and> (ip \<noteq> [] \<or> fp \<noteq> [])
         then Some (real (str_nat (digits_of ip)) + real (str_nat (digits_of fp)) / 10 ^ length (digits_of fp))
         else None)"

definition py_float :: "string \<Rightarrow> real option" where
  "py_float raw =
     (let s = py_strip raw;
          body = (if take 1 s \<in> {''-'', ''+''} then drop 1 s else s);
          mant = takeWhile (\<lambda>c. c \<noteq> CHR ''e'' \<and> c \<noteq> CHR ''E'') body;
          rest = dropWhile (\<lambda>c. c \<noteq> CHR ''e'' \<and> c \<noteq> CHR ''E'') body
      in case (parse_mantissa mant, if rest = [] then Inr 0 else parse_int (drop 1 rest)) of
           (Some m, Inr e) \<Rightarrow> Some ((if take 1 s = ''-'' then -1 else 1) * m * power_int 10 e)
         | _ \<Rightarrow> None)"

end
