(* ===== verification/PyRandom.thy ===== *)
theory PyRandom
  imports Prelude
begin

text \<open>
  The generator \<open>random.Random(seed)\<close>. The Mersenne twister is abstract: a record of its two
  primitives over a state \<open>'g\<close> (an integer below a bound, a float in the unit interval) and of the
  seeding; \<open>randint\<close>, \<open>choice\<close> and \<open>expovariate\<close> are defined from them as the standard library does.
  \<open>rng_ok\<close> is the documented range of the primitives.
\<close>

record 'g rng =
  rng_seed :: "int \<Rightarrow> 'g"
  rng_below :: "nat \<Rightarrow> 'g \<Rightarrow> nat \<times> 'g"
  rng_unit :: "'g \<Rightarrow> real \<times> 'g"

definition rng_ok :: "'g rng \<Rightarrow> bool" where
  "rng_ok R \<longleftrightarrow> (\<forall>n g. 0 < n \<longrightarrow> fst (rng_below R n g) < n) \<and>
     (\<forall>g. 0 \<le> fst (rng_unit R g) \<and> fst (rng_unit R g) < 1)"

definition randint :: "'g rng \<Rightarrow> int \<Rightarrow> int \<Rightarrow> 'g \<Rightarrow> (int \<times> 'g) result" where
  "randint R a b g =
     (if b < a then Inl ValueError
      else (case rng_below R (nat (b - a + 1)) g of (i, g') \<Rightarrow> Inr (a + int i, g')))"

definition choice :: "'g rng \<Rightarrow> 'a list \<Rightarrow> 'g \<Rightarrow> ('a \<times> 'g) result" where
  "choice R xs g =
     (if xs = [] then Inl IndexError
      else (case rng_below R (length xs) g of (i, g') \<Rightarrow> Inr (xs ! i, g')))"

definition expovariate :: "'g rng \<Rightarrow> real \<Rightarrow> 'g \<Rightarrow> real \<times> 'g" where
  "expovariate R lambd g = (case rng_unit R g of (u, g') \<Rightarrow> (- ln (1 - u) / lambd, g'))"

text \<open>\<open>[rng.choice(xs) for _ in range(n)]\<close>\<close>

fun choices :: "'g rng \<Rightarrow> 'a list \<Rightarrow> nat \<Rightarrow> 'g \<Rightarrow> ('a list \<times> 'g) result" where
  "choices R xs 0 g = Inr ([], g)"
| "choices R xs (Suc n) g =
     rbind (choice R xs g) (\<lambda>(x, g1). rbind (choices R xs n g1) (\<lambda>(ys, g2). Inr (x # ys, g2)))"

lemma randint_Inr:
  assumes "rng_ok R" and "randint R a b g = Inr (n, g')"
  shows "a \<le> n \<and> n \<le> b"
proof -
  have "a \<le> b" using assms(2) by (auto simp: randint_def split: if_splits)
  then have "fst (rng_below R (nat (b - a + 1)) g) < nat (b - a + 1)"
    using assms(1) by (simp add: rng_ok_def)
  then show ?thesis using assms(2) by (auto simp: randint_def split: if_splits prod.splits)
qed

lemma randint_total: "a \<le> b \<Longrightarrow> \<exists>n g'. randint R a b g = Inr (n, g')"
  by (auto simp: randint_def split: prod.splits)

lemma choice_Inr:
  assumes "rng_ok R" and "choice R xs g = Inr (x, g')"
  shows "x \<in> set xs"
proof -
  have "xs \<noteq> []" using assms(2) by (auto simp: choice_def split: if_splits)
  then have "fst (rng_below R (length xs) g) < length xs" using assms(1) by (simp add: rng_ok_def)
  then show ?thesis using assms(2) by (auto simp: choice_def split: if_splits prod.splits)
qed

lemma choice_total: "xs \<noteq> [] \<Longrightarrow> \<exists>x g'. choice R xs g = Inr (x, g')"
  by (auto simp: choice_def split: prod.splits)

lemma choices_length: "choices R xs n g = Inr (ys, g') \<Longrightarrow> length ys = n"
  by (induction n arbitrary: g ys g') (auto simp: rbind_eq_Inr)

lemma choices_Inr:
  assumes "rng_ok R"
  shows "choices R xs n g = Inr (ys, g') \<Longrightarrow> length ys = n \<and> set ys \<subseteq> set xs"
proof (induction n arbitrary: g ys g')
  case 0
  then show ?case by simp
next
  case (Suc n)
  from Suc.prems obtain x g1 zs where x: "choice R xs g = Inr (x, g1)"
    and zs: "choices R xs n g1 = Inr (zs, g')" and ys: "ys = x # zs"
    by (auto simp: rbind_eq_Inr)
  show ?case using choice_Inr [OF assms x] Suc.IH [OF zs] ys by simp
qed

lemma choices_total: "xs \<noteq> [] \<Longrightarrow> \<exists>ys g'. choices R xs n g = Inr (ys, g')"
proof (induction n arbitrary: g)
  case 0
  then show ?case by simp
next
  case (Suc n)
  obtain x g1 where x: "choice R xs g = Inr (x, g1)" using choice_total [OF Suc.prems, of R g] by blast
  obtain ys g2 where "choices R xs n g1 = Inr (ys, g2)" using Suc by blast
  then show ?case by (simp add: x)
qed

lemma expovariate_nonneg:
  assumes "rng_ok R" and "0 < lambd"
  shows "0 \<le> fst (expovariate R lambd g)"
proof -
  have "0 \<le> fst (rng_unit R g)" "fst (rng_unit R g) < 1" using assms(1) by (auto simp: rng_ok_def)
  then have "ln (1 - fst (rng_unit R g)) \<le> 0" by simp
  then have "0 \<le> - ln (1 - fst (rng_unit R g)) / lambd" using assms(2) by (intro divide_nonneg_pos) auto
  then show ?thesis by (simp add: expovariate_def case_prod_beta)
qed

text \<open>
  A concrete generator for the examples: it counts its draws, walks through the choices in turn, and
  its unit draw is the one for which every exponential gap is the mean \<open>1 / lambd\<close>.
\<close>

definition counting_rng :: "nat rng" where
  "counting_rng = \<lparr>rng_seed = nat, rng_below = (\<lambda>n g. (g mod n, Suc g)), rng_unit = (\<lambda>g. (1 - exp (- 1), Suc g))\<rparr>"

lemma counting_rng_ok: "rng_ok counting_rng"
  by (auto simp: rng_ok_def counting_rng_def)

lemma counting_expovariate [simp]: "expovariate counting_rng l g = (1 / l, Suc g)"
  by (simp add: expovariate_def counting_rng_def)

end
