(* ===== verification/PyJson.thy ===== *)
theory PyJson
  imports Prelude
begin

text \<open>
  JSON values as the standard library's \<open>json\<close> module returns them, and the operations of Python the
  program applies to such dynamically typed values: truth, \<open>.get\<close>, indexing. The text parser
  \<open>json.loads\<close> is a parameter \<open>json_loads\<close> of the definitions that use it, \<open>None\<close> for the
  \<open>JSONDecodeError\<close> it documents.
\<close>

datatype json =
    JNull
  | JBool bool
  | JNum real
  | JStr string
  | JList "json list"
  | JObj "(string \<times> json) list"

type_synonym json_parser = "string \<Rightarrow> json option"

fun truthy :: "json \<Rightarrow> bool" where
  "truthy JNull = False"
| "truthy (JBool b) = b"
| "truthy (JNum x) = (x \<noteq> 0)"
| "truthy (JStr s) = (s \<noteq> [])"
| "truthy (JList xs) = (xs \<noteq> [])"
| "truthy (JObj kvs) = (kvs \<noteq> [])"

text \<open>\<open>v.get(k)\<close>: \<open>None\<close> for a missing key, \<open>AttributeError\<close> for a value that is not a dictionary.\<close>

definition jget :: "json \<Rightarrow> string \<Rightarrow> json result" where
  "jget v k =
     (case v of
        JObj kvs \<Rightarrow> Inr (case od_get kvs k of None \<Rightarrow> JNull | Some x \<Rightarrow> x)
      | _ \<Rightarrow> Inl AttributeError)"

text \<open>\<open>v.get(k, d)\<close>\<close>

definition jget_or :: "json \<Rightarrow> string \<Rightarrow> json \<Rightarrow> json result" where
  "jget_or v k d =
     (case v of
        JObj kvs \<Rightarrow> Inr (case od_get kvs k of None \<Rightarrow> d | Some x \<Rightarrow> x)
      | _ \<Rightarrow> Inl AttributeError)"

text \<open>\<open>v[0]\<close> of a truthy value.\<close>

definition jfirst :: "json \<Rightarrow> json result" where
  "jfirst v =
     (case v of
        JList [] \<Rightarrow> Inl IndexError
      | JList (x # xs) \<Rightarrow> Inr x
      | JStr [] \<Rightarrow> Inl IndexError
      | JStr (c # cs) \<Rightarrow> Inr (JStr [c])
      | JObj kvs \<Rightarrow> Inl KeyError
      | _ \<Rightarrow> Inl TypeError)"

text \<open>\<open>v or d\<close>\<close>

definition jor :: "json \<Rightarrow> json \<Rightarrow> json" where
  "jor v d = (if truthy v then v else d)"

lemma jget_obj [simp]: "jget (JObj kvs) k = Inr (case od_get kvs k of None \<Rightarrow> JNull | Some x \<Rightarrow> x)"
  by (simp add: jget_def)

lemma jfirst_list [simp]: "jfirst (JList (x # xs)) = Inr x"
  by (simp add: jfirst_def)

end
