(* ===== verification/Registry.thy ===== *)
theory Registry
  imports PyText
begin

text \<open>
  \<open>obs/registry.py\<close>: the typed metrics of the control plane. The collectors themselves (counters,
  gauges, histograms) belong to \<open>prometheus_client\<close>; what this module does is declare an inventory
  and translate each recording helper into one call on one collector. The registry state is therefore
  the sequence of collector calls made so far, newest last.
\<close>

datatype metric_kind = Histogram | Gauge | Counter

record metric_def =
  md_name :: string
  md_kind :: metric_kind
  md_labels :: "string list"

datatype metric_op = Observe real | SetTo real | Inc real

record metric_call =
  mc_metric :: metric_def
  mc_labels :: "(string \<times> string) list"
  mc_op :: metric_op

type_synonym registry = "metric_call list"

definition metric :: "string \<Rightarrow> metric_kind \<Rightarrow> string list \<Rightarrow> metric_def" where
  "metric n k ls = \<lparr>md_name = n, md_kind = k, md_labels = ls\<rparr>"

section \<open>The inventory\<close>

definition ttft_ms_h :: metric_def where
  "ttft_ms_h = metric ''goodputlab_ttft_ms'' Histogram [''slo_class'']"
definition itl_ms_h :: metric_def where
  "itl_ms_h = metric ''goodputlab_itl_ms'' Histogram [''slo_class'']"
definition queue_depth_g :: metric_def where
  "queue_depth_g = metric ''goodputlab_queue_depth'' Gauge [''pool'']"
definition prefix_index_size_bytes_g :: metric_def where
  "prefix_index_size_bytes_g = metric ''goodputlab_prefix_index_size_bytes'' Gauge []"
definition kv_tier_hit_c :: metric_def where
  "kv_tier_hit_c = metric ''goodputlab_kv_tier_hit_total'' Counter [''tier'']"
definition kv_tier_miss_c :: metric_def where
  "kv_tier_miss_c = metric ''goodputlab_kv_tier_miss_total'' Counter [''tier'']"
definition spec_acceptance_c :: metric_def where
  "spec_acceptance_c = metric ''goodputlab_spec_acceptance_total'' Counter []"
definition spec_proposed_c :: metric_def where
  "spec_proposed_c = metric ''goodputlab_spec_proposed_total'' Counter []"
definition role_flip_c :: metric_def where
  "role_flip_c = metric ''goodputlab_role_flip_total'' Counter [''from'', ''to'']"
definition request_total_c :: metric_def where
  "request_total_c = metric ''goodputlab_request_total'' Counter [''status_code'']"
definition request_error_c :: metric_def where
  "request_error_c = metric ''goodputlab_request_error_total'' Counter [''error_class'']"
definition reconcile_gate_passes_c :: metric_def where
  "reconcile_gate_passes_c = metric ''goodputlab_reconcile_gate_passes_total'' Counter []"
definition no_history_c :: metric_def where
  "no_history_c = metric ''goodputlab_cache_no_history_total'' Counter []"
definition controller_thrash_c :: metric_def where
  "controller_thrash_c = metric ''goodputlab_controller_thrash_total'' Counter []"
definition role_flip_inflight_dropped_c :: metric_def where
  "role_flip_inflight_dropped_c = metric ''goodputlab_role_flip_inflight_dropped_total'' Counter []"

lemmas inventory_defs = metric_def ttft_ms_h_def itl_ms_h_def queue_depth_g_def
  prefix_index_size_bytes_g_def kv_tier_hit_c_def kv_tier_miss_c_def spec_acceptance_c_def
  spec_proposed_c_def role_flip_c_def request_total_c_def request_error_c_def
  reconcile_gate_passes_c_def no_history_c_def controller_thrash_c_def role_flip_inflight_dropped_c_def

text \<open>The collectors \<open>__init__\<close> registers, in its order.\<close>

definition MetricsRegistry :: "metric_def list" where
  "MetricsRegistry =
     [ttft_ms_h, itl_ms_h, queue_depth_g, prefix_index_size_bytes_g, kv_tier_hit_c, kv_tier_miss_c,
      spec_acceptance_c, spec_proposed_c, role_flip_c, request_total_c, request_error_c,
      reconcile_gate_passes_c, no_history_c, controller_thrash_c, role_flip_inflight_dropped_c]"

section \<open>Recording helpers\<close>

definition call :: "metric_def \<Rightarrow> (string \<times> string) list \<Rightarrow> metric_op \<Rightarrow> registry \<Rightarrow> registry" where
  "call m ls op reg = reg @ [\<lparr>mc_metric = m, mc_labels = ls, mc_op = op\<rparr>]"

definition observe_ttft :: "string \<Rightarrow> real \<Rightarrow> registry \<Rightarrow> registry" where
  "observe_ttft slo_class v = call ttft_ms_h [(''slo_class'', slo_class)] (Observe v)"

definition observe_itl :: "string \<Rightarrow> real \<Rightarrow> registry \<Rightarrow> registry" where
  "observe_itl slo_class v = call itl_ms_h [(''slo_class'', slo_class)] (Observe v)"

definition set_queue_depth :: "string \<Rightarrow> int \<Rightarrow> registry \<Rightarrow> registry" where
  "set_queue_depth pool depth = call queue_depth_g [(''pool'', pool)] (SetTo (real_of_int depth))"

definition set_prefix_index_size_bytes :: "real \<Rightarrow> registry \<Rightarrow> registry" where
  "set_prefix_index_size_bytes sz = call prefix_index_size_bytes_g [] (SetTo sz)"

definition inc_kv_hit :: "string \<Rightarrow> int \<Rightarrow> registry \<Rightarrow> registry" where
  "inc_kv_hit tier n = call kv_tier_hit_c [(''tier'', tier)] (Inc (real_of_int n))"

definition inc_kv_miss :: "string \<Rightarrow> int \<Rightarrow> registry \<Rightarrow> registry" where
  "inc_kv_miss tier n = call kv_tier_miss_c [(''tier'', tier)] (Inc (real_of_int n))"

definition inc_spec_accepted :: "int \<Rightarrow> registry \<Rightarrow> registry" where
  "inc_spec_accepted n = call spec_acceptance_c [] (Inc (real_of_int n))"

definition inc_spec_proposed :: "int \<Rightarrow> registry \<Rightarrow> registry" where
  "inc_spec_proposed n = call spec_proposed_c [] (Inc (real_of_int n))"

definition inc_role_flip :: "string \<Rightarrow> string \<Rightarrow> registry \<Rightarrow> registry" where
  "inc_role_flip from_role to_role = call role_flip_c [(''from'', from_role), (''to'', to_role)] (Inc 1)"

definition inc_request :: "int \<Rightarrow> registry \<Rightarrow> registry" where
  "inc_request status_code = call request_total_c [(''status_code'', int_str status_code)] (Inc 1)"

definition inc_request_error :: "string \<Rightarrow> registry \<Rightarrow> registry" where
  "inc_request_error error_class = call request_error_c [(''error_class'', error_class)] (Inc 1)"

definition inc_gate_pass :: "registry \<Rightarrow> registry" where
  "inc_gate_pass = call reconcile_gate_passes_c [] (Inc 1)"

definition inc_no_history :: "registry \<Rightarrow> registry" where
  "inc_no_history = call no_history_c [] (Inc 1)"

definition inc_controller_thrash :: "registry \<Rightarrow> registry" where
  "inc_controller_thrash = call controller_thrash_c [] (Inc 1)"

definition inc_inflight_dropped :: "int \<Rightarrow> registry \<Rightarrow> registry" where
  "inc_inflight_dropped n = call role_flip_inflight_dropped_c [] (Inc (real_of_int n))"

lemmas helper_defs = observe_ttft_def observe_itl_def set_queue_depth_def set_prefix_index_size_bytes_def
  inc_kv_hit_def inc_kv_miss_def inc_spec_accepted_def inc_spec_proposed_def inc_role_flip_def
  inc_request_def inc_request_error_def inc_gate_pass_def inc_no_history_def inc_controller_thrash_def
  inc_inflight_dropped_def

section \<open>Well-typed calls\<close>

text \<open>
  A call is well typed when it goes to a registered collector, names exactly that collector's labels
  and uses an operation of its kind: the promise the module makes in place of string metric names.
\<close>

fun op_fits :: "metric_kind \<Rightarrow> metric_op \<Rightarrow> bool" where
  "op_fits Histogram (Observe v) = True"
| "op_fits Gauge (SetTo v) = True"
| "op_fits Counter (Inc v) = True"
| "op_fits _ _ = False"

definition call_ok :: "metric_call \<Rightarrow> bool" where
  "call_ok c \<longleftrightarrow> mc_metric c \<in> set MetricsRegistry \<and> map fst (mc_labels c) = md_labels (mc_metric c) \<and>
     op_fits (md_kind (mc_metric c)) (mc_op c)"

definition registry_ok :: "registry \<Rightarrow> bool" where
  "registry_ok reg \<longleftrightarrow> (\<forall>c\<in>set reg. call_ok c)"

text \<open>What a counter has been incremented by so far, over all its labels.\<close>

definition inc_amount :: "metric_def \<Rightarrow> metric_call \<Rightarrow> real" where
  "inc_amount m c = (if mc_metric c = m then (case mc_op c of Inc v \<Rightarrow> v | _ \<Rightarrow> 0) else 0)"

definition counter_total :: "registry \<Rightarrow> metric_def \<Rightarrow> real" where
  "counter_total reg m = sum_list (map (inc_amount m) reg)"

lemma registry_ok_Nil [simp]: "registry_ok []"
  by (simp add: registry_ok_def)

lemma registry_ok_call:
  "registry_ok reg \<Longrightarrow> m \<in> set MetricsRegistry \<Longrightarrow> map fst ls = md_labels m \<Longrightarrow> op_fits (md_kind m) op
    \<Longrightarrow> registry_ok (call m ls op reg)"
  by (auto simp: registry_ok_def call_def call_ok_def)

lemma counter_total_call [simp]:
  "counter_total (call m ls op reg) m' =
     counter_total reg m' + (if m = m' then (case op of Inc v \<Rightarrow> v | _ \<Rightarrow> 0) else 0)"
  by (simp add: counter_total_def call_def inc_amount_def)

lemma counter_total_no_history [simp]:
  "counter_total (inc_no_history reg) m = counter_total reg m + (if m = no_history_c then 1 else 0)"
  by (simp add: inc_no_history_def)

lemma counter_total_thrash [simp]:
  "counter_total (inc_controller_thrash reg) m = counter_total reg m + (if m = controller_thrash_c then 1 else 0)"
  by (simp add: inc_controller_thrash_def)

lemma helpers_registry_ok:
  assumes "registry_ok reg"
  shows "registry_ok (observe_ttft s v reg)" "registry_ok (observe_itl s v reg)"
    "registry_ok (set_queue_depth p d reg)" "registry_ok (set_prefix_index_size_bytes v reg)"
    "registry_ok (inc_kv_hit t n reg)" "registry_ok (inc_kv_miss t n reg)"
    "registry_ok (inc_spec_accepted n reg)" "registry_ok (inc_spec_proposed n reg)"
    "registry_ok (inc_role_flip f u reg)" "registry_ok (inc_request k reg)"
    "registry_ok (inc_request_error e reg)" "registry_ok (inc_gate_pass reg)"
    "registry_ok (inc_no_history reg)" "registry_ok (inc_controller_thrash reg)"
    "registry_ok (inc_inflight_dropped n reg)"
  using assms unfolding helper_defs
  by (auto intro!: registry_ok_call simp: MetricsRegistry_def) (simp_all add: inventory_defs)

lemma inventory_names_distinct: "distinct (map md_name MetricsRegistry)"
  by (simp add: MetricsRegistry_def inventory_defs)

lemma registry_no_name_clash:
  assumes "registry_ok reg" "c \<in> set reg" "d \<in> set reg" "md_name (mc_metric c) = md_name (mc_metric d)"
  shows "mc_metric c = mc_metric d"
proof -
  have "mc_metric c \<in> set MetricsRegistry" "mc_metric d \<in> set MetricsRegistry"
    using assms(1-3) by (auto simp: registry_ok_def call_ok_def)
  then show ?thesis
    using inventory_names_distinct assms(4) by (metis distinct_map inj_onD)
qed

section \<open>The endpoint\<close>

text \<open>
  \<open>obs/server.py\<close>: the application over one registry answers \<open>GET /metrics\<close> with the exposition of that registry and
  \<open>GET /health\<close> with a constant. The rendering \<open>generate_latest\<close> and its content type belong to \<open>prometheus_client\<close>.
\<close>

datatype obs_response =
    Exposition string string
  | HealthOk "(string \<times> string) list"
  | NotFound

definition build_obs_app :: "(registry \<Rightarrow> string) \<Rightarrow> string \<Rightarrow> registry option \<Rightarrow> string \<Rightarrow> obs_response" where
  "build_obs_app generate_latest content_type reg path =
     (let registry = (case reg of None \<Rightarrow> [] | Some r \<Rightarrow> r)
      in if path = ''/metrics'' then Exposition (generate_latest registry) content_type
         else if path = ''/health'' then HealthOk [(''status'', ''ok'')]
         else NotFound)"

section \<open>Everything a program can record\<close>

inductive recorded :: "registry \<Rightarrow> bool" where
  fresh: "recorded []"
| ttft: "recorded r \<Longrightarrow> recorded (observe_ttft s v r)"
| itl: "recorded r \<Longrightarrow> recorded (observe_itl s v r)"
| depth: "recorded r \<Longrightarrow> recorded (set_queue_depth p d r)"
| index: "recorded r \<Longrightarrow> recorded (set_prefix_index_size_bytes v r)"
| hit: "recorded r \<Longrightarrow> recorded (inc_kv_hit t n r)"
| miss: "recorded r \<Longrightarrow> recorded (inc_kv_miss t n r)"
| accepted: "recorded r \<Longrightarrow> recorded (inc_spec_accepted n r)"
| proposed: "recorded r \<Longrightarrow> recorded (inc_spec_proposed n r)"
| flip: "recorded r \<Longrightarrow> recorded (inc_role_flip f u r)"
| request: "recorded r \<Longrightarrow> recorded (inc_request k r)"
| request_error: "recorded r \<Longrightarrow> recorded (inc_request_error e r)"
| gate_pass: "recorded r \<Longrightarrow> recorded (inc_gate_pass r)"
| no_history: "recorded r \<Longrightarrow> recorded (inc_no_history r)"
| thrash: "recorded r \<Longrightarrow> recorded (inc_controller_thrash r)"
| dropped: "recorded r \<Longrightarrow> recorded (inc_inflight_dropped n r)"

lemma recorded_ok: "recorded r \<Longrightarrow> registry_ok r"
  by (induction rule: recorded.induct) (simp_all add: helpers_registry_ok)

text \<open>
  C32: Recording is typed. Whatever helpers a program calls in whatever order, each call goes to a collector of the
  inventory, names exactly the labels it was declared with, uses an operation of its kind, and no two collectors
  share a name: \<open>prometheus_client\<close> never sees an unknown metric, a wrong label set or a gauge used as a counter.
\<close>

theorem recording_typed:
  assumes "recorded r" and "c \<in> set r"
  shows "mc_metric c \<in> set MetricsRegistry \<and> map fst (mc_labels c) = md_labels (mc_metric c) \<and>
    op_fits (md_kind (mc_metric c)) (mc_op c) \<and>
    (\<forall>d\<in>set r. md_name (mc_metric d) = md_name (mc_metric c) \<longrightarrow> mc_metric d = mc_metric c)"
  using recorded_ok [OF assms(1)] assms(2) registry_no_name_clash [of r]
  by (auto simp: registry_ok_def call_ok_def)

theorem recording_typed_witness:
  "map fst (mc_labels \<lparr>mc_metric = role_flip_c, mc_labels = [(''from'', ''prefill''), (''to'', ''decode'')], mc_op = Inc 1\<rparr>) = [''from'', ''to'']"
proof -
  let ?c = "\<lparr>mc_metric = role_flip_c, mc_labels = [(''from'', ''prefill''), (''to'', ''decode'')], mc_op = Inc 1\<rparr>"
  have r: "recorded (inc_role_flip ''prefill'' ''decode'' (observe_ttft ''batch'' 12 []))"
    by (intro recorded.intros)
  have "?c \<in> set (inc_role_flip ''prefill'' ''decode'' (observe_ttft ''batch'' 12 []))"
    by (simp add: inc_role_flip_def observe_ttft_def call_def)
  from recording_typed [OF r this] show ?thesis by (simp add: role_flip_c_def metric_def)
qed

end
