(* ===== verification/Pools.thy ===== *)
theory Pools
  imports Prelude
begin

text \<open>
  \<open>control/pool.py\<close>: the pool roles and the live snapshot of one pool. \<open>Pool\<close> is a \<open>StrEnum\<close>, so its
  members compare by their string value; the \<open>linorder\<close> instance is that comparison.
\<close>

datatype pool = PREFILL | DECODE | COLOCATED | TIER

fun pool_value :: "pool \<Rightarrow> string" where
  "pool_value PREFILL = ''prefill''"
| "pool_value DECODE = ''decode''"
| "pool_value COLOCATED = ''colocated''"
| "pool_value TIER = ''tier''"

lemma pool_value_inj [simp]: "pool_value p = pool_value q \<longleftrightarrow> p = q"
  by (cases p; cases q) simp_all

instantiation pool :: linorder
begin

definition less_eq_pool :: "pool \<Rightarrow> pool \<Rightarrow> bool" where
  "less_eq_pool p q \<longleftrightarrow> pool_value p \<le> pool_value q"

definition less_pool :: "pool \<Rightarrow> pool \<Rightarrow> bool" where
  "less_pool p q \<longleftrightarrow> pool_value p < pool_value q"

instance
  by standard (auto simp: less_eq_pool_def less_pool_def less_le)

end

fun pool_rank :: "pool \<Rightarrow> nat" where
  "pool_rank COLOCATED = 0"
| "pool_rank DECODE = 1"
| "pool_rank PREFILL = 2"
| "pool_rank TIER = 3"

lemma pool_le_rank: "p \<le> q \<longleftrightarrow> pool_rank p \<le> pool_rank q"
  by (cases p; cases q) (simp_all add: less_eq_pool_def less_char_def)

lemma pool_less_rank: "(p :: pool) < q \<longleftrightarrow> pool_rank p < pool_rank q"
  by (simp add: less_le_not_le pool_le_rank)

record pool_state =
  ps_pool :: pool
  ps_queue_depth :: int
  ps_capacity :: int
  ps_healthy :: bool

text \<open>The validation of the model class: \<open>queue_depth >= 0\<close> and \<open>capacity > 0\<close>.\<close>

definition PoolState :: "pool \<Rightarrow> int \<Rightarrow> int \<Rightarrow> bool \<Rightarrow> pool_state result" where
  "PoolState p depth cap h =
     (if 0 \<le> depth \<and> 0 < cap
      then Inr \<lparr>ps_pool = p, ps_queue_depth = depth, ps_capacity = cap, ps_healthy = h\<rparr>
      else Inl ValueError)"

definition headroom_used_pct :: "pool_state \<Rightarrow> real" where
  "headroom_used_pct s =
     (if ps_capacity s \<le> 0 then 100
      else real_of_int (ps_queue_depth s) / real_of_int (ps_capacity s) * 100)"

lemma headroom_used_pct_less:
  assumes "0 < ps_capacity s"
  shows "headroom_used_pct s < pct \<longleftrightarrow> real_of_int (ps_queue_depth s) * 100 < pct * real_of_int (ps_capacity s)"
  using assms by (simp add: headroom_used_pct_def field_simps)

lemma PoolState_valid:
  "PoolState p depth cap h = Inr s \<Longrightarrow>
     ps_pool s = p \<and> 0 \<le> ps_queue_depth s \<and> 0 < ps_capacity s \<and> 0 \<le> headroom_used_pct s"
  by (auto simp: PoolState_def headroom_used_pct_def split: if_splits)

end
