(* ===== verification/Pid.thy ===== *)
theory Pid
  imports Prelude
begin

text \<open>
  \<open>control/pid.py\<close>: the discrete-time PID controller with output clamping and anti-windup. The
  controller object is the record \<open>pid\<close>; \<open>update\<close> returns the output and the controller after it.
\<close>

record pid_gains =
  kp :: real
  ki :: real
  kd :: real

definition PidGains :: "real \<Rightarrow> real \<Rightarrow> real \<Rightarrow> pid_gains result" where
  "PidGains p i d = (if 0 \<le> i \<and> 0 \<le> d then Inr \<lparr>kp = p, ki = i, kd = d\<rparr> else Inl ValueError)"

record pid =
  gains :: pid_gains
  out_min :: real
  out_max :: real
  integral :: real
  prev_error :: "real option"

definition PidController :: "pid_gains \<Rightarrow> real \<Rightarrow> real \<Rightarrow> pid result" where
  "PidController g lo hi =
     (if lo \<ge> hi then Inl ValueError
      else Inr \<lparr>gains = g, out_min = lo, out_max = hi, integral = 0, prev_error = None\<rparr>)"

definition pid_reset :: "pid \<Rightarrow> pid" where
  "pid_reset c = c\<lparr>integral := 0, prev_error := None\<rparr>"

definition unclamped :: "pid \<Rightarrow> real \<Rightarrow> real \<Rightarrow> real" where
  "unclamped c error dt =
     (let p = kp (gains c) * error;
          i = ki (gains c) * (integral c + error * dt);
          d = (case prev_error c of None \<Rightarrow> 0 | Some e \<Rightarrow> kd (gains c) * (error - e) / dt)
      in p + i + d)"

definition pid_update :: "pid \<Rightarrow> real \<Rightarrow> real \<Rightarrow> (real \<times> pid) result" where
  "pid_update c error dt =
     (if dt \<le> 0 then Inl ValueError
      else let u = unclamped c error dt in
        if u > out_max c then Inr (out_max c, c\<lparr>prev_error := Some error\<rparr>)
        else if u < out_min c then Inr (out_min c, c\<lparr>prev_error := Some error\<rparr>)
        else Inr (u, c\<lparr>integral := integral c + error * dt, prev_error := Some error\<rparr>))"

text \<open>A sequence of updates at one \<open>dt\<close>; the outputs in order and the final controller.\<close>

fun pid_run :: "pid \<Rightarrow> real list \<Rightarrow> real \<Rightarrow> (real list \<times> pid) result" where
  "pid_run c [] dt = Inr ([], c)"
| "pid_run c (e # es) dt =
     rbind (pid_update c e dt) (\<lambda>(u, c'). rbind (pid_run c' es dt) (\<lambda>(us, c''). Inr (u # us, c'')))"

definition pid_ok :: "pid \<Rightarrow> bool" where
  "pid_ok c \<longleftrightarrow> out_min c < out_max c"

section \<open>One step\<close>

lemma pid_update_cases:
  assumes "pid_update c e dt = Inr (u, c')"
  obtains
    (high) "0 < dt" "unclamped c e dt > out_max c" "u = out_max c" "c' = c\<lparr>prev_error := Some e\<rparr>"
  | (low) "0 < dt" "unclamped c e dt \<le> out_max c" "unclamped c e dt < out_min c" "u = out_min c"
      "c' = c\<lparr>prev_error := Some e\<rparr>"
  | (linear) "0 < dt" "out_min c \<le> unclamped c e dt" "unclamped c e dt \<le> out_max c"
      "u = unclamped c e dt" "c' = c\<lparr>integral := integral c + e * dt, prev_error := Some e\<rparr>"
  using assms that by (auto simp: pid_update_def Let_def split: if_splits)

lemma pid_update_total: "0 < dt \<Longrightarrow> \<exists>u c'. pid_update c e dt = Inr (u, c')"
  by (auto simp: pid_update_def Let_def)

lemma pid_update_frame [frame]:
  assumes "pid_update c e dt = Inr (u, c')"
  shows "gains c' = gains c \<and> out_min c' = out_min c \<and> out_max c' = out_max c \<and> prev_error c' = Some e"
  using assms by (cases rule: pid_update_cases) auto

lemma pid_update_range:
  assumes "pid_update c e dt = Inr (u, c')" and "pid_ok c"
  shows "out_min c \<le> u \<and> u \<le> out_max c"
  using assms(2) by (cases rule: pid_update_cases [OF assms(1)]) (auto simp: pid_ok_def)

lemma pid_update_ok: "pid_update c e dt = Inr (u, c') \<Longrightarrow> pid_ok c \<Longrightarrow> pid_ok c'"
  using pid_update_frame [of c e dt u c'] by (simp add: pid_ok_def)

text \<open>Anti-windup: a saturated output leaves the integrator alone.\<close>

lemma pid_update_integral:
  assumes "pid_update c e dt = Inr (u, c')" and "pid_ok c"
  shows "integral c' =
    (if out_min c \<le> unclamped c e dt \<and> unclamped c e dt \<le> out_max c then integral c + e * dt else integral c)"
  using assms(2) by (cases rule: pid_update_cases [OF assms(1)]) (auto simp: pid_ok_def)

section \<open>The interface the autoscaler uses\<close>

text \<open>
  A controller with a fixed output range. The client lemma is the autoscaler's use of it: the output,
  normalised to \<open>[-1, 1]\<close> and scaled by the step size, never rounds outside \<open>[-step, step]\<close>.
\<close>

definition scaled_delta :: "real \<Rightarrow> real \<Rightarrow> real \<Rightarrow> int \<Rightarrow> int" where
  "scaled_delta raw lo hi step =
     (let span = hi - lo in
      if span \<le> 0 then 0
      else py_round (((raw - lo) / span * 2 - 1) * real_of_int step))"

lemma normalized_range:
  fixes raw lo hi :: real
  assumes "lo \<le> raw" "raw \<le> hi" "lo < hi"
  shows "\<bar>(raw - lo) / (hi - lo) * 2 - 1\<bar> \<le> 1"
proof -
  define z where "z = (raw - lo) / (hi - lo)"
  have "0 \<le> z" "z \<le> 1" using assms by (simp_all add: z_def divide_le_eq)
  then have "\<bar>z * 2 - 1\<bar> \<le> 1" by linarith
  then show ?thesis by (simp add: z_def)
qed

lemma scaled_delta_abs_le:
  assumes "lo \<le> raw" "raw \<le> hi" "0 \<le> step"
  shows "\<bar>scaled_delta raw lo hi step\<bar> \<le> step"
proof (cases "lo < hi")
  case False
  then show ?thesis using assms by (simp add: scaled_delta_def Let_def)
next
  case True
  let ?n = "(raw - lo) / (hi - lo) * 2 - 1"
  have "\<bar>?n * real_of_int step\<bar> \<le> 1 * \<bar>real_of_int step\<bar>"
    unfolding abs_mult using normalized_range [OF assms(1,2) True] by (rule mult_right_mono) simp
  then have "\<bar>?n * real_of_int step\<bar> \<le> real_of_int step" using assms(3) by simp
  then show ?thesis using True by (simp add: scaled_delta_def Let_def py_round_abs_le)
qed

locale controller =
  fixes upd :: "'c \<Rightarrow> real \<Rightarrow> real \<Rightarrow> (real \<times> 'c) result"
    and lo :: "'c \<Rightarrow> real"
    and hi :: "'c \<Rightarrow> real"
    and ok :: "'c \<Rightarrow> bool"
  assumes upd_range: "upd c e dt = Inr (u, c') \<Longrightarrow> ok c \<Longrightarrow> lo c \<le> u \<and> u \<le> hi c"
    and upd_ok: "upd c e dt = Inr (u, c') \<Longrightarrow> ok c \<Longrightarrow> ok c'"
    and upd_bounds: "upd c e dt = Inr (u, c') \<Longrightarrow> lo c' = lo c \<and> hi c' = hi c"
    and upd_total: "0 < dt \<Longrightarrow> \<exists>u c'. upd c e dt = Inr (u, c')"
    and upd_raises: "dt \<le> 0 \<Longrightarrow> upd c e dt = Inl ValueError"
begin

lemma delta_le_step:
  "upd c e dt = Inr (u, c') \<Longrightarrow> ok c \<Longrightarrow> 0 \<le> step \<Longrightarrow> \<bar>scaled_delta u (lo c') (hi c') step\<bar> \<le> step"
  using upd_range [of c e dt u c'] upd_bounds [of c e dt u c'] by (auto intro: scaled_delta_abs_le)

end

lemma pid_update_raises: "dt \<le> 0 \<Longrightarrow> pid_update c e dt = Inl ValueError"
  by (simp add: pid_update_def)

interpretation pid_ctl: controller pid_update out_min out_max pid_ok
proof unfold_locales
  fix c e dt u c'
  assume "pid_update c e dt = Inr (u, c')"
  then show "out_min c' = out_min c \<and> out_max c' = out_max c" by (simp add: pid_update_frame)
qed (rule pid_update_range pid_update_ok pid_update_total pid_update_raises; assumption)+

section \<open>Runs\<close>

lemma pid_run_frame:
  "pid_run c es dt = Inr (us, c') \<Longrightarrow> gains c' = gains c \<and> out_min c' = out_min c \<and> out_max c' = out_max c"
proof (induction es arbitrary: c us)
  case Nil
  then show ?case by simp
next
  case (Cons e es)
  then obtain u c1 us' where "pid_update c e dt = Inr (u, c1)" "pid_run c1 es dt = Inr (us', c')"
    by (auto simp: rbind_eq_Inr)
  with Cons.IH pid_update_frame show ?case by metis
qed

lemma pid_run_range:
  "pid_run c es dt = Inr (us, c') \<Longrightarrow> pid_ok c \<Longrightarrow> u \<in> set us \<Longrightarrow> out_min c \<le> u \<and> u \<le> out_max c"
proof (induction es arbitrary: c us)
  case Nil
  then show ?case by simp
next
  case (Cons e es)
  then obtain v c1 us' where step: "pid_update c e dt = Inr (v, c1)" and
    rest: "pid_run c1 es dt = Inr (us', c')" and us: "us = v # us'"
    by (auto simp: rbind_eq_Inr)
  show ?case
  proof (cases "u = v")
    case True
    then show ?thesis using pid_update_range step Cons.prems(2) by blast
  next
    case False
    then have "u \<in> set us'" using Cons.prems(3) us by simp
    then have "out_min c1 \<le> u \<and> u \<le> out_max c1"
      using Cons.IH rest pid_update_ok [OF step Cons.prems(2)] by blast
    then show ?thesis using pid_update_frame [OF step] by simp
  qed
qed

lemma pid_run_total: "0 < dt \<Longrightarrow> \<exists>us c'. pid_run c es dt = Inr (us, c')"
proof (induction es arbitrary: c)
  case Nil
  then show ?case by simp
next
  case (Cons e es)
  obtain u c1 where u: "pid_update c e dt = Inr (u, c1)" using pid_update_total [OF Cons.prems] by blast
  obtain us c2 where "pid_run c1 es dt = Inr (us, c2)" using Cons by blast
  then show ?case by (simp add: u)
qed

lemma pid_run_length: "pid_run c es dt = Inr (us, c') \<Longrightarrow> length us = length es"
  by (induction es arbitrary: c us) (auto simp: rbind_eq_Inr)

text \<open>
  The windup bound: whatever the errors are, as long as each stays within \<open>E\<close> in size, what the
  integrator contributes to the output never exceeds the clamp plus the proportional and derivative
  terms of one step. Without anti-windup the integral of a constant error grows without bound.
\<close>

definition windup_bound :: "pid \<Rightarrow> real \<Rightarrow> real \<Rightarrow> real" where
  "windup_bound c E dt =
     max \<bar>out_min c\<bar> \<bar>out_max c\<bar> + \<bar>kp (gains c)\<bar> * E + 2 * kd (gains c) * E / dt"

definition bounded_history :: "pid \<Rightarrow> real \<Rightarrow> real \<Rightarrow> bool" where
  "bounded_history c E dt \<longleftrightarrow>
     \<bar>ki (gains c) * integral c\<bar> \<le> windup_bound c E dt \<and>
     (case prev_error c of None \<Rightarrow> True | Some e \<Rightarrow> \<bar>e\<bar> \<le> E)"

lemma derivative_bound:
  fixes e e' E dt g :: real
  assumes "\<bar>e\<bar> \<le> E" "\<bar>e'\<bar> \<le> E" "0 < dt" "0 \<le> g"
  shows "\<bar>g * (e - e') / dt\<bar> \<le> 2 * g * E / dt"
proof -
  have "\<bar>e - e'\<bar> \<le> 2 * E" using assms(1,2) by linarith
  then have "g * \<bar>e - e'\<bar> \<le> g * (2 * E)" using assms(4) by (rule mult_left_mono)
  then have "\<bar>g * (e - e')\<bar> \<le> 2 * g * E" using assms(4) by (simp add: abs_mult mult.assoc mult.left_commute)
  then show ?thesis using assms(3) by (simp add: abs_divide divide_right_mono)
qed

lemma pid_update_bounded_history:
  assumes upd: "pid_update c e dt = Inr (u, c')"
    and hist: "bounded_history c E dt" and e: "\<bar>e\<bar> \<le> E" and kd: "0 \<le> kd (gains c)"
  shows "bounded_history c' E dt"
  using upd
proof (cases rule: pid_update_cases)
  case linear
  let ?d = "case prev_error c of None \<Rightarrow> 0 | Some e0 \<Rightarrow> kd (gains c) * (e - e0) / dt"
  have "0 \<le> 2 * kd (gains c) * E / dt" using linear(1) kd e by simp
  then have d: "\<bar>?d\<bar> \<le> 2 * kd (gains c) * E / dt"
    using hist derivative_bound [OF e _ linear(1) kd] by (auto simp: bounded_history_def split: option.splits)
  have p: "\<bar>kp (gains c) * e\<bar> \<le> \<bar>kp (gains c)\<bar> * E" using e by (simp add: abs_mult mult_left_mono)
  have "ki (gains c) * (integral c + e * dt) = u - kp (gains c) * e - ?d"
    using linear(4) by (simp add: unclamped_def Let_def)
  moreover have "\<bar>u\<bar> \<le> max \<bar>out_min c\<bar> \<bar>out_max c\<bar>" using linear(2,3,4) by linarith
  ultimately have "\<bar>ki (gains c) * (integral c + e * dt)\<bar> \<le> windup_bound c E dt"
    using d p unfolding windup_bound_def by linarith
  then show ?thesis using linear(5) e by (simp add: bounded_history_def windup_bound_def)
qed (use hist e in \<open>auto simp: bounded_history_def windup_bound_def\<close>)

lemma pid_run_bounded_history:
  assumes "pid_run c es dt = Inr (us, c')" "bounded_history c E dt" "\<forall>e\<in>set es. \<bar>e\<bar> \<le> E" "0 \<le> kd (gains c)"
  shows "bounded_history c' E dt"
  using assms
proof (induction es arbitrary: c us)
  case Nil
  then show ?case by simp
next
  case (Cons e es)
  then obtain u c1 us' where step: "pid_update c e dt = Inr (u, c1)" and rest: "pid_run c1 es dt = Inr (us', c')"
    by (auto simp: rbind_eq_Inr)
  have "bounded_history c1 E dt" using pid_update_bounded_history [OF step] Cons.prems by simp
  then show ?case using Cons.IH [OF rest] Cons.prems pid_update_frame [OF step] by simp
qed

lemma fresh_bounded_history:
  "integral c = 0 \<Longrightarrow> prev_error c = None \<Longrightarrow> 0 \<le> kd (gains c) \<Longrightarrow> 0 \<le> E \<Longrightarrow> 0 < dt \<Longrightarrow> bounded_history c E dt"
  by (simp add: bounded_history_def windup_bound_def)

lemma windup_bound_run: "pid_run c es dt = Inr (us, c') \<Longrightarrow> windup_bound c' E dt = windup_bound c E dt"
  using pid_run_frame [of c es dt us c'] by (simp add: windup_bound_def)

section \<open>Properties\<close>

text \<open>
  Outputs are always clamped. From a constructed controller, a run of updates at a positive \<open>dt\<close>
  never raises, returns one output per error, and every output lies between the two clamps.
\<close>

theorem pid_outputs_clamped:
  assumes "PidController g lo hi = Inr c" and "0 < dt"
  shows "\<exists>us c'. pid_run c es dt = Inr (us, c') \<and> length us = length es \<and> (\<forall>u\<in>set us. lo \<le> u \<and> u \<le> hi)"
proof -
  have c: "pid_ok c" "out_min c = lo" "out_max c = hi"
    using assms(1) by (auto simp: PidController_def pid_ok_def split: if_splits)
  obtain us c' where run: "pid_run c es dt = Inr (us, c')" using pid_run_total [OF assms(2)] by blast
  then show ?thesis using pid_run_range [OF run c(1)] pid_run_length [OF run] c by auto
qed

text \<open>
  C3: The integrator cannot wind up. From a constructed controller, after any run of errors of size at
  most \<open>E\<close>, the integral term is at most the larger clamp plus the proportional and derivative terms of
  one step, a bound that does not depend on the length of the run.
\<close>

theorem pid_integral_bounded:
  assumes "PidGains p i d = Inr g" and "PidController g lo hi = Inr c" and "0 < dt"
    and "pid_run c es dt = Inr (us, c')" and "\<forall>e\<in>set es. \<bar>e\<bar> \<le> E" and "0 \<le> E"
  shows "\<bar>i * integral c'\<bar> \<le> max \<bar>lo\<bar> \<bar>hi\<bar> + \<bar>p\<bar> * E + 2 * d * E / dt"
proof -
  have g: "kp g = p" "ki g = i" "kd g = d" "0 \<le> d" using assms(1) by (auto simp: PidGains_def split: if_splits)
  have c: "gains c = g" "out_min c = lo" "out_max c = hi" "integral c = 0" "prev_error c = None"
    using assms(2) by (auto simp: PidController_def split: if_splits)
  have "bounded_history c E dt" using fresh_bounded_history assms(3,6) c g by simp
  then have "bounded_history c' E dt" using pid_run_bounded_history [OF assms(4) _ assms(5)] c g by simp
  moreover have "gains c' = g" using pid_run_frame [OF assms(4)] c by simp
  ultimately show ?thesis
    using windup_bound_run [OF assms(4), of E] by (simp add: bounded_history_def windup_bound_def c g)
qed

text \<open>The controller of the live experiment under a constant error of 10: it saturates at once.\<close>

definition ex_pid :: pid where
  "ex_pid = \<lparr>gains = \<lparr>kp = 8 / 100, ki = 1 / 100, kd = 0\<rparr>, out_min = - 1, out_max = 1, integral = 0, prev_error = None\<rparr>"

lemma ex_pid_build: "PidGains (8 / 100) (1 / 100) 0 = Inr (gains ex_pid)"
  "PidController (gains ex_pid) (- 1) 1 = Inr ex_pid"
  by (simp_all add: PidGains_def PidController_def ex_pid_def)

lemma ex_pid_run: "pid_run ex_pid [5, 10] 2 = Inr ([1 / 2, 1], ex_pid\<lparr>integral := 10, prev_error := Some 10\<rparr>)"
  by (simp add: pid_update_def unclamped_def ex_pid_def)

theorem pid_outputs_clamped_witness:
  "\<exists>us c'. pid_run ex_pid [5, 10, 10] 2 = Inr (us, c') \<and> (\<forall>u\<in>set us. - 1 \<le> u \<and> u \<le> 1)"
  using pid_outputs_clamped [OF ex_pid_build(2), of 2 "[5, 10, 10]"] by auto

theorem pid_integral_bounded_witness: "\<bar>1 / 100 * (10 :: real)\<bar> \<le> 1 + 8 / 100 * 10"
  using pid_integral_bounded [OF ex_pid_build(1,2) _ ex_pid_run, where E = 10] by simp

end
