(* ===== verification/Autoscaler.thy ===== *)
theory Autoscaler
  imports Pools Pid Registry
begin

text \<open>
  \<open>control/autoscaler.py\<close>: one PID controller per pool, replica bounds, the drain protocol and the
  minimum dwell between flips. \<open>tick_pool\<close> is the body of the loop of \<open>tick\<close> for one pool, with every
  early \<open>continue\<close> a branch; \<open>tick\<close> runs it over the topology with one clock reading. The controllers
  of different pools are different objects.
\<close>

definition THRASH_WINDOW_S :: real where
  "THRASH_WINDOW_S = 240"

record pool_topology =
  pt_pool :: pool
  pt_replicas :: int
  pt_target_queue_depth :: int

definition PoolTopology :: "pool \<Rightarrow> int \<Rightarrow> int \<Rightarrow> pool_topology result" where
  "PoolTopology p replicas target =
     (if 0 \<le> replicas \<and> 0 \<le> target
      then Inr \<lparr>pt_pool = p, pt_replicas = replicas, pt_target_queue_depth = target\<rparr>
      else Inl ValueError)"

record autoscaler_decision =
  ad_pool :: pool
  ad_delta :: int
  ad_reason :: string
  ad_drained :: bool

definition AutoscalerDecision :: "pool \<Rightarrow> int \<Rightarrow> string \<Rightarrow> bool \<Rightarrow> autoscaler_decision" where
  "AutoscalerDecision p delta reason drained =
     \<lparr>ad_pool = p, ad_delta = delta, ad_reason = reason, ad_drained = drained\<rparr>"

record autoscaler =
  as_controllers :: "(pool, pid) odict"
  as_min :: int
  as_max :: int
  as_step :: int
  as_min_dwell_s :: real
  as_metrics :: "registry option"
  as_last_flip_ts :: "pool \<rightharpoonup> real"

definition PoolAutoscaler ::
  "(pool, pid) odict \<Rightarrow> int \<Rightarrow> int \<Rightarrow> int \<Rightarrow> real \<Rightarrow> registry option \<Rightarrow> autoscaler result" where
  "PoolAutoscaler controllers min_replicas max_replicas step_size min_dwell_s metrics =
     (if min_replicas < 0 then Inl ValueError
      else if max_replicas < min_replicas then Inl ValueError
      else if step_size < 1 then Inl ValueError
      else if min_dwell_s < 0 then Inl ValueError
      else Inr \<lparr>as_controllers = controllers, as_min = min_replicas, as_max = max_replicas,
                as_step = step_size, as_min_dwell_s = min_dwell_s, as_metrics = metrics,
                as_last_flip_ts = Map.empty\<rparr>)"

text \<open>Floor and ceiling of a proposed change of the replica count, in the order of the two checks.\<close>

definition clamp_delta :: "int \<Rightarrow> int \<Rightarrow> int \<Rightarrow> int \<Rightarrow> int" where
  "clamp_delta lo hi replicas delta0 =
     (let would_be = replicas + delta0;
          delta1 = (if would_be > hi then hi - replicas else delta0)
      in if would_be < lo then lo - replicas else delta1)"

definition within_window :: "real option \<Rightarrow> real \<Rightarrow> real \<Rightarrow> bool" where
  "within_window last_ts now w = (case last_ts of None \<Rightarrow> False | Some t \<Rightarrow> now - t < w)"

definition flip_reason :: "int \<Rightarrow> string" where
  "flip_reason delta = (if delta > 0 then ''queue_high'' else if delta < 0 then ''queue_low'' else ''stable'')"

definition note_flip :: "autoscaler \<Rightarrow> pool \<Rightarrow> real \<Rightarrow> autoscaler" where
  "note_flip s p now =
     (let m = (case as_metrics s of
                 None \<Rightarrow> None
               | Some reg \<Rightarrow>
                   Some (if within_window (as_last_flip_ts s p) now THRASH_WINDOW_S
                         then inc_controller_thrash reg else reg))
      in s\<lparr>as_metrics := m, as_last_flip_ts := (as_last_flip_ts s)(p \<mapsto> now)\<rparr>)"

definition opt_int :: "int option \<Rightarrow> int" where
  "opt_int v = (case v of None \<Rightarrow> 0 | Some n \<Rightarrow> n)"

definition proposed_delta :: "autoscaler \<Rightarrow> pool_topology \<Rightarrow> real \<Rightarrow> pid \<Rightarrow> int" where
  "proposed_delta s topo raw c =
     clamp_delta (as_min s) (as_max s) (pt_replicas topo)
       (scaled_delta raw (out_min c) (out_max c) (as_step s))"

definition tick_pool ::
  "autoscaler \<Rightarrow> real \<Rightarrow> (pool \<rightharpoonup> int) \<Rightarrow> (pool \<rightharpoonup> int) \<Rightarrow> real \<Rightarrow> pool \<Rightarrow> pool_topology \<Rightarrow>
   autoscaler \<times> autoscaler_decision result" where
  "tick_pool s now queue_depths in_flight dt p topo =
     (case od_get (as_controllers s) p of
        None \<Rightarrow> (s, Inr (AutoscalerDecision p 0 ''no_controller'' False))
      | Some c \<Rightarrow>
          (case pid_update c (real_of_int (opt_int (queue_depths p) - pt_target_queue_depth topo)) dt of
             Inl e \<Rightarrow> (s, Inl e)
           | Inr (raw, c') \<Rightarrow>
               let s1 = s\<lparr>as_controllers := od_set p c' (as_controllers s)\<rparr>;
                   delta = proposed_delta s topo raw c'
               in if delta < 0 \<and> opt_int (in_flight p) > 0
                  then (s1, Inr (AutoscalerDecision p 0 ''drain_wait'' False))
                  else if delta \<noteq> 0 \<and> as_min_dwell_s s > 0 \<and>
                          within_window (as_last_flip_ts s p) now (as_min_dwell_s s)
                  then (s1, Inr (AutoscalerDecision p 0 ''dwell_wait'' False))
                  else (if delta \<noteq> 0 then note_flip s1 p now else s1,
                        Inr (AutoscalerDecision p delta (flip_reason delta) (delta < 0)))))"

fun tick ::
  "autoscaler \<Rightarrow> real \<Rightarrow> (pool \<rightharpoonup> int) \<Rightarrow> (pool \<rightharpoonup> int) \<Rightarrow> real \<Rightarrow> (pool \<times> pool_topology) list \<Rightarrow>
   autoscaler \<times> autoscaler_decision list result" where
  "tick s now queue_depths in_flight dt [] = (s, Inr [])"
| "tick s now queue_depths in_flight dt ((p, topo) # topology) =
     (case tick_pool s now queue_depths in_flight dt p topo of
        (s', Inl e) \<Rightarrow> (s', Inl e)
      | (s', Inr d) \<Rightarrow>
          (case tick s' now queue_depths in_flight dt topology of
             (s'', Inl e) \<Rightarrow> (s'', Inl e)
           | (s'', Inr ds) \<Rightarrow> (s'', Inr (d # ds))))"

definition autoscaler_ok :: "autoscaler \<Rightarrow> bool" where
  "autoscaler_ok s \<longleftrightarrow> 0 \<le> as_min s \<and> as_min s \<le> as_max s \<and> 1 \<le> as_step s \<and> 0 \<le> as_min_dwell_s s \<and>
     (\<forall>p c. od_get (as_controllers s) p = Some c \<longrightarrow> pid_ok c)"

section \<open>One pool\<close>

lemma clamp_delta_range:
  "lo \<le> hi \<Longrightarrow> lo \<le> replicas + clamp_delta lo hi replicas d \<and> replicas + clamp_delta lo hi replicas d \<le> hi"
  by (auto simp: clamp_delta_def Let_def)

lemma clamp_delta_abs:
  "lo \<le> replicas \<Longrightarrow> replicas \<le> hi \<Longrightarrow> \<bar>clamp_delta lo hi replicas d\<bar> \<le> \<bar>d\<bar>"
  by (auto simp: clamp_delta_def Let_def)

lemma clamp_delta_id:
  "lo \<le> replicas + d \<Longrightarrow> replicas + d \<le> hi \<Longrightarrow> clamp_delta lo hi replicas d = d"
  by (simp add: clamp_delta_def Let_def)

text \<open>Every way the body of the loop can end.\<close>

lemma tick_pool_cases:
  assumes "tick_pool s now qd fl dt p topo = (s', r)"
  obtains
    (no_controller) "od_get (as_controllers s) p = None" "s' = s"
      "r = Inr (AutoscalerDecision p 0 ''no_controller'' False)"
  | (raises) c where "od_get (as_controllers s) p = Some c" "dt \<le> 0" "s' = s" "r = Inl ValueError"
  | (held) c raw c' why where
      "od_get (as_controllers s) p = Some c"
      "pid_update c (real_of_int (opt_int (qd p) - pt_target_queue_depth topo)) dt = Inr (raw, c')"
      "s' = s\<lparr>as_controllers := od_set p c' (as_controllers s)\<rparr>"
      "r = Inr (AutoscalerDecision p 0 why False)"
  | (emits) c raw c' delta s1 where
      "od_get (as_controllers s) p = Some c"
      "pid_update c (real_of_int (opt_int (qd p) - pt_target_queue_depth topo)) dt = Inr (raw, c')"
      "delta = proposed_delta s topo raw c'"
      "s1 = s\<lparr>as_controllers := od_set p c' (as_controllers s)\<rparr>"
      "delta < 0 \<Longrightarrow> opt_int (fl p) \<le> 0"
      "delta \<noteq> 0 \<Longrightarrow> 0 < as_min_dwell_s s \<Longrightarrow>
         \<not> within_window (as_last_flip_ts s p) now (as_min_dwell_s s)"
      "s' = (if delta \<noteq> 0 then note_flip s1 p now else s1)"
      "r = Inr (AutoscalerDecision p delta (flip_reason delta) (delta < 0))"
proof (cases "od_get (as_controllers s) p")
  case None
  then have "(s', r) = (s, Inr (AutoscalerDecision p 0 ''no_controller'' False))"
    using assms by (simp add: tick_pool_def)
  then show ?thesis using that(1) [OF None] by simp
next
  case (Some c)
  let ?e = "real_of_int (opt_int (qd p) - pt_target_queue_depth topo)"
  show ?thesis
  proof (cases "pid_update c ?e dt")
    case (Inl e)
    then have "dt \<le> 0" "e = ValueError" by (auto simp: pid_update_def Let_def split: if_splits)
    then have "(s', r) = (s, Inl ValueError)" using assms Some Inl by (simp add: tick_pool_def)
    then show ?thesis using that(2) [OF Some \<open>dt \<le> 0\<close>] by simp
  next
    case (Inr x)
    obtain raw c' where x: "x = (raw, c')" by force
    let ?d = "proposed_delta s topo raw c'"
    let ?s1 = "s\<lparr>as_controllers := od_set p c' (as_controllers s)\<rparr>"
    have eq: "(s', r) =
      (if ?d < 0 \<and> opt_int (fl p) > 0 then (?s1, Inr (AutoscalerDecision p 0 ''drain_wait'' False))
       else if ?d \<noteq> 0 \<and> as_min_dwell_s s > 0 \<and> within_window (as_last_flip_ts s p) now (as_min_dwell_s s)
       then (?s1, Inr (AutoscalerDecision p 0 ''dwell_wait'' False))
       else (if ?d \<noteq> 0 then note_flip ?s1 p now else ?s1,
             Inr (AutoscalerDecision p ?d (flip_reason ?d) (?d < 0))))"
      unfolding assms [symmetric] tick_pool_def Let_def Some option.case Inr x sum.case prod.case ..
    note held = that(3) [OF Some Inr [unfolded x]] and emits = that(4) [OF Some Inr [unfolded x] refl refl]
    show ?thesis
    proof (cases "?d < 0 \<and> opt_int (fl p) > 0")
      case True
      then show ?thesis using eq held by simp
    next
      case no_drain: False
      show ?thesis
      proof (cases "?d \<noteq> 0 \<and> as_min_dwell_s s > 0 \<and> within_window (as_last_flip_ts s p) now (as_min_dwell_s s)")
        case True
        then show ?thesis using eq held no_drain by (simp only: if_True if_False prod.inject simp_thms)
      next
        case False
        then have "(s', r) = (if ?d \<noteq> 0 then note_flip ?s1 p now else ?s1,
             Inr (AutoscalerDecision p ?d (flip_reason ?d) (?d < 0)))"
          using eq no_drain by (simp only: if_False)
        moreover have "?d < 0 \<Longrightarrow> opt_int (fl p) \<le> 0" using no_drain by linarith
        ultimately show ?thesis using emits False by blast
      qed
    qed
  qed
qed

lemma note_flip_frame [frame]:
  "as_controllers (note_flip s p now) = as_controllers s" "as_min (note_flip s p now) = as_min s"
  "as_max (note_flip s p now) = as_max s" "as_step (note_flip s p now) = as_step s"
  "as_min_dwell_s (note_flip s p now) = as_min_dwell_s s"
  "as_last_flip_ts (note_flip s p now) = (as_last_flip_ts s)(p \<mapsto> now)"
  by (simp_all add: note_flip_def Let_def)

lemma AutoscalerDecision_sel [simp]:
  "ad_pool (AutoscalerDecision p d r b) = p" "ad_delta (AutoscalerDecision p d r b) = d"
  "ad_reason (AutoscalerDecision p d r b) = r" "ad_drained (AutoscalerDecision p d r b) = b"
  by (simp_all add: AutoscalerDecision_def)

lemma tick_pool_frame [frame]:
  assumes "tick_pool s now qd fl dt p topo = (s', r)"
  shows "as_min s' = as_min s \<and> as_max s' = as_max s \<and> as_step s' = as_step s \<and>
    as_min_dwell_s s' = as_min_dwell_s s"
  using assms by (cases rule: tick_pool_cases) (simp_all add: note_flip_frame)

lemma tick_pool_ok:
  assumes one: "tick_pool s now qd fl dt p topo = (s', r)" and ok: "autoscaler_ok s"
  shows "autoscaler_ok s'"
proof -
  have keep: "autoscaler_ok s'"
    if "od_get (as_controllers s) p = Some c" "pid_update c e dt = Inr (raw, c')"
      "as_controllers s' = od_set p c' (as_controllers s)" for c e raw c'
  proof -
    have "pid_ok c'" using that(1,2) ok pid_ctl.upd_ok by (auto simp: autoscaler_ok_def)
    then show ?thesis using that(3) ok tick_pool_frame [OF one] by (simp add: autoscaler_ok_def)
  qed
  from one show ?thesis
  proof (cases rule: tick_pool_cases)
    case (held c raw c' why)
    show ?thesis by (rule keep [OF held(1,2)]) (simp add: held(3))
  next
    case (emits c raw c' delta s1)
    show ?thesis by (rule keep [OF emits(1,2)]) (simp add: emits(4,7) note_flip_frame)
  qed (simp_all add: ok)
qed

text \<open>The decision for one pool: what it promises about drain, bounds, dwell and bookkeeping.\<close>

lemma tick_pool_decision:
  assumes "tick_pool s now qd fl dt p topo = (s', Inr d)"
  shows "ad_pool d = p \<and> (ad_delta d < 0 \<longrightarrow> opt_int (fl p) \<le> 0) \<and> (ad_drained d \<longleftrightarrow> ad_delta d < 0) \<and>
    (ad_delta d \<noteq> 0 \<longrightarrow> 0 < as_min_dwell_s s \<longrightarrow>
       \<not> within_window (as_last_flip_ts s p) now (as_min_dwell_s s)) \<and>
    as_last_flip_ts s' = (if ad_delta d \<noteq> 0 then (as_last_flip_ts s)(p \<mapsto> now) else as_last_flip_ts s)"
  using assms by (cases rule: tick_pool_cases) (simp_all add: note_flip_frame)

lemma proposed_delta_bounds:
  assumes "pid_update c e dt = Inr (raw, c')" "pid_ok c" "0 \<le> as_step s" "as_min s \<le> as_max s"
    "as_min s \<le> pt_replicas topo" "pt_replicas topo \<le> as_max s"
  shows "as_min s \<le> pt_replicas topo + proposed_delta s topo raw c' \<and>
    pt_replicas topo + proposed_delta s topo raw c' \<le> as_max s \<and> \<bar>proposed_delta s topo raw c'\<bar> \<le> as_step s"
proof -
  have "\<bar>scaled_delta raw (out_min c') (out_max c') (as_step s)\<bar> \<le> as_step s"
    using pid_ctl.delta_le_step [OF assms(1,2,3)] .
  then have "\<bar>proposed_delta s topo raw c'\<bar> \<le> as_step s"
    unfolding proposed_delta_def using clamp_delta_abs [OF assms(5,6)] by (rule order_trans [rotated])
  then show ?thesis using clamp_delta_range [OF assms(4)] by (simp add: proposed_delta_def)
qed

lemma tick_pool_bounds:
  assumes one: "tick_pool s now qd fl dt p topo = (s', Inr d)" and ok: "autoscaler_ok s"
    and lo: "as_min s \<le> pt_replicas topo" and hi: "pt_replicas topo \<le> as_max s"
  shows "as_min s \<le> pt_replicas topo + ad_delta d \<and> pt_replicas topo + ad_delta d \<le> as_max s \<and>
         \<bar>ad_delta d\<bar> \<le> as_step s"
proof -
  have step: "0 \<le> as_step s" "as_min s \<le> as_max s" using ok by (simp_all add: autoscaler_ok_def)
  from one show ?thesis
  proof (cases rule: tick_pool_cases)
    case (emits c raw c' delta s1)
    have "pid_ok c" using emits(1) ok by (simp add: autoscaler_ok_def)
    from proposed_delta_bounds [OF emits(2) this step lo hi] emits(3,8) show ?thesis by simp
  qed (use lo hi step in simp_all)
qed

text \<open>The thrash alarm can only fire on two flips less than the window apart.\<close>

definition thrash_count :: "autoscaler \<Rightarrow> real" where
  "thrash_count s = (case as_metrics s of None \<Rightarrow> 0 | Some reg \<Rightarrow> counter_total reg controller_thrash_c)"

lemma note_flip_thrash:
  "\<not> within_window (as_last_flip_ts s p) now THRASH_WINDOW_S \<Longrightarrow> thrash_count (note_flip s p now) = thrash_count s"
  by (simp add: thrash_count_def note_flip_def Let_def split: option.splits)

lemma within_window_mono: "w \<le> w' \<Longrightarrow> within_window l now w \<Longrightarrow> within_window l now w'"
  by (auto simp: within_window_def split: option.splits)

lemma tick_pool_thrash:
  assumes "tick_pool s now qd fl dt p topo = (s', r)" "THRASH_WINDOW_S \<le> as_min_dwell_s s"
  shows "thrash_count s' = thrash_count s"
  using assms(1)
proof (cases rule: tick_pool_cases)
  case (emits c raw c' delta s1)
  have s1: "thrash_count s1 = thrash_count s" "as_last_flip_ts s1 = as_last_flip_ts s"
    using emits(4) by (simp_all add: thrash_count_def)
  have "0 < as_min_dwell_s s" using assms(2) by (simp add: THRASH_WINDOW_S_def)
  then have "\<not> within_window (as_last_flip_ts s1 p) now THRASH_WINDOW_S" if "delta \<noteq> 0"
    using emits(6) [OF that] within_window_mono [OF assms(2)] s1(2) by auto
  then show ?thesis using emits(7) s1(1) note_flip_thrash by simp
qed (simp_all add: thrash_count_def)

section \<open>One tick\<close>

lemma tick_Cons_Inr:
  assumes "tick s now qd fl dt ((p, topo) # ts) = (s', Inr ds)"
  obtains s1 d ds' where "tick_pool s now qd fl dt p topo = (s1, Inr d)"
    "tick s1 now qd fl dt ts = (s', Inr ds')" "ds = d # ds'"
  using assms by (auto split: prod.splits sum.splits)

lemma tick_frame:
  assumes "tick s now qd fl dt ts = (s', r)"
  shows "as_min s' = as_min s \<and> as_max s' = as_max s \<and> as_step s' = as_step s \<and> as_min_dwell_s s' = as_min_dwell_s s"
  using assms
proof (induction s now qd fl dt ts arbitrary: s' r rule: tick.induct)
  case (2 s now qd fl dt p topo ts)
  obtain s1 r1 where one: "tick_pool s now qd fl dt p topo = (s1, r1)" by force
  show ?case
  proof (cases r1)
    case (Inl e)
    with 2(2) one show ?thesis using tick_pool_frame [OF one] by simp
  next
    case (Inr d)
    obtain s2 r2 where rest: "tick s1 now qd fl dt ts = (s2, r2)" by force
    have "s' = s2" using 2(2) one Inr rest by (simp split: sum.splits)
    with 2(1) [OF one [symmetric] Inr rest] one Inr rest tick_pool_frame [OF one] show ?thesis by simp
  qed
qed auto

lemma tick_ok: "tick s now qd fl dt ts = (s', Inr ds) \<Longrightarrow> autoscaler_ok s \<Longrightarrow> autoscaler_ok s'"
proof (induction ts arbitrary: s ds)
  case Nil
  then show ?case by simp
next
  case (Cons pt ts)
  obtain p topo where "pt = (p, topo)" by force
  with Cons.prems(1) obtain s1 d ds' where "tick_pool s now qd fl dt p topo = (s1, Inr d)"
    "tick s1 now qd fl dt ts = (s', Inr ds')" by (metis tick_Cons_Inr)
  with Cons.IH Cons.prems(2) tick_pool_ok show ?case by blast
qed

text \<open>One decision per pool of the topology, in its order, each with the promises of its pool.\<close>

definition decision_safe :: "autoscaler \<Rightarrow> (pool \<rightharpoonup> int) \<Rightarrow> pool \<times> pool_topology \<Rightarrow> autoscaler_decision \<Rightarrow> bool" where
  "decision_safe s fl pt d \<longleftrightarrow>
     ad_pool d = fst pt \<and>
     (ad_delta d < 0 \<longrightarrow> opt_int (fl (fst pt)) \<le> 0) \<and> (ad_drained d \<longleftrightarrow> ad_delta d < 0) \<and>
     (as_min s \<le> pt_replicas (snd pt) \<and> pt_replicas (snd pt) \<le> as_max s \<longrightarrow>
        as_min s \<le> pt_replicas (snd pt) + ad_delta d \<and> pt_replicas (snd pt) + ad_delta d \<le> as_max s \<and>
        \<bar>ad_delta d\<bar> \<le> as_step s)"

lemma decision_safe_cong:
  "as_min s1 = as_min s \<Longrightarrow> as_max s1 = as_max s \<Longrightarrow> as_step s1 = as_step s \<Longrightarrow>
     decision_safe s1 fl = decision_safe s fl"
  by (simp add: decision_safe_def fun_eq_iff)

lemma tick_decisions_safe:
  "tick s now qd fl dt ts = (s', Inr ds) \<Longrightarrow> autoscaler_ok s \<Longrightarrow> list_all2 (decision_safe s fl) ts ds"
proof (induction ts arbitrary: s ds)
  case Nil
  then show ?case by simp
next
  case (Cons pt ts)
  obtain p topo where pt: "pt = (p, topo)" by force
  obtain s1 d ds' where one: "tick_pool s now qd fl dt p topo = (s1, Inr d)" and
    rest: "tick s1 now qd fl dt ts = (s', Inr ds')" and ds: "ds = d # ds'"
    by (rule tick_Cons_Inr [OF Cons.prems(1) [unfolded pt]])
  have "list_all2 (decision_safe s1 fl) ts ds'"
    using Cons.IH [OF rest] tick_pool_ok [OF one Cons.prems(2)] by simp
  then have "list_all2 (decision_safe s fl) ts ds'"
    using tick_pool_frame [OF one] decision_safe_cong [of s1 s fl] by simp
  moreover have "decision_safe s fl pt d"
    using tick_pool_decision [OF one] tick_pool_bounds [OF one Cons.prems(2)] by (simp add: decision_safe_def pt)
  ultimately show ?case by (simp add: ds)
qed

lemma tick_pool_total: "0 < dt \<Longrightarrow> \<exists>s' d. tick_pool s now qd fl dt p topo = (s', Inr d)"
  by (cases "tick_pool s now qd fl dt p topo") (auto elim!: tick_pool_cases)

lemma tick_total: "0 < dt \<Longrightarrow> \<exists>s' ds. tick s now qd fl dt ts = (s', Inr ds)"
proof (induction ts arbitrary: s)
  case Nil
  then show ?case by simp
next
  case (Cons pt ts)
  obtain p topo where pt: "pt = (p, topo)" by force
  obtain s1 d where one: "tick_pool s now qd fl dt p topo = (s1, Inr d)" using tick_pool_total [OF Cons.prems] by blast
  obtain s2 ds where "tick s1 now qd fl dt ts = (s2, Inr ds)" using Cons by blast
  with one pt show ?case by simp
qed

section \<open>Runs of ticks\<close>

text \<open>
  A run is a list of tick inputs, each with its clock reading; it stops at the first exception. The
  flips of a run are the decisions that change a replica count, with the time of their tick.
\<close>

record tick_input =
  ti_now :: real
  ti_topology :: "(pool \<times> pool_topology) list"
  ti_queue_depths :: "pool \<rightharpoonup> int"
  ti_in_flight :: "pool \<rightharpoonup> int"
  ti_dt :: real

definition flips_at :: "real \<Rightarrow> autoscaler_decision list \<Rightarrow> (pool \<times> real) list" where
  "flips_at now ds = map (\<lambda>d. (ad_pool d, now)) (filter (\<lambda>d. ad_delta d \<noteq> 0) ds)"

fun run_ticks :: "autoscaler \<Rightarrow> tick_input list \<Rightarrow> (autoscaler \<times> (pool \<times> real) list) result" where
  "run_ticks s [] = Inr (s, [])"
| "run_ticks s (i # ins) =
     (case tick s (ti_now i) (ti_queue_depths i) (ti_in_flight i) (ti_dt i) (ti_topology i) of
        (s', Inl e) \<Rightarrow> Inl e
      | (s', Inr ds) \<Rightarrow>
          rbind (run_ticks s' ins) (\<lambda>(s'', fs). Inr (s'', flips_at (ti_now i) ds @ fs)))"

text \<open>Flips that respect a minimum gap \<open>w\<close> per pool, starting from the last flip times \<open>m\<close>.\<close>

fun spaced :: "real \<Rightarrow> (pool \<rightharpoonup> real) \<Rightarrow> (pool \<times> real) list \<Rightarrow> bool" where
  "spaced w m [] = True"
| "spaced w m ((p, t) # fs) = (\<not> within_window (m p) t w \<and> spaced w (m(p \<mapsto> t)) fs)"

fun last_flips :: "(pool \<rightharpoonup> real) \<Rightarrow> (pool \<times> real) list \<Rightarrow> (pool \<rightharpoonup> real)" where
  "last_flips m [] = m"
| "last_flips m ((p, t) # fs) = last_flips (m(p \<mapsto> t)) fs"

lemma spaced_append: "spaced w m (fs @ gs) \<longleftrightarrow> spaced w m fs \<and> spaced w (last_flips m fs) gs"
  by (induction fs arbitrary: m) auto

lemma last_flips_append: "last_flips m (fs @ gs) = last_flips (last_flips m fs) gs"
  by (induction fs arbitrary: m) auto

lemma tick_spaced:
  "tick s now qd fl dt ts = (s', Inr ds) \<Longrightarrow> 0 < as_min_dwell_s s \<Longrightarrow>
     spaced (as_min_dwell_s s) (as_last_flip_ts s) (flips_at now ds) \<and>
     as_last_flip_ts s' = last_flips (as_last_flip_ts s) (flips_at now ds)"
proof (induction ts arbitrary: s ds)
  case Nil
  then show ?case by (simp add: flips_at_def)
next
  case (Cons pt ts)
  obtain p topo where pt: "pt = (p, topo)" by force
  obtain s1 d ds' where one: "tick_pool s now qd fl dt p topo = (s1, Inr d)" and
    rest: "tick s1 now qd fl dt ts = (s', Inr ds')" and ds: "ds = d # ds'"
    by (rule tick_Cons_Inr [OF Cons.prems(1) [unfolded pt]])
  show ?case
    using Cons.IH [OF rest] Cons.prems(2) tick_pool_decision [OF one] tick_pool_frame [OF one] ds
    by (auto simp: flips_at_def)
qed

lemma run_ticks_spaced:
  "run_ticks s ins = Inr (s', fs) \<Longrightarrow> 0 < as_min_dwell_s s \<Longrightarrow>
     spaced (as_min_dwell_s s) (as_last_flip_ts s) fs"
proof (induction ins arbitrary: s fs)
  case Nil
  then show ?case by simp
next
  case (Cons i ins')
  obtain s1 ds where one: "tick s (ti_now i) (ti_queue_depths i) (ti_in_flight i) (ti_dt i) (ti_topology i) = (s1, Inr ds)"
    using Cons.prems(1) by (auto split: prod.splits sum.splits)
  obtain fs' where rest: "run_ticks s1 ins' = Inr (s', fs')" and fs: "fs = flips_at (ti_now i) ds @ fs'"
    using Cons.prems(1) one by (auto simp: rbind_eq_Inr)
  show ?case
    using Cons.IH [OF rest] tick_spaced [OF one Cons.prems(2)] tick_frame [OF one] Cons.prems(2) fs
    by (simp add: spaced_append)
qed

definition flip_times :: "pool \<Rightarrow> (pool \<times> real) list \<Rightarrow> real list" where
  "flip_times p fs = map snd (filter (\<lambda>f. fst f = p) fs)"

lemma spaced_times:
  "spaced w m fs \<Longrightarrow> 0 \<le> w \<Longrightarrow>
     sorted_wrt (\<lambda>a b. a + w \<le> b) (flip_times p fs) \<and>
     (\<forall>t0. m p = Some t0 \<longrightarrow> (\<forall>t\<in>set (flip_times p fs). t0 + w \<le> t))"
proof (induction fs arbitrary: m)
  case Nil
  then show ?case by (simp add: flip_times_def)
next
  case (Cons f fs)
  obtain q t where f: "f = (q, t)" by force
  have gap: "\<not> within_window (m q) t w" "spaced w (m(q \<mapsto> t)) fs" using Cons.prems(1) f by auto
  have IH: "sorted_wrt (\<lambda>a b. a + w \<le> b) (flip_times p fs)"
    "\<And>t0 u. (m(q \<mapsto> t)) p = Some t0 \<Longrightarrow> u \<in> set (flip_times p fs) \<Longrightarrow> t0 + w \<le> u"
    using Cons.IH [OF gap(2) Cons.prems(2)] by auto
  show ?case
  proof (cases "q = p")
    case False
    then show ?thesis using IH f by (simp add: flip_times_def)
  next
    case True
    have first: "t0 + w \<le> t" if "m p = Some t0" for t0
      using gap(1) True that by (simp add: within_window_def)
    have later: "t + w \<le> u" if "u \<in> set (flip_times p fs)" for u using IH(2) True that by simp
    have "t0 + w \<le> u" if "m p = Some t0" "u \<in> set (flip_times p fs)" for t0 u
      using first [OF that(1)] later [OF that(2)] Cons.prems(2) by linarith
    with IH(1) first later True f show ?thesis by (auto simp: flip_times_def)
  qed
qed

lemma tick_thrash:
  "tick s now qd fl dt ts = (s', Inr ds) \<Longrightarrow> THRASH_WINDOW_S \<le> as_min_dwell_s s \<Longrightarrow>
     thrash_count s' = thrash_count s"
proof (induction ts arbitrary: s ds)
  case Nil
  then show ?case by simp
next
  case (Cons pt ts)
  obtain p topo where pt: "pt = (p, topo)" by force
  obtain s1 d ds' where one: "tick_pool s now qd fl dt p topo = (s1, Inr d)" and
    rest: "tick s1 now qd fl dt ts = (s', Inr ds')"
    by (rule tick_Cons_Inr [OF Cons.prems(1) [unfolded pt]])
  show ?case
    using Cons.IH [OF rest] Cons.prems(2) tick_pool_thrash [OF one] tick_pool_frame [OF one] by simp
qed

lemma run_ticks_thrash:
  "run_ticks s ins = Inr (s', fs) \<Longrightarrow> THRASH_WINDOW_S \<le> as_min_dwell_s s \<Longrightarrow> thrash_count s' = thrash_count s"
proof (induction ins arbitrary: s fs)
  case Nil
  then show ?case by simp
next
  case (Cons i ins')
  obtain s1 ds where one: "tick s (ti_now i) (ti_queue_depths i) (ti_in_flight i) (ti_dt i) (ti_topology i) = (s1, Inr ds)"
    using Cons.prems(1) by (auto split: prod.splits sum.splits)
  obtain fs' where rest: "run_ticks s1 ins' = Inr (s', fs')"
    using Cons.prems(1) one by (auto simp: rbind_eq_Inr)
  show ?case
    using Cons.IH [OF rest] tick_thrash [OF one Cons.prems(2)] tick_frame [OF one] Cons.prems(2) by simp
qed

section \<open>Properties\<close>

text \<open>
  C1: Every tick is safe. A tick with a positive \<open>dt\<close> of a well-formed autoscaler raises nothing and
  decides for each pool of the topology in order: no scale-down while requests are in flight, a change
  of at most \<open>step_size\<close>, and a replica count that stays within the bounds when it starts within them.
\<close>

theorem tick_safe:
  assumes "autoscaler_ok s" and "0 < dt"
  shows "\<exists>s' ds. tick s now queue_depths in_flight dt topology = (s', Inr ds) \<and> autoscaler_ok s' \<and>
    list_all2 (decision_safe s in_flight) topology ds"
proof -
  obtain s' ds where t: "tick s now queue_depths in_flight dt topology = (s', Inr ds)"
    using tick_total [OF assms(2)] by blast
  then show ?thesis using tick_ok [OF t assms(1)] tick_decisions_safe [OF t assms(1)] by blast
qed

text \<open>
  C4: The dwell separates flips. In any run of ticks of a new autoscaler with a positive dwell, any
  two changes of the replica count of one pool are at least \<open>min_dwell_s\<close> apart on the clock.
\<close>

theorem flips_respect_dwell:
  assumes "PoolAutoscaler controllers lo hi step dwell metrics = Inr s" and "0 < dwell"
    and "run_ticks s ticks = Inr (s', flips)"
  shows "sorted_wrt (\<lambda>a b. a + dwell \<le> b) (flip_times p flips)"
proof -
  have s: "as_min_dwell_s s = dwell" "as_last_flip_ts s = Map.empty"
    using assms(1) by (auto simp: PoolAutoscaler_def split: if_splits)
  then have "spaced dwell Map.empty flips" using run_ticks_spaced [OF assms(3)] assms(2) by simp
  then show ?thesis using spaced_times [of dwell Map.empty flips p] assms(2) by simp
qed

text \<open>
  The thrash alarm is silent under a long dwell. When the dwell is at least the thrash window of 240
  seconds, no run of ticks of a new autoscaler increments \<open>goodputlab_controller_thrash_total\<close>.
\<close>

theorem thrash_alarm_silent:
  assumes "PoolAutoscaler controllers lo hi step dwell (Some reg) = Inr s" and "THRASH_WINDOW_S \<le> dwell"
    and "run_ticks s ticks = Inr (s', flips)"
  shows "thrash_count s' = counter_total reg controller_thrash_c"
proof -
  have "as_min_dwell_s s = dwell" "thrash_count s = counter_total reg controller_thrash_c"
    using assms(1) by (auto simp: PoolAutoscaler_def thrash_count_def split: if_splits)
  then show ?thesis using run_ticks_thrash [OF assms(3)] assms(2) by simp
qed

section \<open>Examples\<close>

definition ex_scaler :: "real \<Rightarrow> autoscaler" where
  "ex_scaler dwell =
     \<lparr>as_controllers = [(DECODE, ex_pid)], as_min = 1, as_max = 8, as_step = 1, as_min_dwell_s = dwell,
      as_metrics = Some [], as_last_flip_ts = Map.empty\<rparr>"

definition ex_tick :: "real \<Rightarrow> int \<Rightarrow> tick_input" where
  "ex_tick now depth =
     \<lparr>ti_now = now, ti_topology = [(DECODE, \<lparr>pt_pool = DECODE, pt_replicas = 3, pt_target_queue_depth = 16\<rparr>)],
      ti_queue_depths = [DECODE \<mapsto> depth], ti_in_flight = Map.empty, ti_dt = 1\<rparr>"

lemma ex_scaler_build: "0 \<le> dwell \<Longrightarrow>
  PoolAutoscaler [(DECODE, ex_pid)] 1 8 1 dwell (Some []) = Inr (ex_scaler dwell)"
  by (simp add: PoolAutoscaler_def ex_scaler_def)

lemma ex_scaler_ok: "0 \<le> dwell \<Longrightarrow> autoscaler_ok (ex_scaler dwell)"
  by (simp add: autoscaler_ok_def ex_scaler_def pid_ok_def ex_pid_def)

lemmas tick_eval = tick_pool_def pid_update_def unclamped_def ex_pid_def opt_int_def proposed_delta_def
  scaled_delta_def clamp_delta_def within_window_def note_flip_def flip_reason_def AutoscalerDecision_def
  py_round_def flips_at_def

lemma ex_run: "\<exists>s'. run_ticks (ex_scaler 10) [ex_tick 0 99, ex_tick 5 99, ex_tick 12 99] =
   Inr (s', [(DECODE, 0), (DECODE, 12)])"
  by (simp add: ex_scaler_def ex_tick_def tick_eval Let_def)

lemma ex_run_slow: "\<exists>s'. run_ticks (ex_scaler 240) [ex_tick 0 99, ex_tick 100 99, ex_tick 250 99] =
   Inr (s', [(DECODE, 0), (DECODE, 250)])"
  by (simp add: ex_scaler_def ex_tick_def tick_eval Let_def)

theorem tick_safe_witness:
  "\<exists>s' ds. tick (ex_scaler 0) 0 [DECODE \<mapsto> 0] [DECODE \<mapsto> 2] 1 (ti_topology (ex_tick 0 0)) = (s', Inr ds) \<and>
     list_all2 (decision_safe (ex_scaler 0) [DECODE \<mapsto> 2]) (ti_topology (ex_tick 0 0)) ds"
  using tick_safe [OF ex_scaler_ok, of 0 1 0 "[DECODE \<mapsto> 0]" "[DECODE \<mapsto> 2]" "ti_topology (ex_tick 0 0)"] by auto

theorem flips_respect_dwell_witness: "sorted_wrt (\<lambda>a b. a + 10 \<le> b) [0, 12 :: real]"
proof -
  obtain s' where "run_ticks (ex_scaler 10) [ex_tick 0 99, ex_tick 5 99, ex_tick 12 99] =
     Inr (s', [(DECODE, 0), (DECODE, 12)])" using ex_run by blast
  from flips_respect_dwell [OF ex_scaler_build _ this, of DECODE] show ?thesis by (simp add: flip_times_def)
qed

theorem thrash_alarm_silent_witness: "\<exists>s'. thrash_count s' = 0 \<and>
   run_ticks (ex_scaler 240) [ex_tick 0 99, ex_tick 100 99, ex_tick 250 99] = Inr (s', [(DECODE, 0), (DECODE, 250)])"
proof -
  obtain s' where run: "run_ticks (ex_scaler 240) [ex_tick 0 99, ex_tick 100 99, ex_tick 250 99] =
     Inr (s', [(DECODE, 0), (DECODE, 250)])" using ex_run_slow by blast
  have "thrash_count s' = counter_total [] controller_thrash_c"
    by (rule thrash_alarm_silent [OF ex_scaler_build _ run]) (simp_all add: THRASH_WINDOW_S_def)
  then show ?thesis using run by (simp add: counter_total_def)
qed

end
