(* ===== verification/PromMetrics.thy ===== *)
theory PromMetrics
  imports PyText
begin

text \<open>
  \<open>core/metrics.py\<close>: the flat map of a Prometheus scrape and the vLLM totals read from it. The text
  parser is \<open>prometheus_client.parser\<close>, code outside the repository: it is the parameter \<open>families\<close>,
  the samples of all families in order (or the exception it raises).
\<close>

record sample =
  sm_name :: string
  sm_labels :: "(string \<times> string) list"
  sm_value :: real

type_synonym prom_parser = "string \<Rightarrow> sample list result"

definition VLLM_PROMPT_TOKENS_TOTAL :: string where
  "VLLM_PROMPT_TOKENS_TOTAL = ''vllm:prompt_tokens_total''"
definition VLLM_GENERATION_TOKENS_TOTAL :: string where
  "VLLM_GENERATION_TOKENS_TOTAL = ''vllm:generation_tokens_total''"
definition VLLM_REQUEST_SUCCESS_TOTAL :: string where
  "VLLM_REQUEST_SUCCESS_TOTAL = ''vllm:request_success_total''"
definition VLLM_E2E_REQUEST_LATENCY_SECONDS_SUM :: string where
  "VLLM_E2E_REQUEST_LATENCY_SECONDS_SUM = ''vllm:e2e_request_latency_seconds_sum''"
definition VLLM_E2E_REQUEST_LATENCY_SECONDS_COUNT :: string where
  "VLLM_E2E_REQUEST_LATENCY_SECONDS_COUNT = ''vllm:e2e_request_latency_seconds_count''"
definition VLLM_TTFT_SECONDS_SUM :: string where
  "VLLM_TTFT_SECONDS_SUM = ''vllm:time_to_first_token_seconds_sum''"
definition VLLM_TTFT_SECONDS_COUNT :: string where
  "VLLM_TTFT_SECONDS_COUNT = ''vllm:time_to_first_token_seconds_count''"

lemmas vllm_names = VLLM_PROMPT_TOKENS_TOTAL_def VLLM_GENERATION_TOKENS_TOTAL_def
  VLLM_REQUEST_SUCCESS_TOTAL_def VLLM_E2E_REQUEST_LATENCY_SECONDS_SUM_def
  VLLM_E2E_REQUEST_LATENCY_SECONDS_COUNT_def VLLM_TTFT_SECONDS_SUM_def VLLM_TTFT_SECONDS_COUNT_def

type_synonym scrape = "(string, real) odict"

text \<open>The flat key of a sample: its name, with the sorted labels in braces when there are any.\<close>

definition sample_key :: "sample \<Rightarrow> string" where
  "sample_key sm =
     (let label_key = joined '','' (map (\<lambda>(k, v). k @ ''='' @ v) (sort (sm_labels sm)))
      in if label_key \<noteq> [] then sm_name sm @ ''{'' @ label_key @ ''}'' else sm_name sm)"

definition collect_samples :: "sample list \<Rightarrow> scrape" where
  "collect_samples sms = foldl (\<lambda>out sm. od_set (sample_key sm) (sm_value sm) out) [] sms"

definition parse_prometheus :: "prom_parser \<Rightarrow> string \<Rightarrow> scrape result" where
  "parse_prometheus families text =
     (if text = [] \<or> py_strip text = [] then Inr []
      else rbind (families text) (\<lambda>sms. Inr (collect_samples sms)))"

text \<open>The sample lines of a body: stripped, without the empty ones and the comments.\<close>

definition metric_lines :: "string \<Rightarrow> string list" where
  "metric_lines text = filter (\<lambda>line. line \<noteq> [] \<and> \<not> py_startswith line ''#'') (map py_strip (py_splitlines text))"

definition key_matches :: "string \<Rightarrow> string \<Rightarrow> bool" where
  "key_matches name key \<longleftrightarrow> key = name \<or> py_startswith key (name @ ''{'')"

definition sum_matching :: "scrape \<Rightarrow> string \<Rightarrow> real" where
  "sum_matching parsed name =
     foldl (\<lambda>total (key, value). if key_matches name key then total + value else total) 0 parsed"

definition vllm_token_totals :: "scrape \<Rightarrow> real \<times> real" where
  "vllm_token_totals parsed =
     (sum_matching parsed VLLM_PROMPT_TOKENS_TOTAL, sum_matching parsed VLLM_GENERATION_TOKENS_TOTAL)"

definition vllm_request_counts :: "scrape \<Rightarrow> real \<times> real" where
  "vllm_request_counts parsed =
     (let total0 = sum_matching parsed VLLM_E2E_REQUEST_LATENCY_SECONDS_COUNT;
          total = (if total0 = 0 then sum_matching parsed VLLM_TTFT_SECONDS_COUNT else total0);
          success0 = sum_matching parsed VLLM_REQUEST_SUCCESS_TOTAL;
          success = (if success0 = 0 \<and> total > 0 then total else success0)
      in (success, total))"

definition vllm_mean_latency_s :: "scrape \<Rightarrow> real" where
  "vllm_mean_latency_s parsed =
     (let s = sum_matching parsed VLLM_E2E_REQUEST_LATENCY_SECONDS_SUM;
          c = sum_matching parsed VLLM_E2E_REQUEST_LATENCY_SECONDS_COUNT
      in if c \<le> 0 then 0 else s / c)"

definition vllm_mean_ttft_s :: "scrape \<Rightarrow> real" where
  "vllm_mean_ttft_s parsed =
     (let s = sum_matching parsed VLLM_TTFT_SECONDS_SUM;
          c = sum_matching parsed VLLM_TTFT_SECONDS_COUNT
      in if c \<le> 0 then 0 else s / c)"

section \<open>What the totals add up\<close>

lemma sum_matching_foldl:
  "foldl (\<lambda>total (key, value). if key_matches name key then total + value else total) a parsed
     = a + sum_list (map snd (filter (\<lambda>kv. key_matches name (fst kv)) parsed))"
  by (induction parsed arbitrary: a) (auto simp: add.assoc)

lemma sum_matching_sum:
  "sum_matching parsed name = sum_list (map snd (filter (\<lambda>kv. key_matches name (fst kv)) parsed))"
  by (simp add: sum_matching_def sum_matching_foldl)

lemma sum_matching_Nil [simp]: "sum_matching [] name = 0"
  by (simp add: sum_matching_def)

lemma sum_matching_Cons [simp]:
  "sum_matching ((k, v) # parsed) name = (if key_matches name k then v else 0) + sum_matching parsed name"
  by (simp add: sum_matching_sum)

text \<open>A sample's key matches its own metric name, whatever its labels are, and no name it does not start with.\<close>

lemma sample_key_matches [simp]: "key_matches (sm_name sm) (sample_key sm)"
  by (simp add: sample_key_def key_matches_def Let_def py_startswith_def)

lemma key_matches_no_brace:
  assumes "key_matches name (sample_key sm)" "CHR ''{'' \<notin> set name" "CHR ''{'' \<notin> set (sm_name sm)"
  shows "sm_name sm = name"
proof -
  have cut: "takeWhile (\<lambda>c. c \<noteq> CHR ''{'') (n @ CHR ''{'' # r) = n" if "CHR ''{'' \<notin> set n" for n r
    using that by (induction n) auto
  have whole: "takeWhile (\<lambda>c. c \<noteq> CHR ''{'') n = n" if "CHR ''{'' \<notin> set n" for n
    using that by (induction n) auto
  have key: "takeWhile (\<lambda>c. c \<noteq> CHR ''{'') (sample_key sm) = sm_name sm"
    using cut whole assms(3) by (simp add: sample_key_def Let_def)
  have "takeWhile (\<lambda>c. c \<noteq> CHR ''{'') (sample_key sm) = name"
  proof (cases "sample_key sm = name")
    case True
    then show ?thesis using whole assms(2) by simp
  next
    case False
    then have "take (length (name @ ''{'')) (sample_key sm) = name @ ''{''"
      using assms(1) by (simp add: key_matches_def py_startswith_def)
    then have "sample_key sm = name @ CHR ''{'' # drop (length (name @ ''{'')) (sample_key sm)"
      by (metis append.assoc append_Cons append_Nil append_take_drop_id)
    then show ?thesis using cut assms(2) by metis
  qed
  with key show ?thesis by simp
qed

lemma sum_matching_set:
  "od_get d k = None \<Longrightarrow> sum_matching (od_set k v d) name = sum_matching d name + (if key_matches name k then v else 0)"
  by (induction k v d rule: od_set.induct) (auto split: if_splits)

lemma sum_matching_nonneg: "\<forall>kv\<in>set parsed. 0 \<le> snd kv \<Longrightarrow> 0 \<le> sum_matching parsed name"
  by (auto simp: sum_matching_sum intro!: sum_list_nonneg)

lemma od_ok_collect: "od_ok (collect_samples sms)"
proof -
  have "od_ok (foldl (\<lambda>out sm. od_set (sample_key sm) (sm_value sm) out) d sms)" if "od_ok d" for d
    using that by (induction sms arbitrary: d) (auto intro: od_ok_set)
  then show ?thesis by (simp add: collect_samples_def od_ok_def)
qed

text \<open>With distinct keys, a total is the sum over the samples of that metric, across all label sets.\<close>

lemma sum_matching_collect:
  assumes "distinct (map sample_key sms)" "CHR ''{'' \<notin> set name"
    "\<forall>sm\<in>set sms. CHR ''{'' \<notin> set (sm_name sm)"
  shows "sum_matching (collect_samples sms) name = sum_list (map sm_value (filter (\<lambda>sm. sm_name sm = name) sms))"
proof -
  have gen: "sum_matching (foldl (\<lambda>out sm. od_set (sample_key sm) (sm_value sm) out) d sms) name =
      sum_matching d name + sum_list (map sm_value (filter (\<lambda>sm. sm_name sm = name) sms))"
    if "distinct (map sample_key sms)" "\<forall>sm\<in>set sms. CHR ''{'' \<notin> set (sm_name sm)"
      "\<forall>sm\<in>set sms. od_get d (sample_key sm) = None" for d
    using that
  proof (induction sms arbitrary: d)
    case Nil
    then show ?case by simp
  next
    case (Cons sm sms)
    let ?d = "od_set (sample_key sm) (sm_value sm) d"
    have m: "key_matches name (sample_key sm) \<longleftrightarrow> sm_name sm = name"
      using key_matches_no_brace [OF _ assms(2)] Cons.prems(2) by auto
    have "\<forall>s'\<in>set sms. od_get ?d (sample_key s') = None"
      using Cons.prems(1,3) by (auto simp: image_iff)
    then have "sum_matching (foldl (\<lambda>out sm. od_set (sample_key sm) (sm_value sm) out) ?d sms) name =
        sum_matching ?d name + sum_list (map sm_value (filter (\<lambda>sm. sm_name sm = name) sms))"
      using Cons.IH [of ?d] Cons.prems(1,2) by simp
    then show ?case using Cons.prems(3) m by (simp add: sum_matching_set)
  qed
  show ?thesis using gen [of "[]"] assms by (simp add: collect_samples_def)
qed

section \<open>Properties\<close>

text \<open>
  Token totals sum over label sets. When the scraped samples have distinct keys and no metric name
  contains a brace, the two token totals are the sums over exactly the samples of the two metrics, for
  every combination of labels.
\<close>

theorem token_totals_sum_labels:
  assumes "distinct (map sample_key sms)" and "\<forall>sm\<in>set sms. CHR ''{'' \<notin> set (sm_name sm)"
  shows "vllm_token_totals (collect_samples sms) =
    (sum_list (map sm_value (filter (\<lambda>sm. sm_name sm = VLLM_PROMPT_TOKENS_TOTAL) sms)),
     sum_list (map sm_value (filter (\<lambda>sm. sm_name sm = VLLM_GENERATION_TOKENS_TOTAL) sms)))"
  using sum_matching_collect [OF assms(1) _ assms(2)] by (simp add: vllm_token_totals_def vllm_names)

theorem token_totals_sum_labels_witness:
  "vllm_token_totals (collect_samples
     [\<lparr>sm_name = ''vllm:prompt_tokens_total'', sm_labels = [(''m'', ''a'')], sm_value = 3\<rparr>,
      \<lparr>sm_name = ''vllm:prompt_tokens_total'', sm_labels = [(''m'', ''b'')], sm_value = 4\<rparr>,
      \<lparr>sm_name = ''vllm:prompt_tokens_total_x'', sm_labels = [], sm_value = 9\<rparr>]) = (7, 0)"
  by (subst token_totals_sum_labels) (simp_all add: sample_key_def vllm_names)

text \<open>
  A success count of zero is not read as zero. When the server reports requests but no success, the
  request counts name every request a success: an explicit zero is treated as a missing metric.
\<close>

theorem zero_success_reads_as_all:
  assumes "sum_matching parsed VLLM_REQUEST_SUCCESS_TOTAL = 0"
    and "0 < sum_matching parsed VLLM_E2E_REQUEST_LATENCY_SECONDS_COUNT"
  shows "fst (vllm_request_counts parsed) = snd (vllm_request_counts parsed) \<and> 0 < fst (vllm_request_counts parsed)"
  using assms by (simp add: vllm_request_counts_def Let_def)

theorem zero_success_reads_as_all_witness:
  "fst (vllm_request_counts [(''vllm:request_success_total'', 0), (''vllm:e2e_request_latency_seconds_count'', 5)]) = 5"
  using zero_success_reads_as_all [of "[(''vllm:request_success_total'', 0), (''vllm:e2e_request_latency_seconds_count'', 5)]"]
  by (simp add: vllm_names key_matches_def py_startswith_def vllm_request_counts_def)

end
