(* ===== verification/AutoscalerLive.thy ===== *)
theory AutoscalerLive
  imports Autoscaler PromMetrics
begin

text \<open>
  \<open>scripts/autoscaler_live.py\<close>: the loop that drives \<open>PoolAutoscaler\<close> from the queue signal of a live
  server. One iteration of the tick loop is \<open>live_tick\<close>; what it observes of the outside (the clock and
  the scraped body) is its input. The traffic task of a phase and the files written are not modelled.
\<close>

definition VLLM_NUM_REQUESTS_WAITING :: string where
  "VLLM_NUM_REQUESTS_WAITING = ''vllm:num_requests_waiting''"
definition VLLM_NUM_REQUESTS_RUNNING :: string where
  "VLLM_NUM_REQUESTS_RUNNING = ''vllm:num_requests_running''"

definition queue_signal :: "prom_parser \<Rightarrow> string \<Rightarrow> (int \<times> int) result" where
  "queue_signal families metrics_text =
     rbind (parse_prometheus families metrics_text) (\<lambda>parsed.
       let waiting = sum_list (map snd (filter (\<lambda>kv. py_startswith (fst kv) VLLM_NUM_REQUESTS_WAITING) parsed));
           running = sum_list (map snd (filter (\<lambda>kv. py_startswith (fst kv) VLLM_NUM_REQUESTS_RUNNING) parsed))
       in Inr (py_int waiting, py_int running))"

definition build_autoscaler :: "real \<Rightarrow> autoscaler result" where
  "build_autoscaler min_dwell_s =
     rbind (PidGains (8 / 100) (1 / 100) 0) (\<lambda>g.
     rbind (PidController g (- 1) 1) (\<lambda>c.
       PoolAutoscaler [(COLOCATED, c)] 1 8 1 min_dwell_s None))"

record tick_rec =
  tk_ts :: real
  tk_phase :: string
  tk_waiting :: int
  tk_running :: int
  tk_replicas :: int
  tk_delta :: int
  tk_reason :: string

record live_state =
  lv_scaler :: autoscaler
  lv_replicas :: int
  lv_records :: "tick_rec list"
  lv_drain_violations :: nat
  lv_flips :: nat

text \<open>What one iteration observes: the phase, the autoscaler's clock, the scraped body, the wall clock.\<close>

record observation =
  ob_phase :: string
  ob_now :: real
  ob_body :: string
  ob_wall :: real

definition live_tick ::
  "prom_parser \<Rightarrow> real \<Rightarrow> int \<Rightarrow> live_state \<Rightarrow> observation \<Rightarrow> live_state result" where
  "live_tick families tick_s target_queue_depth st ob =
     rbind (queue_signal families (ob_body ob)) (\<lambda>(waiting, running).
     rbind (PoolTopology COLOCATED (lv_replicas st) target_queue_depth) (\<lambda>topo.
       case tick (lv_scaler st) (ob_now ob) [COLOCATED \<mapsto> waiting] [COLOCATED \<mapsto> running] tick_s
              [(COLOCATED, topo)] of
         (scaler, Inl e) \<Rightarrow> Inl e
       | (scaler, Inr []) \<Rightarrow> Inl IndexError
       | (scaler, Inr (d # _)) \<Rightarrow>
           let violations = lv_drain_violations st + (if ad_delta d < 0 \<and> running > 0 then 1 else 0);
               flips = lv_flips st + (if ad_delta d \<noteq> 0 then 1 else 0);
               replicas = (if ad_delta d \<noteq> 0 then max 1 (lv_replicas st + ad_delta d) else lv_replicas st)
           in Inr \<lparr>lv_scaler = scaler, lv_replicas = replicas,
                   lv_records = lv_records st @
                     [\<lparr>tk_ts = py_round_to 3 (ob_wall ob), tk_phase = ob_phase ob, tk_waiting = waiting, tk_running = running,
                       tk_replicas = replicas, tk_delta = ad_delta d, tk_reason = ad_reason d\<rparr>],
                   lv_drain_violations = violations, lv_flips = flips\<rparr>))"

fun live_loop ::
  "prom_parser \<Rightarrow> real \<Rightarrow> int \<Rightarrow> live_state \<Rightarrow> observation list \<Rightarrow> live_state result" where
  "live_loop families tick_s target st [] = Inr st"
| "live_loop families tick_s target st (ob # obs) =
     rbind (live_tick families tick_s target st ob) (\<lambda>st'. live_loop families tick_s target st' obs)"

record live_summary =
  ls_ticks :: nat
  ls_flips :: nat
  ls_flips_per_minute :: real
  ls_drain_violations :: nat
  ls_max_queue_waiting :: int

definition live_summarize :: "real \<Rightarrow> live_state \<Rightarrow> live_summary" where
  "live_summarize tick_s st =
     (let wall_s = real (length (lv_records st)) * tick_s
      in \<lparr>ls_ticks = length (lv_records st), ls_flips = lv_flips st,
          ls_flips_per_minute =
            (if wall_s \<noteq> 0 then py_round_to 3 (real (lv_flips st) / (wall_s / 60)) else 0),
          ls_drain_violations = lv_drain_violations st,
          ls_max_queue_waiting =
            (if lv_records st = [] then 0 else Max (set (map tk_waiting (lv_records st))))\<rparr>)"

definition run_experiment ::
  "prom_parser \<Rightarrow> real \<Rightarrow> int \<Rightarrow> real \<Rightarrow> observation list \<Rightarrow> (live_state \<times> live_summary) result" where
  "run_experiment families tick_s target_queue_depth min_dwell_s obs =
     rbind (build_autoscaler min_dwell_s) (\<lambda>scaler.
     rbind (live_loop families tick_s target_queue_depth
              \<lparr>lv_scaler = scaler, lv_replicas = 1, lv_records = [], lv_drain_violations = 0, lv_flips = 0\<rparr>
              obs) (\<lambda>st.
       Inr (st, live_summarize tick_s st)))"

text \<open>The exit code of \<open>main\<close> once the environment names a server.\<close>

definition live_exit_code :: "live_summary \<Rightarrow> int" where
  "live_exit_code s = (if ls_drain_violations s \<noteq> 0 then 1 else 0)"

section \<open>The interface the loop uses\<close>

text \<open>
  The loop relies on three promises of the scaler: a scale-down is never decided while requests are in
  flight, a decision keeps the replica count within the bounds, and a tick keeps the scaler usable.
\<close>

locale drain_scaler =
  fixes decide :: "'s \<Rightarrow> real \<Rightarrow> int \<Rightarrow> int \<Rightarrow> real \<Rightarrow> pool_topology \<Rightarrow> 's \<times> autoscaler_decision list result"
    and ok :: "int \<Rightarrow> int \<Rightarrow> 's \<Rightarrow> bool"
  assumes decide_one: "ok lo hi s \<Longrightarrow> decide s now waiting running dt topo = (s', Inr ds) \<Longrightarrow> \<exists>d. ds = [d]"
    and decide_ok: "ok lo hi s \<Longrightarrow> decide s now waiting running dt topo = (s', Inr ds) \<Longrightarrow> ok lo hi s'"
    and decide_drain: "ok lo hi s \<Longrightarrow> decide s now waiting running dt topo = (s', Inr [d]) \<Longrightarrow>
          ad_delta d < 0 \<Longrightarrow> running \<le> 0"
    and decide_bounds: "ok lo hi s \<Longrightarrow> decide s now waiting running dt topo = (s', Inr [d]) \<Longrightarrow>
          lo \<le> pt_replicas topo \<Longrightarrow> pt_replicas topo \<le> hi \<Longrightarrow>
          lo \<le> pt_replicas topo + ad_delta d \<and> pt_replicas topo + ad_delta d \<le> hi"
begin

lemma actuate:
  assumes "ok lo hi s" "decide s now waiting running dt topo = (s', Inr (d # ds))"
    "lo \<le> pt_replicas topo" "pt_replicas topo \<le> hi" "1 \<le> lo"
  shows "ok lo hi s' \<and> \<not> (ad_delta d < 0 \<and> running > 0) \<and>
    lo \<le> max 1 (pt_replicas topo + ad_delta d) \<and> max 1 (pt_replicas topo + ad_delta d) \<le> hi \<and>
    max 1 (pt_replicas topo + ad_delta d) = pt_replicas topo + ad_delta d"
proof -
  have one: "decide s now waiting running dt topo = (s', Inr [d])"
    using decide_one [OF assms(1,2)] assms(2) by simp
  have "\<not> (ad_delta d < 0 \<and> running > 0)" using decide_drain [OF assms(1) one] by linarith
  with decide_ok [OF assms(1) one] decide_bounds [OF assms(1) one assms(3,4)] assms(5) show ?thesis by auto
qed

end

definition one_pool_tick ::
  "autoscaler \<Rightarrow> real \<Rightarrow> int \<Rightarrow> int \<Rightarrow> real \<Rightarrow> pool_topology \<Rightarrow> autoscaler \<times> autoscaler_decision list result" where
  "one_pool_tick s now waiting running dt topo =
     tick s now [COLOCATED \<mapsto> waiting] [COLOCATED \<mapsto> running] dt [(COLOCATED, topo)]"

definition scaler_within :: "int \<Rightarrow> int \<Rightarrow> autoscaler \<Rightarrow> bool" where
  "scaler_within lo hi s \<longleftrightarrow> autoscaler_ok s \<and> as_min s = lo \<and> as_max s = hi"

lemma one_pool_tick_safe:
  assumes "scaler_within lo hi s" "one_pool_tick s now waiting running dt topo = (s', Inr ds)"
  shows "scaler_within lo hi s' \<and>
    (\<exists>d. ds = [d] \<and> decision_safe s [COLOCATED \<mapsto> running] (COLOCATED, topo) d)"
proof -
  note t = assms(2) [unfolded one_pool_tick_def]
  have ok: "autoscaler_ok s" using assms(1) by (simp add: scaler_within_def)
  have "list_all2 (decision_safe s [COLOCATED \<mapsto> running]) [(COLOCATED, topo)] ds"
    by (rule tick_decisions_safe [OF t ok])
  moreover have "scaler_within lo hi s'"
    using tick_ok [OF t ok] tick_frame [OF t] assms(1) by (simp add: scaler_within_def)
  ultimately show ?thesis by (auto simp: list_all2_Cons1)
qed

interpretation live: drain_scaler one_pool_tick scaler_within
proof unfold_locales
  fix lo hi s now waiting running dt topo s' ds
  assume "scaler_within lo hi s" "one_pool_tick s now waiting running dt topo = (s', Inr ds)"
  then show "\<exists>d. ds = [d]" "scaler_within lo hi s'" using one_pool_tick_safe by blast+
next
  fix lo hi s now waiting running dt topo s' d
  assume a: "scaler_within lo hi s" "one_pool_tick s now waiting running dt topo = (s', Inr [d])"
  have safe: "decision_safe s [COLOCATED \<mapsto> running] (COLOCATED, topo) d"
    using one_pool_tick_safe [OF a] by simp
  show "running \<le> 0" if "ad_delta d < 0" using safe that by (simp add: decision_safe_def opt_int_def)
  show "lo \<le> pt_replicas topo + ad_delta d \<and> pt_replicas topo + ad_delta d \<le> hi"
    if "lo \<le> pt_replicas topo" "pt_replicas topo \<le> hi"
    using safe that a(1) by (simp add: decision_safe_def scaler_within_def)
qed

section \<open>The loop invariant\<close>

text \<open>
  \<open>live_inv\<close>: the scaler is usable, the virtual replica count is within its bounds, no drain violation
  was counted, the flip counter is the number of records with a change, and each record's replica count
  is its predecessor's plus its decision.
\<close>

fun replica_chain :: "int \<Rightarrow> tick_rec list \<Rightarrow> int \<Rightarrow> bool" where
  "replica_chain r [] r' = (r' = r)"
| "replica_chain r (t # ts) r' = (tk_replicas t = r + tk_delta t \<and> replica_chain (tk_replicas t) ts r')"

definition live_inv :: "int \<Rightarrow> int \<Rightarrow> live_state \<Rightarrow> bool" where
  "live_inv lo hi st \<longleftrightarrow> scaler_within lo hi (lv_scaler st) \<and> lo \<le> lv_replicas st \<and> lv_replicas st \<le> hi \<and>
     lv_drain_violations st = 0 \<and>
     (\<forall>t\<in>set (lv_records st). lo \<le> tk_replicas t \<and> tk_replicas t \<le> hi \<and> (tk_delta t < 0 \<longrightarrow> tk_running t \<le> 0)) \<and>
     lv_flips st = length (filter (\<lambda>t. tk_delta t \<noteq> 0) (lv_records st)) \<and>
     replica_chain 1 (lv_records st) (lv_replicas st)"

lemma replica_chain_snoc:
  "replica_chain r (ts @ [t]) r' \<longleftrightarrow>
     (\<exists>r1. replica_chain r ts r1 \<and> tk_replicas t = r1 + tk_delta t \<and> r' = tk_replicas t)"
  by (induction ts arbitrary: r) auto

lemma live_tick_Inr:
  assumes "live_tick families tick_s target st ob = Inr st'"
  obtains waiting running topo scaler d ds replicas where
    "pt_replicas topo = lv_replicas st"
    "one_pool_tick (lv_scaler st) (ob_now ob) waiting running tick_s topo = (scaler, Inr (d # ds))"
    "replicas = (if ad_delta d \<noteq> 0 then max 1 (lv_replicas st + ad_delta d) else lv_replicas st)"
    "st' = \<lparr>lv_scaler = scaler, lv_replicas = replicas,
            lv_records = lv_records st @
              [\<lparr>tk_ts = py_round_to 3 (ob_wall ob), tk_phase = ob_phase ob, tk_waiting = waiting, tk_running = running,
                tk_replicas = replicas, tk_delta = ad_delta d, tk_reason = ad_reason d\<rparr>],
            lv_drain_violations = lv_drain_violations st + (if ad_delta d < 0 \<and> running > 0 then 1 else 0),
            lv_flips = lv_flips st + (if ad_delta d \<noteq> 0 then 1 else 0)\<rparr>"
proof -
  obtain waiting running topo where q: "queue_signal families (ob_body ob) = Inr (waiting, running)"
    and t: "PoolTopology COLOCATED (lv_replicas st) target = Inr topo"
    and rest: "(case one_pool_tick (lv_scaler st) (ob_now ob) waiting running tick_s topo of
         (scaler, Inl e) \<Rightarrow> Inl e
       | (scaler, Inr []) \<Rightarrow> Inl IndexError
       | (scaler, Inr (d # _)) \<Rightarrow>
           let violations = lv_drain_violations st + (if ad_delta d < 0 \<and> running > 0 then 1 else 0);
               flips = lv_flips st + (if ad_delta d \<noteq> 0 then 1 else 0);
               replicas = (if ad_delta d \<noteq> 0 then max 1 (lv_replicas st + ad_delta d) else lv_replicas st)
           in Inr \<lparr>lv_scaler = scaler, lv_replicas = replicas,
                   lv_records = lv_records st @
                     [\<lparr>tk_ts = py_round_to 3 (ob_wall ob), tk_phase = ob_phase ob, tk_waiting = waiting, tk_running = running,
                       tk_replicas = replicas, tk_delta = ad_delta d, tk_reason = ad_reason d\<rparr>],
                   lv_drain_violations = violations, lv_flips = flips\<rparr>) = Inr st'"
    using assms unfolding live_tick_def one_pool_tick_def by (auto elim!: rbind_InrE)
  obtain scaler r where p: "one_pool_tick (lv_scaler st) (ob_now ob) waiting running tick_s topo = (scaler, r)"
    by force
  from rest p obtain d ds where r: "r = Inr (d # ds)"
    by (cases r) (auto split: list.splits)
  have "pt_replicas topo = lv_replicas st" using t by (auto simp: PoolTopology_def split: if_splits)
  from that [OF this p [unfolded r] refl] rest p r show ?thesis by (simp add: Let_def)
qed

lemma live_tick_inv:
  assumes step: "live_tick families tick_s target st ob = Inr st'" and inv: "live_inv lo hi st" and lo: "1 \<le> lo"
  shows "live_inv lo hi st'"
  using step
proof (rule live_tick_Inr)
  fix waiting running topo scaler d ds replicas
  assume topo: "pt_replicas topo = lv_replicas st"
    and t: "one_pool_tick (lv_scaler st) (ob_now ob) waiting running tick_s topo = (scaler, Inr (d # ds))"
    and r: "replicas = (if ad_delta d \<noteq> 0 then max 1 (lv_replicas st + ad_delta d) else lv_replicas st)"
    and st': "st' = \<lparr>lv_scaler = scaler, lv_replicas = replicas,
            lv_records = lv_records st @
              [\<lparr>tk_ts = py_round_to 3 (ob_wall ob), tk_phase = ob_phase ob, tk_waiting = waiting, tk_running = running,
                tk_replicas = replicas, tk_delta = ad_delta d, tk_reason = ad_reason d\<rparr>],
            lv_drain_violations = lv_drain_violations st + (if ad_delta d < 0 \<and> running > 0 then 1 else 0),
            lv_flips = lv_flips st + (if ad_delta d \<noteq> 0 then 1 else 0)\<rparr>"
  have s: "scaler_within lo hi (lv_scaler st)" "lo \<le> pt_replicas topo" "pt_replicas topo \<le> hi"
    using inv topo by (simp_all add: live_inv_def)
  note a = live.actuate [OF s(1) t s(2,3) lo]
  have rep: "replicas = lv_replicas st + ad_delta d" "lo \<le> replicas" "replicas \<le> hi"
    using a r topo by auto
  have drain: "ad_delta d < 0 \<Longrightarrow> running \<le> 0" using a by linarith
  have chain: "replica_chain 1 (lv_records st') (lv_replicas st')"
    using inv rep(1) by (auto simp: st' replica_chain_snoc live_inv_def)
  show ?thesis
    unfolding live_inv_def using inv a rep drain chain by (auto simp: st' live_inv_def)
qed

lemma live_loop_inv:
  "live_loop families tick_s target st obs = Inr st' \<Longrightarrow> live_inv lo hi st \<Longrightarrow> 1 \<le> lo \<Longrightarrow> live_inv lo hi st'"
proof (induction obs arbitrary: st)
  case Nil
  then show ?case by simp
next
  case (Cons ob obs)
  then obtain st1 where "live_tick families tick_s target st ob = Inr st1"
    "live_loop families tick_s target st1 obs = Inr st'" by (auto simp: rbind_eq_Inr)
  with Cons live_tick_inv show ?case by blast
qed

lemma build_autoscaler_within: "build_autoscaler dwell = Inr s \<Longrightarrow> scaler_within 1 8 s"
  by (auto simp: build_autoscaler_def PidGains_def PidController_def PoolAutoscaler_def scaler_within_def
      autoscaler_ok_def pid_ok_def split: if_splits)

lemma run_experiment_inv:
  assumes "run_experiment families tick_s target dwell obs = Inr (st, summary)"
  shows "live_inv 1 8 st \<and> summary = live_summarize tick_s st"
proof -
  obtain s where b: "build_autoscaler dwell = Inr s" and
    l: "live_loop families tick_s target
      \<lparr>lv_scaler = s, lv_replicas = 1, lv_records = [], lv_drain_violations = 0, lv_flips = 0\<rparr> obs = Inr st" and
    sm: "summary = live_summarize tick_s st"
    using assms by (auto simp: run_experiment_def rbind_eq_Inr)
  have "live_inv 1 8 \<lparr>lv_scaler = s, lv_replicas = 1, lv_records = [], lv_drain_violations = 0, lv_flips = 0\<rparr>"
    using build_autoscaler_within [OF b] by (simp add: live_inv_def)
  from live_loop_inv [OF l this] sm show ?thesis by simp
qed

section \<open>Properties\<close>

text \<open>
  The live experiment never violates the drain protocol. Whatever the scraped bodies and clocks are,
  an experiment that completes counts no drain violation and exits with 0; its virtual replica count
  stays between 1 and 8, follows the recorded decisions, and the flips counted are the records with one.
\<close>

theorem experiment_drains:
  assumes "run_experiment families tick_s target dwell obs = Inr (st, summary)"
  shows "ls_drain_violations summary = 0 \<and> live_exit_code summary = 0 \<and>
    (\<forall>t\<in>set (lv_records st). 1 \<le> tk_replicas t \<and> tk_replicas t \<le> 8 \<and> (tk_delta t < 0 \<longrightarrow> tk_running t \<le> 0)) \<and>
    replica_chain 1 (lv_records st) (lv_replicas st) \<and>
    ls_flips summary = length (filter (\<lambda>t. tk_delta t \<noteq> 0) (lv_records st))"
  using run_experiment_inv [OF assms] by (simp add: live_inv_def live_summarize_def live_exit_code_def Let_def)

text \<open>
  A failing tick loses the experiment. When the scrape of any tick cannot be parsed, the run raises
  and returns no records at all, whatever the ticks before it recorded.
\<close>

theorem failing_tick_loses_records:
  assumes "families body = Inl e" and "py_strip body \<noteq> []"
  shows "\<exists>e'. run_experiment families tick_s target dwell
    (obs @ [\<lparr>ob_phase = ph, ob_now = now, ob_body = body, ob_wall = w\<rparr>]) = Inl e'"
proof -
  let ?bad = "\<lparr>ob_phase = ph, ob_now = now, ob_body = body, ob_wall = w\<rparr>"
  have "body \<noteq> []" using assms(2) by (auto simp: py_strip_def)
  then have bad: "live_tick families tick_s target st ?bad = Inl e" for st
    using assms by (simp add: live_tick_def queue_signal_def parse_prometheus_def)
  have loop: "\<exists>e'. live_loop families tick_s target st (obs @ [?bad]) = Inl e'" for st
  proof (induction obs arbitrary: st)
    case Nil
    then show ?case by (simp add: bad)
  next
    case (Cons ob obs)
    then show ?case by (cases "live_tick families tick_s target st ob") simp_all
  qed
  show ?thesis
  proof (cases "build_autoscaler dwell")
    case (Inl e')
    then show ?thesis by (simp add: run_experiment_def)
  next
    case (Inr s)
    obtain e' where "live_loop families tick_s target
        \<lparr>lv_scaler = s, lv_replicas = 1, lv_records = [], lv_drain_violations = 0, lv_flips = 0\<rparr> (obs @ [?bad]) = Inl e'"
      using loop by blast
    with Inr show ?thesis by (simp add: run_experiment_def)
  qed
qed

text \<open>A parser that reads a body of \<open>n\<close> characters as \<open>n\<close> waiting requests and fails on \<open>''!''\<close>.\<close>

definition ex_families :: prom_parser where
  "ex_families body =
     (if body = ''!'' then Inl ValueError
      else Inr [\<lparr>sm_name = ''vllm:num_requests_waiting'', sm_labels = [], sm_value = real (length body)\<rparr>])"

definition ex_obs :: "string \<Rightarrow> observation" where
  "ex_obs body = \<lparr>ob_phase = ''p'', ob_now = 0, ob_body = body, ob_wall = 0\<rparr>"

lemma ex_experiment: "\<exists>r. run_experiment ex_families 2 4 10 [ex_obs ''waiting''] = Inr r"
proof -
  obtain s where s: "build_autoscaler 10 = Inr s"
    by (auto simp: build_autoscaler_def PidGains_def PidController_def PoolAutoscaler_def)
  have strip: "py_strip ''waiting'' \<noteq> []"
    by (simp add: py_strip_def is_space_def)
  have q: "\<exists>n. queue_signal ex_families ''waiting'' = Inr n"
    using strip by (auto simp: queue_signal_def parse_prometheus_def ex_families_def)
  obtain topo where topo: "PoolTopology COLOCATED 1 4 = Inr topo" by (simp add: PoolTopology_def)
  have "\<exists>st'. live_tick ex_families 2 4 \<lparr>lv_scaler = s, lv_replicas = 1, lv_records = [], lv_drain_violations = 0, lv_flips = 0\<rparr>
      (ex_obs ''waiting'') = Inr st'"
  proof -
    obtain w r where wr: "queue_signal ex_families ''waiting'' = Inr (w, r)" using q by auto
    obtain s' ds where t: "one_pool_tick s 0 w r 2 topo = (s', Inr ds)"
      using tick_total [of 2 s 0 "[COLOCATED \<mapsto> w]" "[COLOCATED \<mapsto> r]" "[(COLOCATED, topo)]"]
      by (auto simp: one_pool_tick_def)
    obtain d where "ds = [d]" using live.decide_one [OF build_autoscaler_within [OF s] t] by blast
    then show ?thesis using wr t topo
      by (simp add: live_tick_def ex_obs_def one_pool_tick_def Let_def del: tick.simps)
  qed
  then show ?thesis using s by (auto simp: run_experiment_def)
qed

theorem experiment_drains_witness:
  "\<exists>st summary. run_experiment ex_families 2 4 10 [ex_obs ''waiting''] = Inr (st, summary) \<and>
     live_exit_code summary = 0"
proof -
  obtain r where r: "run_experiment ex_families 2 4 10 [ex_obs ''waiting''] = Inr r"
    using ex_experiment by blast
  obtain st summary where p: "r = (st, summary)" by force
  from experiment_drains [OF r [unfolded p]] r p show ?thesis by blast
qed

theorem failing_tick_loses_records_witness:
  "\<exists>e. run_experiment ex_families 2 4 10 [ex_obs ''xx'', ex_obs ''!''] = Inl e"
proof -
  have "ex_families ''!'' = Inl ValueError" "py_strip ''!'' \<noteq> []"
    by (simp_all add: ex_families_def py_strip_def is_space_def)
  note bad = this
  from failing_tick_loses_records [of ex_families "''!''" ValueError, OF bad, where obs = "[ex_obs ''xx'']" and ph = "''p''" and now = 0 and w = 0]
  show ?thesis by (simp only: ex_obs_def append_Cons append_Nil)
qed

end
