(* ===== verification/Trace.thy ===== *)
theory Trace
  imports PyText
begin

text \<open>
  \<open>core/trace.py\<close>: the request, telemetry, arrival and trace models every other component shares. A
  model class is a record; its constructor is a function of the same name that performs the field
  checks and validators and raises \<open>ValueError\<close> (pydantic's \<open>ValidationError\<close> is one) otherwise.
\<close>

datatype workload_type = CHAT | RAG | AGENTIC
datatype slo_class = INTERACTIVE | BATCH

fun workload_value :: "workload_type \<Rightarrow> string" where
  "workload_value CHAT = ''chat''"
| "workload_value RAG = ''rag''"
| "workload_value AGENTIC = ''agentic''"

fun slo_value :: "slo_class \<Rightarrow> string" where
  "slo_value INTERACTIVE = ''interactive''"
| "slo_value BATCH = ''batch''"

record request_spec =
  rq_id :: string
  rq_slo_class :: slo_class
  rq_workload :: workload_type
  rq_prompt_tokens :: int
  rq_output_tokens :: int
  rq_prompt_text :: string

definition RequestSpec ::
  "string \<Rightarrow> slo_class \<Rightarrow> workload_type \<Rightarrow> int \<Rightarrow> int \<Rightarrow> string \<Rightarrow> request_spec result" where
  "RequestSpec rid slo wl prompt_tokens output_tokens text =
     (if 1 \<le> prompt_tokens \<and> prompt_tokens \<le> 200000 \<and> 1 \<le> output_tokens \<and> output_tokens \<le> 16000 \<and>
         py_strip rid \<noteq> []
      then Inr \<lparr>rq_id = rid, rq_slo_class = slo, rq_workload = wl, rq_prompt_tokens = prompt_tokens,
                rq_output_tokens = output_tokens, rq_prompt_text = text\<rparr>
      else Inl ValueError)"

lemma RequestSpec_Inr:
  "RequestSpec rid slo wl pt ot text = Inr r \<Longrightarrow>
     rq_id r = rid \<and> rq_slo_class r = slo \<and> rq_workload r = wl \<and> rq_prompt_tokens r = pt \<and>
     rq_output_tokens r = ot \<and> rq_prompt_text r = text \<and> 1 \<le> pt \<and> pt \<le> 200000 \<and> 1 \<le> ot \<and> ot \<le> 16000"
  by (auto simp: RequestSpec_def split: if_splits)

record request_telemetry =
  tl_request_id :: string
  tl_prompt_tokens :: int
  tl_enqueue_ts_ns :: int
  tl_ttft_ms :: "real option"
  tl_per_token_ts_ns :: "int list"
  tl_completion_ts_ns :: "int option"
  tl_status_code :: int
  tl_error :: "string option"
  tl_routed_pool :: "string option"

text \<open>The validator's loop over the token timestamps, with the previous one or \<open>None\<close>.\<close>

fun per_token_monotonic :: "int option \<Rightarrow> int list \<Rightarrow> bool" where
  "per_token_monotonic prev [] = True"
| "per_token_monotonic prev (cur # v) =
     (case prev of
        Some p \<Rightarrow> if cur < p then False else per_token_monotonic (Some cur) v
      | None \<Rightarrow> per_token_monotonic (Some cur) v)"

definition RequestTelemetry ::
  "string \<Rightarrow> int \<Rightarrow> int \<Rightarrow> real option \<Rightarrow> int list \<Rightarrow> int option \<Rightarrow> int \<Rightarrow> string option \<Rightarrow> string option \<Rightarrow>
   request_telemetry result" where
  "RequestTelemetry rid prompt_tokens enqueue ttft per_token completion status err pool =
     (if 1 \<le> prompt_tokens \<and> prompt_tokens \<le> 200000 \<and> 0 \<le> enqueue \<and> 100 \<le> status \<and> status \<le> 599 \<and>
         per_token_monotonic None per_token
      then Inr \<lparr>tl_request_id = rid, tl_prompt_tokens = prompt_tokens, tl_enqueue_ts_ns = enqueue,
                tl_ttft_ms = ttft, tl_per_token_ts_ns = per_token, tl_completion_ts_ns = completion,
                tl_status_code = status, tl_error = err, tl_routed_pool = pool\<rparr>
      else Inl ValueError)"

lemma per_token_monotonic_sorted:
  "per_token_monotonic prev v \<longleftrightarrow> sorted (case prev of None \<Rightarrow> v | Some p \<Rightarrow> p # v)"
proof (induction prev v rule: per_token_monotonic.induct)
  case (1 prev)
  then show ?case by (cases prev) auto
next
  case (2 prev cur v)
  then show ?case by (cases prev) force+
qed

datatype arrival_process = Poisson | OnOff

record arrival_config =
  ar_process :: arrival_process
  ar_rate_per_sec :: real
  ar_seed :: int
  ar_on_duration_s :: "real option"
  ar_off_duration_s :: "real option"

definition opt_positive :: "real option \<Rightarrow> bool" where
  "opt_positive v = (case v of None \<Rightarrow> True | Some x \<Rightarrow> 0 < x)"

definition ArrivalConfig ::
  "arrival_process \<Rightarrow> real \<Rightarrow> int \<Rightarrow> real option \<Rightarrow> real option \<Rightarrow> arrival_config result" where
  "ArrivalConfig p rate seed on off =
     (if \<not> (0 < rate \<and> opt_positive on \<and> opt_positive off) then Inl ValueError
      else if p = OnOff \<and> (on = None \<or> off = None) then Inl ValueError
      else Inr \<lparr>ar_process = p, ar_rate_per_sec = rate, ar_seed = seed, ar_on_duration_s = on,
                ar_off_duration_s = off\<rparr>)"

text \<open>The record leaves out \<open>metadata\<close>, a dictionary no code under \<open>src/\<close> but the tests fills or reads.\<close>

record trace =
  tr_workload :: workload_type
  tr_seed :: int
  tr_duration_s :: real
  tr_arrival :: arrival_config
  tr_requests :: "request_spec list"

definition Trace :: "workload_type \<Rightarrow> int \<Rightarrow> real \<Rightarrow> arrival_config \<Rightarrow> request_spec list \<Rightarrow> trace result" where
  "Trace wl seed duration arrival reqs =
     (if 0 < duration
      then Inr \<lparr>tr_workload = wl, tr_seed = seed, tr_duration_s = duration, tr_arrival = arrival,
                tr_requests = reqs\<rparr>
      else Inl ValueError)"

definition n_requests :: "trace \<Rightarrow> nat" where
  "n_requests t = length (tr_requests t)"

text \<open>\<open>None\<close> durations raise \<open>TypeError\<close> in the arithmetic; \<open>ArrivalConfig\<close> rules them out for \<open>on_off\<close>.\<close>

definition expected_arrivals :: "trace \<Rightarrow> real result" where
  "expected_arrivals t =
     (let a = tr_arrival t in
      case ar_process a of
        Poisson \<Rightarrow> Inr (ar_rate_per_sec a * tr_duration_s t)
      | OnOff \<Rightarrow>
          (case (ar_on_duration_s a, ar_off_duration_s a) of
             (Some on, Some off) \<Rightarrow>
               if on + off = 0 then Inl ZeroDivisionError
               else Inr (ar_rate_per_sec a * (on / (on + off)) * tr_duration_s t)
           | _ \<Rightarrow> Inl TypeError))"

lemma ArrivalConfig_Inr:
  "ArrivalConfig p rate seed on off = Inr a \<Longrightarrow>
     0 < ar_rate_per_sec a \<and>
     (ar_process a = OnOff \<longrightarrow>
       (\<exists>x y. ar_on_duration_s a = Some x \<and> ar_off_duration_s a = Some y \<and> 0 < x \<and> 0 < y))"
  by (auto simp: ArrivalConfig_def opt_positive_def split: if_splits option.splits)

lemma expected_arrivals_ok:
  assumes "ArrivalConfig p rate seed on off = Inr a" "Trace wl s dur a reqs = Inr t"
  shows "\<exists>x. expected_arrivals t = Inr x \<and> 0 < x \<and> x \<le> rate * dur"
proof -
  have t: "tr_arrival t = a" "tr_duration_s t = dur" "0 < dur" "ar_rate_per_sec a = rate"
    using assms by (auto simp: Trace_def ArrivalConfig_def split: if_splits)
  show ?thesis
  proof (cases "ar_process a")
    case Poisson
    then show ?thesis using t ArrivalConfig_Inr [OF assms(1)] by (simp add: expected_arrivals_def)
  next
    case OnOff
    then obtain x y where xy: "ar_on_duration_s a = Some x" "ar_off_duration_s a = Some y" "0 < x" "0 < y"
      using ArrivalConfig_Inr [OF assms(1)] by blast
    have frac: "0 < x / (x + y)" "x / (x + y) \<le> 1" using xy by simp_all
    have rate: "0 < rate" using t ArrivalConfig_Inr [OF assms(1)] by simp
    have "rate * (x / (x + y)) * dur \<le> rate * 1 * dur"
      using frac rate t(3) by (intro mult_right_mono mult_left_mono) auto
    moreover have "0 < rate * (x / (x + y)) * dur" using frac(1) rate t(3) by (intro mult_pos_pos)
    moreover have "x + y \<noteq> 0" using xy by linarith
    ultimately show ?thesis using OnOff xy t by (simp add: expected_arrivals_def)
  qed
qed

section \<open>Properties\<close>

text \<open>
  Accepted telemetry is ordered. A telemetry record whose other fields are in range is accepted
  precisely when its token timestamps never decrease.
\<close>

theorem telemetry_ordered:
  assumes "1 \<le> prompt_tokens" and "prompt_tokens \<le> 200000" and "0 \<le> enqueue" and "100 \<le> status" and "status \<le> 599"
  shows "(\<exists>t. RequestTelemetry rid prompt_tokens enqueue ttft per_token completion status err pool = Inr t \<and>
      tl_per_token_ts_ns t = per_token) \<longleftrightarrow> sorted per_token"
  using assms per_token_monotonic_sorted [of None per_token] by (simp add: RequestTelemetry_def)

theorem telemetry_ordered_witness:
  "(\<exists>t. RequestTelemetry ''r'' 5 0 None [1, 4, 4] None 200 None None = Inr t \<and> tl_per_token_ts_ns t = [1, 4, 4])"
  using telemetry_ordered [of 5 0 200 "''r''" None "[1, 4, 4]" None None None] by simp

text \<open>
  Expected arrivals are defined and bounded. For a validated arrival configuration and trace the
  expected number of arrivals is a positive number of at most rate times duration.
\<close>

theorem expected_arrivals_bounded:
  assumes "ArrivalConfig p rate seed on off = Inr a" and "Trace wl s dur a reqs = Inr t"
  shows "\<exists>x. expected_arrivals t = Inr x \<and> 0 < x \<and> x \<le> rate * dur"
  using assms by (rule expected_arrivals_ok)

theorem expected_arrivals_bounded_witness:
  "\<exists>t. Trace CHAT 0 60 \<lparr>ar_process = OnOff, ar_rate_per_sec = 2, ar_seed = 1, ar_on_duration_s = Some 5, ar_off_duration_s = Some 15\<rparr> [] = Inr t \<and>
     (\<exists>x. expected_arrivals t = Inr x \<and> x \<le> 120)"
proof -
  have a: "ArrivalConfig OnOff 2 1 (Some 5) (Some 15) =
     Inr \<lparr>ar_process = OnOff, ar_rate_per_sec = 2, ar_seed = 1, ar_on_duration_s = Some 5, ar_off_duration_s = Some 15\<rparr>"
    by (simp add: ArrivalConfig_def opt_positive_def)
  obtain t where t: "Trace CHAT 0 60 \<lparr>ar_process = OnOff, ar_rate_per_sec = 2, ar_seed = 1, ar_on_duration_s = Some 5, ar_off_duration_s = Some 15\<rparr> [] = Inr t"
    by (simp add: Trace_def)
  from expected_arrivals_bounded [OF a t] t show ?thesis by auto
qed

end
