(* ===== verification/Reconcile.thy ===== *)
theory Reconcile
  imports PromMetrics Trace
begin

text \<open>
  \<open>core/reconcile.py\<close>: the gate that compares client telemetry with the server's own counters. The
  server is specified by a log of its requests; the property relates the gate to that log.
\<close>

record reconciliation_report =
  rr_success_count_delta_pct :: real
  rr_prompt_tokens_delta_pct :: real
  rr_completion_tokens_delta_pct :: real
  rr_mean_ttft_delta_pct :: real
  rr_window_s :: real
  rr_n_client_requests :: int
  rr_n_server_requests :: int

definition ReconciliationReport ::
  "real \<Rightarrow> real \<Rightarrow> real \<Rightarrow> real \<Rightarrow> real \<Rightarrow> int \<Rightarrow> int \<Rightarrow> reconciliation_report result" where
  "ReconciliationReport s p c t w nc ns =
     (if 0 < w \<and> 0 \<le> nc \<and> 0 \<le> ns
      then Inr \<lparr>rr_success_count_delta_pct = s, rr_prompt_tokens_delta_pct = p,
                rr_completion_tokens_delta_pct = c, rr_mean_ttft_delta_pct = t, rr_window_s = w,
                rr_n_client_requests = nc, rr_n_server_requests = ns\<rparr>
      else Inl ValueError)"

definition gate_passes :: "reconciliation_report \<Rightarrow> real \<Rightarrow> bool" where
  "gate_passes r threshold =
     list_all (\<lambda>field. field r \<le> threshold)
       [rr_success_count_delta_pct, rr_prompt_tokens_delta_pct, rr_completion_tokens_delta_pct,
        rr_mean_ttft_delta_pct]"

definition delta_pct :: "real \<Rightarrow> real \<Rightarrow> real" where
  "delta_pct client server = \<bar>client - server\<bar> / max \<bar>server\<bar> 1 * 100"

definition mean_ttft_ms :: "request_telemetry list \<Rightarrow> real" where
  "mean_ttft_ms client =
     (let vals = List.map_filter tl_ttft_ms client
      in if vals = [] then 0 else sum_list vals / real (length vals))"

definition reconcile ::
  "prom_parser \<Rightarrow> request_telemetry list \<Rightarrow> string \<Rightarrow> real \<Rightarrow> reconciliation_report result" where
  "reconcile families client vllm_metrics_text window_s =
     rbind (parse_prometheus families vllm_metrics_text) (\<lambda>parsed.
       let client_success = length (filter (\<lambda>r. tl_status_code r = 200) client);
           client_prompt_tokens = sum_list (map tl_prompt_tokens client);
           client_completion_tokens = sum_list (map (\<lambda>r. length (tl_per_token_ts_ns r)) client);
           client_mean_ttft_ms = mean_ttft_ms client;
           (server_prompt, server_completion) = vllm_token_totals parsed;
           (server_success, server_total) = vllm_request_counts parsed;
           server_mean_ttft_ms = vllm_mean_ttft_s parsed * 1000
       in ReconciliationReport
            (delta_pct (real client_success) server_success)
            (delta_pct (real_of_int client_prompt_tokens) server_prompt)
            (delta_pct (real client_completion_tokens) server_completion)
            (delta_pct client_mean_ttft_ms server_mean_ttft_ms)
            window_s (int (length client)) (py_int server_total))"

section \<open>The relative difference\<close>

lemma delta_pct_nonneg: "0 \<le> delta_pct c s"
  by (simp add: delta_pct_def)

lemma delta_pct_zero_iff: "delta_pct c s = 0 \<longleftrightarrow> c = s"
  by (auto simp: delta_pct_def)

lemma delta_pct_le_iff: "delta_pct c s \<le> thr \<longleftrightarrow> \<bar>c - s\<bar> * 100 \<le> thr * max \<bar>s\<bar> 1"
proof -
  have "0 < max \<bar>s\<bar> 1" by simp
  then show ?thesis by (simp add: delta_pct_def pos_divide_le_eq)
qed

lemma delta_pct_same: "delta_pct s s = 0"
  by (simp add: delta_pct_def)

lemma delta_pct_nothing: "1 \<le> s \<Longrightarrow> delta_pct 0 s = 100"
  by (simp add: delta_pct_def)

lemma gate_passes_iff:
  "gate_passes r thr \<longleftrightarrow> rr_success_count_delta_pct r \<le> thr \<and> rr_prompt_tokens_delta_pct r \<le> thr \<and>
     rr_completion_tokens_delta_pct r \<le> thr \<and> rr_mean_ttft_delta_pct r \<le> thr"
  by (simp add: gate_passes_def)

lemma gate_passes_mono: "gate_passes r thr \<Longrightarrow> thr \<le> thr' \<Longrightarrow> gate_passes r thr'"
  by (auto simp: gate_passes_iff)

text \<open>The report of a successful run, field by field.\<close>

lemma reconcile_Inr:
  assumes "reconcile families client text w = Inr r"
  obtains parsed where "parse_prometheus families text = Inr parsed" "0 < w"
    "rr_success_count_delta_pct r =
       delta_pct (real (length (filter (\<lambda>r. tl_status_code r = 200) client))) (fst (vllm_request_counts parsed))"
    "rr_prompt_tokens_delta_pct r =
       delta_pct (real_of_int (sum_list (map tl_prompt_tokens client))) (fst (vllm_token_totals parsed))"
    "rr_completion_tokens_delta_pct r =
       delta_pct (real (sum_list (map (\<lambda>r. length (tl_per_token_ts_ns r)) client))) (snd (vllm_token_totals parsed))"
    "rr_mean_ttft_delta_pct r = delta_pct (mean_ttft_ms client) (vllm_mean_ttft_s parsed * 1000)"
    "rr_n_client_requests r = int (length client)"
    "rr_n_server_requests r = py_int (snd (vllm_request_counts parsed))"
proof -
  obtain parsed where p: "parse_prometheus families text = Inr parsed"
    using assms by (auto simp: reconcile_def rbind_eq_Inr)
  show ?thesis
    by (rule that [OF p])
      (use assms p in \<open>auto simp: reconcile_def ReconciliationReport_def Let_def split: prod.splits if_splits\<close>)
qed

lemma prompt_tokens_at_least:
  "\<forall>t\<in>set client. 1 \<le> tl_prompt_tokens t \<Longrightarrow> int (length client) \<le> sum_list (map tl_prompt_tokens client)"
  by (induction client) auto

lemma empty_scrape_no_pass:
  assumes "reconcile families client text w = Inr r" "py_strip text = []" "client \<noteq> []"
    "\<forall>t\<in>set client. 1 \<le> tl_prompt_tokens t" "thr < 100"
  shows "\<not> gate_passes r thr"
  using assms(1)
proof (rule reconcile_Inr)
  fix parsed
  assume p: "parse_prometheus families text = Inr parsed"
    and d: "rr_prompt_tokens_delta_pct r =
       delta_pct (real_of_int (sum_list (map tl_prompt_tokens client))) (fst (vllm_token_totals parsed))"
  have "parsed = []" using p assms(2) by (simp add: parse_prometheus_def)
  then have "rr_prompt_tokens_delta_pct r = real_of_int \<bar>sum_list (map tl_prompt_tokens client)\<bar> * 100"
    using d by (simp add: vllm_token_totals_def delta_pct_def)
  moreover have "1 \<le> sum_list (map tl_prompt_tokens client)"
  proof -
    have "1 \<le> int (length client)" using assms(3) by (cases client) auto
    then show ?thesis using prompt_tokens_at_least [OF assms(4)] by linarith
  qed
  ultimately have "100 \<le> rr_prompt_tokens_delta_pct r" by simp
  then show ?thesis using assms(5) by (simp add: gate_passes_iff)
qed

section \<open>What the server did\<close>

text \<open>
  The server's side is specified by a log: one entry per finished request, with its token counts, whether it
  succeeded, and its time to first token in seconds if it got that far. A scrape shows the log when its samples
  are distinct and each metric, over all its label sets, adds up to what vLLM documents it to count: tokens processed
  and generated, successes, finished requests in the count of the end-to-end latencies, and the number and
  the sum of the times to first token.
\<close>

record log_entry =
  le_prompt :: nat
  le_generated :: nat
  le_success :: bool
  le_ttft_s :: "real option"

definition metric_total :: "sample list \<Rightarrow> string \<Rightarrow> real" where
  "metric_total sms name = sum_list (map sm_value (filter (\<lambda>sm. sm_name sm = name) sms))"

definition log_successes :: "log_entry list \<Rightarrow> nat" where
  "log_successes entries = length (filter le_success entries)"

definition log_prompt :: "log_entry list \<Rightarrow> nat" where
  "log_prompt entries = sum_list (map le_prompt entries)"

definition log_generated :: "log_entry list \<Rightarrow> nat" where
  "log_generated entries = sum_list (map le_generated entries)"

definition log_ttfts :: "log_entry list \<Rightarrow> real list" where
  "log_ttfts entries = List.map_filter le_ttft_s entries"

definition shows_log :: "sample list \<Rightarrow> log_entry list \<Rightarrow> bool" where
  "shows_log sms entries \<longleftrightarrow>
     distinct (map sample_key sms) \<and> (\<forall>sm\<in>set sms. CHR ''{'' \<notin> set (sm_name sm)) \<and>
     metric_total sms VLLM_PROMPT_TOKENS_TOTAL = real (log_prompt entries) \<and>
     metric_total sms VLLM_GENERATION_TOKENS_TOTAL = real (log_generated entries) \<and>
     metric_total sms VLLM_REQUEST_SUCCESS_TOTAL = real (log_successes entries) \<and>
     metric_total sms VLLM_E2E_REQUEST_LATENCY_SECONDS_COUNT = real (length entries) \<and>
     metric_total sms VLLM_TTFT_SECONDS_COUNT = real (length (log_ttfts entries)) \<and>
     metric_total sms VLLM_TTFT_SECONDS_SUM = sum_list (log_ttfts entries)"

text \<open>The client's record of a request agrees with the server's.\<close>

definition agrees :: "request_telemetry \<Rightarrow> log_entry \<Rightarrow> bool" where
  "agrees t e \<longleftrightarrow> tl_prompt_tokens t = int (le_prompt e) \<and> length (tl_per_token_ts_ns t) = le_generated e \<and>
     (tl_status_code t = 200 \<longleftrightarrow> le_success e) \<and> tl_ttft_ms t = map_option (\<lambda>s. s * 1000) (le_ttft_s e)"

definition client_successes :: "request_telemetry list \<Rightarrow> nat" where
  "client_successes client = length (filter (\<lambda>t. tl_status_code t = 200) client)"

definition client_prompt :: "request_telemetry list \<Rightarrow> int" where
  "client_prompt client = sum_list (map tl_prompt_tokens client)"

definition client_generated :: "request_telemetry list \<Rightarrow> nat" where
  "client_generated client = sum_list (map (\<lambda>t. length (tl_per_token_ts_ns t)) client)"

definition log_mean_ttft_ms :: "log_entry list \<Rightarrow> real" where
  "log_mean_ttft_ms entries = (if log_ttfts entries = [] then 0 else sum_list (log_ttfts entries) / real (length (log_ttfts entries)) * 1000)"

text \<open>What the extractors read off such a scrape; no success at all reads as nothing but successes.\<close>

lemma shown_totals:
  assumes "shows_log sms entries"
  shows "vllm_token_totals (collect_samples sms) = (real (log_prompt entries), real (log_generated entries))"
    "vllm_request_counts (collect_samples sms) =
       (real (if log_successes entries = 0 then length entries else log_successes entries), real (length entries))"
    "vllm_mean_ttft_s (collect_samples sms) * 1000 = log_mean_ttft_ms entries"
proof -
  have total: "sum_matching (collect_samples sms) name = metric_total sms name" if "CHR ''{'' \<notin> set name" for name
    using sum_matching_collect [OF _ that] assms by (simp add: shows_log_def metric_total_def)
  have names: "CHR ''{'' \<notin> set n" if "n \<in> {VLLM_PROMPT_TOKENS_TOTAL, VLLM_GENERATION_TOKENS_TOTAL, VLLM_REQUEST_SUCCESS_TOTAL,
      VLLM_E2E_REQUEST_LATENCY_SECONDS_COUNT, VLLM_TTFT_SECONDS_COUNT, VLLM_TTFT_SECONDS_SUM}" for n
    using that by (auto simp: vllm_names)
  note all = total [OF names] assms [unfolded shows_log_def]
  show "vllm_token_totals (collect_samples sms) = (real (log_prompt entries), real (log_generated entries))"
    using all by (simp add: vllm_token_totals_def)
  have ttfts: "log_ttfts entries = []" if "entries = []" using that by (simp add: log_ttfts_def map_filter_simps)
  have "log_successes entries = 0" if "entries = []" using that by (simp add: log_successes_def)
  then show "vllm_request_counts (collect_samples sms) =
      (real (if log_successes entries = 0 then length entries else log_successes entries), real (length entries))"
    using all ttfts by (cases "entries = []") (simp_all add: vllm_request_counts_def Let_def)
  show "vllm_mean_ttft_s (collect_samples sms) * 1000 = log_mean_ttft_ms entries"
    using all by (simp add: vllm_mean_ttft_s_def log_mean_ttft_ms_def)
qed

text \<open>The report on a server that did what the log says.\<close>

lemma reconcile_log:
  assumes "py_strip text \<noteq> []" "families text = Inr sms" "shows_log sms entries" "0 < w"
  shows "reconcile families client text w = Inr
    \<lparr>rr_success_count_delta_pct =
       delta_pct (real (client_successes client)) (real (if log_successes entries = 0 then length entries else log_successes entries)),
     rr_prompt_tokens_delta_pct = delta_pct (real_of_int (client_prompt client)) (real (log_prompt entries)),
     rr_completion_tokens_delta_pct = delta_pct (real (client_generated client)) (real (log_generated entries)),
     rr_mean_ttft_delta_pct = delta_pct (mean_ttft_ms client) (log_mean_ttft_ms entries), rr_window_s = w,
     rr_n_client_requests = int (length client), rr_n_server_requests = int (length entries)\<rparr>"
proof -
  have "text \<noteq> []" using assms(1) by (auto simp: py_strip_def)
  then have "parse_prometheus families text = Inr (collect_samples sms)"
    using assms(1,2) by (simp add: parse_prometheus_def)
  then show ?thesis
    using shown_totals [OF assms(3)] assms(4) py_int_of_int [of "int (length entries)"]
    by (simp add: reconcile_def ReconciliationReport_def client_successes_def client_prompt_def client_generated_def)
qed

lemma agreeing_counts:
  assumes "list_all2 agrees client entries"
  shows "client_successes client = log_successes entries" "client_prompt client = int (log_prompt entries)"
    "client_generated client = log_generated entries" "List.map_filter tl_ttft_ms client = map (\<lambda>s. s * 1000) (log_ttfts entries)"
    "length client = length entries"
proof -
  show "client_successes client = log_successes entries" "client_prompt client = int (log_prompt entries)"
    "client_generated client = log_generated entries" "List.map_filter tl_ttft_ms client = map (\<lambda>s. s * 1000) (log_ttfts entries)"
    using assms
    by (induction rule: list_all2_induct)
       (auto simp: agrees_def client_successes_def log_successes_def client_prompt_def log_prompt_def client_generated_def
          log_generated_def log_ttfts_def map_filter_simps split: option.splits)
  show "length client = length entries" using assms by (rule list_all2_lengthD)
qed

lemma agreeing_mean:
  assumes "list_all2 agrees client entries"
  shows "mean_ttft_ms client = log_mean_ttft_ms entries"
  using agreeing_counts(4) [OF assms] by (simp add: mean_ttft_ms_def log_mean_ttft_ms_def sum_list_mult_const)

section \<open>Properties\<close>

text \<open>
  C8: The gate is sound against what the server did, and complete but for one case. The server is given by the
  log of its finished requests, which the scrape shows in the sums of its samples. Completeness: when the client's
  records agree with the log entry by entry, a report is returned, it counts the requests of both sides
  right, and its gate passes at any threshold below 100 exactly when there was no request or one succeeded: the
  run in which every request failed, and both sides say so, is refused, because the success count of zero is
  read as a missing metric and replaced by the number of requests. Soundness: for any client whatsoever and a log
  with a success, a passing gate puts the client's successes, prompt tokens, generated tokens and mean time to
  first token within the threshold's percentage of those of the log (of one, where the log has less).
\<close>

theorem reconcile_gate_exact:
  assumes "py_strip text \<noteq> []" and "families text = Inr sms" and "shows_log sms entries" and "0 < w" and "0 \<le> thr" and "thr < 100"
  shows "\<exists>r. reconcile families client text w = Inr r \<and>
    (list_all2 agrees client entries \<longrightarrow>
       rr_n_client_requests r = int (length entries) \<and> rr_n_server_requests r = int (length entries) \<and>
       (gate_passes r thr \<longleftrightarrow> entries = [] \<or> (\<exists>e\<in>set entries. le_success e))) \<and>
    (gate_passes r thr \<and> (\<exists>e\<in>set entries. le_success e) \<longrightarrow>
       \<bar>real (client_successes client) - real (log_successes entries)\<bar> * 100 \<le> thr * real (log_successes entries) \<and>
       \<bar>real_of_int (client_prompt client) - real (log_prompt entries)\<bar> * 100 \<le> thr * max (real (log_prompt entries)) 1 \<and>
       \<bar>real (client_generated client) - real (log_generated entries)\<bar> * 100 \<le> thr * max (real (log_generated entries)) 1 \<and>
       \<bar>mean_ttft_ms client - log_mean_ttft_ms entries\<bar> * 100 \<le> thr * max \<bar>log_mean_ttft_ms entries\<bar> 1)"
proof -
  have some: "(\<exists>e\<in>set entries. le_success e) \<longleftrightarrow> log_successes entries \<noteq> 0"
    by (auto simp: log_successes_def filter_empty_conv)
  have none: "log_successes entries \<noteq> 0 \<or> (delta_pct 0 (real (length entries)) \<le> thr \<longleftrightarrow> entries = [])"
    using assms(5,6) delta_pct_nothing [of "real (length entries)"] delta_pct_same [of 0] by (cases entries) auto
  note rep = reconcile_log [of "text" families, OF assms(1-4), of client]
  have "gate_passes r thr \<longleftrightarrow> entries = [] \<or> log_successes entries \<noteq> 0"
    if "list_all2 agrees client entries" "reconcile families client text w = Inr r" for r
    using that(2) none assms(5) agreeing_counts [OF that(1)] agreeing_mean [OF that(1)]
    unfolding rep by (auto simp: gate_passes_iff delta_pct_same)
  moreover have "rr_n_client_requests r = int (length entries)" if "list_all2 agrees client entries" "reconcile families client text w = Inr r" for r
    using that(2) agreeing_counts(5) [OF that(1)] unfolding rep by auto
  ultimately show ?thesis
    unfolding some using rep by (auto simp: gate_passes_iff delta_pct_le_iff)
qed

text \<open>
  A blank scrape fails the gate. When the server's metrics body is blank and at least one request
  was sent, no threshold below 100 lets the gate pass.
\<close>

theorem blank_scrape_fails:
  assumes "reconcile families client text w = Inr r" and "py_strip text = []" and "client \<noteq> []"
    and "\<forall>t\<in>set client. 1 \<le> tl_prompt_tokens t" and "thr < 100"
  shows "\<not> gate_passes r thr"
  using assms by (rule empty_scrape_no_pass)

definition ex_telemetry :: request_telemetry where
  "ex_telemetry = \<lparr>tl_request_id = ''r'', tl_prompt_tokens = 10, tl_enqueue_ts_ns = 0, tl_ttft_ms = Some 20,
     tl_per_token_ts_ns = [1, 2], tl_completion_ts_ns = Some 3, tl_status_code = 200, tl_error = None,
     tl_routed_pool = None\<rparr>"

definition ex_server :: prom_parser where
  "ex_server text = Inr
     [\<lparr>sm_name = ''vllm:prompt_tokens_total'', sm_labels = [], sm_value = 10\<rparr>,
      \<lparr>sm_name = ''vllm:generation_tokens_total'', sm_labels = [], sm_value = 2\<rparr>,
      \<lparr>sm_name = ''vllm:request_success_total'', sm_labels = [], sm_value = 1\<rparr>,
      \<lparr>sm_name = ''vllm:time_to_first_token_seconds_sum'', sm_labels = [], sm_value = 2 / 100\<rparr>,
      \<lparr>sm_name = ''vllm:time_to_first_token_seconds_count'', sm_labels = [], sm_value = 1\<rparr>]"

text \<open>A server with two engines: one request succeeded on the first, one failed on the second.\<close>

definition ex_log :: "log_entry list" where
  "ex_log = [\<lparr>le_prompt = 10, le_generated = 2, le_success = True, le_ttft_s = Some (2 / 100)\<rparr>,
     \<lparr>le_prompt = 5, le_generated = 0, le_success = False, le_ttft_s = None\<rparr>]"

definition ex_samples :: "sample list" where
  "ex_samples =
     [\<lparr>sm_name = ''vllm:prompt_tokens_total'', sm_labels = [(''engine'', ''0'')], sm_value = 10\<rparr>,
      \<lparr>sm_name = ''vllm:prompt_tokens_total'', sm_labels = [(''engine'', ''1'')], sm_value = 5\<rparr>,
      \<lparr>sm_name = ''vllm:generation_tokens_total'', sm_labels = [], sm_value = 2\<rparr>,
      \<lparr>sm_name = ''vllm:request_success_total'', sm_labels = [(''engine'', ''0'')], sm_value = 1\<rparr>,
      \<lparr>sm_name = ''vllm:e2e_request_latency_seconds_count'', sm_labels = [], sm_value = 2\<rparr>,
      \<lparr>sm_name = ''vllm:time_to_first_token_seconds_sum'', sm_labels = [], sm_value = 2 / 100\<rparr>,
      \<lparr>sm_name = ''vllm:time_to_first_token_seconds_count'', sm_labels = [], sm_value = 1\<rparr>]"

lemma ex_shows_log: "shows_log ex_samples ex_log"
  by (simp add: shows_log_def ex_samples_def ex_log_def metric_total_def vllm_names sample_key_def log_prompt_def
      log_generated_def log_successes_def log_ttfts_def map_filter_simps)

definition ex_failed :: request_telemetry where
  "ex_failed = ex_telemetry\<lparr>tl_request_id := ''s'', tl_prompt_tokens := 5, tl_ttft_ms := None, tl_per_token_ts_ns := [],
     tl_completion_ts_ns := None, tl_status_code := 500, tl_error := Some ''HTTP 500: ''\<rparr>"

theorem reconcile_gate_exact_witness:
  "\<exists>r. reconcile (\<lambda>_. Inr ex_samples) [ex_telemetry, ex_failed] ''m'' 60 = Inr r \<and> gate_passes r 2 \<and> rr_n_server_requests r = 2"
proof -
  have strip: "py_strip ''m'' \<noteq> []" by (simp add: py_strip_def is_space_def)
  have "list_all2 agrees [ex_telemetry, ex_failed] ex_log"
    by (simp add: ex_log_def agrees_def ex_telemetry_def ex_failed_def)
  moreover have "\<exists>e\<in>set ex_log. le_success e" "length ex_log = 2" by (simp_all add: ex_log_def)
  ultimately show ?thesis
    using reconcile_gate_exact [of "''m''" "\<lambda>_. Inr ex_samples", OF strip refl ex_shows_log, of 60 2 "[ex_telemetry, ex_failed]"] by auto
qed

theorem blank_scrape_fails_witness:
  "\<exists>r. reconcile ex_server [ex_telemetry] [] 60 = Inr r \<and> \<not> gate_passes r 2"
proof -
  obtain r where r: "reconcile ex_server [ex_telemetry] [] 60 = Inr r"
    by (simp add: reconcile_def parse_prometheus_def vllm_token_totals_def vllm_request_counts_def
        vllm_mean_ttft_s_def ReconciliationReport_def Let_def py_int_def)
  from blank_scrape_fails [OF r, of 2] r show ?thesis by (simp add: py_strip_def ex_telemetry_def)
qed

end
