(* ===== verification/Router.thy ===== *)
theory Router
  imports Pools Trace Registry
begin

text \<open>
  \<open>control/router.py\<close>: admission control, pool selection and the salted prefix cache. \<open>hashlib.sha256\<close>
  enters as the parameter \<open>sha\<close>, from the hashed bytes to the hexadecimal digest.
\<close>

record admission_policy =
  headroom_pct :: real
  interactive_bypass :: bool

definition AdmissionPolicy :: "real \<Rightarrow> bool \<Rightarrow> admission_policy result" where
  "AdmissionPolicy pct bypass =
     (if 0 \<le> pct \<and> pct \<le> 100 then Inr \<lparr>headroom_pct = pct, interactive_bypass = bypass\<rparr> else Inl ValueError)"

record pool_decision =
  pd_pool :: pool
  pd_admitted :: bool
  pd_reason :: string
  pd_prefix_hash :: "string option"

definition PoolDecision :: "pool \<Rightarrow> bool \<Rightarrow> string \<Rightarrow> string option \<Rightarrow> pool_decision" where
  "PoolDecision p adm why h = \<lparr>pd_pool = p, pd_admitted = adm, pd_reason = why, pd_prefix_hash = h\<rparr>"

type_synonym digest = "string \<Rightarrow> string"

definition prefix_key :: "digest \<Rightarrow> string \<Rightarrow> string \<Rightarrow> string" where
  "prefix_key sha prompt_text salt = take 16 (sha (salt @ take 256 prompt_text))"

record router =
  rt_policy :: admission_policy
  rt_cache_max :: int
  rt_salt_for_pool :: "pool \<Rightarrow> string"
  rt_prefix_cache :: "(string, pool) odict"
  rt_pools :: "(pool, pool_state) odict"
  rt_metrics :: "registry option"

text \<open>The constructor's defaults: an 80\% policy with bypass, and the empty salt.\<close>

definition Router ::
  "admission_policy option \<Rightarrow> int \<Rightarrow> (pool \<Rightarrow> string) option \<Rightarrow> registry option \<Rightarrow> router" where
  "Router policy prefix_cache_size salt metrics =
     \<lparr>rt_policy = (case policy of Some p \<Rightarrow> p | None \<Rightarrow> \<lparr>headroom_pct = 80, interactive_bypass = True\<rparr>),
      rt_cache_max = prefix_cache_size,
      rt_salt_for_pool = (case salt of Some f \<Rightarrow> f | None \<Rightarrow> (\<lambda>_. [])),
      rt_prefix_cache = [], rt_pools = [], rt_metrics = metrics\<rparr>"

definition register_pool :: "router \<Rightarrow> pool_state \<Rightarrow> router" where
  "register_pool r st = r\<lparr>rt_pools := od_set (ps_pool st) st (rt_pools r)\<rparr>"

definition update_depth :: "router \<Rightarrow> pool \<Rightarrow> int \<Rightarrow> router" where
  "update_depth r p depth =
     (case od_get (rt_pools r) p of
        None \<Rightarrow> r
      | Some st \<Rightarrow> r\<lparr>rt_pools := od_set p (st\<lparr>ps_queue_depth := max 0 depth\<rparr>) (rt_pools r)\<rparr>)"

definition index_bytes :: "(string, pool) odict \<Rightarrow> int" where
  "index_bytes cache = foldl (\<lambda>total (key, p). total + (int (length key) + int (length (pool_value p)) + 16)) 0 cache"

definition publish_metrics :: "router \<Rightarrow> router" where
  "publish_metrics r =
     (case rt_metrics r of
        None \<Rightarrow> r
      | Some reg \<Rightarrow>
          let reg1 = set_prefix_index_size_bytes (real_of_int (index_bytes (rt_prefix_cache r))) reg
          in r\<lparr>rt_metrics := Some (foldl (\<lambda>g (p, st). set_queue_depth (pool_value p) (ps_queue_depth st) g)
                                   reg1 (rt_pools r))\<rparr>)"

definition pool_states :: "router \<Rightarrow> (pool, pool_state) odict" where
  "pool_states r = rt_pools r"

definition cache_size :: "router \<Rightarrow> nat" where
  "cache_size r = length (rt_prefix_cache r)"

definition admissible :: "router \<Rightarrow> request_spec \<Rightarrow> pool_state \<Rightarrow> bool" where
  "admissible r spec st =
     (if \<not> ps_healthy st then False
      else if headroom_used_pct st < headroom_pct (rt_policy r) then True
      else rq_slo_class spec = INTERACTIVE \<and> interactive_bypass (rt_policy r))"

fun first_admissible :: "router \<Rightarrow> request_spec \<Rightarrow> (pool \<times> pool_state) list \<Rightarrow> pool option" where
  "first_admissible r spec [] = None"
| "first_admissible r spec ((p, st) # es) =
     (if admissible r spec st then Some p else first_admissible r spec es)"

definition select_admissible :: "router \<Rightarrow> request_spec \<Rightarrow> pool option" where
  "select_admissible r spec =
     (let eligible = filter (\<lambda>(p, st). ps_healthy st) (rt_pools r);
          tier_states = filter (\<lambda>(p, st). p = TIER) eligible;
          tier_pick =
            (if rq_workload spec = RAG \<and> tier_states \<noteq> []
             then first_admissible r spec (sort_key (\<lambda>(p, st). ps_queue_depth st) tier_states)
             else None)
      in if eligible = [] then None
         else case tier_pick of
             Some p \<Rightarrow> Some p
           | None \<Rightarrow>
               first_admissible r spec (sort_key (\<lambda>(p, st). (ps_queue_depth st, ps_pool st)) eligible))"

definition note_no_history :: "router \<Rightarrow> router" where
  "note_no_history r = (case rt_metrics r of None \<Rightarrow> r | Some reg \<Rightarrow> r\<lparr>rt_metrics := Some (inc_no_history reg)\<rparr>)"

text \<open>Insert, then drop the oldest entry when the cache is over its size.\<close>

definition remember :: "router \<Rightarrow> string \<Rightarrow> pool \<Rightarrow> router" where
  "remember r key p =
     (let cache = od_set key p (rt_prefix_cache r);
          cache' = (if int (length cache) > rt_cache_max r
                    then (case od_popfirst cache of None \<Rightarrow> cache | Some (_, rest) \<Rightarrow> rest)
                    else cache)
      in r\<lparr>rt_prefix_cache := cache'\<rparr>)"

definition route_key :: "digest \<Rightarrow> router \<Rightarrow> request_spec \<Rightarrow> string" where
  "route_key sha r spec =
     prefix_key sha (rq_prompt_text spec)
       (rt_salt_for_pool r (case select_admissible r spec of Some p \<Rightarrow> p | None \<Rightarrow> COLOCATED))"

text \<open>The pool a cache hit is served from: the cached one, when it is registered and still admits.\<close>

definition cached_choice :: "router \<Rightarrow> request_spec \<Rightarrow> string \<Rightarrow> pool option" where
  "cached_choice r spec key =
     (case od_get (rt_prefix_cache r) key of
        None \<Rightarrow> None
      | Some p \<Rightarrow>
          (case od_get (rt_pools r) p of
             None \<Rightarrow> None
           | Some st \<Rightarrow> if ps_healthy st \<and> admissible r spec st then Some p else None))"

definition route :: "digest \<Rightarrow> router \<Rightarrow> request_spec \<Rightarrow> router \<times> pool_decision" where
  "route sha r spec =
     (if rt_pools r = [] then (r, PoolDecision COLOCATED False ''no_pools_registered'' None)
      else
        let chosen_pool = select_admissible r spec;
            key = route_key sha r spec;
            r1 = (if od_get (rt_prefix_cache r) key \<noteq> None
                  then r\<lparr>rt_prefix_cache := od_move_to_end key (rt_prefix_cache r)\<rparr> else r)
        in case cached_choice r spec key of
             Some p \<Rightarrow> (r1, PoolDecision p True ''cache_hit'' (Some key))
           | None \<Rightarrow>
               let r2 = note_no_history r1
               in case chosen_pool of
                    None \<Rightarrow> (r2, PoolDecision COLOCATED False ''all_pools_full'' (Some key))
                  | Some p \<Rightarrow> (remember r2 key p, PoolDecision p True ''load_balance'' (Some key)))"

section \<open>Selection\<close>

definition admits :: "router \<Rightarrow> request_spec \<Rightarrow> pool \<Rightarrow> bool" where
  "admits r spec p \<longleftrightarrow> (\<exists>st. od_get (rt_pools r) p = Some st \<and> admissible r spec st)"

definition pools_ok :: "(pool, pool_state) odict \<Rightarrow> bool" where
  "pools_ok ps \<longleftrightarrow> od_ok ps \<and> (\<forall>(p, st)\<in>set ps. ps_pool st = p \<and> 0 \<le> ps_queue_depth st)"

text \<open>The load-balancing order: queue depth first, then the pool's name.\<close>

definition lighter :: "router \<Rightarrow> pool \<Rightarrow> pool \<Rightarrow> bool" where
  "lighter r p q \<longleftrightarrow>
     (\<forall>sp sq. od_get (rt_pools r) p = Some sp \<longrightarrow> od_get (rt_pools r) q = Some sq \<longrightarrow>
        ps_queue_depth sp < ps_queue_depth sq \<or> ps_queue_depth sp = ps_queue_depth sq \<and> p \<le> q)"

lemma first_admissible_Some:
  "first_admissible r spec es = Some p \<Longrightarrow>
     \<exists>us st vs. es = us @ (p, st) # vs \<and> admissible r spec st \<and> (\<forall>(q, sq)\<in>set us. \<not> admissible r spec sq)"
proof (induction r spec es rule: first_admissible.induct)
  case (1 r spec)
  then show ?case by simp
next
  case (2 r spec q sq es)
  show ?case
  proof (cases "admissible r spec sq")
    case True
    with "2.prems" have "(q, sq) # es = [] @ (p, sq) # es" by simp
    with True show ?thesis by fastforce
  next
    case False
    with 2 obtain us st vs where "es = us @ (p, st) # vs" "admissible r spec st"
      "\<forall>(q, sq)\<in>set us. \<not> admissible r spec sq" by auto
    with False have "(q, sq) # es = ((q, sq) # us) @ (p, st) # vs \<and> admissible r spec st \<and>
      (\<forall>(q, sq)\<in>set ((q, sq) # us). \<not> admissible r spec sq)" by simp
    then show ?thesis by blast
  qed
qed

lemma first_admissible_None: "first_admissible r spec es = None \<longleftrightarrow> (\<forall>(p, st)\<in>set es. \<not> admissible r spec st)"
  by (induction es) (auto split: if_splits)

lemma first_admissible_sorted:
  assumes "first_admissible r spec (sort_key f es) = Some p"
  shows "\<exists>st. (p, st) \<in> set es \<and> admissible r spec st \<and>
    (\<forall>(q, sq)\<in>set es. admissible r spec sq \<longrightarrow> f (p, st) \<le> f (q, sq))"
proof -
  obtain us st vs where split: "sort_key f es = us @ (p, st) # vs" and adm: "admissible r spec st"
    and us: "\<forall>(q, sq)\<in>set us. \<not> admissible r spec sq"
    using first_admissible_Some [OF assms] by blast
  have sorted: "sorted (map f us @ f (p, st) # map f vs)"
    using sorted_sort_key [of f es] by (simp add: split)
  have set_es: "set es = set us \<union> {(p, st)} \<union> set vs"
    using arg_cong [OF split, of set] by simp
  have "f (p, st) \<le> f (q, sq)" if "(q, sq) \<in> set es" "admissible r spec sq" for q sq
  proof -
    have "(q, sq) \<notin> set us" using us that(2) by auto
    then have "(q, sq) = (p, st) \<or> (q, sq) \<in> set vs" using that(1) set_es by auto
    then show ?thesis using sorted by (auto simp: sorted_append)
  qed
  then show ?thesis using adm set_es by auto
qed

lemma admissible_healthy: "admissible r spec st \<Longrightarrow> ps_healthy st"
  by (simp add: admissible_def split: if_splits)

lemma pools_ok_mem: "pools_ok ps \<Longrightarrow> (p, st) \<in> set ps \<longleftrightarrow> od_get ps p = Some st"
  by (simp add: pools_ok_def od_in_set_iff)

lemma pools_ok_pool: "pools_ok ps \<Longrightarrow> od_get ps p = Some st \<Longrightarrow> ps_pool st = p"
  using od_get_in_set by (fastforce simp: pools_ok_def)

lemma admits_mem:
  assumes "pools_ok (rt_pools r)"
  shows "admits r spec p \<longleftrightarrow> (\<exists>st. (p, st) \<in> set (rt_pools r) \<and> ps_healthy st \<and> admissible r spec st)"
  using pools_ok_mem [OF assms] admissible_healthy by (auto simp: admits_def)

lemma select_admissible_None:
  assumes "pools_ok (rt_pools r)"
  shows "select_admissible r spec = None \<longleftrightarrow> (\<forall>p. \<not> admits r spec p)"
proof -
  let ?el = "filter (\<lambda>(p, st). ps_healthy st) (rt_pools r)"
  let ?t = "filter (\<lambda>(p, st). p = TIER) ?el"
  let ?f = "\<lambda>(p, st). (ps_queue_depth st, ps_pool st)"
  let ?g = "\<lambda>(p, st). ps_queue_depth st"
  have none: "first_admissible r spec (sort_key ?f ?el) = None \<longleftrightarrow> (\<forall>p. \<not> admits r spec p)"
    by (auto simp: first_admissible_None admits_mem [OF assms])
  have tier: "first_admissible r spec (sort_key ?g ?t) = None" if "\<forall>p. \<not> admits r spec p"
    using that by (auto simp: first_admissible_None admits_mem [OF assms])
  have empty: "\<forall>p. \<not> admits r spec p" if "?el = []"
    using that by (fastforce simp: admits_mem [OF assms] filter_empty_conv)
  show ?thesis
  proof (cases "\<forall>p. \<not> admits r spec p")
    case True
    then show ?thesis using none tier by (simp add: select_admissible_def Let_def)
  next
    case False
    then have "?el \<noteq> []" and "first_admissible r spec (sort_key ?f ?el) \<noteq> None" using empty none by blast+
    then show ?thesis using False
      unfolding select_admissible_def Let_def by (auto split: option.splits)
  qed
qed

lemma select_admissible_Some:
  assumes ok: "pools_ok (rt_pools r)" and sel: "select_admissible r spec = Some p"
  shows "admits r spec p"
    and "rq_workload spec = RAG \<Longrightarrow> admits r spec TIER \<Longrightarrow> p = TIER"
    and "rq_workload spec \<noteq> RAG \<or> \<not> admits r spec TIER \<Longrightarrow> admits r spec q \<Longrightarrow> lighter r p q"
proof -
  let ?el = "filter (\<lambda>(p, st). ps_healthy st) (rt_pools r)"
  let ?t = "filter (\<lambda>(p, st). p = TIER) ?el"
  let ?g = "\<lambda>(p, st). ps_queue_depth st"
  let ?f = "\<lambda>(p, st). (ps_queue_depth st, ps_pool st)"
  have mem: "(q, sq) \<in> set ?el \<longleftrightarrow> od_get (rt_pools r) q = Some sq \<and> ps_healthy sq" for q sq
    using pools_ok_mem [OF ok] by auto
  consider (tier) "rq_workload spec = RAG" "first_admissible r spec (sort_key ?g ?t) = Some p"
    | (balance) "rq_workload spec \<noteq> RAG \<or> ?t = [] \<or> first_admissible r spec (sort_key ?g ?t) = None"
        "first_admissible r spec (sort_key ?f ?el) = Some p"
    using sel by (auto simp: select_admissible_def Let_def split: if_splits option.splits)
  then have "admits r spec p \<and> (rq_workload spec = RAG \<longrightarrow> admits r spec TIER \<longrightarrow> p = TIER) \<and>
    ((rq_workload spec \<noteq> RAG \<or> \<not> admits r spec TIER) \<longrightarrow> admits r spec q \<longrightarrow> lighter r p q)"
  proof cases
    case tier
    then obtain st where "(p, st) \<in> set ?t" "admissible r spec st"
      using first_admissible_sorted by blast
    then have p: "p = TIER" "admits r spec TIER" using mem by (auto simp: admits_def)
    with tier(1) show ?thesis by simp
  next
    case balance
    obtain st where st: "(p, st) \<in> set ?el" "admissible r spec st"
      and least: "\<forall>(q, sq)\<in>set ?el. admissible r spec sq \<longrightarrow> ?f (p, st) \<le> ?f (q, sq)"
      using first_admissible_sorted [OF balance(2)] by blast
    have adm: "admits r spec p" using st mem by (auto simp: admits_def)
    have tier: "p = TIER" if rag: "rq_workload spec = RAG" and adm: "admits r spec TIER"
    proof -
      obtain s2 where s2: "od_get (rt_pools r) TIER = Some s2" "admissible r spec s2"
        using adm by (auto simp: admits_def)
      then have "(TIER, s2) \<in> set ?t" using mem [of TIER s2] admissible_healthy by auto
      with s2(2) balance(1) rag show ?thesis
        by (auto simp: first_admissible_None filter_empty_conv)
    qed
    have "lighter r p q" if adm: "admits r spec q"
    proof -
      obtain sq where q: "od_get (rt_pools r) q = Some sq" "admissible r spec sq"
        using adm by (auto simp: admits_def)
      then have "(q, sq) \<in> set ?el" using mem admissible_healthy by blast
      then have "(ps_queue_depth st, ps_pool st) \<le> (ps_queue_depth sq, ps_pool sq)"
        using least q(2) by fastforce
      moreover have "od_get (rt_pools r) p = Some st" using st mem by blast
      ultimately show ?thesis
        using q pools_ok_pool [OF ok] by (auto simp: lighter_def less_eq_prod_def)
    qed
    with adm tier show ?thesis by blast
  qed
  then show "admits r spec p" "rq_workload spec = RAG \<Longrightarrow> admits r spec TIER \<Longrightarrow> p = TIER"
    "rq_workload spec \<noteq> RAG \<or> \<not> admits r spec TIER \<Longrightarrow> admits r spec q \<Longrightarrow> lighter r p q"
    by blast+
qed

section \<open>The state invariant\<close>

text \<open>
  The prefix cache has one entry per key and at most \<open>prefix_cache_size\<close> of them; the registry maps
  each pool to a snapshot of that pool.
\<close>

definition router_ok :: "router \<Rightarrow> bool" where
  "router_ok r \<longleftrightarrow> od_ok (rt_prefix_cache r) \<and> int (cache_size r) \<le> max 0 (rt_cache_max r) \<and> pools_ok (rt_pools r)"

lemma Router_ok: "router_ok (Router policy n salt metrics)"
  by (simp add: router_ok_def Router_def cache_size_def od_ok_def pools_ok_def)

lemma pools_ok_set:
  assumes "pools_ok ps" and "ps_pool st = p" and "0 \<le> ps_queue_depth st"
  shows "pools_ok (od_set p st ps)"
  using assms od_set_set [of p st ps] by (auto simp: pools_ok_def od_ok_set)

lemma register_pool_ok:
  assumes "router_ok r" and "0 \<le> ps_queue_depth st"
  shows "router_ok (register_pool r st)"
  using assms by (simp add: router_ok_def register_pool_def cache_size_def pools_ok_set)

lemma update_depth_ok:
  assumes "router_ok r"
  shows "router_ok (update_depth r p depth)"
proof (cases "od_get (rt_pools r) p")
  case None
  then show ?thesis using assms by (simp add: update_depth_def)
next
  case (Some st)
  then have "ps_pool st = p" using assms pools_ok_pool by (auto simp: router_ok_def)
  then show ?thesis using assms Some by (simp add: router_ok_def update_depth_def cache_size_def pools_ok_set)
qed

lemma note_no_history_frame [frame, simp]:
  "rt_prefix_cache (note_no_history r) = rt_prefix_cache r"
  "rt_pools (note_no_history r) = rt_pools r"
  "rt_policy (note_no_history r) = rt_policy r"
  "rt_cache_max (note_no_history r) = rt_cache_max r"
  "rt_salt_for_pool (note_no_history r) = rt_salt_for_pool r"
  by (auto simp: note_no_history_def split: option.splits)

lemma publish_metrics_frame [frame, simp]:
  "rt_prefix_cache (publish_metrics r) = rt_prefix_cache r"
  "rt_pools (publish_metrics r) = rt_pools r"
  "rt_policy (publish_metrics r) = rt_policy r"
  "rt_cache_max (publish_metrics r) = rt_cache_max r"
  "rt_salt_for_pool (publish_metrics r) = rt_salt_for_pool r"
  by (auto simp: publish_metrics_def Let_def split: option.splits)

lemma remember_frame [frame, simp]:
  "rt_pools (remember r k p) = rt_pools r"
  "rt_policy (remember r k p) = rt_policy r"
  "rt_cache_max (remember r k p) = rt_cache_max r"
  "rt_salt_for_pool (remember r k p) = rt_salt_for_pool r"
  "rt_metrics (remember r k p) = rt_metrics r"
  by (simp_all add: remember_def Let_def)

lemma publish_metrics_ok: "router_ok r \<Longrightarrow> router_ok (publish_metrics r)"
  by (simp add: router_ok_def cache_size_def)

lemma remember_cases:
  obtains (keep) "int (length (od_set k p (rt_prefix_cache r))) \<le> rt_cache_max r"
      "rt_prefix_cache (remember r k p) = od_set k p (rt_prefix_cache r)"
    | (evict) k0 p0 rest where "rt_cache_max r < int (length (od_set k p (rt_prefix_cache r)))"
      "od_popfirst (od_set k p (rt_prefix_cache r)) = Some ((k0, p0), rest)"
      "rt_prefix_cache (remember r k p) = rest"
proof (cases "rt_cache_max r < int (length (od_set k p (rt_prefix_cache r)))")
  case True
  have "0 < length (od_set k p (rt_prefix_cache r))" using od_in_set [of k p "rt_prefix_cache r"] by (rule length_pos_if_in_set)
  then obtain k0 p0 rest where "od_popfirst (od_set k p (rt_prefix_cache r)) = Some ((k0, p0), rest)"
    using od.pop_exists by blast
  then show ?thesis using True evict by (simp add: remember_def Let_def)
next
  case False
  then show ?thesis using keep by (simp add: remember_def Let_def)
qed

lemma remember_ok:
  assumes "router_ok r"
  shows "router_ok (remember r k p)"
proof -
  have ok: "od_ok (rt_prefix_cache r)" and len: "int (length (rt_prefix_cache r)) \<le> max 0 (rt_cache_max r)"
    using assms by (auto simp: router_ok_def cache_size_def)
  have "od_ok (rt_prefix_cache (remember r k p)) \<and>
    int (length (rt_prefix_cache (remember r k p))) \<le> max 0 (rt_cache_max r)"
  proof (cases rule: remember_cases [of k p r])
    case keep
    then show ?thesis using ok by (auto simp: od_ok_set)
  next
    case (evict k0 p0 rest)
    then show ?thesis
      using od.pop_ok [OF od_ok_set [OF ok] evict(2)] od.insert_pop_len [OF ok len evict(2)] by simp
  qed
  then show ?thesis using assms by (simp add: router_ok_def cache_size_def)
qed

section \<open>Routing\<close>

lemma touch_ok: "router_ok r \<Longrightarrow> router_ok (r\<lparr>rt_prefix_cache := od_move_to_end k (rt_prefix_cache r)\<rparr>)"
  by (simp add: router_ok_def cache_size_def od_ok_move length_od_move)

lemma note_no_history_ok: "router_ok r \<Longrightarrow> router_ok (note_no_history r)"
  by (simp add: router_ok_def cache_size_def)

definition touched :: "router \<Rightarrow> string \<Rightarrow> router" where
  "touched r key =
     (if od_get (rt_prefix_cache r) key \<noteq> None
      then r\<lparr>rt_prefix_cache := od_move_to_end key (rt_prefix_cache r)\<rparr> else r)"

lemma touched_frame [frame, simp]:
  "rt_pools (touched r k) = rt_pools r"
  "rt_policy (touched r k) = rt_policy r"
  "rt_cache_max (touched r k) = rt_cache_max r"
  "rt_salt_for_pool (touched r k) = rt_salt_for_pool r"
  "rt_metrics (touched r k) = rt_metrics r"
  by (simp_all add: touched_def)

lemma touched_ok: "router_ok r \<Longrightarrow> router_ok (touched r k)"
  by (simp add: touched_def touch_ok)

lemma od_get_touched [simp]: "od_get (rt_prefix_cache (touched r k)) k' = od_get (rt_prefix_cache r) k'"
  by (simp add: touched_def)

text \<open>The four outcomes of \<open>route\<close>.\<close>

lemma route_cases:
  obtains (no_pools) "rt_pools r = []" "route sha r spec = (r, PoolDecision COLOCATED False ''no_pools_registered'' None)"
    | (hit) p where "rt_pools r \<noteq> []" "cached_choice r spec (route_key sha r spec) = Some p"
        "route sha r spec =
           (touched r (route_key sha r spec), PoolDecision p True ''cache_hit'' (Some (route_key sha r spec)))"
    | (full) "rt_pools r \<noteq> []" "cached_choice r spec (route_key sha r spec) = None" "select_admissible r spec = None"
        "route sha r spec = (note_no_history (touched r (route_key sha r spec)),
           PoolDecision COLOCATED False ''all_pools_full'' (Some (route_key sha r spec)))"
    | (balanced) p where "rt_pools r \<noteq> []" "cached_choice r spec (route_key sha r spec) = None"
        "select_admissible r spec = Some p"
        "route sha r spec = (remember (note_no_history (touched r (route_key sha r spec))) (route_key sha r spec) p,
           PoolDecision p True ''load_balance'' (Some (route_key sha r spec)))"
proof (cases "rt_pools r = []")
  case True
  then show ?thesis using no_pools by (simp add: route_def)
next
  case False
  note pools = False
  let ?key = "route_key sha r spec"
  show ?thesis
  proof (cases "cached_choice r spec ?key")
    case None
    note miss = None
    show ?thesis
    proof (cases "select_admissible r spec")
      case None
      then show ?thesis using pools miss full by (simp add: route_def Let_def touched_def)
    next
      case (Some p)
      then show ?thesis using pools miss balanced by (simp add: route_def Let_def touched_def)
    qed
  next
    case (Some p)
    then show ?thesis using pools hit by (simp add: route_def Let_def touched_def)
  qed
qed

lemma cached_choice_admits: "cached_choice r spec k = Some p \<Longrightarrow> admits r spec p"
  by (auto simp: cached_choice_def admits_def split: option.splits if_splits)

lemma cached_choice_entry: "cached_choice r spec k = Some p \<Longrightarrow> od_get (rt_prefix_cache r) k = Some p"
  by (auto simp: cached_choice_def split: option.splits if_splits)

lemma cached_choice_Some:
  "od_get (rt_prefix_cache r) k = Some p \<Longrightarrow> admits r spec p \<Longrightarrow> cached_choice r spec k = Some p"
  using admissible_healthy by (auto simp: cached_choice_def admits_def)

lemma route_ok: "router_ok r \<Longrightarrow> router_ok (fst (route sha r spec))"
  by (cases rule: route_cases [of r sha spec]) (auto simp: touched_ok note_no_history_ok remember_ok)

lemma route_frame [frame]:
  "rt_pools (fst (route sha r spec)) = rt_pools r"
  "rt_policy (fst (route sha r spec)) = rt_policy r"
  "rt_cache_max (fst (route sha r spec)) = rt_cache_max r"
  "rt_salt_for_pool (fst (route sha r spec)) = rt_salt_for_pool r"
  by (cases rule: route_cases [of r sha spec], simp_all)+

end
