(* ===== verification/RouterRuns.thy ===== *)
theory RouterRuns
  imports Router
begin

text \<open>
  Sequences of router operations: the reachable states keep the invariant, hits respect the pool's
  cache namespace, the cold-lookup counter counts what its name says, and a routed prefix is sticky.
\<close>

datatype router_op = Register pool_state | UpdateDepth pool int | Route request_spec | PublishMetrics

fun router_step :: "digest \<Rightarrow> router \<Rightarrow> router_op \<Rightarrow> router" where
  "router_step sha r (Register st) = register_pool r st"
| "router_step sha r (UpdateDepth p d) = update_depth r p d"
| "router_step sha r (Route spec) = fst (route sha r spec)"
| "router_step sha r PublishMetrics = publish_metrics r"

inductive reachable :: "digest \<Rightarrow> router \<Rightarrow> router \<Rightarrow> bool" for sha r0 where
  start: "reachable sha r0 r0"
| step: "reachable sha r0 r \<Longrightarrow> (\<And>st. op = Register st \<Longrightarrow> 0 \<le> ps_queue_depth st) \<Longrightarrow>
    reachable sha r0 (router_step sha r op)"

inductive_cases reachable_stepE: "reachable sha r0 r"

lemma router_step_ok:
  assumes "router_ok r" "\<And>st. op = Register st \<Longrightarrow> 0 \<le> ps_queue_depth st"
  shows "router_ok (router_step sha r op)"
  using assms by (cases op) (auto simp: register_pool_ok update_depth_ok route_ok publish_metrics_ok)

lemma reachable_ok: "reachable sha r0 r \<Longrightarrow> router_ok r0 \<Longrightarrow> router_ok r"
  by (induction rule: reachable.induct) (auto intro: router_step_ok)

section \<open>Where the cache entries come from\<close>

text \<open>A run of operations from a given router; the whole history is the list.\<close>

definition router_run :: "digest \<Rightarrow> router \<Rightarrow> router_op list \<Rightarrow> router" where
  "router_run sha r ops = foldl (router_step sha) r ops"

lemma router_run_snoc [simp]: "router_run sha r (ops @ [op]) = router_step sha (router_run sha r ops) op"
  by (simp add: router_run_def)

lemma router_run_Nil [simp]: "router_run sha r [] = r"
  by (simp add: router_run_def)

lemma router_run_ok:
  assumes "router_ok r"
  shows "\<forall>st. Register st \<in> set ops \<longrightarrow> 0 \<le> ps_queue_depth st \<Longrightarrow> router_ok (router_run sha r ops)"
  by (induction ops rule: rev_induct) (use assms in \<open>auto intro: router_step_ok\<close>)

text \<open>The request in the history that load balancing sent to pool \<open>q\<close> under key \<open>k\<close>.\<close>

definition balanced_earlier :: "digest \<Rightarrow> router \<Rightarrow> router_op list \<Rightarrow> request_spec \<Rightarrow> string \<Rightarrow> pool \<Rightarrow> bool" where
  "balanced_earlier sha r ops s k q \<longleftrightarrow>
     (\<exists>pre post. ops = pre @ Route s # post \<and>
        snd (route sha (router_run sha r pre) s) = PoolDecision q True ''load_balance'' (Some k))"

lemma balanced_earlier_snoc: "balanced_earlier sha r ops s k q \<Longrightarrow> balanced_earlier sha r (ops @ [op]) s k q"
  unfolding balanced_earlier_def by (metis append.assoc append_Cons)

lemma balanced_earlier_last:
  "snd (route sha (router_run sha r ops) s) = PoolDecision q True ''load_balance'' (Some k) \<Longrightarrow>
     balanced_earlier sha r (ops @ [Route s]) s k q"
  by (auto simp: balanced_earlier_def)

text \<open>Every entry was put in by such a request, under a key made with the salt of the pool it names.\<close>

definition accounted :: "digest \<Rightarrow> router \<Rightarrow> router_op list \<Rightarrow> router \<Rightarrow> bool" where
  "accounted sha r0 ops r \<longleftrightarrow> (\<forall>k q. od_get (rt_prefix_cache r) k = Some q \<longrightarrow>
     (\<exists>s. balanced_earlier sha r0 ops s k q \<and> k = prefix_key sha (rq_prompt_text s) (rt_salt_for_pool r q)))"

lemma register_pool_frame [frame, simp]:
  "rt_prefix_cache (register_pool r st) = rt_prefix_cache r"
  "rt_policy (register_pool r st) = rt_policy r"
  "rt_cache_max (register_pool r st) = rt_cache_max r"
  "rt_salt_for_pool (register_pool r st) = rt_salt_for_pool r"
  "rt_metrics (register_pool r st) = rt_metrics r"
  by (simp_all add: register_pool_def)

lemma update_depth_frame [frame, simp]:
  "rt_prefix_cache (update_depth r p d) = rt_prefix_cache r"
  "rt_policy (update_depth r p d) = rt_policy r"
  "rt_cache_max (update_depth r p d) = rt_cache_max r"
  "rt_salt_for_pool (update_depth r p d) = rt_salt_for_pool r"
  "rt_metrics (update_depth r p d) = rt_metrics r"
  by (simp_all add: update_depth_def split: option.splits)

lemma remember_entries:
  assumes "od_ok (rt_prefix_cache r)" and "od_get (rt_prefix_cache (remember r k p)) k' = Some q"
  shows "(k' = k \<and> q = p) \<or> od_get (rt_prefix_cache r) k' = Some q"
proof (cases rule: remember_cases [of k p r])
  case keep
  then show ?thesis using assms(2) by (auto split: if_splits)
next
  case (evict k0 p0 rest)
  have "od_get rest k' = Some q" using assms(2) by (simp only: evict(3))
  then have "od_get (od_set k p (rt_prefix_cache r)) k' = Some q"
    using od.pop_subset [OF od_ok_set [OF assms(1)] evict(2)] by blast
  then show ?thesis by (auto split: if_splits)
qed

lemma route_key_selected:
  "select_admissible r spec = Some p \<Longrightarrow>
     route_key sha r spec = prefix_key sha (rq_prompt_text spec) (rt_salt_for_pool r p)"
  by (simp add: route_key_def)

lemma route_entries:
  assumes "router_ok r" and "od_get (rt_prefix_cache (fst (route sha r spec))) k = Some q"
  shows "od_get (rt_prefix_cache r) k = Some q \<or>
    k = prefix_key sha (rq_prompt_text spec) (rt_salt_for_pool r q) \<and>
    snd (route sha r spec) = PoolDecision q True ''load_balance'' (Some k)"
proof (cases rule: route_cases [of r sha spec])
  case (balanced p)
  have "od_ok (rt_prefix_cache (note_no_history (touched r (route_key sha r spec))))"
    using assms(1) touched_ok by (simp add: router_ok_def)
  from remember_entries [OF this, of "route_key sha r spec" p k q]
  have "(k = route_key sha r spec \<and> q = p) \<or> od_get (rt_prefix_cache r) k = Some q"
    using assms(2) by (simp add: balanced(4))
  then show ?thesis using route_key_selected [OF balanced(3)] balanced by auto
qed (use assms(2) in simp_all)

lemma router_step_accounted:
  assumes "router_ok (router_run sha r0 ops)" "accounted sha r0 ops (router_run sha r0 ops)"
  shows "accounted sha r0 (ops @ [op]) (router_run sha r0 (ops @ [op]))"
proof (cases op)
  case (Route spec)
  let ?r = "router_run sha r0 ops"
  show ?thesis
    unfolding accounted_def Route router_run_snoc router_step.simps
  proof (intro allI impI)
    fix k q
    assume "od_get (rt_prefix_cache (fst (route sha ?r spec))) k = Some q"
    from route_entries [OF assms(1) this]
    show "\<exists>s. balanced_earlier sha r0 (ops @ [Route spec]) s k q \<and>
        k = prefix_key sha (rq_prompt_text s) (rt_salt_for_pool (fst (route sha ?r spec)) q)"
      using assms(2) balanced_earlier_snoc balanced_earlier_last by (fastforce simp: accounted_def route_frame)
  qed
qed (use assms(2) balanced_earlier_snoc in \<open>fastforce simp: accounted_def\<close>)+

lemma router_run_accounted:
  assumes "router_ok r0" "rt_prefix_cache r0 = []"
  shows "\<forall>st. Register st \<in> set ops \<longrightarrow> 0 \<le> ps_queue_depth st \<Longrightarrow> accounted sha r0 ops (router_run sha r0 ops)"
proof (induction ops rule: rev_induct)
  case Nil
  then show ?case using assms(2) by (simp add: accounted_def)
next
  case (snoc op ops)
  then show ?case using router_step_accounted router_run_ok [OF assms(1)] by simp
qed

lemma router_run_salt: "rt_salt_for_pool (router_run sha r ops) = rt_salt_for_pool r"
proof (induction ops rule: rev_induct)
  case (snoc op ops)
  then show ?case by (cases op) (simp_all add: route_frame)
qed simp

text \<open>Two different texts with the same truncated digest.\<close>

definition collision :: "digest \<Rightarrow> string \<Rightarrow> string \<Rightarrow> bool" where
  "collision sha a b \<longleftrightarrow> a \<noteq> b \<and> take 16 (sha a) = take 16 (sha b)"

lemma same_key:
  assumes "prefix_key sha t1 (salt q) = prefix_key sha t2 (salt p)" "inj salt" "length (salt q) = length (salt p)"
  shows "(p = q \<and> take 256 t1 = take 256 t2) \<or> collision sha (salt q @ take 256 t1) (salt p @ take 256 t2)"
  using assms by (auto simp: collision_def prefix_key_def dest: injD)

section \<open>Counting cold lookups\<close>

definition is_hit :: "pool_decision \<Rightarrow> bool" where
  "is_hit d \<longleftrightarrow> pd_reason d = ''cache_hit''"

lemma route_counts:
  assumes "rt_metrics r = Some reg" "rt_pools r \<noteq> []"
  shows "\<exists>reg'. rt_metrics (fst (route sha r spec)) = Some reg' \<and>
    counter_total reg' no_history_c = counter_total reg no_history_c + (if is_hit (snd (route sha r spec)) then 0 else 1)"
  by (cases rule: route_cases [of r sha spec])
     (use assms in \<open>auto simp: note_no_history_def PoolDecision_def is_hit_def\<close>)

section \<open>Sticky prefixes\<close>

lemma od_last_after_set:
  assumes "od_get d k = None" "d \<noteq> []" "od_popfirst (od_set k v d) = Some (kv, d')"
  shows "od_get d' k = Some v"
  using assms by (cases d) (auto split: if_splits)

lemma remember_keeps_key:
  assumes "router_ok r" "1 \<le> rt_cache_max r"
  shows "od_get (rt_prefix_cache (remember r k p)) k = Some p"
proof (cases rule: remember_cases [of k p r])
  case keep
  then show ?thesis by simp
next
  case (evict k0 p0 rest)
  have "int (length (rt_prefix_cache r)) \<le> rt_cache_max r"
    using assms by (simp add: router_ok_def cache_size_def)
  with evict(1) have new: "od_get (rt_prefix_cache r) k = None" and "rt_prefix_cache r \<noteq> []"
    using assms(2) by (auto simp: length_od_set split: if_splits)
  then show ?thesis using od_last_after_set [OF new _ evict(2)] evict(3) by simp
qed

lemma admissible_cong:
  "rt_policy r' = rt_policy r \<Longrightarrow> rq_slo_class s' = rq_slo_class s \<Longrightarrow> admissible r' s' st = admissible r s st"
  by (simp add: admissible_def)

lemma select_admissible_cong:
  assumes "rt_policy r' = rt_policy r" "rt_pools r' = rt_pools r"
    and "rq_slo_class s' = rq_slo_class s" "rq_workload s' = rq_workload s"
  shows "select_admissible r' s' = select_admissible r s"
proof -
  have "first_admissible r' s' es = first_admissible r s es" for es
    by (induction es) (auto simp: admissible_cong [OF assms(1,3)])
  then have "first_admissible r' s' = first_admissible r s" by (rule ext)
  then show ?thesis by (simp only: select_admissible_def assms)
qed

lemma route_exact:
  assumes "router_ok r" and "route sha r spec = (r', d)"
  shows "router_ok r' \<and> (pd_admitted d \<longleftrightarrow> (\<exists>p. admits r spec p)) \<and>
    (pd_admitted d \<longrightarrow> admits r spec (pd_pool d))"
proof -
  have ok: "pools_ok (rt_pools r)" using assms(1) by (simp add: router_ok_def)
  have "router_ok r'" using route_ok [OF assms(1), of sha spec] assms(2) by simp
  moreover have "(pd_admitted d \<longleftrightarrow> (\<exists>p. admits r spec p)) \<and> (pd_admitted d \<longrightarrow> admits r spec (pd_pool d))"
  proof (cases rule: route_cases [of r sha spec])
    case no_pools
    then show ?thesis using assms(2) by (auto simp: PoolDecision_def admits_def)
  next
    case (hit p)
    then show ?thesis using assms(2) cached_choice_admits [OF hit(2)] by (auto simp: PoolDecision_def)
  next
    case full
    then show ?thesis using assms(2) select_admissible_None [OF ok] by (auto simp: PoolDecision_def)
  next
    case (balanced p)
    then show ?thesis using assms(2) select_admissible_Some(1) [OF ok balanced(3)] by (auto simp: PoolDecision_def)
  qed
  ultimately show ?thesis by blast
qed

section \<open>Properties\<close>

text \<open>
  C2: Admission is exact. In a well-formed router a request is admitted precisely when some registered
  pool admits it, the pool it is sent to is one of those, and the router stays well formed.
\<close>

theorem route_admission:
  assumes "router_ok r" and "route sha r spec = (r', d)"
  shows "router_ok r' \<and> (pd_admitted d \<longleftrightarrow> (\<exists>p. admits r spec p)) \<and>
    (pd_admitted d \<longrightarrow> admits r spec (pd_pool d))"
  using assms by (rule route_exact)

text \<open>
  Load balancing picks the right pool. A request routed by load goes to the tier pool when it is a
  RAG request the tier pool admits, and otherwise to a pool no admitting pool is lighter than.
\<close>

theorem route_balances:
  assumes "router_ok r" and "route sha r spec = (r', d)" and "pd_reason d = ''load_balance''"
  shows "if rq_workload spec = RAG \<and> admits r spec TIER then pd_pool d = TIER
    else (\<forall>q. admits r spec q \<longrightarrow> lighter r (pd_pool d) q)"
proof -
  have ok: "pools_ok (rt_pools r)" using assms(1) by (simp add: router_ok_def)
  have "select_admissible r spec = Some (pd_pool d)"
    by (cases rule: route_cases [of r sha spec]) (use assms(2,3) in \<open>auto simp: PoolDecision_def\<close>)
  then show ?thesis using select_admissible_Some(2,3) [OF ok] by simp
qed

text \<open>
  C30: Prefixes are sticky. When a request was admitted and the very next request has the same first 256
  characters, SLO class and workload, it is served by the same pool as a cache hit, provided the cache may
  hold an entry. This holds for every class and workload, also for the batch and RAG requests for which the
  module's rules 2 and 3 promise a choice by load or the tier pool (\<open>sticky_overrides_rules\<close>).
\<close>

theorem route_sticky:
  assumes "router_ok r" and "1 \<le> rt_cache_max r" and "route sha r s1 = (r', d1)" and "pd_admitted d1"
    and "take 256 (rq_prompt_text s2) = take 256 (rq_prompt_text s1)"
    and "rq_slo_class s2 = rq_slo_class s1" and "rq_workload s2 = rq_workload s1"
  shows "snd (route sha r' s2) = PoolDecision (pd_pool d1) True ''cache_hit'' (pd_prefix_hash d1)"
proof -
  let ?key = "route_key sha r s1"
  have frame: "rt_pools r' = rt_pools r" "rt_policy r' = rt_policy r" "rt_salt_for_pool r' = rt_salt_for_pool r"
    using route_frame [of sha r s1] assms(3) by simp_all
  have key: "route_key sha r' s2 = ?key"
    using select_admissible_cong [OF frame(2,1) assms(6,7)] assms(5) by (simp add: route_key_def frame prefix_key_def)
  have d1: "rt_pools r \<noteq> [] \<and> od_get (rt_prefix_cache r') ?key = Some (pd_pool d1) \<and> pd_prefix_hash d1 = Some ?key"
  proof (cases rule: route_cases [of r sha s1])
    case (balanced p)
    have "router_ok (note_no_history (touched r ?key))"
      using assms(1) by (simp add: touched_ok note_no_history_ok)
    then have "od_get (rt_prefix_cache (remember (note_no_history (touched r ?key)) ?key p)) ?key = Some p"
      using assms(2) by (intro remember_keeps_key) simp_all
    then show ?thesis using assms(3) balanced by (auto simp: PoolDecision_def)
  qed (use assms(3,4) cached_choice_entry in \<open>auto simp: PoolDecision_def\<close>)
  have "admits r s1 (pd_pool d1)" using route_exact [OF assms(1,3)] assms(4) by blast
  then have "admits r' s2 (pd_pool d1)"
    by (auto simp: admits_def frame admissible_cong [OF frame(2) assms(6)])
  then have hit: "cached_choice r' s2 (route_key sha r' s2) = Some (pd_pool d1)"
    using cached_choice_Some d1 key by simp
  show ?thesis
    by (cases rule: route_cases [of r' sha s2]) (use hit d1 key frame in auto)
qed

text \<open>
  C15: Reachable routers are bounded. Whatever operations run on a fresh router, its cache has distinct
  keys and never more than \<open>prefix_cache_size\<close> entries, and its registry stays well formed.
\<close>

theorem reachable_router_bounded:
  assumes "reachable sha (Router policy n salt metrics) r"
  shows "router_ok r \<and> int (cache_size r) \<le> max 0 n"
proof -
  have "rt_cache_max r = n"
    using assms
  proof (induction rule: reachable.induct)
    case start
    then show ?case by (simp add: Router_def)
  next
    case (step r op)
    then show ?case by (cases op) (simp_all add: route_frame)
  qed
  moreover have "router_ok r" using reachable_ok [OF assms Router_ok] .
  ultimately show ?thesis by (auto simp: router_ok_def)
qed

text \<open>
  C9: A cache hit comes from the pool's own history, or from a digest collision. Take any run of operations
  from a fresh router whose pools have distinct salts of one length, and a request answered by a cache hit.
  Load balancing selects a pool for it, and an earlier request of the run was sent by load balancing to
  the pool that serves the hit. Either that pool is the selected one and the two prompts agree on their
  first 256 characters, or the two salted texts are different and have the same truncated digest: crossing
  from one pool's namespace into another takes a collision, whatever the digest function is. With the
  default empty salts there is one namespace, and a hit may go to a pool that is not the selected one.
\<close>

theorem hit_within_namespace:
  assumes "inj salt" and "\<forall>p q. length (salt p) = length (salt q)"
    and "\<forall>st. Register st \<in> set ops \<longrightarrow> 0 \<le> ps_queue_depth st"
    and "r = router_run sha (Router policy n (Some salt) metrics) ops" and "d = snd (route sha r spec)" and "is_hit d"
  shows "\<exists>p s k. select_admissible r spec = Some p \<and>
    balanced_earlier sha (Router policy n (Some salt) metrics) ops s k (pd_pool d) \<and> pd_prefix_hash d = Some k \<and>
    ((p = pd_pool d \<and> take 256 (rq_prompt_text s) = take 256 (rq_prompt_text spec)) \<or>
     collision sha (salt (pd_pool d) @ take 256 (rq_prompt_text s)) (salt p @ take 256 (rq_prompt_text spec)))"
proof -
  let ?r0 = "Router policy n (Some salt) metrics"
  have ok: "router_ok r" using router_run_ok [OF Router_ok assms(3)] assms(4) by simp
  have salt: "rt_salt_for_pool r = salt" by (simp add: assms(4) router_run_salt Router_def)
  have "rt_prefix_cache ?r0 = []" by (simp add: Router_def)
  then have acc: "accounted sha ?r0 ops r" using router_run_accounted [OF Router_ok _ assms(3)] assms(4) by blast
  obtain q where q: "cached_choice r spec (route_key sha r spec) = Some q" "pd_pool d = q" "pd_prefix_hash d = Some (route_key sha r spec)"
    by (cases rule: route_cases [of r sha spec]) (use assms(5,6) in \<open>auto simp: is_hit_def PoolDecision_def\<close>)
  have "\<exists>p. admits r spec p" using cached_choice_admits [OF q(1)] by blast
  then obtain p where p: "select_admissible r spec = Some p"
    using select_admissible_None [of r spec] ok by (auto simp: router_ok_def)
  obtain s where s: "balanced_earlier sha ?r0 ops s (route_key sha r spec) q"
    "prefix_key sha (rq_prompt_text s) (salt q) = prefix_key sha (rq_prompt_text spec) (salt p)"
    using acc cached_choice_entry [OF q(1)] route_key_selected [OF p, of sha] salt by (fastforce simp: accounted_def)
  show ?thesis using same_key [OF s(2) assms(1)] assms(2) p s(1) q(2,3) by blast
qed

text \<open>
  The cold-lookup counter is exact. With metrics attached and a pool registered, one routed request
  adds one to \<open>goodputlab_cache_no_history_total\<close> when it is not a cache hit, and nothing otherwise.
\<close>

theorem cold_lookup_counted:
  assumes "rt_metrics r = Some reg" and "rt_pools r \<noteq> []"
  shows "\<exists>reg'. rt_metrics (fst (route sha r spec)) = Some reg' \<and>
    counter_total reg' no_history_c - counter_total reg no_history_c = (if is_hit (snd (route sha r spec)) then 0 else 1)"
  using route_counts [OF assms, of sha spec] by auto

text \<open>
  Interactive requests bypass the headroom. With the bypass on, an interactive request is admitted
  as soon as one registered pool is healthy, however full the pools are.
\<close>

theorem interactive_bypass_admits:
  assumes "router_ok r" and "interactive_bypass (rt_policy r)" and "rq_slo_class spec = INTERACTIVE"
    and "od_get (rt_pools r) p = Some st" and "ps_healthy st"
  shows "pd_admitted (snd (route sha r spec))"
proof -
  have "admits r spec p" using assms by (auto simp: admits_def admissible_def)
  then show ?thesis using route_exact [OF assms(1), of sha spec] by (metis prod.collapse)
qed

section \<open>Examples\<close>

text \<open>Two pools of capacity 10 and a salt per pool; the digest is the identity.\<close>

definition ex_salt :: "pool \<Rightarrow> string" where
  "ex_salt p = take 16 (pool_value p @ ''................'')"

definition ex_router :: router where
  "ex_router =
     register_pool (register_pool (Router None 2 (Some ex_salt) (Some []))
       \<lparr>ps_pool = PREFILL, ps_queue_depth = 3, ps_capacity = 10, ps_healthy = True\<rparr>)
       \<lparr>ps_pool = DECODE, ps_queue_depth = 1, ps_capacity = 10, ps_healthy = True\<rparr>"

definition ex_spec :: "slo_class \<Rightarrow> request_spec" where
  "ex_spec c = \<lparr>rq_id = ''r'', rq_slo_class = c, rq_workload = CHAT, rq_prompt_tokens = 1,
     rq_output_tokens = 1, rq_prompt_text = ''hello''\<rparr>"

lemmas ex_defs = ex_salt_def ex_router_def ex_spec_def register_pool_def Router_def

lemmas route_eval = route_def route_key_def prefix_key_def select_admissible_def admissible_def headroom_used_pct_def
  cached_choice_def remember_def note_no_history_def PoolDecision_def update_depth_def od_move_to_end_def od_del_def

lemma ex_router_ok: "router_ok ex_router"
  unfolding ex_router_def by (intro register_pool_ok Router_ok) simp_all

lemma ex_reachable: "reachable sha (Router None 2 (Some ex_salt) (Some [])) ex_router"
proof -
  let ?p = "\<lparr>ps_pool = PREFILL, ps_queue_depth = 3, ps_capacity = 10, ps_healthy = True\<rparr>"
  let ?d = "\<lparr>ps_pool = DECODE, ps_queue_depth = 1, ps_capacity = 10, ps_healthy = True\<rparr>"
  have "reachable sha (Router None 2 (Some ex_salt) (Some []))
      (router_step sha (router_step sha (Router None 2 (Some ex_salt) (Some [])) (Register ?p)) (Register ?d))"
    by (intro reachable.intros) auto
  then show ?thesis by (simp add: ex_router_def)
qed

lemma ex_salt_inj: "inj ex_salt" "\<forall>p q. length (ex_salt p) = length (ex_salt q)"
proof -
  show "inj ex_salt" by (rule injI, rename_tac p q, case_tac p; case_tac q) (simp_all add: ex_salt_def)
  have "length (ex_salt p) = 16" for p by (cases p) (simp_all add: ex_salt_def)
  then show "\<forall>p q. length (ex_salt p) = length (ex_salt q)" by simp
qed

text \<open>The history that leads to the example, with one routed request.\<close>

definition ex_ops :: "router_op list" where
  "ex_ops = [Register \<lparr>ps_pool = PREFILL, ps_queue_depth = 3, ps_capacity = 10, ps_healthy = True\<rparr>,
     Register \<lparr>ps_pool = DECODE, ps_queue_depth = 1, ps_capacity = 10, ps_healthy = True\<rparr>, Route (ex_spec BATCH)]"

lemma ex_ops_run: "router_run sha (Router None 2 (Some ex_salt) (Some [])) ex_ops = fst (route sha ex_router (ex_spec BATCH))"
  by (simp add: router_run_def ex_ops_def ex_router_def)

lemma ex_route:
  "route (\<lambda>s. s) ex_router (ex_spec BATCH) =
     (ex_router\<lparr>rt_prefix_cache := [(ex_salt DECODE, DECODE)], rt_metrics := Some (inc_no_history [])\<rparr>,
      PoolDecision DECODE True ''load_balance'' (Some (ex_salt DECODE)))"
  by (simp add: route_eval ex_defs sort_key_def Let_def)

lemma ex_admits: "admits ex_router (ex_spec c) DECODE" "\<not> admits ex_router (ex_spec c) TIER"
  by (simp_all add: admits_def ex_defs admissible_def headroom_used_pct_def)

theorem route_admission_witness:
  "pd_admitted (snd (route (\<lambda>s. s) ex_router (ex_spec BATCH))) \<and>
   admits ex_router (ex_spec BATCH) (pd_pool (snd (route (\<lambda>s. s) ex_router (ex_spec BATCH))))"
  using route_admission [OF ex_router_ok ex_route] ex_admits(1) by (auto simp: ex_route)

theorem route_balances_witness: "lighter ex_router DECODE PREFILL"
proof -
  have "admits ex_router (ex_spec BATCH) PREFILL"
    by (simp add: admits_def ex_defs admissible_def headroom_used_pct_def)
  moreover have "rq_workload (ex_spec BATCH) = CHAT" by (simp add: ex_spec_def)
  ultimately show ?thesis using route_balances [OF ex_router_ok ex_route] by (simp add: PoolDecision_def)
qed

theorem route_sticky_witness:
  "pd_reason (snd (route (\<lambda>s. s) (fst (route (\<lambda>s. s) ex_router (ex_spec BATCH))) (ex_spec BATCH))) = ''cache_hit''"
proof -
  have "1 \<le> rt_cache_max ex_router" by (simp add: ex_defs)
  then show ?thesis
    using route_sticky [OF ex_router_ok _ ex_route, of "ex_spec BATCH"] by (simp add: ex_route PoolDecision_def)
qed

theorem reachable_router_bounded_witness: "int (cache_size ex_router) \<le> 2"
  using reachable_router_bounded [OF ex_reachable [of "\<lambda>s. s"]] by simp

text \<open>A digest that keeps the end of the text: the hit of the example comes from the one request routed before.\<close>

lemma ex_hit_rev:
  "snd (route rev (fst (route rev ex_router (ex_spec BATCH))) (ex_spec BATCH)) =
     PoolDecision DECODE True ''cache_hit'' (Some (take 16 (rev (ex_salt DECODE @ ''hello''))))"
  by (simp add: route_eval ex_defs sort_key_def Let_def)

theorem hit_within_namespace_witness:
  "\<exists>s. balanced_earlier rev (Router None 2 (Some ex_salt) (Some [])) ex_ops s ''olleh..........e'' DECODE \<and>
     take 256 (rq_prompt_text s) = ''hello''"
proof -
  let ?d = "snd (route rev (router_run rev (Router None 2 (Some ex_salt) (Some [])) ex_ops) (ex_spec BATCH))"
  have hit: "?d = PoolDecision DECODE True ''cache_hit'' (Some ''olleh..........e'')"
    unfolding ex_ops_run ex_hit_rev by (simp add: ex_salt_def)
  have reg: "\<forall>st. Register st \<in> set ex_ops \<longrightarrow> 0 \<le> ps_queue_depth st" by (auto simp: ex_ops_def)
  have "is_hit ?d" unfolding hit by (simp add: is_hit_def PoolDecision_def)
  from hit_within_namespace [OF ex_salt_inj reg refl refl this] obtain s where
    s: "balanced_earlier rev (Router None 2 (Some ex_salt) (Some [])) ex_ops s ''olleh..........e'' DECODE"
    unfolding hit by (auto simp: PoolDecision_def)
  then have "Route s \<in> set ex_ops" unfolding balanced_earlier_def by (metis in_set_conv_decomp)
  then have "take 256 (rq_prompt_text s) = ''hello''" by (auto simp: ex_ops_def ex_spec_def)
  with s show ?thesis by blast
qed

theorem cold_lookup_counted_witness:
  "\<exists>reg. rt_metrics (fst (route (\<lambda>s. s) ex_router (ex_spec BATCH))) = Some reg \<and> counter_total reg no_history_c = 1"
proof -
  have "rt_metrics ex_router = Some []" "rt_pools ex_router \<noteq> []" by (simp_all add: ex_defs)
  then show ?thesis
    using cold_lookup_counted [of ex_router "[]" "\<lambda>s. s" "ex_spec BATCH"]
    by (simp add: ex_route is_hit_def PoolDecision_def counter_total_def)
qed

text \<open>The decode pool of the example, far over its headroom.\<close>

theorem interactive_bypass_admits_witness:
  "pd_admitted (snd (route (\<lambda>s. s) (update_depth ex_router DECODE 99) (ex_spec INTERACTIVE)))"
proof -
  have "router_ok (update_depth ex_router DECODE 99)" using ex_router_ok by (rule update_depth_ok)
  moreover have "interactive_bypass (rt_policy (update_depth ex_router DECODE 99))"
    "rq_slo_class (ex_spec INTERACTIVE) = INTERACTIVE"
    "od_get (rt_pools (update_depth ex_router DECODE 99)) DECODE =
       Some \<lparr>ps_pool = DECODE, ps_queue_depth = 99, ps_capacity = 10, ps_healthy = True\<rparr>"
    by (simp_all add: ex_defs update_depth_def)
  ultimately show ?thesis by (rule interactive_bypass_admits) simp
qed

text \<open>
  History is looked up under one salt only. In the example the prompt was routed to the decode
  pool; when the decode pool gets deeper than the prefill pool but still admits, the same prompt is a
  cold lookup on the prefill pool: the lookup tries the selected pool's salt and not each pool's.
\<close>

theorem history_of_other_pools_ignored:
  "let r = update_depth (fst (route (\<lambda>s. s) ex_router (ex_spec BATCH))) DECODE 4
   in admits r (ex_spec BATCH) DECODE \<and> od_get (rt_prefix_cache r) (ex_salt DECODE) = Some DECODE \<and>
      snd (route (\<lambda>s. s) r (ex_spec BATCH)) = PoolDecision PREFILL True ''load_balance'' (Some (ex_salt PREFILL))"
  unfolding ex_route Let_def
  by (simp add: route_eval ex_defs sort_key_def Let_def admits_def)

text \<open>
  The cache overrides rules 2 and 3 of the module. With the default empty salts, a batch request whose
  prefix is cached for the decode pool goes there although the prefill pool is lighter, and a RAG request
  whose prefix is cached goes to the decode pool although a tier pool is registered that admits it.
\<close>

definition ex_plain_router :: router where
  "ex_plain_router =
     register_pool (register_pool (Router None 2 None None)
       \<lparr>ps_pool = PREFILL, ps_queue_depth = 3, ps_capacity = 10, ps_healthy = True\<rparr>)
       \<lparr>ps_pool = DECODE, ps_queue_depth = 1, ps_capacity = 10, ps_healthy = True\<rparr>"

lemma sticky_overrides_rules:
  "let spec = ex_spec BATCH; r = update_depth (fst (route (\<lambda>s. s) ex_plain_router spec)) DECODE 5
   in admits r spec PREFILL \<and> \<not> lighter r DECODE PREFILL \<and>
      snd (route (\<lambda>s. s) r spec) = PoolDecision DECODE True ''cache_hit'' (Some ''hello'')"
  "let spec = (ex_spec BATCH)\<lparr>rq_workload := RAG\<rparr>;
       r = register_pool (fst (route (\<lambda>s. s) ex_plain_router spec))
         \<lparr>ps_pool = TIER, ps_queue_depth = 0, ps_capacity = 10, ps_healthy = True\<rparr>
   in admits r spec TIER \<and> snd (route (\<lambda>s. s) r spec) = PoolDecision DECODE True ''cache_hit'' (Some ''hello'')"
  by (simp_all add: route_eval ex_plain_router_def register_pool_def Router_def ex_spec_def sort_key_def Let_def admits_def lighter_def)

end
