(* ===== verification/SynthText.thy ===== *)
theory SynthText
  imports PyRandom PyText
begin

text \<open>
  \<open>loadgen/synth_text.py\<close>: the word list and the deterministic builders of paragraphs, documents and
  queries, with the whitespace token count they are measured by.
\<close>

definition WORDS :: "string list" where
  "WORDS =
    [''the'', ''of'', ''and'', ''to'', ''in'', ''that'', ''have'', ''it'', ''for'', ''not'', ''on'',
     ''with'', ''he'', ''as'', ''you'', ''do'', ''at'', ''this'', ''but'', ''his'', ''by'', ''from'',
     ''they'', ''we'', ''say'', ''her'', ''she'', ''or'', ''an'', ''will'', ''my'', ''one'', ''all'',
     ''would'', ''there'', ''their'', ''what'', ''so'', ''up'', ''out'', ''if'', ''about'', ''who'',
     ''get'', ''which'', ''go'', ''me'', ''when'', ''make'', ''can'', ''like'', ''time'', ''no'',
     ''just'', ''him'', ''know'', ''take'', ''people'', ''into'', ''year'', ''your'', ''good'',
     ''some'', ''could'', ''them'', ''see'', ''other'', ''than'', ''then'', ''now'', ''look'', ''only'',
     ''come'', ''its'', ''over'', ''think'', ''also'', ''back'', ''after'', ''use'', ''two'', ''how'',
     ''our'', ''work'', ''first'', ''well'', ''way'', ''even'', ''new'', ''want'', ''because'', ''any'',
     ''these'', ''give'', ''day'', ''most'', ''us'', ''system'', ''model'', ''data'', ''process'',
     ''compute'', ''function'', ''value'', ''result'', ''input'', ''output'', ''request'', ''response'',
     ''token'', ''prompt'', ''context'', ''query'', ''search'', ''document'', ''vector'', ''index'',
     ''cache'', ''memory'', ''buffer'', ''queue'', ''batch'', ''stream'', ''frame'', ''window'',
     ''layer'', ''node'', ''graph'', ''tree'', ''hash'', ''key'', ''store'', ''fetch'', ''load'',
     ''save'', ''update'', ''delete'', ''merge'', ''split'', ''join'', ''filter'', ''sort'', ''rank'',
     ''score'', ''weight'', ''bias'', ''gradient'', ''loss'', ''epoch'', ''step'', ''rate'', ''limit'',
     ''count'', ''size'', ''length'', ''depth'', ''width'', ''height'', ''scale'', ''ratio'', ''delta'',
     ''shift'', ''drift'', ''trend'', ''phase'', ''state'', ''event'', ''signal'', ''channel'',
     ''wire'', ''path'', ''route'', ''hop'', ''edge'', ''vertex'', ''trace'', ''log'', ''metric'',
     ''stat'', ''summary'', ''report'', ''agent'', ''tool'', ''call'', ''return'', ''error'',
     ''warning'', ''info'', ''debug'', ''user'', ''admin'', ''owner'', ''guest'', ''session'',
     ''token'', ''scope'', ''role'', ''policy'', ''rule'', ''config'', ''schema'', ''model'', ''field'',
     ''row'', ''column'', ''table'', ''database'', ''transaction'', ''commit'', ''rollback'',
     ''checkpoint'', ''snapshot'', ''version'', ''release'', ''build'', ''deploy'', ''restart'',
     ''scale'', ''health'', ''ready'', ''warm'', ''cold'', ''hit'', ''miss'', ''evict'', ''promote'']"

definition synth_token_count :: "string \<Rightarrow> nat" where
  "synth_token_count s = (if s = [] then 0 else length (py_split s))"

text \<open>
  The loop of \<open>synth_paragraph\<close>: up to 20 more words at a time; when the target is not reached yet, the
  last word is capitalized and gets a period.
\<close>

function para_loop :: "'g rng \<Rightarrow> nat \<Rightarrow> string list \<Rightarrow> 'g \<Rightarrow> (string list \<times> 'g) result" where
  "para_loop R target words g =
     (if length words < target
      then let n = min 20 (target - length words) in
        rbind (choices R WORDS n g) (\<lambda>(more, g1).
          let words1 = words @ more in
          if length words1 < target
          then para_loop R target (words1[length words1 - 1 := py_capitalize (last words1) @ ''.'']) g1
          else para_loop R target words1 g1)
      else Inr (words, g))"
  by pat_completeness auto

termination
  by (relation "measure (\<lambda>(R, target, words, g). target - length words)") (auto dest!: choices_length)

declare para_loop.simps [simp del]

definition upper_first :: "string \<Rightarrow> string result" where
  "upper_first s = (case s of [] \<Rightarrow> Inl IndexError | c # r \<Rightarrow> Inr (char_upper c # r))"

definition synth_paragraph :: "'g rng \<Rightarrow> int \<Rightarrow> 'g \<Rightarrow> (string \<times> 'g) result" where
  "synth_paragraph R target_tokens g =
     (if target_tokens \<le> 0 then Inr ([], g)
      else rbind (para_loop R (nat target_tokens) [] g) (\<lambda>(words, g1).
        rbind (upper_first (joined '' '' (take (nat target_tokens) words))) (\<lambda>s. Inr (s, g1))))"

text \<open>Paragraphs of 200 words, the last one with the rest; the loop counts down the paragraphs left.\<close>

fun doc_loop :: "'g rng \<Rightarrow> nat \<Rightarrow> int \<Rightarrow> 'g \<Rightarrow> (string list \<times> 'g) result" where
  "doc_loop R 0 remaining g = Inr ([], g)"
| "doc_loop R (Suc left) remaining g =
     (let sz = (if left = 0 then remaining else 200) in
      rbind (synth_paragraph R sz g) (\<lambda>(p, g1).
        if remaining - sz \<le> 0 then Inr ([p], g1)
        else rbind (doc_loop R left (remaining - sz) g1) (\<lambda>(ps, g2). Inr (p # ps, g2))))"

definition synth_document :: "'g rng \<Rightarrow> int \<Rightarrow> 'g \<Rightarrow> (string \<times> 'g) result" where
  "synth_document R target_tokens g =
     (if target_tokens \<le> 0 then Inr ([], g)
      else rbind (doc_loop R (nat (max 1 (target_tokens div 200))) target_tokens g) (\<lambda>(paras, g1).
        Inr (joined [CHR 0x0A, CHR 0x0A] paras, g1)))"

definition synth_query :: "'g rng \<Rightarrow> int \<Rightarrow> 'g \<Rightarrow> (string \<times> 'g) result" where
  "synth_query R target_tokens g =
     (if target_tokens \<le> 0 then Inr ([], g)
      else rbind (synth_paragraph R (max 1 (target_tokens - 6)) g) (\<lambda>(body, g1).
        Inr (''Question: '' @ body @ '' Please answer concisely.'', g1)))"

section \<open>Token counts\<close>

lemma WORDS_words: "w \<in> set WORDS \<Longrightarrow> is_word w"
proof -
  have "list_all is_word WORDS" unfolding WORDS_def by (simp add: is_word_def is_space_def)
  then show "w \<in> set WORDS \<Longrightarrow> is_word w" by (simp add: list_all_iff)
qed

lemma WORDS_many: "200 \<le> length WORDS"
  by (simp add: WORDS_def)

lemma WORDS_nonempty: "WORDS \<noteq> []"
  using WORDS_many by auto

text \<open>Splitting at one whitespace character splits the two sides on their own.\<close>

lemma split_acc_space: "is_space c \<Longrightarrow> split_acc w (a @ c # b) = split_acc w a @ split_acc [] b"
  by (induction a arbitrary: w) auto

lemma split_space: "is_space c \<Longrightarrow> py_split (a @ c # b) = py_split a @ py_split b"
  by (simp add: py_split_def split_acc_space)

lemma token_count_split: "synth_token_count s = length (py_split s)"
  by (simp add: synth_token_count_def)

lemma token_count_space:
  "is_space c \<Longrightarrow> synth_token_count (a @ c # b) = synth_token_count a + synth_token_count b"
  by (simp add: token_count_split split_space)

lemma words_update:
  assumes "\<forall>w\<in>set ws. is_word w" "ws \<noteq> []"
  shows "\<forall>w\<in>set (ws[length ws - 1 := py_capitalize (last ws) @ ''.'']). is_word w"
proof -
  have "is_word (py_capitalize (last ws) @ ''.'')"
    using assms by (intro is_word_append) (auto simp: is_space_def)
  then show ?thesis using assms(1) set_update_subset_insert [of ws "length ws - 1"] by blast
qed

lemma para_loop_words:
  assumes "rng_ok R" "\<forall>w\<in>set words. is_word w" "length words \<le> target"
  shows "\<exists>ws g'. para_loop R target words g = Inr (ws, g') \<and> length ws = target \<and> (\<forall>w\<in>set ws. is_word w)"
  using assms(2,3)
proof (induction "target - length words" arbitrary: words g rule: less_induct)
  case less
  show ?case
  proof (cases "length words < target")
    case False
    then have "para_loop R target words g = Inr (words, g)" by (simp add: para_loop.simps [of R target words g])
    then show ?thesis using less.prems False by simp
  next
    case True
    define n where "n = min 20 (target - length words)"
    obtain more g1 where more: "choices R WORDS n g = Inr (more, g1)"
      using choices_total [OF WORDS_nonempty, of R n g] by blast
    have len: "length more = n" and "set more \<subseteq> set WORDS" using choices_Inr [OF assms(1) more] by auto
    then have ok: "\<forall>w\<in>set (words @ more). is_word w" using less.prems(1) WORDS_words by auto
    have n: "0 < n" "length words + n \<le> target" using True by (auto simp: n_def)
    let ?w = "words @ more"
    have eq: "para_loop R target words g =
        (if length ?w < target
         then para_loop R target (?w[length ?w - 1 := py_capitalize (last ?w) @ ''.'']) g1
         else para_loop R target ?w g1)"
      by (subst para_loop.simps) (simp add: True more Let_def flip: n_def)
    show ?thesis
    proof (cases "length ?w < target")
      case True
      let ?w1 = "?w[length ?w - 1 := py_capitalize (last ?w) @ ''.'']"
      have "\<forall>w\<in>set ?w1. is_word w" using len n(1) by (intro words_update [OF ok]) auto
      then have "\<exists>ws g'. para_loop R target ?w1 g1 = Inr (ws, g') \<and> length ws = target \<and> (\<forall>w\<in>set ws. is_word w)"
        by (rule less.hyps [rotated]) (use True len n in simp_all)
      then show ?thesis using eq True by simp
    next
      case False
      have "\<exists>ws g'. para_loop R target ?w g1 = Inr (ws, g') \<and> length ws = target \<and> (\<forall>w\<in>set ws. is_word w)"
        by (rule less.hyps [OF _ ok]) (use False len n \<open>length words < target\<close> in simp_all)
      then show ?thesis using eq False by simp
    qed
  qed
qed

lemma split_upper_first: "py_split (char_upper c # s) = (case py_split (c # s) of [] \<Rightarrow> [] | w # ws \<Rightarrow>
   if is_space c then w # ws else (char_upper (hd w) # tl w) # ws)"
proof (cases "is_space c")
  case True
  then show ?thesis by (simp add: py_split_def split: list.splits)
next
  case False
  have "split_acc (x # u) s = (case split_acc (y # u) s of [] \<Rightarrow> [] | w # ws \<Rightarrow> (x # tl w) # ws)
      \<and> (\<exists>w ws. split_acc (y # u) s = w # ws \<and> hd w = y)" for x y u
    by (induction s arbitrary: u) auto
  from this [of "char_upper c" "[]" c] False show ?thesis by (auto simp: py_split_def split: list.splits)
qed

lemma split_upper_first_length: "length (py_split (char_upper c # s)) = length (py_split (c # s))"
  by (simp add: split_upper_first split: list.splits)

text \<open>A paragraph has exactly as many tokens as asked for.\<close>

lemma synth_paragraph_tokens:
  assumes "rng_ok R"
  shows "\<exists>s g'. synth_paragraph R n g = Inr (s, g') \<and> synth_token_count s = nat n"
proof (cases "n \<le> 0")
  case True
  then show ?thesis by (simp add: synth_paragraph_def synth_token_count_def)
next
  case False
  obtain ws g1 where ws: "para_loop R (nat n) [] g = Inr (ws, g1)" "length ws = nat n" "\<forall>w\<in>set ws. is_word w"
    using para_loop_words [OF assms, of "[]" "nat n" g] by auto
  have split: "py_split (joined '' '' ws) = ws"
    by (rule split_joined) (use ws(3) in \<open>auto simp: is_space_def\<close>)
  obtain c r where cr: "joined '' '' ws = c # r"
    using split ws(2) False by (cases "joined '' '' ws") auto
  have "synth_paragraph R n g = Inr (char_upper c # r, g1)"
    using False ws cr by (simp add: synth_paragraph_def upper_first_def)
  moreover have "synth_token_count (char_upper c # r) = nat n"
    using split ws(2) cr by (simp add: token_count_split split_upper_first_length)
  ultimately show ?thesis by blast
qed

lemma split_sep:
  assumes "\<forall>c\<in>set sep. is_space c" "sep \<noteq> []"
  shows "py_split (a @ sep @ b) = py_split a @ py_split b"
proof -
  obtain c r where sep: "sep = c # r" using assms(2) by (cases sep) auto
  have "py_split (r @ b) = py_split b" using assms(1) sep by (simp add: py_split_def split_acc_spaces)
  then show ?thesis using split_space [of c a "r @ b"] assms(1) sep by simp
qed

lemma joined_sep_count:
  assumes "\<forall>c\<in>set sep. is_space c" "sep \<noteq> []"
  shows "synth_token_count (joined sep ss) = sum_list (map synth_token_count ss)"
  using assms by (induction sep ss rule: joined.induct) (simp_all add: token_count_split split_sep)

lemma doc_loop_tokens:
  assumes "rng_ok R" "0 < remaining" "200 * (int n - 1) \<le> remaining" "0 < n"
  shows "\<exists>ps g'. doc_loop R n remaining g = Inr (ps, g') \<and> sum_list (map synth_token_count ps) = nat remaining"
  using assms(2-)
proof (induction n arbitrary: remaining g)
  case 0
  then show ?case by simp
next
  case (Suc left)
  let ?sz = "if left = 0 then remaining else 200"
  obtain p g1 where p: "synth_paragraph R ?sz g = Inr (p, g1)" "synth_token_count p = nat ?sz"
    using synth_paragraph_tokens [OF assms(1)] by blast
  show ?case
  proof (cases "remaining - ?sz \<le> 0")
    case True
    have "remaining \<le> ?sz" "?sz \<le> remaining" using True Suc.prems by auto
    then show ?thesis using p True by (simp add: Let_def)
  next
    case False
    then have left: "0 < left" and r: "0 < remaining - 200" by (auto split: if_splits)
    have "200 * (int left - 1) \<le> remaining - 200" using Suc.prems(2) by simp
    then obtain ps g2 where "doc_loop R left (remaining - 200) g1 = Inr (ps, g2)"
      "sum_list (map synth_token_count ps) = nat (remaining - 200)"
      using Suc.IH [OF r _ left] by blast
    then show ?thesis using p False left r by (simp add: Let_def)
  qed
qed

lemma synth_document_tokens:
  assumes "rng_ok R"
  shows "\<exists>s g'. synth_document R n g = Inr (s, g') \<and> synth_token_count s = nat n"
proof (cases "n \<le> 0")
  case True
  then show ?thesis by (simp add: synth_document_def synth_token_count_def)
next
  case False
  let ?k = "nat (max 1 (n div 200))"
  have "200 * (int ?k - 1) \<le> n" using False by (simp add: max_def) linarith
  moreover have "0 < ?k" by simp
  ultimately obtain ps g1 where "doc_loop R ?k n g = Inr (ps, g1)" "sum_list (map synth_token_count ps) = nat n"
    using doc_loop_tokens [OF assms, of n ?k g] False by (meson not_le)
  moreover have "synth_token_count (joined [CHR 0x0A, CHR 0x0A] ps) = sum_list (map synth_token_count ps)"
    by (rule joined_sep_count) (simp_all add: is_space_def)
  ultimately show ?thesis using False by (simp add: synth_document_def)
qed

lemma synth_query_tokens:
  assumes "rng_ok R" "0 < n"
  shows "\<exists>s g'. synth_query R n g = Inr (s, g') \<and> synth_token_count s = nat (max 1 (n - 6)) + 4"
proof -
  obtain b g1 where b: "synth_paragraph R (max 1 (n - 6)) g = Inr (b, g1)" "synth_token_count b = nat (max 1 (n - 6))"
    using synth_paragraph_tokens [OF assms(1)] by blast
  have "py_split (''Question: '' @ b @ '' Please answer concisely.'') =
      py_split ''Question:'' @ py_split b @ py_split ''Please answer concisely.''"
    using split_sep [of "'' ''" "''Question:''" "b @ '' Please answer concisely.''"]
      split_sep [of "'' ''" b "''Please answer concisely.''"] by (simp add: is_space_def)
  moreover have "length (py_split ''Question:'') = 1" "length (py_split ''Please answer concisely.'') = 3"
    by (simp_all add: py_split_def is_space_def)
  ultimately show ?thesis using b assms(2) by (simp add: synth_query_def token_count_split)
qed

section \<open>Properties\<close>

text \<open>
  Token budgets are met exactly. For a generator in range, paragraphs and documents have exactly the
  requested number of whitespace tokens, and a query of \<open>n\<close> has \<open>max(1, n - 6) + 4\<close>.
\<close>

theorem token_budgets_exact:
  assumes "rng_ok R" and "0 < n"
  shows "(\<exists>s g'. synth_paragraph R n g = Inr (s, g') \<and> int (synth_token_count s) = n) \<and>
    (\<exists>s g'. synth_document R n g = Inr (s, g') \<and> int (synth_token_count s) = n) \<and>
    (\<exists>s g'. synth_query R n g = Inr (s, g') \<and> int (synth_token_count s) = max 1 (n - 6) + 4)"
  using synth_paragraph_tokens [OF assms(1), of n g] synth_document_tokens [OF assms(1), of n g]
    synth_query_tokens [OF assms, of g] assms(2) by fastforce

theorem token_budgets_exact_witness:
  "\<exists>s g'. synth_paragraph counting_rng 30 0 = Inr (s, g') \<and> int (synth_token_count s) = 30"
  using token_budgets_exact [OF counting_rng_ok, of 30 0] by simp

end
