(* ===== verification/Workloads.thy ===== *)
theory Workloads
  imports SynthText Trace
begin

text \<open>
  What the three workload generators of \<open>loadgen/\<close> share: the loop that builds the request list, the
  request identifiers, and the interface of one iteration.
\<close>

abbreviation newline :: char where
  "newline \<equiv> CHR 0x0A"

definition request_id :: "string \<Rightarrow> nat \<Rightarrow> string" where
  "request_id kind i = kind @ ''-'' @ zero_pad 5 (nat_str i)"

text \<open>\<open>for i in range(n)\<close>, appending one request per iteration; \<open>i\<close> is the next index.\<close>

fun request_loop :: "(nat \<Rightarrow> 's \<Rightarrow> (request_spec \<times> 's) result) \<Rightarrow> nat \<Rightarrow> nat \<Rightarrow> 's \<Rightarrow> (request_spec list \<times> 's) result" where
  "request_loop step i 0 s = Inr ([], s)"
| "request_loop step i (Suc n) s =
     rbind (step i s) (\<lambda>(r, s1). rbind (request_loop step (Suc i) n s1) (\<lambda>(rs, s2). Inr (r # rs, s2)))"

lemma request_id_inj: "request_id kind i = request_id kind j \<longleftrightarrow> i = j"
  by (simp add: request_id_def zero_pad_nat_inj)

text \<open>The loop calls its body with consecutive indices, and stops at the first error.\<close>

locale request_stream =
  fixes step :: "nat \<Rightarrow> 's \<Rightarrow> (request_spec \<times> 's) result"
    and inv :: "nat \<Rightarrow> 's \<Rightarrow> bool"
    and fits :: "nat \<Rightarrow> request_spec \<Rightarrow> bool"
    and kind :: string
    and limit :: nat
  assumes step_total: "inv i s \<Longrightarrow> i < limit \<Longrightarrow> \<exists>r s'. step i s = Inr (r, s')"
    and step_inv: "inv i s \<Longrightarrow> step i s = Inr (r, s') \<Longrightarrow> inv (Suc i) s'"
    and step_fits: "inv i s \<Longrightarrow> step i s = Inr (r, s') \<Longrightarrow> fits i r"
    and step_id: "step i s = Inr (r, s') \<Longrightarrow> rq_id r = request_id kind i"
begin

lemma loop_total: "inv i s \<Longrightarrow> i + n \<le> limit \<Longrightarrow> \<exists>rs s'. request_loop step i n s = Inr (rs, s')"
proof (induction n arbitrary: i s)
  case 0
  then show ?case by simp
next
  case (Suc n)
  obtain r s1 where r: "step i s = Inr (r, s1)" using step_total [OF Suc.prems(1)] Suc.prems(2) by auto
  then show ?case using Suc.IH [OF step_inv [OF Suc.prems(1) r]] Suc.prems(2) by auto
qed

lemma loop_fits:
  "inv i s \<Longrightarrow> request_loop step i n s = Inr (rs, s') \<Longrightarrow> length rs = n \<and> (\<forall>j<n. fits (i + j) (rs ! j))"
proof (induction n arbitrary: i s rs)
  case 0
  then show ?case by simp
next
  case (Suc n)
  obtain r s1 rs1 where r: "step i s = Inr (r, s1)" and rest: "request_loop step (Suc i) n s1 = Inr (rs1, s')"
    and rs: "rs = r # rs1" using Suc.prems(2) by (auto simp: rbind_eq_Inr)
  have "length rs1 = n \<and> (\<forall>j<n. fits (Suc i + j) (rs1 ! j))" using Suc.IH [OF step_inv [OF Suc.prems(1) r] rest] .
  moreover have "fits i r" using step_fits [OF Suc.prems(1) r] .
  ultimately show ?case by (auto simp: rs less_Suc_eq_0_disj)
qed

lemma loop_ids: "request_loop step i n s = Inr (rs, s') \<Longrightarrow> map rq_id rs = map (request_id kind) [i..<i + n]"
proof (induction n arbitrary: i s rs)
  case 0
  then show ?case by simp
next
  case (Suc n)
  obtain r s1 rs1 where r: "step i s = Inr (r, s1)" and rest: "request_loop step (Suc i) n s1 = Inr (rs1, s')"
    and rs: "rs = r # rs1" using Suc.prems by (auto simp: rbind_eq_Inr)
  have "[i..<i + Suc n] = i # [Suc i..<Suc i + n]" by (simp add: upt_conv_Cons del: upt_Suc)
  then show ?case using Suc.IH [OF rest] step_id [OF r] rs by (simp del: upt_Suc)
qed

lemma loop_ids_distinct: "request_loop step i n s = Inr (rs, s') \<Longrightarrow> distinct (map rq_id rs)"
  by (simp add: loop_ids distinct_map inj_on_def request_id_inj)

end

end
