(* ===== verification/RouterBench.thy ===== *)
theory RouterBench
  imports RouterRuns Workloads
begin

text \<open>
  \<open>bench/router_bench.py\<close>: the cold and the warm request streams that measure the router's prefix cache.
  The lemmas are about routing a stream on a fresh cache with the pools at rest: streams whose keys
  are all different never hit, and a stream over \<open>k\<close> keys misses at most \<open>k\<close> times when the cache can
  hold them.
\<close>

section \<open>Streams\<close>

definition bench_words :: "string list" where
  "bench_words = [
    ''the'', ''of'', ''and'', ''to'', ''in'', ''that'', ''with'', ''for'', ''on'', ''at'', ''by'',
    ''from'', ''as'', ''is'', ''are'', ''was'', ''were'', ''be'', ''been'', ''being'', ''have'', ''has'',
    ''had'', ''do'', ''does'', ''did'', ''will'', ''would'', ''should'', ''could'', ''may'', ''might'',
    ''must'', ''shall'', ''can'', ''this'', ''these'', ''those'', ''an'', ''a'', ''or'', ''but'', ''if'',
    ''then'', ''else'', ''when'', ''where'', ''why'', ''how'', ''what'', ''which'', ''who'', ''whom'',
    ''whose'', ''data'', ''system'', ''model'', ''inference'', ''training'', ''learning'', ''neural'',
    ''network'', ''transformer'', ''attention'', ''cache'', ''memory'', ''prefill'', ''decode'',
    ''latency'', ''throughput'', ''token'', ''embedding'', ''weight'', ''layer'', ''node'', ''edge'',
    ''graph'', ''tensor'', ''kernel'', ''compute'', ''scheduler'', ''queue'', ''batch'', ''prompt'',
    ''response'', ''context'', ''kv'', ''attention'', ''flash'', ''page'', ''block'', ''sequence'',
    ''request'', ''service'', ''control'', ''plane'', ''load'', ''balancer'', ''metric'', ''p99'', ''p95'',
    ''p50'', ''ttft'', ''itl'', ''tpot'', ''goodput'']"

text \<open>\<open>f"prefix-{idx}-" + " ".join(rng.choice(words) for _ in range(target_tokens))\<close>\<close>

definition make_prefix :: "'g rng \<Rightarrow> nat \<Rightarrow> nat \<Rightarrow> 'g \<Rightarrow> (string \<times> 'g) result" where
  "make_prefix R idx target_tokens g =
     rbind (choices R bench_words target_tokens g) (\<lambda>(ws, g1).
       Inr (''prefix-'' @ nat_str idx @ ''-'' @ joined '' '' ws, g1))"

definition spec_from_prompt :: "string \<Rightarrow> string \<Rightarrow> request_spec result" where
  "spec_from_prompt rid prompt =
     RequestSpec rid INTERACTIVE CHAT (max 1 (int (length (py_split prompt)))) 32 prompt"

definition stream_id :: "string \<Rightarrow> nat \<Rightarrow> string" where
  "stream_id kind i = kind @ ''-'' @ zero_pad 4 (nat_str i)"

record regime_report =
  rr_regime :: string
  rr_n_requests :: nat
  rr_cache_hits :: nat
  rr_cache_hit_rate :: real
  rr_pools_used :: "(string, nat) odict"
  rr_decisions :: "pool_decision list"

text \<open>\<open>max(d, key=...)\<close> is the first key with the largest count.\<close>

fun best_key :: "(string \<times> nat) \<Rightarrow> (string, nat) odict \<Rightarrow> string" where
  "best_key b [] = fst b"
| "best_key b (kv # d) = (if snd b < snd kv then best_key kv d else best_key b d)"

definition pool_of_value :: "string \<Rightarrow> pool result" where
  "pool_of_value n =
     (case filter (\<lambda>p. pool_value p = n) [PREFILL, DECODE, COLOCATED, TIER] of [] \<Rightarrow> Inl ValueError | p # _ \<Rightarrow> Inr p)"

definition top_pool :: "regime_report \<Rightarrow> pool option result" where
  "top_pool rep =
     (case rr_pools_used rep of
        [] \<Rightarrow> Inr None
      | kv # d \<Rightarrow> rbind (pool_of_value (best_key kv d)) (\<lambda>p. Inr (Some p)))"

definition count_pool :: "(string, nat) odict \<Rightarrow> pool_decision \<Rightarrow> (string, nat) odict" where
  "count_pool used d =
     (if pd_admitted d
      then od_set (pool_value (pd_pool d)) ((case od_get used (pool_value (pd_pool d)) of None \<Rightarrow> 0 | Some n \<Rightarrow> n) + 1) used
      else used)"

definition summarize :: "string \<Rightarrow> pool_decision list \<Rightarrow> regime_report" where
  "summarize regime decisions =
     (let cache_hits = length (filter (\<lambda>d. pd_reason d = ''cache_hit'') decisions); n = length decisions in
      \<lparr>rr_regime = regime, rr_n_requests = n, rr_cache_hits = cache_hits,
       rr_cache_hit_rate = (if 0 < n then real cache_hits / real n else 0),
       rr_pools_used = foldl count_pool [] decisions, rr_decisions = decisions\<rparr>)"

text \<open>The two loops; \<open>i\<close> is the next index, the router is the benchmark's state.\<close>

fun cold_loop ::
  "'g rng \<Rightarrow> digest \<Rightarrow> nat \<Rightarrow> nat \<Rightarrow> nat \<Rightarrow> 'g \<Rightarrow> router \<Rightarrow> (pool_decision list \<times> router) result" where
  "cold_loop R sha target i 0 g rt = Inr ([], rt)"
| "cold_loop R sha target i (Suc n) g rt =
     rbind (make_prefix R i target g) (\<lambda>(prompt, g1).
     rbind (spec_from_prompt (stream_id ''cold'' i) prompt) (\<lambda>spec.
       case route sha rt spec of (rt1, d) \<Rightarrow>
       rbind (cold_loop R sha target (Suc i) n g1 rt1) (\<lambda>(ds, rt2). Inr (d # ds, rt2))))"

definition run_cold :: "'g rng \<Rightarrow> digest \<Rightarrow> nat \<Rightarrow> nat \<Rightarrow> int \<Rightarrow> router \<Rightarrow> (regime_report \<times> router) result" where
  "run_cold R sha n target seed rt =
     rbind (cold_loop R sha target 0 n (rng_seed R seed) rt) (\<lambda>(ds, rt1). Inr (summarize ''cold'' ds, rt1))"

fun make_prefixes :: "'g rng \<Rightarrow> nat \<Rightarrow> nat \<Rightarrow> nat \<Rightarrow> 'g \<Rightarrow> (string list \<times> 'g) result" where
  "make_prefixes R target i 0 g = Inr ([], g)"
| "make_prefixes R target i (Suc n) g =
     rbind (make_prefix R i target g) (\<lambda>(p, g1).
     rbind (make_prefixes R target (Suc i) n g1) (\<lambda>(ps, g2). Inr (p # ps, g2)))"

fun warm_loop ::
  "'g rng \<Rightarrow> digest \<Rightarrow> string list \<Rightarrow> nat \<Rightarrow> nat \<Rightarrow> 'g \<Rightarrow> router \<Rightarrow> (pool_decision list \<times> router) result" where
  "warm_loop R sha prefixes i 0 g rt = Inr ([], rt)"
| "warm_loop R sha prefixes i (Suc n) g rt =
     rbind (choice R prefixes g) (\<lambda>(base, g1).
     rbind (spec_from_prompt (stream_id ''warm'' i) (base @ '' query-'' @ nat_str i)) (\<lambda>spec.
       case route sha rt spec of (rt1, d) \<Rightarrow>
       rbind (warm_loop R sha prefixes (Suc i) n g1 rt1) (\<lambda>(ds, rt2). Inr (d # ds, rt2))))"

definition run_warm :: "'g rng \<Rightarrow> digest \<Rightarrow> nat \<Rightarrow> nat \<Rightarrow> nat \<Rightarrow> int \<Rightarrow> router \<Rightarrow> (regime_report \<times> router) result" where
  "run_warm R sha n n_distinct target seed rt =
     rbind (make_prefixes R target 0 n_distinct (rng_seed R seed)) (\<lambda>(prefixes, g).
     rbind (warm_loop R sha prefixes 0 n g rt) (\<lambda>(ds, rt1). Inr (summarize ''warm'' ds, rt1)))"

section \<open>Routing a stream\<close>

fun route_all :: "digest \<Rightarrow> router \<Rightarrow> request_spec list \<Rightarrow> pool_decision list \<times> router" where
  "route_all sha rt [] = ([], rt)"
| "route_all sha rt (s # ss) =
     (case route sha rt s of (rt1, d) \<Rightarrow> case route_all sha rt1 ss of (ds, rt2) \<Rightarrow> (d # ds, rt2))"

text \<open>A request of the benchmark's class and workload.\<close>

definition bench_request :: "request_spec \<Rightarrow> bool" where
  "bench_request s \<longleftrightarrow> rq_slo_class s = INTERACTIVE \<and> rq_workload s = CHAT"

text \<open>The pools are at rest: every request of the stream is balanced to \<open>p\<close>, which admits it.\<close>

definition settled :: "router \<Rightarrow> pool \<Rightarrow> bool" where
  "settled rt p \<longleftrightarrow> rt_pools rt \<noteq> [] \<and>
     (\<forall>s. bench_request s \<longrightarrow> select_admissible rt s = Some p \<and> admits rt s p)"

definition stream_key :: "digest \<Rightarrow> router \<Rightarrow> pool \<Rightarrow> request_spec \<Rightarrow> string" where
  "stream_key sha rt p s = prefix_key sha (rq_prompt_text s) (rt_salt_for_pool rt p)"

lemma settled_from:
  assumes ok: "router_ok rt" and adm: "admits rt s0 q" "bench_request s0"
  shows "\<exists>p. settled rt p"
proof -
  have pools: "pools_ok (rt_pools rt)" using ok by (simp add: router_ok_def)
  obtain p where p: "select_admissible rt s0 = Some p"
    using select_admissible_None [OF pools, of s0] adm(1) by auto
  have same: "select_admissible rt s = Some p \<and> admits rt s p" if s: "bench_request s" for s
  proof -
    have "select_admissible rt s = select_admissible rt s0"
      using s adm(2) by (intro select_admissible_cong) (simp_all add: bench_request_def)
    then show ?thesis using p select_admissible_Some(1) [OF pools, of s p] by simp
  qed
  have "rt_pools rt \<noteq> []" using adm(1) by (auto simp: admits_def)
  then show ?thesis using same unfolding settled_def by blast
qed

lemma settled_route: "settled rt p \<Longrightarrow> settled (fst (route sha rt s)) p"
proof -
  assume set: "settled rt p"
  note fr = route_frame [of sha rt s]
  have "select_admissible (fst (route sha rt s)) q = select_admissible rt q" for q
    by (rule select_admissible_cong) (simp_all add: fr)
  moreover have "admits (fst (route sha rt s)) q p = admits rt q p" for q
    by (simp add: admits_def fr admissible_cong [OF fr(2)])
  ultimately show ?thesis using set by (simp add: settled_def fr)
qed

text \<open>One request of a stream: a hit leaves the entries, a miss adds its key.\<close>

definition entries_at :: "router \<Rightarrow> pool \<Rightarrow> bool" where
  "entries_at rt p \<longleftrightarrow> (\<forall>k q. od_get (rt_prefix_cache rt) k = Some q \<longrightarrow> q = p)"

abbreviation cached_keys :: "router \<Rightarrow> string set" where
  "cached_keys rt \<equiv> fst ` set (rt_prefix_cache rt)"

lemma key_cached: "k \<in> cached_keys rt \<longleftrightarrow> od_get (rt_prefix_cache rt) k \<noteq> None"
  by (simp add: od_get_None_iff)

lemma stream_step:
  assumes ok: "router_ok rt" and p: "settled rt p" and s: "bench_request s" and e: "entries_at rt p"
    and room: "card (insert (stream_key sha rt p s) (cached_keys rt)) \<le> nat (rt_cache_max rt)"
  shows "is_hit (snd (route sha rt s)) \<longleftrightarrow> stream_key sha rt p s \<in> cached_keys rt"
    and "cached_keys (fst (route sha rt s)) = insert (stream_key sha rt p s) (cached_keys rt)"
    and "entries_at (fst (route sha rt s)) p" and "pd_admitted (snd (route sha rt s)) \<and> pd_pool (snd (route sha rt s)) = p"
proof -
  let ?k = "stream_key sha rt p s"
  have sel: "select_admissible rt s = Some p" "admits rt s p" "rt_pools rt \<noteq> []" using p s by (simp_all add: settled_def)
  have key: "route_key sha rt s = ?k" using route_key_selected [OF sel(1)] by (simp add: stream_key_def)
  have choice: "cached_choice rt s ?k = (if ?k \<in> cached_keys rt then Some p else None)"
  proof (cases "od_get (rt_prefix_cache rt) ?k")
    case None
    then show ?thesis by (simp add: cached_choice_def key_cached)
  next
    case (Some q)
    then have "q = p" using e by (auto simp: entries_at_def)
    then show ?thesis using cached_choice_Some [of rt ?k p s] Some sel(2) by (simp add: key_cached)
  qed
  have "(is_hit (snd (route sha rt s)) \<longleftrightarrow> ?k \<in> cached_keys rt) \<and>
    cached_keys (fst (route sha rt s)) = insert ?k (cached_keys rt) \<and> entries_at (fst (route sha rt s)) p \<and>
    pd_admitted (snd (route sha rt s)) \<and> pd_pool (snd (route sha rt s)) = p"
  proof (cases rule: route_cases [of rt sha s])
    case (hit q)
    then have "?k \<in> cached_keys rt" "q = p" using choice key by (simp_all split: if_splits)
    moreover have "od_ok (rt_prefix_cache rt)" using ok by (simp add: router_ok_def)
    then have "cached_keys (touched rt ?k) = cached_keys rt" by (simp add: touched_def set_od_move)
    ultimately show ?thesis
      using hit(3) key e by (auto simp: is_hit_def PoolDecision_def entries_at_def)
  next
    case (balanced q)
    then have q: "q = p" using sel(1) by simp
    have new: "?k \<notin> cached_keys rt" using balanced(2) choice key by (auto split: if_splits)
    let ?rt = "note_no_history (touched rt ?k)"
    have cache: "rt_prefix_cache ?rt = rt_prefix_cache rt" using new by (simp add: touched_def key_cached)
    have dist: "distinct (od_keys (rt_prefix_cache rt))" using ok by (simp add: router_ok_def od_ok_def)
    have "int (length (od_set ?k p (rt_prefix_cache rt))) \<le> rt_cache_max rt"
    proof -
      have "od_ok (od_set ?k p (rt_prefix_cache rt))" using dist by (intro od_ok_set) (simp add: od_ok_def)
      then have "length (od_set ?k p (rt_prefix_cache rt)) = card (fst ` set (od_set ?k p (rt_prefix_cache rt)))"
        using distinct_card [of "od_keys (od_set ?k p (rt_prefix_cache rt))"] by (simp add: od_ok_def)
      also have "\<dots> = card (insert ?k (cached_keys rt))" by (simp add: od_keys_set)
      finally show ?thesis using room new by (simp add: card_insert_if split: if_splits)
    qed
    then have "rt_prefix_cache (remember ?rt ?k p) = od_set ?k p (rt_prefix_cache rt)"
      using cache by (simp add: remember_def Let_def)
    then show ?thesis
      using balanced(4) key new q e by (auto simp: is_hit_def PoolDecision_def od_keys_set entries_at_def)
  qed (use sel choice key in \<open>auto split: if_splits\<close>)
  then show "is_hit (snd (route sha rt s)) \<longleftrightarrow> ?k \<in> cached_keys rt"
    "cached_keys (fst (route sha rt s)) = insert ?k (cached_keys rt)" "entries_at (fst (route sha rt s)) p"
    "pd_admitted (snd (route sha rt s)) \<and> pd_pool (snd (route sha rt s)) = p" by blast+
qed

text \<open>A whole stream: the misses are exactly the keys the cache did not have.\<close>

definition hits :: "pool_decision list \<Rightarrow> nat" where
  "hits ds = length (filter is_hit ds)"

lemma route_all_misses:
  assumes "router_ok rt" "settled rt p" "\<forall>s\<in>set ss. bench_request s" "entries_at rt p"
    and "card (stream_key sha rt p ` set ss \<union> cached_keys rt) \<le> nat (rt_cache_max rt)"
    and "route_all sha rt ss = (ds, rt')"
  shows "length ds = length ss \<and> hits ds + card (stream_key sha rt p ` set ss - cached_keys rt) = length ss \<and>
    (\<forall>d\<in>set ds. pd_admitted d \<and> pd_pool d = p)"
  using assms
proof (induction ss arbitrary: rt ds)
  case Nil
  then show ?case by (simp add: hits_def)
next
  case (Cons s ss)
  obtain rt1 d where d: "route sha rt s = (rt1, d)" by force
  obtain ds1 where ds1: "route_all sha rt1 ss = (ds1, rt')" "ds = d # ds1"
    using Cons.prems(6) d by (auto split: prod.splits)
  let ?k = "stream_key sha rt p s" and ?K = "stream_key sha rt p ` set ss" and ?C = "cached_keys rt"
  have fin: "finite (insert ?k ?K \<union> ?C)" by simp
  have "card (insert ?k ?C) \<le> card (insert ?k ?K \<union> ?C)" by (rule card_mono [OF fin]) auto
  then have room: "card (insert ?k ?C) \<le> nat (rt_cache_max rt)" using Cons.prems(5) by simp
  note step = stream_step [OF Cons.prems(1,2) _ Cons.prems(4) room, unfolded d fst_conv snd_conv]
  have s: "bench_request s" using Cons.prems(3) by simp
  have fr: "rt_salt_for_pool rt1 = rt_salt_for_pool rt" "rt_cache_max rt1 = rt_cache_max rt"
    using route_frame [of sha rt s] d by simp_all
  then have key: "stream_key sha rt1 p q = stream_key sha rt p q" for q by (simp add: stream_key_def)
  have "router_ok rt1" "settled rt1 p" using route_ok [OF Cons.prems(1), of sha s] settled_route [OF Cons.prems(2), of sha s] d by simp_all
  moreover have "\<forall>s\<in>set ss. bench_request s" using Cons.prems(3) by simp
  moreover have "entries_at rt1 p" using step(3) [OF s] .
  moreover have "card (stream_key sha rt1 p ` set ss \<union> cached_keys rt1) \<le> nat (rt_cache_max rt1)"
    using Cons.prems(5) step(2) [OF s] by (simp add: key fr)
  ultimately have IH: "length ds1 = length ss \<and> hits ds1 + card (?K - insert ?k ?C) = length ss \<and>
      (\<forall>d\<in>set ds1. pd_admitted d \<and> pd_pool d = p)"
    using Cons.IH [OF _ _ _ _ _ ds1(1)] step(2) [OF s] by (simp add: key)
  have "card (insert k K - C) = card (K - insert k C) + (if k \<in> C then 0 else 1)" if "finite K" for k :: string and K C
  proof (cases "k \<in> C")
    case True
    then have "insert k K - C = K - insert k C" by blast
    then have "card (insert k K - C) = card (K - insert k C)" by (rule arg_cong)
    with True show ?thesis by (simp only: if_True add_0_right)
  next
    case False
    then have "insert k K - C = insert k (K - insert k C)" by blast
    then have "card (insert k K - C) = card (insert k (K - insert k C))" by (rule arg_cong)
    also have "\<dots> = Suc (card (K - insert k C))" using that by (intro card_insert_disjoint) auto
    finally show ?thesis using False by (simp only: if_False Suc_eq_plus1)
  qed
  then have "card (insert ?k ?K - ?C) = card (?K - insert ?k ?C) + (if ?k \<in> ?C then 0 else 1)" by blast
  moreover have "hits ds = hits ds1 + (if ?k \<in> ?C then 1 else 0)" using step(1) [OF s] ds1(2) by (simp add: hits_def)
  ultimately show ?case using IH ds1(2) step(4) [OF s] by auto
qed

section \<open>The prompts\<close>

lemma bench_words_words: "w \<in> set bench_words \<Longrightarrow> is_word w"
proof -
  have "list_all is_word bench_words" unfolding bench_words_def by (simp add: is_word_def is_space_def)
  then show "w \<in> set bench_words \<Longrightarrow> is_word w" by (simp add: list_all_iff)
qed

definition prefix_head :: "nat \<Rightarrow> string" where
  "prefix_head i = ''prefix-'' @ nat_str i @ ''-''"

definition is_prefix_of :: "nat \<Rightarrow> nat \<Rightarrow> string \<Rightarrow> bool" where
  "is_prefix_of target i s \<longleftrightarrow>
     (\<exists>ws. length ws = target \<and> (\<forall>w\<in>set ws. is_word w) \<and> s = prefix_head i @ joined '' '' ws)"

lemma make_prefix_ok:
  assumes "rng_ok R"
  shows "\<exists>s g'. make_prefix R i target g = Inr (s, g') \<and> is_prefix_of target i s"
proof -
  have "bench_words \<noteq> []" by (simp add: bench_words_def)
  then obtain ws g' where ws: "choices R bench_words target g = Inr (ws, g')"
    using choices_total [of bench_words R target g] by blast
  have "length ws = target \<and> set ws \<subseteq> set bench_words" by (rule choices_Inr [OF assms ws])
  then have "is_prefix_of target i (prefix_head i @ joined '' '' ws)"
    using bench_words_words unfolding is_prefix_of_def by blast
  then show ?thesis using ws by (simp add: make_prefix_def prefix_head_def)
qed

lemma digit_not_space: "is_digit c \<Longrightarrow> \<not> is_space c"
  by (auto simp: is_space_def is_digit_def Let_def)

lemma prefix_head_word: "is_word (prefix_head i)"
  using nat_str_digits [of _ i] digit_not_space by (auto simp: prefix_head_def is_word_def) (auto simp: is_space_def)

lemma prefix_split_length: "is_prefix_of target i s \<Longrightarrow> length (py_split s) = max 1 target"
proof -
  assume "is_prefix_of target i s"
  then obtain ws where ws: "length ws = target" "\<forall>w\<in>set ws. is_word w" "s = prefix_head i @ joined '' '' ws"
    by (auto simp: is_prefix_of_def)
  show ?thesis
  proof (cases ws)
    case Nil
    then show ?thesis using ws prefix_head_word [of i] by (simp add: split_word)
  next
    case (Cons w vs)
    have "s = joined '' '' ((prefix_head i @ w) # vs)" using ws(3) Cons by (cases vs) simp_all
    moreover have "is_word (prefix_head i @ w)"
      using prefix_head_word ws(2) Cons by (intro is_word_append) (auto simp: is_word_def)
    ultimately have "py_split s = (prefix_head i @ w) # vs"
      using split_joined [of "(prefix_head i @ w) # vs" "'' ''"] ws(2) Cons by (simp add: is_space_def)
    then show ?thesis using ws(1) Cons by simp
  qed
qed

lemma joined_length: "ws \<noteq> [] \<Longrightarrow> \<forall>w\<in>set ws. w \<noteq> [] \<Longrightarrow> 2 * length ws \<le> length (joined '' '' ws) + 1"
proof (induction "'' ''" ws rule: joined.induct)
  case (3 x y xs)
  then have "2 * length (y # xs) \<le> length (joined '' '' (y # xs)) + 1" "1 \<le> length x" by (auto simp: Suc_le_eq)
  then show ?case by simp
qed (auto simp: Suc_le_eq)

lemma prefix_length:
  assumes "is_prefix_of target i s" "124 \<le> target"
  shows "256 \<le> length s"
proof -
  obtain ws where ws: "length ws = target" "\<forall>w\<in>set ws. is_word w" "s = prefix_head i @ joined '' '' ws"
    using assms(1) by (auto simp: is_prefix_of_def)
  have "2 * length ws \<le> length (joined '' '' ws) + 1"
    using ws assms(2) by (intro joined_length) (auto simp: is_word_def)
  moreover have "9 \<le> length (prefix_head i)" using nat_str_nonempty [of i] by (cases "nat_str i") (auto simp: prefix_head_def)
  ultimately show ?thesis using ws assms(2) by simp
qed

lemma spec_from_prompt_ok:
  assumes "length (py_split prompt) \<le> 200000" "rid = stream_id kind i" "is_word kind"
  shows "\<exists>s. spec_from_prompt rid prompt = Inr s \<and> bench_request s \<and> rq_prompt_text s = prompt"
proof -
  have "kind \<noteq> []" "\<not> is_space (hd kind)" using assms(3) by (auto simp: is_word_def)
  then obtain c k where "kind = c # k" "\<not> is_space c" by (cases kind) auto
  then have "py_strip rid \<noteq> []" using assms(2) by (simp add: stream_id_def py_strip_def dropWhile_append)
  then show ?thesis using assms(1) by (simp add: spec_from_prompt_def RequestSpec_def bench_request_def)
qed

lemma cold_loop_stream:
  assumes R: "rng_ok R" and t: "target \<le> 200000"
  shows "\<exists>ss. cold_loop R sha target i n g rt = Inr (route_all sha rt ss) \<and> length ss = n \<and>
    (\<forall>s\<in>set ss. bench_request s) \<and> (\<forall>j<n. is_prefix_of target (i + j) (rq_prompt_text (ss ! j)))"
proof (induction n arbitrary: i g rt)
  case 0
  then show ?case by simp
next
  case (Suc n)
  obtain prompt g1 where p: "make_prefix R i target g = Inr (prompt, g1)" "is_prefix_of target i prompt"
    using make_prefix_ok [OF R] by blast
  have "is_word ''cold''" by (simp add: is_word_def is_space_def)
  then obtain s where s: "spec_from_prompt (stream_id ''cold'' i) prompt = Inr s" "bench_request s" "rq_prompt_text s = prompt"
    using spec_from_prompt_ok [OF _ refl, of prompt "''cold''" i] prefix_split_length [OF p(2)] t by auto
  obtain rt1 d where d: "route sha rt s = (rt1, d)" by force
  obtain ss where ss: "cold_loop R sha target (Suc i) n g1 rt1 = Inr (route_all sha rt1 ss)" "length ss = n"
    "\<forall>s\<in>set ss. bench_request s" "\<forall>j<n. is_prefix_of target (Suc i + j) (rq_prompt_text (ss ! j))"
    using Suc.IH by blast
  have "cold_loop R sha target i (Suc n) g rt = Inr (route_all sha rt (s # ss))"
    using p(1) s(1) d ss(1) by (simp split: prod.splits)
  moreover have "\<forall>j<Suc n. is_prefix_of target (i + j) (rq_prompt_text ((s # ss) ! j))"
    using ss(4) p(2) s(3) by (auto simp: less_Suc_eq_0_disj)
  ultimately show ?case using ss(2,3) s(2) by (intro exI [of _ "s # ss"]) simp
qed

lemma make_prefixes_ok:
  assumes R: "rng_ok R"
  shows "\<exists>ps g'. make_prefixes R target i n g = Inr (ps, g') \<and> length ps = n \<and> (\<forall>p\<in>set ps. \<exists>j. is_prefix_of target j p)"
proof (induction n arbitrary: i g)
  case 0
  then show ?case by simp
next
  case (Suc n)
  obtain s g1 where s: "make_prefix R i target g = Inr (s, g1)" "is_prefix_of target i s"
    using make_prefix_ok [OF R] by blast
  obtain ps g' where "make_prefixes R target (Suc i) n g1 = Inr (ps, g')" "length ps = n" "\<forall>p\<in>set ps. \<exists>j. is_prefix_of target j p"
    using Suc.IH by blast
  then show ?case using s by auto
qed

lemma warm_loop_stream:
  assumes R: "rng_ok R" and ps: "ps \<noteq> []" "\<forall>p\<in>set ps. \<exists>j. is_prefix_of target j p" and t: "target < 200000"
  shows "\<exists>ss. warm_loop R sha ps i n g rt = Inr (route_all sha rt ss) \<and> length ss = n \<and>
    (\<forall>s\<in>set ss. bench_request s \<and> (\<exists>p\<in>set ps. \<exists>u. rq_prompt_text s = p @ u))"
proof (induction n arbitrary: i g rt)
  case 0
  then show ?case by simp
next
  case (Suc n)
  obtain base g1 where b: "choice R ps g = Inr (base, g1)" using choice_total [OF ps(1), of R g] by blast
  have base: "base \<in> set ps" by (rule choice_Inr [OF R b])
  then have len: "length (py_split base) = max 1 target" using ps(2) prefix_split_length by blast
  let ?prompt = "base @ '' query-'' @ nat_str i"
  have "py_split ?prompt = py_split base @ py_split (''query-'' @ nat_str i)"
    using split_space [of "CHR '' ''" base "''query-'' @ nat_str i"] by (simp add: is_space_def)
  moreover have "is_word (''query-'' @ nat_str i)"
    using nat_str_digits [of _ i] digit_not_space by (auto simp: is_word_def) (auto simp: is_space_def)
  ultimately have "length (py_split ?prompt) \<le> 200000" using len t by (simp add: split_word)
  moreover have "is_word ''warm''" by (simp add: is_word_def is_space_def)
  ultimately obtain s where s: "spec_from_prompt (stream_id ''warm'' i) ?prompt = Inr s" "bench_request s" "rq_prompt_text s = ?prompt"
    using spec_from_prompt_ok [OF _ refl] by blast
  obtain rt1 d where d: "route sha rt s = (rt1, d)" by force
  obtain ss where ss: "warm_loop R sha ps (Suc i) n g1 rt1 = Inr (route_all sha rt1 ss)" "length ss = n"
    "\<forall>s\<in>set ss. bench_request s \<and> (\<exists>p\<in>set ps. \<exists>u. rq_prompt_text s = p @ u)"
    using Suc.IH by blast
  have "warm_loop R sha ps i (Suc n) g rt = Inr (route_all sha rt (s # ss))"
    using b s(1) d ss(1) by (simp split: prod.splits)
  moreover have "\<exists>p\<in>set ps. \<exists>u. rq_prompt_text s = p @ u" using base s(3) by blast
  ultimately show ?case using ss(2,3) s(2) by (intro exI [of _ "s # ss"]) simp
qed

section \<open>The report\<close>

lemma summarize_fields [simp]:
  "rr_n_requests (summarize k ds) = length ds" "rr_cache_hits (summarize k ds) = hits ds"
  "rr_cache_hit_rate (summarize k ds) = (if ds = [] then 0 else real (hits ds) / real (length ds))"
  "rr_decisions (summarize k ds) = ds"
  by (simp_all add: summarize_def Let_def hits_def is_hit_def [abs_def])

section \<open>Properties\<close>

text \<open>
  C27: A stream of interactive chat requests misses once per new prefix. On a fresh cache that can hold the stream's
  keys, with the pools at rest, every request is admitted to the pool load balancing chooses, and the number of cache
  hits is the number of requests minus the number of distinct keys.
\<close>

theorem stream_hits_exact:
  assumes "router_ok rt" and "rt_prefix_cache rt = []" and "settled rt p" and "\<forall>s\<in>set ss. bench_request s"
    and "int (card (stream_key sha rt p ` set ss)) \<le> rt_cache_max rt" and "route_all sha rt ss = (ds, rt')"
  shows "rr_cache_hits (summarize k ds) + card (stream_key sha rt p ` set ss) = length ss \<and>
    rr_n_requests (summarize k ds) = length ss \<and> (\<forall>d\<in>set ds. pd_admitted d \<and> pd_pool d = p)"
proof -
  have "card (stream_key sha rt p ` set ss \<union> cached_keys rt) \<le> nat (rt_cache_max rt)" using assms(2,5) by simp
  moreover have "entries_at rt p" using assms(2) by (simp add: entries_at_def)
  ultimately show ?thesis using route_all_misses [OF assms(1,3,4) _ _ assms(6)] assms(2) by simp
qed

lemma warm_keys:
  assumes "\<forall>s\<in>set ss. \<exists>p\<in>set ps. \<exists>u. rq_prompt_text s = p @ u" "\<forall>p\<in>set ps. 256 \<le> length p"
  shows "card (stream_key sha rt q ` set ss) \<le> length ps"
proof -
  have "stream_key sha rt q ` set ss \<subseteq> (\<lambda>p. prefix_key sha p (rt_salt_for_pool rt q)) ` set ps"
  proof
    fix k
    assume "k \<in> stream_key sha rt q ` set ss"
    then obtain s where "s \<in> set ss" "k = stream_key sha rt q s" by blast
    then obtain p u where p: "p \<in> set ps" "rq_prompt_text s = p @ u" using assms(1) by blast
    then have "k = prefix_key sha p (rt_salt_for_pool rt q)"
      using assms(2) \<open>k = _\<close> by (simp add: stream_key_def prefix_key_def)
    then show "k \<in> (\<lambda>p. prefix_key sha p (rt_salt_for_pool rt q)) ` set ps" using p(1) by blast
  qed
  then have "card (stream_key sha rt q ` set ss) \<le> card ((\<lambda>p. prefix_key sha p (rt_salt_for_pool rt q)) ` set ps)"
    by (intro card_mono) auto
  also have "\<dots> \<le> card (set ps)" by (rule card_image_le) simp
  also have "\<dots> \<le> length ps" by (rule card_length)
  finally show ?thesis .
qed

text \<open>
  The warm regime hits. With prefixes of 124 to 199999 words (so of at least 256 characters) and a fresh
  router whose cache holds all of them and some pool of which admits a benchmark request, the run
  succeeds and all but at most \<open>n_distinct_prefixes\<close> of its requests are cache hits.
\<close>

theorem warm_regime_hits:
  assumes "rng_ok R" and "router_ok rt" and "rt_prefix_cache rt = []" and "admits rt s0 q" and "bench_request s0"
    and "124 \<le> target" and "target < 200000" and "0 < n_distinct" and "int n_distinct \<le> rt_cache_max rt"
  shows "\<exists>rep rt'. run_warm R sha n n_distinct target seed rt = Inr (rep, rt') \<and> rr_n_requests rep = n \<and>
    n \<le> rr_cache_hits rep + n_distinct"
proof -
  obtain p where p: "settled rt p" using settled_from [OF assms(2,4,5)] by blast
  obtain ps g where ps: "make_prefixes R target 0 n_distinct (rng_seed R seed) = Inr (ps, g)" "length ps = n_distinct"
    "\<forall>p\<in>set ps. \<exists>j. is_prefix_of target j p" using make_prefixes_ok [OF assms(1)] by blast
  have "ps \<noteq> []" using ps(2) assms(8) by auto
  then obtain ss where ss: "warm_loop R sha ps 0 n g rt = Inr (route_all sha rt ss)" "length ss = n"
    "\<forall>s\<in>set ss. bench_request s \<and> (\<exists>p\<in>set ps. \<exists>u. rq_prompt_text s = p @ u)"
    using warm_loop_stream [OF assms(1) _ ps(3) assms(7)] by blast
  obtain ds rt' where ds: "route_all sha rt ss = (ds, rt')" by force
  have "\<forall>p\<in>set ps. 256 \<le> length p" using ps(3) prefix_length assms(6) by blast
  then have keys: "card (stream_key sha rt p ` set ss) \<le> n_distinct" using warm_keys [of ss ps] ss(3) ps(2) by blast
  then have "card (stream_key sha rt p ` set ss \<union> cached_keys rt) \<le> nat (rt_cache_max rt)" using assms(3,9) by simp
  moreover have "entries_at rt p" using assms(3) by (simp add: entries_at_def)
  ultimately have "length ds = n \<and> hits ds + card (stream_key sha rt p ` set ss) = n"
    using route_all_misses [OF assms(2) p _ _ _ ds] ss(2,3) assms(3) by simp
  then show ?thesis using ps(1) ss(1) ds keys by (simp add: run_warm_def)
qed

definition separates_prefixes :: "digest \<Rightarrow> (pool \<Rightarrow> string) \<Rightarrow> nat \<Rightarrow> bool" where
  "separates_prefixes sha salt n \<longleftrightarrow>
     (\<forall>i<n. \<forall>j<n. \<forall>p u v. prefix_key sha (prefix_head i @ u) (salt p) = prefix_key sha (prefix_head j @ v) (salt p) \<longrightarrow> i = j)"

lemma cold_keys:
  assumes "separates_prefixes sha (rt_salt_for_pool rt) (length ss)"
    and "\<forall>j<length ss. is_prefix_of target j (rq_prompt_text (ss ! j))"
  shows "card (stream_key sha rt p ` set ss) = length ss"
proof -
  have "i = j" if ij: "i < length ss" "j < length ss" and same: "stream_key sha rt p (ss ! i) = stream_key sha rt p (ss ! j)" for i j
  proof -
    obtain u v where "rq_prompt_text (ss ! i) = prefix_head i @ u" "rq_prompt_text (ss ! j) = prefix_head j @ v"
      using assms(2) ij unfolding is_prefix_of_def by blast
    then show ?thesis using assms(1) ij same unfolding separates_prefixes_def stream_key_def by metis
  qed
  then have "distinct (map (stream_key sha rt p) ss)" by (auto simp: distinct_conv_nth)
  then show ?thesis using distinct_card by fastforce
qed

text \<open>
  The cold regime never hits. When the digest separates the numbered prefixes of the run under
  every salt, and the cache can hold the run, no request of a cold run on a fresh router is a hit.
\<close>

theorem cold_regime_never_hits:
  assumes "rng_ok R" and "router_ok rt" and "rt_prefix_cache rt = []" and "admits rt s0 q" and "bench_request s0"
    and "target \<le> 200000" and "int n \<le> rt_cache_max rt" and "separates_prefixes sha (rt_salt_for_pool rt) n"
  shows "\<exists>rep rt'. run_cold R sha n target seed rt = Inr (rep, rt') \<and> rr_n_requests rep = n \<and> rr_cache_hits rep = 0"
proof -
  obtain p where p: "settled rt p" using settled_from [OF assms(2,4,5)] by blast
  obtain ss where ss: "cold_loop R sha target 0 n (rng_seed R seed) rt = Inr (route_all sha rt ss)" "length ss = n"
    "\<forall>s\<in>set ss. bench_request s" "\<forall>j<n. is_prefix_of target (0 + j) (rq_prompt_text (ss ! j))"
    using cold_loop_stream [OF assms(1,6)] by blast
  obtain ds rt' where ds: "route_all sha rt ss = (ds, rt')" by force
  have keys: "card (stream_key sha rt p ` set ss) = n"
    using cold_keys [of sha rt ss target p] assms(8) ss(2,4) by simp
  then have "card (stream_key sha rt p ` set ss \<union> cached_keys rt) \<le> nat (rt_cache_max rt)" using assms(3,7) by simp
  moreover have "entries_at rt p" using assms(3) by (simp add: entries_at_def)
  ultimately have "length ds = n \<and> hits ds = 0"
    using route_all_misses [OF assms(2) p ss(3) _ _ ds] ss(2) assms(3) keys by simp
  then show ?thesis using ss(1) ds by (simp add: run_cold_def)
qed

section \<open>Examples\<close>

definition ex_bench_router :: router where
  "ex_bench_router =
     register_pool (Router None 4 None None) \<lparr>ps_pool = COLOCATED, ps_queue_depth = 0, ps_capacity = 10, ps_healthy = True\<rparr>"

lemma ex_bench_router_ok:
  "router_ok ex_bench_router" "rt_prefix_cache ex_bench_router = []" "rt_cache_max ex_bench_router = 4"
  "admits ex_bench_router (ex_spec INTERACTIVE) COLOCATED" "bench_request (ex_spec INTERACTIVE)"
  "rt_salt_for_pool ex_bench_router p = []"
proof -
  show "router_ok ex_bench_router" unfolding ex_bench_router_def by (intro register_pool_ok Router_ok) simp
qed (simp_all add: ex_bench_router_def register_pool_def Router_def admits_def admissible_def headroom_used_pct_def
    bench_request_def ex_spec_def)

lemma warm_regime_hits_witness:
  "\<exists>rep rt'. run_warm counting_rng (\<lambda>s. s) 10 2 124 1 ex_bench_router = Inr (rep, rt') \<and> 8 \<le> rr_cache_hits rep"
proof -
  obtain rep rt' where "run_warm counting_rng (\<lambda>s. s) 10 2 124 1 ex_bench_router = Inr (rep, rt')" "10 \<le> rr_cache_hits rep + 2"
    using warm_regime_hits [OF counting_rng_ok ex_bench_router_ok(1,2,4,5), of 124 2 "\<lambda>s. s" 10 1] ex_bench_router_ok(3) by auto
  then show ?thesis by auto
qed

lemma digits_01: "nat_str 0 = ''0''" "nat_str (Suc 0) = ''1''"
proof -
  have "char_of (of_char (CHR ''0'') :: nat) = CHR ''0''" "char_of (of_char (CHR ''1'') :: nat) = CHR ''1''"
    by (rule char_of_char)+
  then have "char_of (48 :: nat) = CHR ''0''" "char_of (49 :: nat) = CHR ''1''" by simp_all
  then show "nat_str 0 = ''0''" "nat_str (Suc 0) = ''1''"
    by (subst nat_str.simps, simp add: digit_char_def)+
qed

lemma cold_regime_never_hits_witness:
  "\<exists>rep rt'. run_cold counting_rng (\<lambda>s. s) 2 60 1 ex_bench_router = Inr (rep, rt') \<and> rr_cache_hits rep = 0"
proof -
  have "separates_prefixes (\<lambda>s. s) (rt_salt_for_pool ex_bench_router) 2"
    unfolding separates_prefixes_def ex_bench_router_ok(6)
    by (simp add: less_2_cases_iff prefix_key_def prefix_head_def digits_01)
  then show ?thesis
    using cold_regime_never_hits [OF counting_rng_ok ex_bench_router_ok(1,2,4,5), of 60 2 "\<lambda>s. s" 1] ex_bench_router_ok(3) by auto
qed

lemma stream_hits_exact_witness:
  "\<exists>ds rt'. route_all (\<lambda>s. s) ex_bench_router [ex_spec INTERACTIVE, ex_spec INTERACTIVE] = (ds, rt') \<and>
     rr_cache_hits (summarize ''warm'' ds) = 1"
proof -
  obtain p where p: "settled ex_bench_router p" using settled_from [OF ex_bench_router_ok(1,4,5)] by blast
  obtain ds rt' where ds: "route_all (\<lambda>s. s) ex_bench_router [ex_spec INTERACTIVE, ex_spec INTERACTIVE] = (ds, rt')" by force
  have "rr_cache_hits (summarize ''warm'' ds) = 1"
    using stream_hits_exact [OF ex_bench_router_ok(1,2) p _ _ ds, of "''warm''"] ex_bench_router_ok(3,5) by simp
  then show ?thesis using ds by blast
qed

end
