(* ===== verification/BenchStats.thy ===== *)
theory BenchStats
  imports Trace
begin

text \<open>
  The request statistics of the benchmark (\<open>_percentile\<close>, \<open>CellMetrics\<close> and \<open>aggregate_metrics\<close> of
  \<open>bench/cell_runner.py\<close>): percentiles by linear interpolation between order statistics, means, and
  the aggregates of a list of telemetries. The lemmas bracket a percentile by the two order
  statistics it interpolates, show it is monotone in the fraction, and reduce the mean inter-token
  latency to decode spans.
\<close>

section \<open>Percentiles and means\<close>

text \<open>The callers pass a fraction \<open>pct\<close> between 0 and 1, so the indices are in range.\<close>

definition percentile :: "real list \<Rightarrow> real \<Rightarrow> real" where
  "percentile values pct =
     (if values = [] then 0
      else if length values = 1 then values ! 0
      else let s = sort values;
               k = real (length s - 1) * pct;
               f = nat (py_int k);
               c = min (f + 1) (length s - 1)
           in if f = c then s ! f else s ! f + (s ! c - s ! f) * (k - real f))"

text \<open>\<open>statistics.mean\<close> of a list that is not empty.\<close>

definition mean :: "real list \<Rightarrow> real" where
  "mean xs = sum_list xs / real (length xs)"

text \<open>The same interpolation as a function of the sorted values, at a rank between 0 and \<open>n - 1\<close>.\<close>

definition interpolate :: "real list \<Rightarrow> real \<Rightarrow> real" where
  "interpolate s k =
     (let f = nat \<lfloor>k\<rfloor>; c = min (f + 1) (length s - 1) in s ! f + (s ! c - s ! f) * (k - real f))"

lemma sort_eq_Nil_key: "sort_key f xs = [] \<longleftrightarrow> xs = []"
  by (metis length_0_conv length_sort)

lemma sort_eq_Nil: "sort xs = [] \<longleftrightarrow> xs = []"
  by (metis length_0_conv length_sort)

lemma rank_bounds:
  assumes "0 \<le> pct" "pct \<le> 1"
  shows "0 \<le> real m * pct" "real m * pct \<le> real m"
  using assms mult_left_mono [of pct 1 "real m"] by simp_all

lemma floor_le_rank: "0 \<le> k \<Longrightarrow> k \<le> real m \<Longrightarrow> nat \<lfloor>k\<rfloor> \<le> m"
  by linarith

lemma percentile_interpolate:
  assumes "values \<noteq> []" "0 \<le> pct" "pct \<le> 1"
  shows "percentile values pct = interpolate (sort values) (real (length values - 1) * pct)"
proof (cases "length values = 1")
  case True
  then obtain x where "values = [x]" by (auto simp: length_Suc_conv)
  then show ?thesis by (simp add: percentile_def interpolate_def)
next
  case False
  have "0 \<le> real (length values - 1) * pct" using assms by simp
  then show ?thesis
    using assms(1) False by (simp add: percentile_def interpolate_def Let_def py_int_nonneg)
qed

lemma interpolate_bracket:
  assumes s: "sorted s" "s \<noteq> []" and k: "0 \<le> k" "k \<le> real (length s - 1)"
  shows "s ! nat \<lfloor>k\<rfloor> \<le> interpolate s k" "interpolate s k \<le> s ! min (nat \<lfloor>k\<rfloor> + 1) (length s - 1)"
proof -
  define f where "f = nat \<lfloor>k\<rfloor>"
  define c where "c = min (f + 1) (length s - 1)"
  have f: "f \<le> length s - 1" unfolding f_def using k by (rule floor_le_rank)
  have fc: "f \<le> c" "c < length s" using f s(2) length_greater_0_conv [of s] by (auto simp: c_def min_def)
  have le: "s ! f \<le> s ! c" using s(1) fc by (rule sorted_nth_mono)
  have frac: "0 \<le> k - real f" "k - real f \<le> 1" unfolding f_def using k(1) by linarith+
  have "interpolate s k = s ! f + (s ! c - s ! f) * (k - real f)"
    by (simp add: interpolate_def f_def c_def Let_def)
  moreover have "0 \<le> (s ! c - s ! f) * (k - real f)" using le frac by simp
  moreover have "(s ! c - s ! f) * (k - real f) \<le> s ! c - s ! f"
    using mult_left_mono [OF frac(2), of "s ! c - s ! f"] le by simp
  ultimately show "s ! nat \<lfloor>k\<rfloor> \<le> interpolate s k" "interpolate s k \<le> s ! min (nat \<lfloor>k\<rfloor> + 1) (length s - 1)"
    by (simp_all add: f_def c_def)
qed

lemma interpolate_mono:
  assumes s: "sorted s" "s \<noteq> []" and k: "0 \<le> k" "k \<le> l" "l \<le> real (length s - 1)"
  shows "interpolate s k \<le> interpolate s l"
proof (cases "nat \<lfloor>k\<rfloor> = nat \<lfloor>l\<rfloor>")
  case True
  define f where "f = nat \<lfloor>l\<rfloor>"
  define c where "c = min (f + 1) (length s - 1)"
  have f: "f \<le> length s - 1" unfolding f_def using k by (intro floor_le_rank) auto
  have "s ! f \<le> s ! c" using s f length_greater_0_conv [of s] by (intro sorted_nth_mono) (auto simp: c_def min_def)
  then have "(s ! c - s ! f) * (k - real f) \<le> (s ! c - s ! f) * (l - real f)"
    using k(2) by (intro mult_left_mono) auto
  then show ?thesis by (simp add: interpolate_def True f_def c_def Let_def)
next
  case False
  have kl: "nat \<lfloor>k\<rfloor> + 1 \<le> nat \<lfloor>l\<rfloor>" using False k by linarith
  have l: "nat \<lfloor>l\<rfloor> \<le> length s - 1" using k by (intro floor_le_rank) auto
  have "interpolate s k \<le> s ! min (nat \<lfloor>k\<rfloor> + 1) (length s - 1)" using k by (intro interpolate_bracket s) auto
  also have "\<dots> \<le> s ! nat \<lfloor>l\<rfloor>" using s kl l by (intro sorted_nth_mono) (auto simp: min_def)
  also have "\<dots> \<le> interpolate s l" using k by (intro interpolate_bracket s) auto
  finally show ?thesis .
qed

lemma percentile_bracket:
  assumes "values \<noteq> []" "0 \<le> pct" "pct \<le> 1"
  shows "sort values ! nat \<lfloor>real (length values - 1) * pct\<rfloor> \<le> percentile values pct"
    "percentile values pct \<le> sort values ! min (nat \<lfloor>real (length values - 1) * pct\<rfloor> + 1) (length values - 1)"
proof -
  have s: "sorted (sort values)" "sort values \<noteq> []" using assms(1) by (auto simp: sort_eq_Nil)
  have k: "0 \<le> real (length values - 1) * pct" "real (length values - 1) * pct \<le> real (length (sort values) - 1)"
    using rank_bounds [OF assms(2,3)] by simp_all
  show "sort values ! nat \<lfloor>real (length values - 1) * pct\<rfloor> \<le> percentile values pct"
    using interpolate_bracket(1) [OF s k] percentile_interpolate [OF assms] by simp
  show "percentile values pct \<le> sort values ! min (nat \<lfloor>real (length values - 1) * pct\<rfloor> + 1) (length values - 1)"
    using interpolate_bracket(2) [OF s k] percentile_interpolate [OF assms] by simp
qed

lemma percentile_member_bounds:
  assumes "values \<noteq> []" "0 \<le> pct" "pct \<le> 1"
  shows "\<exists>lo\<in>set values. \<exists>hi\<in>set values. lo \<le> percentile values pct \<and> percentile values pct \<le> hi"
proof -
  define f where "f = nat \<lfloor>real (length values - 1) * pct\<rfloor>"
  have n: "0 < length values" using assms(1) by simp
  have f: "f \<le> length values - 1"
    unfolding f_def using rank_bounds [OF assms(2,3), of "length values - 1"] by (intro floor_le_rank)
  have "f < length values" using f n by linarith
  then have "sort values ! f \<in> set values" using nth_mem [of f "sort values"] by (simp del: nth_mem)
  moreover have "min (f + 1) (length values - 1) < length values" using n by linarith
  then have "sort values ! min (f + 1) (length values - 1) \<in> set values"
    using nth_mem [of "min (f + 1) (length values - 1)" "sort values"] by (simp del: nth_mem)
  ultimately show ?thesis using percentile_bracket [OF assms] unfolding f_def by blast
qed

lemma percentile_nonneg:
  assumes "\<forall>v\<in>set values. 0 \<le> v" "0 \<le> pct" "pct \<le> 1"
  shows "0 \<le> percentile values pct"
proof (cases "values = []")
  case True
  then show ?thesis by (simp add: percentile_def)
next
  case False
  then show ?thesis using percentile_member_bounds [OF False assms(2,3)] assms(1) by force
qed

lemma percentile_order:
  assumes "0 \<le> p" "p \<le> q" "q \<le> 1"
  shows "percentile values p \<le> percentile values q"
proof (cases "values = []")
  case True
  then show ?thesis by (simp add: percentile_def)
next
  case False
  have "interpolate (sort values) (real (length values - 1) * p) \<le> interpolate (sort values) (real (length values - 1) * q)"
    using False assms rank_bounds [of q "length values - 1"]
    by (intro interpolate_mono) (auto simp: sort_eq_Nil intro: mult_left_mono)
  then show ?thesis using False assms by (simp add: percentile_interpolate)
qed

lemma percentile_permute: "mset xs = mset ys \<Longrightarrow> percentile xs pct = percentile ys pct"
proof -
  assume eq: "mset xs = mset ys"
  have s: "sort xs = sort ys" using properties_for_sort [of "sort ys" xs] eq by (metis mset_sort sorted_sort)
  have l: "length xs = length ys" using eq by (rule mset_eq_length)
  show ?thesis
  proof (cases "length xs = 1")
    case True
    then obtain x y where "xs = [x]" "ys = [y]" using l by (auto simp: length_Suc_conv)
    then show ?thesis using eq by simp
  next
    case False
    then have "ys \<noteq> [] \<longleftrightarrow> xs \<noteq> []" using l by auto
    then show ?thesis using False s l by (simp add: percentile_def Let_def)
  qed
qed

lemma mean_bounds:
  assumes "xs \<noteq> []" "\<forall>x\<in>set xs. lo \<le> x \<and> x \<le> hi"
  shows "lo \<le> mean xs \<and> mean xs \<le> hi"
proof -
  have lower: "real (length xs) * lo \<le> sum_list xs" if "\<forall>x\<in>set xs. lo \<le> x" for xs :: "real list"
    using that by (induction xs) (auto simp: algebra_simps)
  have upper: "sum_list xs \<le> real (length xs) * hi" if "\<forall>x\<in>set xs. x \<le> hi" for xs :: "real list"
    using that by (induction xs) (auto simp: algebra_simps)
  have "0 < real (length xs)" using assms(1) by simp
  then show ?thesis using lower [of xs] upper [of xs] assms(2) by (simp add: mean_def field_simps)
qed

lemma mean_nonneg: "\<forall>x\<in>set xs. 0 \<le> x \<Longrightarrow> 0 \<le> mean xs"
  by (simp add: mean_def sum_list_nonneg)

section \<open>Aggregates of a cell\<close>

record cell_metrics =
  cm_mean_ttft_ms :: real
  cm_p95_ttft_ms :: real
  cm_mean_itl_ms :: real
  cm_success_rate :: real

definition successes :: "request_telemetry list \<Rightarrow> request_telemetry list" where
  "successes telemetries = filter (\<lambda>t. tl_status_code t = 200) telemetries"

definition ttft_values :: "request_telemetry list \<Rightarrow> real list" where
  "ttft_values ts = concat (map (\<lambda>t. case tl_ttft_ms t of None \<Rightarrow> [] | Some v \<Rightarrow> [v]) ts)"

text \<open>The gaps between consecutive token timestamps, in milliseconds.\<close>

definition itl_gaps :: "int list \<Rightarrow> real list" where
  "itl_gaps ts = map (\<lambda>i. real_of_int (ts ! i - ts ! (i - 1)) / 1000000) [1..<length ts]"

definition itl_values :: "request_telemetry list \<Rightarrow> real list" where
  "itl_values ts = concat (map (\<lambda>t. itl_gaps (tl_per_token_ts_ns t)) ts)"

definition mean_or_zero :: "real list \<Rightarrow> real" where
  "mean_or_zero xs = (if xs \<noteq> [] then mean xs else 0)"

definition success_share :: "request_telemetry list \<Rightarrow> real" where
  "success_share telemetries =
     (if telemetries \<noteq> [] then real (length (successes telemetries)) / real (length telemetries) else 0)"

definition aggregate_metrics :: "request_telemetry list \<Rightarrow> cell_metrics" where
  "aggregate_metrics telemetries =
     \<lparr>cm_mean_ttft_ms = mean_or_zero (ttft_values (successes telemetries)),
      cm_p95_ttft_ms = percentile (ttft_values (successes telemetries)) (95 / 100),
      cm_mean_itl_ms = mean_or_zero (itl_values (successes telemetries)),
      cm_success_rate = success_share telemetries\<rparr>"

lemma success_share_range: "0 \<le> success_share ts \<and> success_share ts \<le> 1"
  by (auto simp: success_share_def successes_def divide_le_eq)

text \<open>The gaps of one request telescope to the span from its first token to its last.\<close>

lemma itl_gaps_Cons2: "itl_gaps (a # b # ts) = real_of_int (b - a) / 1000000 # itl_gaps (b # ts)"
proof -
  have "[1..<length (a # b # ts)] = 1 # map Suc [1..<length (b # ts)]"
    by (simp add: map_Suc_upt upt_conv_Cons del: upt_Suc)
  then show ?thesis by (simp add: itl_gaps_def nth_Cons' del: upt_Suc)
qed

lemma itl_gaps_short [simp]: "itl_gaps [] = []" "itl_gaps [a] = []"
  by (simp_all add: itl_gaps_def)

lemma itl_gaps_length [simp]: "length (itl_gaps ts) = length ts - 1"
  by (simp add: itl_gaps_def)

lemma itl_gaps_sum: "ts \<noteq> [] \<Longrightarrow> sum_list (itl_gaps ts) = real_of_int (last ts - hd ts) / 1000000"
  by (induction ts rule: induct_list012) (simp_all add: itl_gaps_Cons2 field_simps)

lemma itl_gaps_nonneg: "sorted ts \<Longrightarrow> \<forall>g\<in>set (itl_gaps ts). 0 \<le> g"
  by (induction ts rule: induct_list012) (simp_all add: itl_gaps_Cons2)

definition decode_span_ms :: "request_telemetry \<Rightarrow> real" where
  "decode_span_ms t =
     (case tl_per_token_ts_ns t of [] \<Rightarrow> 0 | a # ts \<Rightarrow> real_of_int (last (a # ts) - a) / 1000000)"

lemma itl_values_sum: "sum_list (itl_values ts) = sum_list (map decode_span_ms ts)"
proof (induction ts)
  case Nil
  then show ?case by (simp add: itl_values_def)
next
  case (Cons t ts)
  have "sum_list (itl_gaps (tl_per_token_ts_ns t)) = decode_span_ms t"
    using itl_gaps_sum [of "tl_per_token_ts_ns t"] by (cases "tl_per_token_ts_ns t") (auto simp: decode_span_ms_def)
  then show ?case using Cons by (simp add: itl_values_def)
qed

lemma itl_values_length: "length (itl_values ts) = sum_list (map (\<lambda>t. length (tl_per_token_ts_ns t) - 1) ts)"
  by (induction ts) (simp_all add: itl_values_def)

lemma itl_values_nonneg:
  "\<forall>t\<in>set ts. sorted (tl_per_token_ts_ns t) \<Longrightarrow> \<forall>g\<in>set (itl_values ts). 0 \<le> g"
  using itl_gaps_nonneg by (fastforce simp: itl_values_def)

lemma mean_or_zero_nonneg: "\<forall>x\<in>set xs. 0 \<le> x \<Longrightarrow> 0 \<le> mean_or_zero xs"
  by (simp add: mean_or_zero_def mean_nonneg)

lemma ttft_values_nonneg:
  "\<forall>t\<in>set ts. \<forall>v. tl_ttft_ms t = Some v \<longrightarrow> 0 \<le> v \<Longrightarrow> \<forall>v\<in>set (ttft_values ts). 0 \<le> v"
  by (fastforce simp: ttft_values_def split: option.splits)

section \<open>Properties\<close>

text \<open>
  A percentile never leaves the two neighbouring order statistics it interpolates (so never the
  range of the data), is monotone in the requested fraction, and does not depend on the order in
  which the values were collected.
\<close>

theorem percentile_sound:
  assumes "values \<noteq> []" "0 \<le> p" "p \<le> q" "q \<le> 1" "mset other = mset values"
  shows "sort values ! nat \<lfloor>real (length values - 1) * p\<rfloor> \<le> percentile values p \<and>
    percentile values p \<le> sort values ! min (nat \<lfloor>real (length values - 1) * p\<rfloor> + 1) (length values - 1) \<and>
    percentile values p \<le> percentile values q \<and> percentile other q = percentile values q"
proof (intro conjI)
  have p: "p \<le> 1" using assms by simp
  show "sort values ! nat \<lfloor>real (length values - 1) * p\<rfloor> \<le> percentile values p"
    "percentile values p \<le> sort values ! min (nat \<lfloor>real (length values - 1) * p\<rfloor> + 1) (length values - 1)"
    using percentile_bracket [OF assms(1,2) p] .
  show "percentile values p \<le> percentile values q" using assms(2-4) by (rule percentile_order)
  show "percentile other q = percentile values q" using assms(5) by (rule percentile_permute)
qed

lemma percentile_sound_witness: "percentile [30, 10] (1 / 2) \<le> percentile [30, 10] (95 / 100) \<and> percentile [10, 30] (1 / 2) = 20"
proof -
  have "percentile [30, 10] (1 / 2) \<le> percentile [30, 10] (95 / 100)"
    using percentile_sound [of "[30, 10]" "1 / 2" "95 / 100" "[10, 30]"] by simp
  then show ?thesis by (simp add: percentile_def Let_def py_int_def)
qed

text \<open>
  The aggregates of a cell are honest: the mean inter-token latency is the total decode span of
  the successful requests divided by the number of their token gaps (failed requests contribute
  nothing), the success rate is a share, and with the timestamps the telemetry validator accepts
  no latency aggregate is negative.
\<close>

theorem aggregate_metrics_honest:
  assumes "\<forall>t\<in>set telemetries. per_token_monotonic None (tl_per_token_ts_ns t) \<and>
             (\<forall>v. tl_ttft_ms t = Some v \<longrightarrow> 0 \<le> v)"
  shows "cm_mean_itl_ms (aggregate_metrics telemetries) =
      sum_list (map decode_span_ms (successes telemetries)) /
      real (sum_list (map (\<lambda>t. length (tl_per_token_ts_ns t) - 1) (successes telemetries))) \<and>
    0 \<le> cm_mean_itl_ms (aggregate_metrics telemetries) \<and>
    0 \<le> cm_mean_ttft_ms (aggregate_metrics telemetries) \<and> 0 \<le> cm_p95_ttft_ms (aggregate_metrics telemetries) \<and>
    0 \<le> cm_success_rate (aggregate_metrics telemetries) \<and> cm_success_rate (aggregate_metrics telemetries) \<le> 1"
proof -
  let ?ok = "successes telemetries"
  have ok: "\<forall>t\<in>set ?ok. sorted (tl_per_token_ts_ns t)" "\<forall>t\<in>set ?ok. \<forall>v. tl_ttft_ms t = Some v \<longrightarrow> 0 \<le> v"
    using assms by (auto simp: successes_def per_token_monotonic_sorted)
  have "mean_or_zero (itl_values ?ok) = sum_list (map decode_span_ms ?ok) /
      real (sum_list (map (\<lambda>t. length (tl_per_token_ts_ns t) - 1) ?ok))"
    using itl_values_sum [of ?ok] itl_values_length [of ?ok] by (auto simp: mean_or_zero_def mean_def)
  then show ?thesis
    using success_share_range [of telemetries] mean_or_zero_nonneg [OF itl_values_nonneg [OF ok(1)]]
      mean_or_zero_nonneg [OF ttft_values_nonneg [OF ok(2)]] percentile_nonneg [OF ttft_values_nonneg [OF ok(2)], of "95 / 100"]
    by (simp add: aggregate_metrics_def)
qed

definition ex_bench_telemetry :: "int \<Rightarrow> int list \<Rightarrow> request_telemetry" where
  "ex_bench_telemetry status stamps =
     \<lparr>tl_request_id = ''r'', tl_prompt_tokens = 5, tl_enqueue_ts_ns = 0, tl_ttft_ms = Some 2,
      tl_per_token_ts_ns = stamps, tl_completion_ts_ns = None, tl_status_code = status, tl_error = None,
      tl_routed_pool = Some ''tier''\<rparr>"

lemma aggregate_metrics_honest_witness:
  "cm_mean_itl_ms (aggregate_metrics [ex_bench_telemetry 200 [2000000, 4000000, 8000000], ex_bench_telemetry 503 [0, 9000000]]) = 3"
  using aggregate_metrics_honest [of "[ex_bench_telemetry 200 [2000000, 4000000, 8000000], ex_bench_telemetry 503 [0, 9000000]]"]
  by (simp add: ex_bench_telemetry_def successes_def decode_span_ms_def)

end
