(* ===== verification/CellSchema.thy ===== *)
theory CellSchema
  imports BenchStats "HOL-Library.Word"
begin

text \<open>
  \<open>bench/schema/cell_schema.py\<close>: the cells of the campaign (topology, model, rate, mix), their
  identifiers and default seeds, the thermal reading, the stored result of a cell and the summary over
  a list of results. The lemmas show that a cell identifier determines the cell and that the summary
  ignores cells that did not reconcile.
\<close>

section \<open>Cells\<close>

datatype topology = TOPO_COLOCATED | TOPO_CHUNKED | TOPO_DISAGG | TOPO_DISAGG_TIER
datatype model_id = QWEN3_1_7B | QWEN2_5_7B | QWEN3_30B
datatype mix = MIX_CHAT | MIX_RAG | MIX_AGENTIC

fun topology_value :: "topology \<Rightarrow> string" where
  "topology_value TOPO_COLOCATED = ''colocated''"
| "topology_value TOPO_CHUNKED = ''chunked''"
| "topology_value TOPO_DISAGG = ''disagg''"
| "topology_value TOPO_DISAGG_TIER = ''disagg_tier''"

fun model_value :: "model_id \<Rightarrow> string" where
  "model_value QWEN3_1_7B = ''qwen3-1.7b''"
| "model_value QWEN2_5_7B = ''qwen2.5-7b''"
| "model_value QWEN3_30B = ''qwen3-30b''"

fun mix_value :: "mix \<Rightarrow> string" where
  "mix_value MIX_CHAT = ''chat''"
| "mix_value MIX_RAG = ''rag''"
| "mix_value MIX_AGENTIC = ''agentic''"

text \<open>\<open>list(Topology)\<close>, \<open>list(Model)\<close> and \<open>list(Mix)\<close>: the members in declaration order.\<close>

definition all_topologies :: "topology list" where
  "all_topologies = [TOPO_COLOCATED, TOPO_CHUNKED, TOPO_DISAGG, TOPO_DISAGG_TIER]"

definition all_models :: "model_id list" where
  "all_models = [QWEN3_1_7B, QWEN2_5_7B, QWEN3_30B]"

definition all_mixes :: "mix list" where
  "all_mixes = [MIX_CHAT, MIX_RAG, MIX_AGENTIC]"

lemma in_all_topologies [simp]: "t \<in> set all_topologies"
  by (cases t) (simp_all add: all_topologies_def)

text \<open>The polynomial hash of the seed, truncated to 32 bits at every step.\<close>

definition seed_hash :: "string \<Rightarrow> 32 word" where
  "seed_hash s = foldl (\<lambda>h ch. h * 131 + of_nat (of_char ch)) 0 s"

definition derive_seed :: "topology \<Rightarrow> model_id \<Rightarrow> int \<Rightarrow> mix \<Rightarrow> int" where
  "derive_seed t mdl rate_rps mx =
     uint (seed_hash (topology_value t @ ''|'' @ model_value mdl @ ''|'' @ int_str rate_rps @ ''|'' @ mix_value mx))"

record cell_spec =
  cs_topology :: topology
  cs_model :: model_id
  cs_rate_rps :: int
  cs_mix :: mix
  cs_n_warmup :: int
  cs_n_measure :: int
  cs_seed :: int

definition default_seed :: "cell_spec \<Rightarrow> cell_spec" where
  "default_seed c =
     (if cs_seed c = 0
      then c\<lparr>cs_seed := derive_seed (cs_topology c) (cs_model c) (cs_rate_rps c) (cs_mix c)\<rparr>
      else c)"

definition CellSpec :: "topology \<Rightarrow> model_id \<Rightarrow> int \<Rightarrow> mix \<Rightarrow> int \<Rightarrow> int \<Rightarrow> int \<Rightarrow> cell_spec result" where
  "CellSpec t mdl rate_rps mx n_warmup n_measure seed =
     (if 1 \<le> rate_rps \<and> rate_rps \<le> 64 \<and> 0 \<le> n_warmup \<and> 1 \<le> n_measure \<and> 0 \<le> seed
      then Inr (default_seed \<lparr>cs_topology = t, cs_model = mdl, cs_rate_rps = rate_rps, cs_mix = mx,
                  cs_n_warmup = n_warmup, cs_n_measure = n_measure, cs_seed = seed\<rparr>)
      else Inl ValueError)"

definition cell_name :: "topology \<Rightarrow> model_id \<Rightarrow> int \<Rightarrow> mix \<Rightarrow> string" where
  "cell_name t mdl rate_rps mx =
     topology_value t @ ''__'' @ model_value mdl @ ''__rate-'' @ int_str rate_rps @ ''__'' @ mix_value mx"

definition cell_id :: "cell_spec \<Rightarrow> string" where
  "cell_id c = cell_name (cs_topology c) (cs_model c) (cs_rate_rps c) (cs_mix c)"

lemma default_seed_fields [simp]:
  "cs_topology (default_seed c) = cs_topology c" "cs_model (default_seed c) = cs_model c"
  "cs_rate_rps (default_seed c) = cs_rate_rps c" "cs_mix (default_seed c) = cs_mix c"
  "cs_n_warmup (default_seed c) = cs_n_warmup c" "cs_n_measure (default_seed c) = cs_n_measure c"
  by (simp_all add: default_seed_def)

lemma CellSpec_Inr:
  "CellSpec t mdl r mx w n s = Inr c \<Longrightarrow>
     cs_topology c = t \<and> cs_model c = mdl \<and> cs_rate_rps c = r \<and> cs_mix c = mx \<and> cs_n_warmup c = w \<and>
     cs_n_measure c = n \<and> 1 \<le> r \<and> r \<le> 64 \<and> 0 \<le> w \<and> 1 \<le> n"
  by (auto simp: CellSpec_def split: if_splits)

lemma CellSpec_cell_id: "CellSpec t mdl r mx w n s = Inr c \<Longrightarrow> cell_id c = cell_name t mdl r mx"
  by (auto dest: CellSpec_Inr simp: cell_id_def)

lemma CellSpec_seed: "CellSpec t mdl r mx w n s = Inr c \<Longrightarrow>
    cs_seed c = (if s = 0 then derive_seed t mdl r mx else s)"
  by (auto simp: CellSpec_def default_seed_def split: if_splits)

lemma derive_seed_range: "0 \<le> derive_seed t mdl r mx \<and> derive_seed t mdl r mx < 2 ^ 32"
  using uint_bounded [of "seed_hash (topology_value t @ ''|'' @ model_value mdl @ ''|'' @ int_str r @ ''|'' @ mix_value mx)"]
  by (simp add: derive_seed_def)

subsection \<open>Identifiers determine cells\<close>

lemma int_str_no_underscore: "CHR ''_'' \<notin> set (int_str i)"
  using int_str_chars [of "CHR ''_''" i] by (auto simp: is_digit_def)

lemma mix_value_inj [simp]: "mix_value a = mix_value b \<longleftrightarrow> a = b"
  by (cases a; cases b) simp_all

lemma topology_value_inj [simp]: "topology_value a = topology_value b \<longleftrightarrow> a = b"
  by (cases a; cases b) simp_all

lemma model_value_inj [simp]: "model_value a = model_value b \<longleftrightarrow> a = b"
  by (cases a; cases b) simp_all

lemma topology_prefix: "topology_value a @ ''__q'' @ s = topology_value b @ ''__q'' @ t \<longleftrightarrow> a = b \<and> s = t"
  by (cases a; cases b) simp_all

lemma model_prefix: "model_value a @ ''__'' @ s = model_value b @ ''__'' @ t \<longleftrightarrow> a = b \<and> s = t"
  by (cases a; cases b) simp_all

lemma model_value_q: "\<exists>v. model_value m = CHR ''q'' # v"
  by (cases m) simp_all

lemma rate_suffix: "int_str r @ ''__'' @ s = int_str r' @ ''__'' @ t \<longleftrightarrow> r = r' \<and> s = t"
  using until_mark [OF int_str_no_underscore int_str_no_underscore, of r "CHR ''_'' # s" r' "CHR ''_'' # t"] by simp

lemma cell_name_inj: "cell_name t m r x = cell_name t' m' r' x' \<longleftrightarrow> t = t' \<and> m = m' \<and> r = r' \<and> x = x'"
proof
  assume eq: "cell_name t m r x = cell_name t' m' r' x'"
  obtain v where v: "model_value m = CHR ''q'' # v" using model_value_q by blast
  obtain v' where v': "model_value m' = CHR ''q'' # v'" using model_value_q by blast
  have "topology_value t @ ''__q'' @ v @ ''__rate-'' @ int_str r @ ''__'' @ mix_value x =
      topology_value t' @ ''__q'' @ v' @ ''__rate-'' @ int_str r' @ ''__'' @ mix_value x'"
    using eq by (simp add: cell_name_def v v')
  then have t: "t = t'" and "v @ ''__rate-'' @ int_str r @ ''__'' @ mix_value x = v' @ ''__rate-'' @ int_str r' @ ''__'' @ mix_value x'"
    using topology_prefix [of t "v @ ''__rate-'' @ int_str r @ ''__'' @ mix_value x" t'
        "v' @ ''__rate-'' @ int_str r' @ ''__'' @ mix_value x'"] by simp_all
  then have "model_value m @ ''__'' @ ''rate-'' @ int_str r @ ''__'' @ mix_value x =
      model_value m' @ ''__'' @ ''rate-'' @ int_str r' @ ''__'' @ mix_value x'"
    by (simp add: v v')
  then have m: "m = m'" and "int_str r @ ''__'' @ mix_value x = int_str r' @ ''__'' @ mix_value x'"
    using model_prefix [of m "''rate-'' @ int_str r @ ''__'' @ mix_value x" m' "''rate-'' @ int_str r' @ ''__'' @ mix_value x'"]
    by simp_all
  then show "t = t' \<and> m = m' \<and> r = r' \<and> x = x'"
    using t rate_suffix [of r "mix_value x" r' "mix_value x'"] by simp
qed simp

section \<open>Results\<close>

text \<open>\<open>THERMAL_WARN_C\<close> is declared as a field with a default, so it is part of every reading.\<close>

record thermal_reading =
  th_gpu_temp_c :: int
  th_gpu_util_pct :: int
  th_gpu_mem_used_mb :: int
  th_warn_c :: int

definition ThermalReading :: "int \<Rightarrow> int \<Rightarrow> int \<Rightarrow> thermal_reading result" where
  "ThermalReading temp util mem =
     (if 0 \<le> temp \<and> temp \<le> 120 \<and> 0 \<le> util \<and> util \<le> 100 \<and> 0 \<le> mem
      then Inr \<lparr>th_gpu_temp_c = temp, th_gpu_util_pct = util, th_gpu_mem_used_mb = mem, th_warn_c = 80\<rparr>
      else Inl ValueError)"

definition is_overheating :: "thermal_reading \<Rightarrow> bool" where
  "is_overheating r \<longleftrightarrow> th_warn_c r < th_gpu_temp_c r"

record cell_result =
  cr_cell_id :: string
  cr_topology :: topology
  cr_model :: model_id
  cr_rate_rps :: int
  cr_mix :: mix
  cr_n_warmup :: int
  cr_n_measure :: int
  cr_seed :: int
  cr_mean_ttft_ms :: real
  cr_p95_ttft_ms :: real
  cr_mean_itl_ms :: real
  cr_success_rate :: real
  cr_cache_hit_rate :: real
  cr_reconcile_passes :: bool
  cr_thermal :: thermal_reading
  cr_started_at :: real
  cr_duration_s :: real
  cr_notes :: "string list"

text \<open>The constructor's field checks, on the record of its arguments.\<close>

definition CellResult :: "cell_result \<Rightarrow> cell_result result" where
  "CellResult r =
     (if 0 \<le> cr_success_rate r \<and> cr_success_rate r \<le> 1 \<and> 0 \<le> cr_cache_hit_rate r \<and> cr_cache_hit_rate r \<le> 1 \<and>
         0 \<le> cr_duration_s r
      then Inr r else Inl ValueError)"

definition has_thermal_warning :: "cell_result \<Rightarrow> bool" where
  "has_thermal_warning r = is_overheating (cr_thermal r)"

record summary_stats =
  ss_n_cells :: int
  ss_n_cells_reconciled :: int
  ss_n_unreconciled :: int
  ss_n_thermal_warnings :: int
  ss_all_reconciled :: bool
  ss_mean_ttft_ms :: real
  ss_mean_itl_ms :: real

definition reconciled :: "cell_result list \<Rightarrow> cell_result list" where
  "reconciled rs = filter cr_reconcile_passes rs"

definition from_results :: "cell_result list \<Rightarrow> summary_stats" where
  "from_results results =
     (if results = []
      then \<lparr>ss_n_cells = 0, ss_n_cells_reconciled = 0, ss_n_unreconciled = 0, ss_n_thermal_warnings = 0,
            ss_all_reconciled = True, ss_mean_ttft_ms = 0, ss_mean_itl_ms = 0\<rparr>
      else
        let rec = reconciled results;
            n_rec = length rec;
            n_unreconciled = int (length results) - int n_rec
        in \<lparr>ss_n_cells = int (length results), ss_n_cells_reconciled = int n_rec,
            ss_n_unreconciled = n_unreconciled,
            ss_n_thermal_warnings = int (length (filter has_thermal_warning results)),
            ss_all_reconciled = (n_unreconciled = 0),
            ss_mean_ttft_ms = (if n_rec \<noteq> 0 then sum_list (map cr_mean_ttft_ms rec) / real n_rec else 0),
            ss_mean_itl_ms = (if n_rec \<noteq> 0 then sum_list (map cr_mean_itl_ms rec) / real n_rec else 0)\<rparr>)"

record campaign_result =
  ca_n_cells_completed :: int
  ca_n_cells_failed :: int
  ca_total_duration_s :: real
  ca_cost_usd :: real
  ca_pod_id :: string
  ca_started_at :: real
  ca_ended_at :: real

lemma reconciled_idem: "reconciled (reconciled rs) = reconciled rs"
  by (simp add: reconciled_def)

lemma summary_counts:
  "ss_n_cells (from_results rs) = int (length rs)"
  "ss_n_cells_reconciled (from_results rs) = int (length (reconciled rs))"
  "ss_n_unreconciled (from_results rs) = int (length (filter (\<lambda>r. \<not> cr_reconcile_passes r) rs))"
  "ss_all_reconciled (from_results rs) \<longleftrightarrow> (\<forall>r\<in>set rs. cr_reconcile_passes r)"
proof -
  have parts: "length (reconciled rs) + length (filter (\<lambda>r. \<not> cr_reconcile_passes r) rs) = length rs"
    by (simp add: reconciled_def sum_length_filter_compl)
  show "ss_n_cells (from_results rs) = int (length rs)"
    "ss_n_cells_reconciled (from_results rs) = int (length (reconciled rs))"
    by (simp_all add: from_results_def reconciled_def Let_def)
  show "ss_n_unreconciled (from_results rs) = int (length (filter (\<lambda>r. \<not> cr_reconcile_passes r) rs))"
    using parts by (simp add: from_results_def Let_def)
  have "ss_all_reconciled (from_results rs) \<longleftrightarrow> length (filter (\<lambda>r. \<not> cr_reconcile_passes r) rs) = 0"
    using parts by (auto simp: from_results_def Let_def)
  then show "ss_all_reconciled (from_results rs) \<longleftrightarrow> (\<forall>r\<in>set rs. cr_reconcile_passes r)"
    by (simp add: filter_empty_conv)
qed

text \<open>Cells that did not reconcile, whatever latencies they carry, do not move the means.\<close>

lemma summary_means:
  "ss_mean_ttft_ms (from_results rs) = mean_or_zero (map cr_mean_ttft_ms (reconciled rs))"
  "ss_mean_itl_ms (from_results rs) = mean_or_zero (map cr_mean_itl_ms (reconciled rs))"
  by (auto simp: from_results_def mean_or_zero_def mean_def reconciled_def Let_def)

section \<open>Properties\<close>

text \<open>
  A cell identifier determines its cell: two specifications with the same identifier have the
  same topology, model, rate and mix, so result files never collide; and a specification whose seed
  was left at its default of zero gets a seed that fits an unsigned 32-bit integer.
\<close>

theorem cell_id_determines_cell:
  assumes "CellSpec t m r x w n s = Inr c" "CellSpec t' m' r' x' w' n' s' = Inr c'"
  shows "(cell_id c = cell_id c' \<longleftrightarrow> t = t' \<and> m = m' \<and> r = r' \<and> x = x') \<and>
    (s = 0 \<longrightarrow> 0 \<le> cs_seed c \<and> cs_seed c < 2 ^ 32)"
  using CellSpec_cell_id [OF assms(1)] CellSpec_cell_id [OF assms(2)] CellSpec_seed [OF assms(1)]
    derive_seed_range [of t m r x]
  by (simp add: cell_name_inj)

definition ex_cell :: "topology \<Rightarrow> cell_spec" where
  "ex_cell t = default_seed \<lparr>cs_topology = t, cs_model = QWEN3_1_7B, cs_rate_rps = 4, cs_mix = MIX_CHAT,
     cs_n_warmup = 1, cs_n_measure = 2, cs_seed = 0\<rparr>"

lemma ex_cell_spec: "CellSpec t QWEN3_1_7B 4 MIX_CHAT 1 2 0 = Inr (ex_cell t)"
  by (simp add: CellSpec_def ex_cell_def)

lemma cell_id_determines_cell_witness: "cell_id (ex_cell TOPO_DISAGG) \<noteq> cell_id (ex_cell TOPO_DISAGG_TIER)"
  using cell_id_determines_cell [OF ex_cell_spec ex_cell_spec, of TOPO_DISAGG TOPO_DISAGG_TIER] by simp

text \<open>
  The campaign summary is computed over reconciled cells only: its counts partition the cells, the
  campaign counts as reconciled exactly when every cell is, and its means are those of the
  reconciled cells, so adding or dropping unreconciled cells cannot change them.
\<close>

theorem summary_over_reconciled:
  "ss_n_cells_reconciled (from_results rs) + ss_n_unreconciled (from_results rs) = ss_n_cells (from_results rs) \<and>
   ss_n_unreconciled (from_results rs) = int (length (filter (\<lambda>r. \<not> cr_reconcile_passes r) rs)) \<and>
   ss_all_reconciled (from_results rs) = (\<forall>r\<in>set rs. cr_reconcile_passes r) \<and>
   ss_mean_ttft_ms (from_results rs) = mean_or_zero (map cr_mean_ttft_ms (reconciled rs)) \<and>
   ss_mean_ttft_ms (from_results rs) = ss_mean_ttft_ms (from_results (reconciled rs)) \<and>
   ss_mean_itl_ms (from_results rs) = ss_mean_itl_ms (from_results (reconciled rs))"
proof -
  have "length (reconciled rs) + length (filter (\<lambda>r. \<not> cr_reconcile_passes r) rs) = length rs"
    by (simp add: reconciled_def sum_length_filter_compl)
  then show ?thesis by (simp add: summary_counts summary_means reconciled_idem)
qed

end
