(* ===== verification/ChatWorkload.thy ===== *)
theory ChatWorkload
  imports Workloads
begin

text \<open>
  \<open>loadgen/chat.py\<close>: the multi-turn chat trace with one shared system prompt.
\<close>

definition DEFAULT_SYSTEM_PROMPT :: string where
  "DEFAULT_SYSTEM_PROMPT =
     ''You are a helpful, concise assistant.  Answer the user'' @ [CHR 0x27] @ ''s question '' @
     ''directly.  If you do not know the answer, say so.''"

record chat_config =
  ch_n_requests :: int
  ch_seed :: int
  ch_prompt_tokens_range :: "int \<times> int"
  ch_output_tokens_range :: "int \<times> int"
  ch_n_turns_range :: "int \<times> int"
  ch_system_prompt :: string
  ch_rate_per_sec :: real
  ch_duration_s :: real
  ch_slo_class :: slo_class

definition ChatWorkloadConfig ::
  "int \<Rightarrow> int \<Rightarrow> int \<times> int \<Rightarrow> int \<times> int \<Rightarrow> int \<times> int \<Rightarrow> string \<Rightarrow> real \<Rightarrow> real \<Rightarrow> slo_class \<Rightarrow> chat_config result" where
  "ChatWorkloadConfig n seed prompt_range output_range turns_range sys rate dur slo =
     (if n \<le> 0 then Inl ValueError
      else if fst prompt_range < 1 \<or> snd prompt_range < fst prompt_range then Inl ValueError
      else if fst output_range < 1 \<or> snd output_range < fst output_range then Inl ValueError
      else if fst turns_range < 1 \<or> snd turns_range < fst turns_range then Inl ValueError
      else Inr \<lparr>ch_n_requests = n, ch_seed = seed, ch_prompt_tokens_range = prompt_range,
                ch_output_tokens_range = output_range, ch_n_turns_range = turns_range, ch_system_prompt = sys,
                ch_rate_per_sec = rate, ch_duration_s = dur, ch_slo_class = slo\<rparr>)"

fun chat_turns :: "'g rng \<Rightarrow> nat \<Rightarrow> int \<Rightarrow> 'g \<Rightarrow> (string list \<times> 'g) result" where
  "chat_turns R 0 per_turn g = Inr ([], g)"
| "chat_turns R (Suc n) per_turn g =
     rbind (synth_paragraph R per_turn g) (\<lambda>(t, g1). rbind (chat_turns R n per_turn g1) (\<lambda>(ts, g2). Inr (t # ts, g2)))"

definition chat_prompt :: "string \<Rightarrow> string list \<Rightarrow> string" where
  "chat_prompt sys turns =
     ''System: '' @ sys @ [newline] @ joined [newline] (map (\<lambda>t. ''User: '' @ t) turns) @ [newline] @ ''Assistant:''"

definition chat_request :: "'g rng \<Rightarrow> chat_config \<Rightarrow> nat \<Rightarrow> 'g \<Rightarrow> (request_spec \<times> 'g) result" where
  "chat_request R cfg i g =
     rbind (randint R (fst (ch_n_turns_range cfg)) (snd (ch_n_turns_range cfg)) g) (\<lambda>(n_turns, g1).
     rbind (randint R (fst (ch_prompt_tokens_range cfg)) (snd (ch_prompt_tokens_range cfg)) g1) (\<lambda>(target_prompt, g2).
     rbind (randint R (fst (ch_output_tokens_range cfg)) (snd (ch_output_tokens_range cfg)) g2) (\<lambda>(target_output, g3).
     let user_budget = max 1 (target_prompt - int (synth_token_count (ch_system_prompt cfg))) in
     if n_turns = 0 then Inl ZeroDivisionError
     else
       rbind (chat_turns R (nat n_turns) (max 1 (user_budget div n_turns)) g3) (\<lambda>(turns, g4).
       rbind (RequestSpec (request_id ''chat'' i) (ch_slo_class cfg) CHAT target_prompt target_output
                (chat_prompt (ch_system_prompt cfg) turns)) (\<lambda>r. Inr (r, g4))))))"

definition chat_generate :: "'g rng \<Rightarrow> chat_config \<Rightarrow> trace result" where
  "chat_generate R cfg =
     rbind (request_loop (chat_request R cfg) 0 (nat (ch_n_requests cfg)) (rng_seed R (ch_seed cfg))) (\<lambda>(requests, g).
     rbind (ArrivalConfig Poisson (ch_rate_per_sec cfg) (ch_seed cfg) None None) (\<lambda>arrival.
       Trace CHAT (ch_seed cfg) (ch_duration_s cfg) arrival requests))"

section \<open>The budget of a prompt\<close>

text \<open>The configurations whose requests pass the request model's own limits.\<close>

definition chat_fits :: "chat_config \<Rightarrow> bool" where
  "chat_fits cfg \<longleftrightarrow>
     1 \<le> fst (ch_n_turns_range cfg) \<and> fst (ch_n_turns_range cfg) \<le> snd (ch_n_turns_range cfg) \<and>
     1 \<le> fst (ch_prompt_tokens_range cfg) \<and> fst (ch_prompt_tokens_range cfg) \<le> snd (ch_prompt_tokens_range cfg) \<and>
     snd (ch_prompt_tokens_range cfg) \<le> 200000 \<and>
     1 \<le> fst (ch_output_tokens_range cfg) \<and> fst (ch_output_tokens_range cfg) \<le> snd (ch_output_tokens_range cfg) \<and>
     snd (ch_output_tokens_range cfg) \<le> 16000"

lemma ChatWorkloadConfig_fits:
  "ChatWorkloadConfig n seed pr orng tr sys rate dur slo = Inr cfg \<Longrightarrow> snd pr \<le> 200000 \<Longrightarrow> snd orng \<le> 16000 \<Longrightarrow>
     chat_fits cfg \<and> 0 < ch_n_requests cfg"
  by (auto simp: ChatWorkloadConfig_def chat_fits_def split: if_splits)

lemma chat_turns_tokens:
  assumes "rng_ok R"
  shows "\<exists>ts g'. chat_turns R n k g = Inr (ts, g') \<and> length ts = n \<and> (\<forall>t\<in>set ts. synth_token_count t = nat k)"
proof (induction n arbitrary: g)
  case 0
  then show ?case by simp
next
  case (Suc n)
  obtain t g1 where t: "synth_paragraph R k g = Inr (t, g1)" "synth_token_count t = nat k"
    using synth_paragraph_tokens [OF assms] by blast
  obtain ts g2 where "chat_turns R n k g1 = Inr (ts, g2)" "length ts = n" "\<forall>t\<in>set ts. synth_token_count t = nat k"
    using Suc by blast
  with t show ?case by auto
qed

lemma user_turn_tokens: "synth_token_count (''User: '' @ t) = Suc (synth_token_count t)"
  using split_sep [of "'' ''" "''User:''" t] by (simp add: token_count_split is_space_def py_split_def)

lemma chat_prompt_tokens:
  "synth_token_count (chat_prompt sys turns) =
     synth_token_count sys + 2 + sum_list (map (\<lambda>t. Suc (synth_token_count t)) turns)"
proof -
  have nl: "is_space newline" by (simp add: is_space_def)
  have j: "length (py_split (joined [newline] (map (\<lambda>t. ''User: '' @ t) turns))) =
      sum_list (map (\<lambda>t. Suc (synth_token_count t)) turns)"
    using joined_sep_count [of "[newline]" "map (\<lambda>t. ''User: '' @ t) turns"] nl
    by (simp add: token_count_split [symmetric] user_turn_tokens [simplified] comp_def)
  have "py_split (chat_prompt sys turns) =
      py_split ''System:'' @ py_split sys @ py_split (joined [newline] (map (\<lambda>t. ''User: '' @ t) turns)) @ py_split ''Assistant:''"
    using split_sep [of "'' ''" "''System:''" "sys @ [newline] @ joined [newline] (map (\<lambda>t. ''User: '' @ t) turns) @ [newline] @ ''Assistant:''"]
      split_sep [of "[newline]" sys "joined [newline] (map (\<lambda>t. ''User: '' @ t) turns) @ [newline] @ ''Assistant:''"]
      split_sep [of "[newline]" "joined [newline] (map (\<lambda>t. ''User: '' @ t) turns)" "''Assistant:''"]
    by (simp add: chat_prompt_def is_space_def)
  moreover have "length (py_split ''System:'') = 1" "length (py_split ''Assistant:'') = 1"
    by (simp_all add: py_split_def is_space_def)
  ultimately show ?thesis using j by (simp add: token_count_split)
qed

text \<open>
  What one request promises: its fields are drawn from the configured ranges, and its prompt overshoots
  the recorded budget by the two role words and the leftover of the turns.
\<close>

definition chat_spec_ok :: "chat_config \<Rightarrow> nat \<Rightarrow> request_spec \<Rightarrow> bool" where
  "chat_spec_ok cfg i r \<longleftrightarrow>
     fst (ch_prompt_tokens_range cfg) \<le> rq_prompt_tokens r \<and> rq_prompt_tokens r \<le> snd (ch_prompt_tokens_range cfg) \<and>
     fst (ch_output_tokens_range cfg) \<le> rq_output_tokens r \<and> rq_output_tokens r \<le> snd (ch_output_tokens_range cfg) \<and>
     rq_workload r = CHAT \<and> rq_slo_class r = ch_slo_class cfg \<and>
     (int (synth_token_count (ch_system_prompt cfg)) + snd (ch_n_turns_range cfg) \<le> fst (ch_prompt_tokens_range cfg) \<longrightarrow>
        rq_prompt_tokens r + 2 < int (synth_token_count (rq_prompt_text r)) \<and>
        int (synth_token_count (rq_prompt_text r)) \<le> rq_prompt_tokens r + 2 + snd (ch_n_turns_range cfg))"

lemma turn_budget:
  fixes b n :: int
  assumes "1 \<le> n" "n \<le> b"
  shows "1 \<le> b div n" "b < n * (1 + b div n)" "n * (b div n) \<le> b"
proof -
  have "b = n * (b div n) + b mod n" "0 \<le> b mod n" "b mod n < n" using assms by simp_all
  then show "n * (b div n) \<le> b" by linarith
  have "b < n + n * (b div n)" using \<open>b = _\<close> \<open>b mod n < n\<close> by linarith
  then show "b < n * (1 + b div n)" by (simp add: distrib_left)
  show "1 \<le> b div n" using assms by (simp add: pos_imp_zdiv_pos_iff int_one_le_iff_zero_less)
qed

lemma request_id_strip: "py_strip (request_id ''chat'' i) \<noteq> []"
  by (simp add: request_id_def py_strip_def is_space_def dropWhile_append)

lemma chat_request_ok:
  assumes R: "rng_ok R" and cfg: "chat_fits cfg"
  shows "\<exists>r g'. chat_request R cfg i g = Inr (r, g') \<and> chat_spec_ok cfg i r"
proof -
  let ?S = "int (synth_token_count (ch_system_prompt cfg))"
  have le: "fst (ch_n_turns_range cfg) \<le> snd (ch_n_turns_range cfg)"
    "fst (ch_prompt_tokens_range cfg) \<le> snd (ch_prompt_tokens_range cfg)"
    "fst (ch_output_tokens_range cfg) \<le> snd (ch_output_tokens_range cfg)" using cfg by (simp_all add: chat_fits_def)
  obtain n g1 where n: "randint R (fst (ch_n_turns_range cfg)) (snd (ch_n_turns_range cfg)) g = Inr (n, g1)"
    using randint_total [OF le(1), of R g] by blast
  obtain T g2 where T: "randint R (fst (ch_prompt_tokens_range cfg)) (snd (ch_prompt_tokens_range cfg)) g1 = Inr (T, g2)"
    using randint_total [OF le(2), of R g1] by blast
  obtain out g3 where out: "randint R (fst (ch_output_tokens_range cfg)) (snd (ch_output_tokens_range cfg)) g2 = Inr (out, g3)"
    using randint_total [OF le(3), of R g2] by blast
  note ranges = randint_Inr [OF R n] randint_Inr [OF R T] randint_Inr [OF R out]
  have n1: "1 \<le> n" and T1: "1 \<le> T" "T \<le> 200000" and out1: "1 \<le> out" "out \<le> 16000"
    using ranges cfg unfolding chat_fits_def by linarith+
  define per where "per = max 1 (max 1 (T - ?S) div n)"
  obtain ts g4 where ts: "chat_turns R (nat n) per g3 = Inr (ts, g4)" "length ts = nat n"
    "\<forall>t\<in>set ts. synth_token_count t = nat per"
    using chat_turns_tokens [OF R] by blast
  define r where "r = \<lparr>rq_id = request_id ''chat'' i, rq_slo_class = ch_slo_class cfg, rq_workload = CHAT,
     rq_prompt_tokens = T, rq_output_tokens = out, rq_prompt_text = chat_prompt (ch_system_prompt cfg) ts\<rparr>"
  have spec: "RequestSpec (request_id ''chat'' i) (ch_slo_class cfg) CHAT T out (chat_prompt (ch_system_prompt cfg) ts) = Inr r"
    using T1 out1 request_id_strip [of i] by (simp add: RequestSpec_def r_def)
  have "chat_request R cfg i g = Inr (r, g4)"
    using n T out ts(1) spec n1 by (simp add: chat_request_def Let_def per_def)
  moreover have "T + 2 < int (synth_token_count (rq_prompt_text r)) \<and>
      int (synth_token_count (rq_prompt_text r)) \<le> T + 2 + snd (ch_n_turns_range cfg)"
    if room: "?S + snd (ch_n_turns_range cfg) \<le> fst (ch_prompt_tokens_range cfg)"
  proof -
    have b: "n \<le> T - ?S" using room ranges by linarith
    have per: "per = (T - ?S) div n" using turn_budget(1) [OF n1 b] n1 b by (simp add: per_def max_def)
    have "0 \<le> per" by (simp add: per_def)
    have "map (\<lambda>t. Suc (synth_token_count t)) ts = map (\<lambda>_. Suc (nat per)) ts" using ts(3) by simp
    then have "sum_list (map (\<lambda>t. Suc (synth_token_count t)) ts) = nat n * Suc (nat per)"
      using ts(2) by (simp add: map_replicate_const sum_list_replicate)
    then have "int (synth_token_count (rq_prompt_text r)) = ?S + 2 + n * (1 + per)"
      using n1 \<open>0 \<le> per\<close> by (simp add: r_def chat_prompt_tokens distrib_left)
    then show ?thesis using turn_budget [OF n1 b] ranges per by (simp add: distrib_left)
  qed
  ultimately show ?thesis using ranges by (auto simp: chat_spec_ok_def r_def)
qed

lemma chat_request_id: "chat_request R cfg i g = Inr (r, g') \<Longrightarrow> rq_id r = request_id ''chat'' i"
  by (auto simp: chat_request_def Let_def rbind_eq_Inr dest!: RequestSpec_Inr split: if_splits)

interpretation chat: request_stream "chat_request R cfg" "\<lambda>i g. rng_ok R \<and> chat_fits cfg" "chat_spec_ok cfg" "''chat''" k
  for R :: "'g rng" and cfg :: chat_config and k :: nat
proof unfold_locales
  fix i g r g'
  assume a: "rng_ok R \<and> chat_fits cfg"
  then show "\<exists>r g'. chat_request R cfg i g = Inr (r, g')" using chat_request_ok [of R cfg i g] by blast
  assume "chat_request R cfg i g = Inr (r, g')"
  then show "chat_spec_ok cfg i r" using chat_request_ok [of R cfg i g] a by auto
  show "rng_ok R \<and> chat_fits cfg" by (rule a)
qed (rule chat_request_id)

lemma chat_generate_ok:
  assumes "rng_ok R" and "ChatWorkloadConfig n seed pr orng tr sys rate dur slo = Inr cfg"
    and "snd pr \<le> 200000" and "snd orng \<le> 16000" and "0 < rate" and "0 < dur"
  shows "\<exists>t. chat_generate R cfg = Inr t \<and> int (n_requests t) = n \<and> distinct (map rq_id (tr_requests t)) \<and>
    (\<forall>i<n_requests t. chat_spec_ok cfg i (tr_requests t ! i))"
proof -
  have fits: "chat_fits cfg" "0 < ch_n_requests cfg" using ChatWorkloadConfig_fits [OF assms(2-4)] by auto
  have c: "ch_n_requests cfg = n" "ch_rate_per_sec cfg = rate" "ch_duration_s cfg = dur" "ch_seed cfg = seed"
    using assms(2) by (auto simp: ChatWorkloadConfig_def split: if_splits)
  let ?k = "nat (ch_n_requests cfg)"
  have inv: "rng_ok R \<and> chat_fits cfg" using assms(1) fits(1) by blast
  obtain rs g where rs: "request_loop (chat_request R cfg) 0 ?k (rng_seed R (ch_seed cfg)) = Inr (rs, g)"
    using chat.loop_total [OF inv, of 0 ?k ?k "rng_seed R (ch_seed cfg)"] by auto
  have "length rs = ?k \<and> (\<forall>j<?k. chat_spec_ok cfg (0 + j) (rs ! j))" by (rule chat.loop_fits [OF inv rs])
  moreover have "distinct (map rq_id rs)" by (rule chat.loop_ids_distinct [OF rs])
  ultimately show ?thesis
    using rs assms(5,6) c fits(2) by (simp add: chat_generate_def ArrivalConfig_def opt_positive_def Trace_def n_requests_def)
qed

section \<open>Properties\<close>

text \<open>
  A chat trace meets its configuration. For a validated configuration within the request model's
  limits, with positive rate and duration, generation succeeds with \<open>n_requests\<close> requests of distinct
  identifiers, each with prompt and output budgets in their ranges; when the turns fit, each prompt has
  three to \<open>n_turns + 2\<close> more tokens than the recorded budget.
\<close>

theorem chat_trace_ok:
  assumes "rng_ok R" and "ChatWorkloadConfig n seed pr orng tr sys rate dur slo = Inr cfg"
    and "snd pr \<le> 200000" and "snd orng \<le> 16000" and "0 < rate" and "0 < dur"
  shows "\<exists>t. chat_generate R cfg = Inr t \<and> int (n_requests t) = n \<and> distinct (map rq_id (tr_requests t)) \<and>
    (\<forall>i<n_requests t. chat_spec_ok cfg i (tr_requests t ! i))"
  using assms by (rule chat_generate_ok)

definition ex_chat :: chat_config where
  "ex_chat = \<lparr>ch_n_requests = 2, ch_seed = 0, ch_prompt_tokens_range = (30, 60), ch_output_tokens_range = (5, 9),
     ch_n_turns_range = (1, 3), ch_system_prompt = ''be brief'', ch_rate_per_sec = 1, ch_duration_s = 60,
     ch_slo_class = INTERACTIVE\<rparr>"

theorem chat_trace_ok_witness: "\<exists>t. chat_generate counting_rng ex_chat = Inr t \<and> int (n_requests t) = 2"
proof -
  have "ChatWorkloadConfig 2 0 (30, 60) (5, 9) (1, 3) ''be brief'' 1 60 INTERACTIVE = Inr ex_chat"
    by (simp add: ChatWorkloadConfig_def ex_chat_def)
  from chat_trace_ok [OF counting_rng_ok this] show ?thesis by auto
qed

end
