(* ===== verification/RagWorkload.thy ===== *)
theory RagWorkload
  imports Workloads
begin

text \<open>
  \<open>loadgen/rag.py\<close>: the retrieval trace. A corpus is built once; every prompt starts with the system
  prompt and the same first documents of the corpus, and ends with its own query.
\<close>

definition DEFAULT_RAG_SYSTEM_PROMPT :: string where
  "DEFAULT_RAG_SYSTEM_PROMPT =
     ''You are a retrieval-augmented assistant.  Use the provided documents '' @
     ''to answer the user'' @ [CHR 0x27] @ ''s question.  If the answer is not in the documents, '' @
     ''say '' @ [CHR 0x27] @ ''I do not know'' @ [CHR 0x27] @ ''.''"

record rag_config =
  rg_n_requests :: int
  rg_seed :: int
  rg_n_corpus_docs :: int
  rg_doc_tokens_range :: "int \<times> int"
  rg_include_fraction :: real
  rg_query_tokens_range :: "int \<times> int"
  rg_output_tokens_range :: "int \<times> int"
  rg_system_prompt :: string
  rg_rate_per_sec :: real
  rg_duration_s :: real
  rg_slo_class :: slo_class

text \<open>\<open>__post_init__\<close>, which leaves the query and output ranges unchecked.\<close>

definition RagWorkloadConfig :: "rag_config \<Rightarrow> rag_config result" where
  "RagWorkloadConfig c =
     (if rg_n_requests c \<le> 0 then Inl ValueError
      else if \<not> (0 < rg_include_fraction c \<and> rg_include_fraction c \<le> 1) then Inl ValueError
      else if rg_n_corpus_docs c < 1 then Inl ValueError
      else if fst (rg_doc_tokens_range c) < 100 \<or> snd (rg_doc_tokens_range c) < fst (rg_doc_tokens_range c) then Inl ValueError
      else Inr c)"

fun build_corpus :: "'g rng \<Rightarrow> int \<times> int \<Rightarrow> nat \<Rightarrow> 'g \<Rightarrow> (string list \<times> 'g) result" where
  "build_corpus R rg 0 g = Inr ([], g)"
| "build_corpus R rg (Suc n) g =
     rbind (randint R (fst rg) (snd rg) g) (\<lambda>(target, g1).
     rbind (synth_document R target g1) (\<lambda>(doc, g2).
     rbind (build_corpus R rg n g2) (\<lambda>(docs, g3). Inr (doc # docs, g3))))"

definition RagTraceGenerator :: "'g rng \<Rightarrow> rag_config \<Rightarrow> (string list \<times> 'g) result" where
  "RagTraceGenerator R cfg =
     build_corpus R (rg_doc_tokens_range cfg) (nat (rg_n_corpus_docs cfg)) (rng_seed R (rg_seed cfg))"

definition stable_corpus :: "rag_config \<Rightarrow> string list \<Rightarrow> string list" where
  "stable_corpus cfg corpus =
     take (nat (max 1 (py_round (rg_include_fraction cfg * real (length corpus))))) corpus"

definition rag_prefix :: "string \<Rightarrow> string list \<Rightarrow> string" where
  "rag_prefix sys docs =
     ''System: '' @ sys @ [newline, newline] @ ''Documents:'' @ [newline] @
     joined ([newline, newline] @ ''---'' @ [newline, newline]) docs @ [newline, newline] @ ''User: ''"

definition rag_request :: "'g rng \<Rightarrow> rag_config \<Rightarrow> string list \<Rightarrow> nat \<Rightarrow> 'g \<Rightarrow> (request_spec \<times> 'g) result" where
  "rag_request R cfg corpus i g =
     (let shared_prefix = rag_prefix (rg_system_prompt cfg) (stable_corpus cfg corpus) in
      rbind (randint R (fst (rg_query_tokens_range cfg)) (snd (rg_query_tokens_range cfg)) g) (\<lambda>(q, g1).
      rbind (synth_query R q g1) (\<lambda>(query, g2).
      let prompt = shared_prefix @ query @ [newline, newline] @ ''Assistant:'';
          realized = synth_token_count prompt
      in rbind (randint R (fst (rg_output_tokens_range cfg)) (snd (rg_output_tokens_range cfg)) g2) (\<lambda>(target_output, g3).
         rbind (RequestSpec (request_id ''rag'' i) (rg_slo_class cfg) RAG (int realized) target_output prompt) (\<lambda>r.
           Inr (r, g3))))))"

definition rag_generate :: "'g rng \<Rightarrow> rag_config \<Rightarrow> string list \<times> 'g \<Rightarrow> (trace \<times> 'g) result" where
  "rag_generate R cfg gen =
     (case gen of (corpus, g) \<Rightarrow>
        rbind (request_loop (rag_request R cfg corpus) 0 (nat (rg_n_requests cfg)) g) (\<lambda>(requests, g').
        rbind (ArrivalConfig Poisson (rg_rate_per_sec cfg) (rg_seed cfg) None None) (\<lambda>arrival.
        rbind (Trace RAG (rg_seed cfg) (rg_duration_s cfg) arrival requests) (\<lambda>t. Inr (t, g')))))"

section \<open>Token counts\<close>

lemma split_acc_length: "2 * length (split_acc w s) \<le> length s + (if w = [] then 1 else 2)"
proof (induction w s rule: split_acc.induct)
  case (1 w)
  then show ?case by simp
next
  case (2 w c s)
  then show ?case by (cases "is_space c"; cases "w = []") auto
qed

lemma token_count_length: "2 * synth_token_count s \<le> length s + 1"
  using split_acc_length [of "[]" s] by (simp add: token_count_split py_split_def)

lemma build_corpus_ok:
  assumes "rng_ok R" "1 \<le> lo" "lo \<le> hi"
  shows "\<exists>ds g'. build_corpus R (lo, hi) n g = Inr (ds, g') \<and> length ds = n \<and>
    (\<forall>d\<in>set ds. lo \<le> int (synth_token_count d) \<and> int (synth_token_count d) \<le> hi)"
proof (induction n arbitrary: g)
  case 0
  then show ?case by simp
next
  case (Suc n)
  obtain k g1 where k: "randint R lo hi g = Inr (k, g1)" using randint_total [OF assms(3), of R g] by blast
  obtain d g2 where d: "synth_document R k g1 = Inr (d, g2)" "synth_token_count d = nat k"
    using synth_document_tokens [OF assms(1), of k g1] by blast
  obtain ds g3 where "build_corpus R (lo, hi) n g2 = Inr (ds, g3)" "length ds = n"
    "\<forall>d\<in>set ds. lo \<le> int (synth_token_count d) \<and> int (synth_token_count d) \<le> hi"
    using Suc by blast
  then show ?case using k d randint_Inr [OF assms(1) k] assms(2) by auto
qed

text \<open>Documents are separated by a token of their own.\<close>

lemma joined_docs_count:
  "synth_token_count (joined ([newline, newline] @ ''---'' @ [newline, newline]) ds) + (if ds = [] then 0 else 1) =
     sum_list (map synth_token_count ds) + length ds"
proof (induction ds rule: induct_list012)
  case 1
  then show ?case by (simp add: synth_token_count_def)
next
  case (2 x)
  then show ?case by simp
next
  case (3 x y zs)
  let ?j = "joined ([newline, newline] @ ''---'' @ [newline, newline]) (y # zs)"
  have "py_split (x @ [newline, newline] @ ''---'' @ [newline, newline] @ ?j) = py_split x @ py_split ''---'' @ py_split ?j"
    using split_sep [of "[newline, newline]" x "''---'' @ [newline, newline] @ ?j"]
      split_sep [of "[newline, newline]" "''---''" ?j] by (simp add: is_space_def)
  moreover have "length (py_split ''---'') = 1" by (simp add: py_split_def is_space_def)
  ultimately show ?case using 3(2) by (simp add: token_count_split)
qed

lemma rag_prompt_count:
  assumes "docs \<noteq> []"
  shows "synth_token_count (rag_prefix sys docs @ query @ [newline, newline] @ ''Assistant:'') =
    3 + synth_token_count sys + sum_list (map synth_token_count docs) + length docs + synth_token_count query"
proof -
  let ?j = "joined ([newline, newline] @ ''---'' @ [newline, newline]) docs"
  have "py_split (rag_prefix sys docs @ query @ [newline, newline] @ ''Assistant:'') =
      py_split ''System:'' @ py_split sys @ py_split ''Documents:'' @ py_split ?j @ py_split ''User:'' @ py_split query @ py_split ''Assistant:''"
    using split_sep [of "'' ''" "''System:''" "sys @ [newline, newline] @ ''Documents:'' @ [newline] @ ?j @ [newline, newline] @ ''User: '' @ query @ [newline, newline] @ ''Assistant:''"]
      split_sep [of "[newline, newline]" sys "''Documents:'' @ [newline] @ ?j @ [newline, newline] @ ''User: '' @ query @ [newline, newline] @ ''Assistant:''"]
      split_sep [of "[newline]" "''Documents:''" "?j @ [newline, newline] @ ''User: '' @ query @ [newline, newline] @ ''Assistant:''"]
      split_sep [of "[newline, newline]" ?j "''User: '' @ query @ [newline, newline] @ ''Assistant:''"]
      split_sep [of "'' ''" "''User:''" "query @ [newline, newline] @ ''Assistant:''"]
      split_sep [of "[newline, newline]" query "''Assistant:''"]
    by (simp add: rag_prefix_def is_space_def)
  moreover have "length (py_split ''System:'') = 1" "length (py_split ''Documents:'') = 1"
    "length (py_split ''User:'') = 1" "length (py_split ''Assistant:'') = 1"
    by (simp_all add: py_split_def is_space_def)
  ultimately show ?thesis using joined_docs_count [of docs] assms by (simp add: token_count_split)
qed

section \<open>One request\<close>

definition rag_fits :: "rag_config \<Rightarrow> string list \<Rightarrow> bool" where
  "rag_fits cfg corpus \<longleftrightarrow>
     corpus \<noteq> [] \<and> 1 \<le> fst (rg_query_tokens_range cfg) \<and> fst (rg_query_tokens_range cfg) \<le> snd (rg_query_tokens_range cfg) \<and>
     1 \<le> fst (rg_output_tokens_range cfg) \<and> fst (rg_output_tokens_range cfg) \<le> snd (rg_output_tokens_range cfg) \<and>
     snd (rg_output_tokens_range cfg) \<le> 16000 \<and>
     int (synth_token_count (rg_system_prompt cfg)) + int (sum_list (map synth_token_count corpus)) + int (length corpus) +
       snd (rg_query_tokens_range cfg) + 7 \<le> 200000"

definition rag_spec_ok :: "rag_config \<Rightarrow> string list \<Rightarrow> nat \<Rightarrow> request_spec \<Rightarrow> bool" where
  "rag_spec_ok cfg corpus i r \<longleftrightarrow>
     py_startswith (rq_prompt_text r) (rag_prefix (rg_system_prompt cfg) (stable_corpus cfg corpus)) \<and>
     rq_prompt_tokens r = int (synth_token_count (rq_prompt_text r)) \<and> rq_workload r = RAG \<and>
     fst (rg_output_tokens_range cfg) \<le> rq_output_tokens r \<and> rq_output_tokens r \<le> snd (rg_output_tokens_range cfg)"

lemma stable_corpus_nonempty: "corpus \<noteq> [] \<Longrightarrow> stable_corpus cfg corpus \<noteq> []"
  by (simp add: stable_corpus_def)

lemma stable_corpus_count:
  "sum_list (map synth_token_count (stable_corpus cfg corpus)) \<le> sum_list (map synth_token_count corpus)"
  "length (stable_corpus cfg corpus) \<le> length corpus"
proof -
  have "sum_list (map synth_token_count (take k corpus)) \<le> sum_list (map synth_token_count corpus)" for k
  proof -
    have "sum_list (map synth_token_count corpus) =
        sum_list (map synth_token_count (take k corpus)) + sum_list (map synth_token_count (drop k corpus))"
      by (metis append_take_drop_id map_append sum_list_append)
    then show ?thesis by simp
  qed
  then show "sum_list (map synth_token_count (stable_corpus cfg corpus)) \<le> sum_list (map synth_token_count corpus)"
    by (simp add: stable_corpus_def)
qed (simp add: stable_corpus_def)

lemma rag_request_ok:
  assumes R: "rng_ok R" and cfg: "rag_fits cfg corpus"
  shows "\<exists>r g'. rag_request R cfg corpus i g = Inr (r, g') \<and> rag_spec_ok cfg corpus i r"
proof -
  let ?sys = "rg_system_prompt cfg" and ?docs = "stable_corpus cfg corpus"
  have le: "fst (rg_query_tokens_range cfg) \<le> snd (rg_query_tokens_range cfg)"
    "fst (rg_output_tokens_range cfg) \<le> snd (rg_output_tokens_range cfg)" using cfg by (simp_all add: rag_fits_def)
  obtain q g1 where q: "randint R (fst (rg_query_tokens_range cfg)) (snd (rg_query_tokens_range cfg)) g = Inr (q, g1)"
    using randint_total [OF le(1), of R g] by blast
  have q1: "1 \<le> q" "q \<le> snd (rg_query_tokens_range cfg)" using randint_Inr [OF R q] cfg by (auto simp: rag_fits_def)
  obtain query g2 where query: "synth_query R q g1 = Inr (query, g2)" "synth_token_count query = nat (max 1 (q - 6)) + 4"
    using synth_query_tokens [OF R, of q g1] q1 by auto
  obtain out g3 where out: "randint R (fst (rg_output_tokens_range cfg)) (snd (rg_output_tokens_range cfg)) g2 = Inr (out, g3)"
    using randint_total [OF le(2), of R g2] by blast
  let ?prompt = "rag_prefix ?sys ?docs @ query @ [newline, newline] @ ''Assistant:''"
  have docs: "?docs \<noteq> []" using cfg by (simp add: rag_fits_def stable_corpus_nonempty)
  have count: "synth_token_count ?prompt =
      3 + synth_token_count ?sys + sum_list (map synth_token_count ?docs) + length ?docs + synth_token_count query"
    using rag_prompt_count [OF docs] .
  then have "int (synth_token_count ?prompt) \<le> 200000" "1 \<le> int (synth_token_count ?prompt)"
    using stable_corpus_count [of cfg corpus] query(2) q1 cfg unfolding rag_fits_def by (auto simp: max_def split: if_splits)
  moreover have "1 \<le> out" "out \<le> 16000" using randint_Inr [OF R out] cfg by (auto simp: rag_fits_def)
  moreover have "py_strip (request_id ''rag'' i) \<noteq> []"
    by (simp add: request_id_def py_strip_def is_space_def dropWhile_append)
  ultimately have "rag_request R cfg corpus i g = Inr (\<lparr>rq_id = request_id ''rag'' i, rq_slo_class = rg_slo_class cfg,
      rq_workload = RAG, rq_prompt_tokens = int (synth_token_count ?prompt), rq_output_tokens = out, rq_prompt_text = ?prompt\<rparr>, g3)"
    using q query(1) out by (simp add: rag_request_def Let_def RequestSpec_def)
  then show ?thesis using randint_Inr [OF R out] by (simp add: rag_spec_ok_def)
qed

lemma rag_request_id: "rag_request R cfg corpus i g = Inr (r, g') \<Longrightarrow> rq_id r = request_id ''rag'' i"
  by (auto simp: rag_request_def Let_def rbind_eq_Inr dest!: RequestSpec_Inr)

interpretation rag: request_stream "rag_request R cfg corpus" "\<lambda>i g. rng_ok R \<and> rag_fits cfg corpus"
  "rag_spec_ok cfg corpus" "''rag''" k
  for R :: "'g rng" and cfg :: rag_config and corpus :: "string list" and k :: nat
proof unfold_locales
  fix i g r g'
  assume a: "rng_ok R \<and> rag_fits cfg corpus"
  then show "\<exists>r g'. rag_request R cfg corpus i g = Inr (r, g')" using rag_request_ok [of R cfg corpus i g] by blast
  assume "rag_request R cfg corpus i g = Inr (r, g')"
  then show "rag_spec_ok cfg corpus i r" using rag_request_ok [of R cfg corpus i g] a by auto
  show "rng_ok R \<and> rag_fits cfg corpus" by (rule a)
qed (rule rag_request_id)

section \<open>Traces\<close>

text \<open>The limits a configuration has to respect for the request model to accept its prompts.\<close>

definition rag_config_fits :: "rag_config \<Rightarrow> bool" where
  "rag_config_fits c \<longleftrightarrow>
     1 \<le> fst (rg_query_tokens_range c) \<and> fst (rg_query_tokens_range c) \<le> snd (rg_query_tokens_range c) \<and>
     1 \<le> fst (rg_output_tokens_range c) \<and> fst (rg_output_tokens_range c) \<le> snd (rg_output_tokens_range c) \<and>
     snd (rg_output_tokens_range c) \<le> 16000 \<and> 0 < rg_rate_per_sec c \<and> 0 < rg_duration_s c \<and>
     int (synth_token_count (rg_system_prompt c)) + rg_n_corpus_docs c * (snd (rg_doc_tokens_range c) + 1) +
       snd (rg_query_tokens_range c) + 7 \<le> 200000"

lemma corpus_total:
  "\<forall>d\<in>set ds. int (synth_token_count d) \<le> hi \<Longrightarrow>
     int (sum_list (map synth_token_count ds)) + int (length ds) \<le> int (length ds) * (hi + 1)"
  by (induction ds) (auto simp: algebra_simps)

lemma rag_generator_ok:
  assumes R: "rng_ok R" and v: "RagWorkloadConfig c0 = Inr c" and fits: "rag_config_fits c"
  shows "\<exists>corpus g. RagTraceGenerator R c = Inr (corpus, g) \<and> rag_fits c corpus \<and>
    (\<forall>d\<in>set corpus. 100 \<le> synth_token_count d)"
proof -
  obtain lo hi where rg: "rg_doc_tokens_range c = (lo, hi)" by force
  have c: "100 \<le> lo" "lo \<le> hi" "1 \<le> rg_n_corpus_docs c"
    using v rg by (auto simp: RagWorkloadConfig_def split: if_splits)
  obtain ds g where ds: "build_corpus R (lo, hi) (nat (rg_n_corpus_docs c)) (rng_seed R (rg_seed c)) = Inr (ds, g)"
    "length ds = nat (rg_n_corpus_docs c)"
    "\<forall>d\<in>set ds. lo \<le> int (synth_token_count d) \<and> int (synth_token_count d) \<le> hi"
    using build_corpus_ok [OF R _ c(2), of "nat (rg_n_corpus_docs c)" "rng_seed R (rg_seed c)"] c(1) by auto
  have "int (sum_list (map synth_token_count ds)) + int (length ds) \<le> rg_n_corpus_docs c * (hi + 1)"
    using corpus_total [of ds hi] ds c(3) by simp
  then have "rag_fits c ds" using fits ds(2) c(3) rg by (auto simp: rag_fits_def rag_config_fits_def)
  moreover have "\<forall>d\<in>set ds. 100 \<le> synth_token_count d" using ds(3) c(1) by fastforce
  ultimately show ?thesis using ds(1) rg by (simp add: RagTraceGenerator_def)
qed

lemma rag_generate_ok:
  assumes R: "rng_ok R" and fits: "rag_config_fits c" and corpus: "rag_fits c corpus"
  shows "\<exists>t g'. rag_generate R c (corpus, g) = Inr (t, g') \<and> n_requests t = nat (rg_n_requests c) \<and>
    distinct (map rq_id (tr_requests t)) \<and> (\<forall>r\<in>set (tr_requests t). \<exists>i. rag_spec_ok c corpus i r)"
proof -
  let ?k = "nat (rg_n_requests c)"
  have inv: "rng_ok R \<and> rag_fits c corpus" using R corpus by blast
  obtain rs g' where rs: "request_loop (rag_request R c corpus) 0 ?k g = Inr (rs, g')"
    using rag.loop_total [OF inv, of 0 ?k ?k g] by auto
  have "length rs = ?k \<and> (\<forall>j<?k. rag_spec_ok c corpus (0 + j) (rs ! j))" by (rule rag.loop_fits [OF inv rs])
  then have "length rs = ?k" "\<forall>r\<in>set rs. \<exists>i. rag_spec_ok c corpus i r" by (auto simp: in_set_conv_nth) blast
  moreover have "distinct (map rq_id rs)" by (rule rag.loop_ids_distinct [OF rs])
  ultimately show ?thesis
    using rs fits by (simp add: rag_generate_def ArrivalConfig_def opt_positive_def Trace_def n_requests_def rag_config_fits_def)
qed

lemma joined_first_length: "ds \<noteq> [] \<Longrightarrow> length (hd ds) \<le> length (joined sep ds)"
  by (induction sep ds rule: joined.induct) auto

lemma rag_prefix_length:
  assumes "docs \<noteq> []" "\<forall>d\<in>set docs. 100 \<le> synth_token_count d"
  shows "228 + length sys \<le> length (rag_prefix sys docs)"
proof -
  have "100 \<le> synth_token_count (hd docs)" using assms by (cases docs) auto
  then have "199 \<le> length (hd docs)" using token_count_length [of "hd docs"] by linarith
  then have "199 \<le> length (joined ([newline, newline] @ ''---'' @ [newline, newline]) docs)"
    using joined_first_length [OF assms(1)] order_trans by blast
  then show ?thesis by (simp add: rag_prefix_def)
qed

section \<open>Properties\<close>

text \<open>
  A RAG trace shares one prefix. For a validated configuration within the request model's limits,
  generation succeeds with \<open>n_requests\<close> requests of distinct identifiers, every prompt starts with the
  same system prompt and documents, and the recorded prompt size is the prompt's token count.
\<close>

theorem rag_trace_ok:
  assumes "rng_ok R" and "RagWorkloadConfig c0 = Inr c" and "rag_config_fits c"
  shows "\<exists>corpus g t g'. RagTraceGenerator R c = Inr (corpus, g) \<and> rag_generate R c (corpus, g) = Inr (t, g') \<and>
    int (n_requests t) = rg_n_requests c \<and> distinct (map rq_id (tr_requests t)) \<and>
    (\<forall>r\<in>set (tr_requests t).
       py_startswith (rq_prompt_text r) (rag_prefix (rg_system_prompt c) (stable_corpus c corpus)) \<and>
       rq_prompt_tokens r = int (synth_token_count (rq_prompt_text r)))"
proof -
  obtain corpus g where c: "RagTraceGenerator R c = Inr (corpus, g)" "rag_fits c corpus"
    using rag_generator_ok [OF assms] by blast
  have "0 < rg_n_requests c" using assms(2) by (auto simp: RagWorkloadConfig_def split: if_splits)
  then show ?thesis using c rag_generate_ok [OF assms(1,3) c(2), of g] by (auto simp: rag_spec_ok_def)
qed

definition ex_rag :: rag_config where
  "ex_rag = \<lparr>rg_n_requests = 2, rg_seed = 0, rg_n_corpus_docs = 2, rg_doc_tokens_range = (100, 120),
     rg_include_fraction = 8 / 10, rg_query_tokens_range = (5, 9), rg_output_tokens_range = (5, 9),
     rg_system_prompt = ''answer from the documents only'', rg_rate_per_sec = 1, rg_duration_s = 60, rg_slo_class = INTERACTIVE\<rparr>"

lemma ex_rag_ok: "RagWorkloadConfig ex_rag = Inr ex_rag" "rag_config_fits ex_rag"
  by (simp_all add: RagWorkloadConfig_def ex_rag_def rag_config_fits_def synth_token_count_def py_split_def is_space_def)

theorem rag_trace_ok_witness:
  "\<exists>corpus g t g'. RagTraceGenerator counting_rng ex_rag = Inr (corpus, g) \<and>
     rag_generate counting_rng ex_rag (corpus, g) = Inr (t, g') \<and> int (n_requests t) = 2"
  using rag_trace_ok [OF counting_rng_ok ex_rag_ok] by (auto simp: ex_rag_def)

end
