(* ===== verification/AgenticWorkload.thy ===== *)
theory AgenticWorkload
  imports Workloads
begin

text \<open>
  \<open>loadgen/agentic.py\<close>: the agent-loop trace. The state of the loop is the list of history blocks and
  the generator; every prompt carries the whole history so far.
\<close>

definition DEFAULT_AGENTIC_SYSTEM_PROMPT :: string where
  "DEFAULT_AGENTIC_SYSTEM_PROMPT =
     ''You are an autonomous agent.  You have access to tools.  Think step '' @
     ''by step.  When you have enough information, call the finish tool.''"

definition DEFAULT_TOOL_DEFS :: string where
  "DEFAULT_TOOL_DEFS =
     ''Tools:'' @ [newline] @
     ''  - search(query: str) -> str: search the corpus for relevant passages'' @ [newline] @
     ''  - read(path: str) -> str: read a file by path'' @ [newline] @
     ''  - write(path: str, content: str) -> bool: write a file'' @ [newline] @
     ''  - finish(answer: str) -> None: end the loop and return the answer'' @ [newline]"

record agentic_config =
  ag_n_requests :: int
  ag_seed :: int
  ag_observation_tokens_range :: "int \<times> int"
  ag_output_tokens_range :: "int \<times> int"
  ag_system_prompt :: string
  ag_tool_defs :: string
  ag_on_duration_s :: real
  ag_off_duration_s :: real
  ag_rate_per_sec :: real
  ag_duration_s :: real
  ag_slo_class :: slo_class

text \<open>\<open>history_tokens_range\<close> is a field no code reads, so the record leaves it out.\<close>

definition AgenticWorkloadConfig :: "agentic_config \<Rightarrow> agentic_config result" where
  "AgenticWorkloadConfig c =
     (if ag_n_requests c \<le> 0 then Inl ValueError
      else if ag_on_duration_s c \<le> 0 \<or> ag_off_duration_s c \<le> 0 then Inl ValueError
      else Inr c)"

definition history_block :: "nat \<Rightarrow> string \<Rightarrow> string" where
  "history_block i observation = ''Step '' @ nat_str i @ '': tool_result('' @ nat_str i @ '') = '' @ observation"

definition agent_head :: "agentic_config \<Rightarrow> string" where
  "agent_head cfg =
     ''System: '' @ ag_system_prompt cfg @ [newline, newline] @ ag_tool_defs cfg @ [newline, newline] @ ''History:'' @ [newline]"

definition agent_tail :: string where
  "agent_tail = [newline, newline] @ ''What is the next action?''"

definition agent_prompt :: "agentic_config \<Rightarrow> string list \<Rightarrow> string" where
  "agent_prompt cfg blocks = agent_head cfg @ joined [newline] blocks @ agent_tail"

definition agent_request ::
  "'g rng \<Rightarrow> agentic_config \<Rightarrow> nat \<Rightarrow> string list \<times> 'g \<Rightarrow> (request_spec \<times> (string list \<times> 'g)) result" where
  "agent_request R cfg i s =
     (case s of (history_blocks, g) \<Rightarrow>
      rbind (randint R (fst (ag_observation_tokens_range cfg)) (snd (ag_observation_tokens_range cfg)) g) (\<lambda>(obs_tokens, g1).
      rbind (synth_paragraph R obs_tokens g1) (\<lambda>(observation, g2).
      let blocks = history_blocks @ [history_block i observation];
          prompt = agent_prompt cfg blocks;
          realized = synth_token_count prompt
      in rbind (randint R (fst (ag_output_tokens_range cfg)) (snd (ag_output_tokens_range cfg)) g2) (\<lambda>(target_output, g3).
         rbind (RequestSpec (request_id ''agent'' i) (ag_slo_class cfg) AGENTIC (int realized) target_output prompt) (\<lambda>r.
           Inr (r, (blocks, g3)))))))"

definition agent_generate :: "'g rng \<Rightarrow> agentic_config \<Rightarrow> trace result" where
  "agent_generate R cfg =
     rbind (request_loop (agent_request R cfg) 0 (nat (ag_n_requests cfg)) ([], rng_seed R (ag_seed cfg))) (\<lambda>(requests, s).
     rbind (ArrivalConfig OnOff (ag_rate_per_sec cfg) (ag_seed cfg) (Some (ag_on_duration_s cfg)) (Some (ag_off_duration_s cfg)))
       (\<lambda>arrival. Trace AGENTIC (ag_seed cfg) (ag_duration_s cfg) arrival requests))"

section \<open>The history grows\<close>

lemma agent_request_Inr:
  assumes "agent_request R cfg i (blocks, g) = Inr (r, (blocks', g'))"
  shows "\<exists>obs. blocks' = blocks @ [history_block i obs] \<and> rq_prompt_text r = agent_prompt cfg blocks' \<and>
    rq_prompt_tokens r = int (synth_token_count (agent_prompt cfg blocks')) \<and> rq_id r = request_id ''agent'' i"
  using assms by (auto simp: agent_request_def Let_def rbind_eq_Inr dest!: RequestSpec_Inr)

lemma agent_loop_prompts:
  "request_loop (agent_request R cfg) i n (blocks, g) = Inr (rs, (full, g')) \<Longrightarrow>
     length full = length blocks + n \<and> take (length blocks) full = blocks \<and> length rs = n \<and>
     (\<forall>b\<in>set (drop (length blocks) full). \<exists>k obs. b = history_block k obs) \<and>
     (\<forall>j<n. rq_prompt_text (rs ! j) = agent_prompt cfg (take (length blocks + Suc j) full) \<and>
            rq_prompt_tokens (rs ! j) = int (synth_token_count (agent_prompt cfg (take (length blocks + Suc j) full))))"
proof (induction n arbitrary: i blocks g rs)
  case 0
  then show ?case by simp
next
  case (Suc n)
  obtain r b1 g1 rs1 where r: "agent_request R cfg i (blocks, g) = Inr (r, (b1, g1))"
    and rest: "request_loop (agent_request R cfg) (Suc i) n (b1, g1) = Inr (rs1, (full, g'))" and rs: "rs = r # rs1"
    using Suc.prems by (auto simp: rbind_eq_Inr)
  obtain obs where b1: "b1 = blocks @ [history_block i obs]"
    and p: "rq_prompt_text r = agent_prompt cfg b1" "rq_prompt_tokens r = int (synth_token_count (agent_prompt cfg b1))"
    using agent_request_Inr [OF r] by blast
  have IH: "length full = length b1 + n" "take (length b1) full = b1" "length rs1 = n"
    "\<forall>b\<in>set (drop (length b1) full). \<exists>k obs. b = history_block k obs"
    "\<And>j. j < n \<Longrightarrow> rq_prompt_text (rs1 ! j) = agent_prompt cfg (take (length b1 + Suc j) full) \<and>
            rq_prompt_tokens (rs1 ! j) = int (synth_token_count (agent_prompt cfg (take (length b1 + Suc j) full)))"
    using Suc.IH [OF rest] by auto
  have len: "length b1 = Suc (length blocks)" by (simp add: b1)
  have first: "take (length blocks) full = blocks"
    using arg_cong [OF IH(2), of "take (length blocks)"] by (simp add: b1 min_def)
  have all: "rq_prompt_text (rs ! j) = agent_prompt cfg (take (length blocks + Suc j) full) \<and>
      rq_prompt_tokens (rs ! j) = int (synth_token_count (agent_prompt cfg (take (length blocks + Suc j) full)))" if "j < Suc n" for j
    using that p IH(2,5) len by (cases j) (auto simp: rs)
  obtain suffix where "full = b1 @ suffix" using IH(2) by (metis append_take_drop_id)
  then have "drop (length blocks) full = history_block i obs # drop (length b1) full" by (simp add: b1)
  then have "\<forall>b\<in>set (drop (length blocks) full). \<exists>k obs. b = history_block k obs" using IH(4) by auto
  then show ?case using IH(1,3) len rs first all by auto
qed

lemma is_space_literals:
  "\<not> is_space CHR '':''" "\<not> is_space CHR ''(''" "\<not> is_space CHR '')''" "\<not> is_space CHR ''_''"
  "\<not> is_space CHR ''t''" "\<not> is_space CHR ''o''" "\<not> is_space CHR ''l''" "\<not> is_space CHR ''r''"
  "\<not> is_space CHR ''e''" "\<not> is_space CHR ''s''" "\<not> is_space CHR ''u''"
  by (simp_all add: is_space_def)

lemma history_block_tokens: "synth_token_count (history_block i obs) = 4 + synth_token_count obs"
proof -
  have "\<not> is_space ch" if "ch \<in> set (nat_str i)" for ch
    using nat_str_digits [OF that] by (auto simp: is_space_def is_digit_def Let_def)
  then have w: "is_word (nat_str i @ '':'')" "is_word (''tool_result('' @ nat_str i @ '')'')"
    by (auto simp: is_word_def is_space_literals)
  have "py_split (history_block i obs) =
      py_split ''Step'' @ py_split (nat_str i @ '':'') @ py_split (''tool_result('' @ nat_str i @ '')'') @ py_split ''='' @ py_split obs"
    using split_sep [of "'' ''" "''Step''" "nat_str i @ '': tool_result('' @ nat_str i @ '') = '' @ obs"]
      split_sep [of "'' ''" "nat_str i @ '':''" "''tool_result('' @ nat_str i @ '') = '' @ obs"]
      split_sep [of "'' ''" "''tool_result('' @ nat_str i @ '')''" "''= '' @ obs"]
      split_sep [of "'' ''" "''=''" obs]
    by (simp add: history_block_def is_space_def)
  moreover have "length (py_split ''Step'') = 1" "length (py_split ''='') = 1"
    by (simp_all add: py_split_def is_space_def)
  ultimately show ?thesis using split_word [OF w(1)] split_word [OF w(2)] by (simp add: token_count_split)
qed

lemma agent_prompt_tokens:
  "synth_token_count (agent_prompt cfg blocks) =
     7 + synth_token_count (ag_system_prompt cfg) + synth_token_count (ag_tool_defs cfg) + sum_list (map synth_token_count blocks)"
proof -
  let ?h = "joined [newline] blocks"
  have "py_split (agent_prompt cfg blocks) =
      py_split ''System:'' @ py_split (ag_system_prompt cfg) @ py_split (ag_tool_defs cfg) @ py_split ''History:'' @
      py_split ?h @ py_split ''What is the next action?''"
    using split_sep [of "'' ''" "''System:''" "ag_system_prompt cfg @ [newline, newline] @ ag_tool_defs cfg @ [newline, newline] @ ''History:'' @ [newline] @ ?h @ [newline, newline] @ ''What is the next action?''"]
      split_sep [of "[newline, newline]" "ag_system_prompt cfg" "ag_tool_defs cfg @ [newline, newline] @ ''History:'' @ [newline] @ ?h @ [newline, newline] @ ''What is the next action?''"]
      split_sep [of "[newline, newline]" "ag_tool_defs cfg" "''History:'' @ [newline] @ ?h @ [newline, newline] @ ''What is the next action?''"]
      split_sep [of "[newline]" "''History:''" "?h @ [newline, newline] @ ''What is the next action?''"]
      split_sep [of "[newline, newline]" ?h "''What is the next action?''"]
    by (simp add: agent_prompt_def agent_head_def agent_tail_def is_space_def)
  moreover have "length (py_split ''System:'') = 1" "length (py_split ''History:'') = 1"
    "length (py_split ''What is the next action?'') = 5"
    by (simp_all add: py_split_def is_space_def)
  moreover have "synth_token_count ?h = sum_list (map synth_token_count blocks)"
    by (rule joined_sep_count) (simp_all add: is_space_def)
  ultimately show ?thesis by (simp add: token_count_split)
qed

section \<open>Totality\<close>

definition agent_fits :: "agentic_config \<Rightarrow> bool" where
  "agent_fits c \<longleftrightarrow>
     0 \<le> fst (ag_observation_tokens_range c) \<and> fst (ag_observation_tokens_range c) \<le> snd (ag_observation_tokens_range c) \<and>
     1 \<le> fst (ag_output_tokens_range c) \<and> fst (ag_output_tokens_range c) \<le> snd (ag_output_tokens_range c) \<and>
     snd (ag_output_tokens_range c) \<le> 16000 \<and>
     7 + int (synth_token_count (ag_system_prompt c)) + int (synth_token_count (ag_tool_defs c)) +
       ag_n_requests c * (4 + snd (ag_observation_tokens_range c)) \<le> 200000"

text \<open>The invariant of the loop: \<open>i\<close> blocks, each within its budget.\<close>

definition agent_inv :: "'g rng \<Rightarrow> agentic_config \<Rightarrow> nat \<Rightarrow> string list \<times> 'g \<Rightarrow> bool" where
  "agent_inv R c i s \<longleftrightarrow> rng_ok R \<and> agent_fits c \<and> length (fst s) = i \<and>
     (\<forall>b\<in>set (fst s). int (synth_token_count b) \<le> 4 + snd (ag_observation_tokens_range c))"

lemma agent_request_step:
  assumes inv: "agent_inv R c i (blocks, g)"
  obtains r blocks' g' where "agent_inv R c (Suc i) (blocks', g')"
    "int i < ag_n_requests c \<Longrightarrow> agent_request R c i (blocks, g) = Inr (r, (blocks', g'))"
    "\<And>x. agent_request R c i (blocks, g) = Inr x \<Longrightarrow> snd x = (blocks', g')"
proof -
  have R: "rng_ok R" and fits: "agent_fits c" and len: "length blocks = i"
    and bs: "\<forall>b\<in>set blocks. int (synth_token_count b) \<le> 4 + snd (ag_observation_tokens_range c)"
    using inv by (simp_all add: agent_inv_def)
  have le: "fst (ag_observation_tokens_range c) \<le> snd (ag_observation_tokens_range c)"
    "fst (ag_output_tokens_range c) \<le> snd (ag_output_tokens_range c)" using fits by (simp_all add: agent_fits_def)
  obtain k g1 where k: "randint R (fst (ag_observation_tokens_range c)) (snd (ag_observation_tokens_range c)) g = Inr (k, g1)"
    using randint_total [OF le(1), of R g] by blast
  obtain obs g2 where obs: "synth_paragraph R k g1 = Inr (obs, g2)" "synth_token_count obs = nat k"
    using synth_paragraph_tokens [OF R, of k g1] by blast
  obtain out g3 where out: "randint R (fst (ag_output_tokens_range c)) (snd (ag_output_tokens_range c)) g2 = Inr (out, g3)"
    using randint_total [OF le(2), of R g2] by blast
  let ?bs = "blocks @ [history_block i obs]"
  have new: "int (synth_token_count (history_block i obs)) \<le> 4 + snd (ag_observation_tokens_range c)"
    using randint_Inr [OF R k] obs(2) fits by (simp add: history_block_tokens agent_fits_def)
  with bs have all: "\<forall>b\<in>set ?bs. int (synth_token_count b) \<le> 4 + snd (ag_observation_tokens_range c)" by auto
  have inv': "agent_inv R c (Suc i) (?bs, g3)" using R fits len all by (simp add: agent_inv_def)
  define r where "r = \<lparr>rq_id = request_id ''agent'' i, rq_slo_class = ag_slo_class c, rq_workload = AGENTIC,
    rq_prompt_tokens = int (synth_token_count (agent_prompt c ?bs)), rq_output_tokens = out, rq_prompt_text = agent_prompt c ?bs\<rparr>"
  have run: "agent_request R c i (blocks, g) =
      rbind (RequestSpec (request_id ''agent'' i) (ag_slo_class c) AGENTIC (int (synth_token_count (agent_prompt c ?bs))) out
        (agent_prompt c ?bs)) (\<lambda>r. Inr (r, (?bs, g3)))"
    using k obs(1) out by (simp add: agent_request_def Let_def)
  have "agent_request R c i (blocks, g) = Inr (r, (?bs, g3))" if i: "int i < ag_n_requests c"
  proof -
    have sum: "int (sum_list (map synth_token_count bs)) \<le> int (length bs) * K"
      if "\<forall>b\<in>set bs. int (synth_token_count b) \<le> K" for bs K
      using that by (induction bs) (auto simp: algebra_simps)
    have K: "0 \<le> 4 + snd (ag_observation_tokens_range c)" using fits by (simp add: agent_fits_def)
    have "int (sum_list (map synth_token_count ?bs)) \<le> int (Suc i) * (4 + snd (ag_observation_tokens_range c))"
      using sum [OF all] len by simp
    also have "\<dots> \<le> ag_n_requests c * (4 + snd (ag_observation_tokens_range c))"
      using i K by (intro mult_right_mono) auto
    finally have "int (synth_token_count (agent_prompt c ?bs)) \<le> 200000" "1 \<le> int (synth_token_count (agent_prompt c ?bs))"
      using fits by (simp_all add: agent_prompt_tokens agent_fits_def)
    moreover have "1 \<le> out" "out \<le> 16000" using randint_Inr [OF R out] fits by (auto simp: agent_fits_def)
    moreover have "py_strip (request_id ''agent'' i) \<noteq> []"
      by (simp add: request_id_def py_strip_def is_space_def dropWhile_append)
    ultimately show ?thesis by (simp add: run RequestSpec_def r_def)
  qed
  moreover have "snd x = (?bs, g3)" if "agent_request R c i (blocks, g) = Inr x" for x
    using that by (auto simp: run rbind_eq_Inr)
  ultimately show thesis using that [OF inv'] by blast
qed

interpretation agentic: request_stream "agent_request R c" "agent_inv R c"
  "\<lambda>i r. rq_prompt_tokens r = int (synth_token_count (rq_prompt_text r))" "''agent''" "nat (ag_n_requests c)"
  for R :: "'g rng" and c :: agentic_config
proof unfold_locales
  fix i and s :: "string list \<times> 'g"
  obtain blocks g where s: "s = (blocks, g)" by force
  assume inv: "agent_inv R c i s" and i: "i < nat (ag_n_requests c)"
  show "\<exists>r s'. agent_request R c i s = Inr (r, s')"
    by (rule agent_request_step [OF inv [unfolded s]]) (use i s in \<open>auto simp: zless_nat_eq_int_zless\<close>)
next
  fix i and s s' :: "string list \<times> 'g" and r
  obtain blocks g where s: "s = (blocks, g)" by force
  assume inv: "agent_inv R c i s" and step: "agent_request R c i s = Inr (r, s')"
  show "agent_inv R c (Suc i) s'"
  proof (rule agent_request_step [OF inv [unfolded s]])
    fix blocks' g'
    assume "agent_inv R c (Suc i) (blocks', g')" "\<And>x. agent_request R c i (blocks, g) = Inr x \<Longrightarrow> snd x = (blocks', g')"
    then show ?thesis using step s by fastforce
  qed
next
  fix i and s s' :: "string list \<times> 'g" and r
  obtain blocks g blocks' g' where s: "s = (blocks, g)" "s' = (blocks', g')" by force
  assume step: "agent_request R c i s = Inr (r, s')"
  show "rq_id r = request_id ''agent'' i" "rq_prompt_tokens r = int (synth_token_count (rq_prompt_text r))"
    using agent_request_Inr [OF step [unfolded s]] by auto
qed

lemma agent_generate_ok:
  assumes "rng_ok R" and "AgenticWorkloadConfig c0 = Inr c" and "agent_fits c" and "0 < ag_rate_per_sec c" and "0 < ag_duration_s c"
  shows "\<exists>t history. agent_generate R c = Inr t \<and> int (n_requests t) = ag_n_requests c \<and>
    distinct (map rq_id (tr_requests t)) \<and> length history = n_requests t \<and>
    (\<forall>i<n_requests t. rq_prompt_text (tr_requests t ! i) = agent_prompt c (take (Suc i) history)) \<and>
    (\<forall>i. Suc i < n_requests t \<longrightarrow> rq_prompt_tokens (tr_requests t ! i) + 4 \<le> rq_prompt_tokens (tr_requests t ! Suc i))"
proof -
  let ?k = "nat (ag_n_requests c)" and ?s = "([] :: string list, rng_seed R (ag_seed c))"
  have c: "0 < ag_n_requests c" "0 < ag_on_duration_s c" "0 < ag_off_duration_s c"
    using assms(2) by (auto simp: AgenticWorkloadConfig_def split: if_splits)
  have inv: "agent_inv R c 0 ?s" using assms(1,3) by (simp add: agent_inv_def)
  obtain rs full g where rs: "request_loop (agent_request R c) 0 ?k ?s = Inr (rs, (full, g))"
    using agentic.loop_total [OF inv, of ?k] by auto
  have p: "length full = ?k" "length rs = ?k"
    "\<And>j. j < ?k \<Longrightarrow> rq_prompt_text (rs ! j) = agent_prompt c (take (Suc j) full)"
    "\<And>j. j < ?k \<Longrightarrow> rq_prompt_tokens (rs ! j) = int (synth_token_count (agent_prompt c (take (Suc j) full)))"
    "\<forall>b\<in>set full. \<exists>k obs. b = history_block k obs"
    using agent_loop_prompts [OF rs] by auto
  have blocks: "4 \<le> synth_token_count b" if "b \<in> set full" for b
    using p(5) that by (auto simp: history_block_tokens)
  have grow: "rq_prompt_tokens (rs ! i) + 4 \<le> rq_prompt_tokens (rs ! Suc i)" if "Suc i < ?k" for i
    using that p blocks [OF nth_mem, of "Suc i"] by (simp add: agent_prompt_tokens take_Suc_conv_app_nth)
  have "distinct (map rq_id rs)" by (rule agentic.loop_ids_distinct [OF rs])
  with p rs grow assms(4,5) c show ?thesis
    by (intro exI [of _ "\<lparr>tr_workload = AGENTIC, tr_seed = ag_seed c, tr_duration_s = ag_duration_s c,
        tr_arrival = \<lparr>ar_process = OnOff, ar_rate_per_sec = ag_rate_per_sec c, ar_seed = ag_seed c,
          ar_on_duration_s = Some (ag_on_duration_s c), ar_off_duration_s = Some (ag_off_duration_s c)\<rparr>, tr_requests = rs\<rparr>"]
        exI [of _ full])
      (simp add: agent_generate_def ArrivalConfig_def opt_positive_def Trace_def n_requests_def)
qed

section \<open>Properties\<close>

text \<open>
  C34: An agentic trace grows one history. For a validated configuration within the request model's
  limits, generation succeeds with \<open>n_requests\<close> requests of distinct identifiers; there is one list of
  history blocks such that the \<open>i\<close>-th prompt carries its first \<open>i + 1\<close> blocks, and each recorded prompt
  size is at least four tokens larger than the one before it.
\<close>

theorem agentic_trace_ok:
  assumes "rng_ok R" and "AgenticWorkloadConfig c0 = Inr c" and "agent_fits c" and "0 < ag_rate_per_sec c" and "0 < ag_duration_s c"
  shows "\<exists>t history. agent_generate R c = Inr t \<and> int (n_requests t) = ag_n_requests c \<and>
    distinct (map rq_id (tr_requests t)) \<and> length history = n_requests t \<and>
    (\<forall>i<n_requests t. rq_prompt_text (tr_requests t ! i) = agent_prompt c (take (Suc i) history)) \<and>
    (\<forall>i. Suc i < n_requests t \<longrightarrow> rq_prompt_tokens (tr_requests t ! i) + 4 \<le> rq_prompt_tokens (tr_requests t ! Suc i))"
  using assms by (rule agent_generate_ok)

definition ex_agentic :: agentic_config where
  "ex_agentic = \<lparr>ag_n_requests = 3, ag_seed = 0, ag_observation_tokens_range = (3, 5), ag_output_tokens_range = (5, 9),
     ag_system_prompt = ''act'', ag_tool_defs = ''finish(answer)'', ag_on_duration_s = 3 / 2, ag_off_duration_s = 3 / 10,
     ag_rate_per_sec = 20, ag_duration_s = 60, ag_slo_class = INTERACTIVE\<rparr>"

theorem agentic_trace_ok_witness: "\<exists>t. agent_generate counting_rng ex_agentic = Inr t \<and> int (n_requests t) = 3"
proof -
  have "AgenticWorkloadConfig ex_agentic = Inr ex_agentic" "agent_fits ex_agentic"
    "0 < ag_rate_per_sec ex_agentic" "0 < ag_duration_s ex_agentic"
    by (simp_all add: AgenticWorkloadConfig_def ex_agentic_def agent_fits_def synth_token_count_def py_split_def is_space_def)
  from agentic_trace_ok [OF counting_rng_ok this] show ?thesis by (auto simp: ex_agentic_def)
qed

end
