(* ===== verification/CellRunner.thy ===== *)
theory CellRunner
  imports CellSchema ChatWorkload RagWorkload AgenticWorkload Pools
begin

text \<open>
  \<open>bench/cell_runner.py\<close>: measuring one cell. The thermal readings of \<open>nvidia-smi\<close>, the trace of a
  cell, the directory of result files with its atomic write, and \<open>CellRunner.run_cell\<close>, which returns
  a stored result and executes the cell when there is none or when the stored one is corrupt.

  A file's content is a value of a type \<open>'t\<close>; pydantic's JSON writer and reader are the two functions
  of a codec (\<open>codec_ok\<close> states that reading back what was written gives the result). The replay of a
  trace against the server, the thermal source and the clock act on a world of type \<open>'w\<close>.
\<close>

section \<open>Thermal readings\<close>

text \<open>What \<open>check_output\<close> does: it raises \<open>SubprocessError\<close> or \<open>FileNotFoundError\<close>, or returns the text.\<close>

datatype smi_output = SmiUnavailable | SmiText string

definition is_line_break :: "char \<Rightarrow> bool" where
  "is_line_break c \<longleftrightarrow> (let n = (of_char c :: nat) in (10 \<le> n \<and> n \<le> 13) \<or> (28 \<le> n \<and> n \<le> 30))"

text \<open>\<open>int(float(s))\<close>, where \<open>parse_float\<close> is the builtin's grammar, \<open>None\<close> for its \<open>ValueError\<close>.\<close>

definition int_float :: "(string \<Rightarrow> real option) \<Rightarrow> string \<Rightarrow> int result" where
  "int_float parse_float s = (case parse_float s of None \<Rightarrow> Inl ValueError | Some x \<Rightarrow> Inr (py_int x))"

definition nvidia_smi_read :: "(string \<Rightarrow> real option) \<Rightarrow> smi_output \<Rightarrow> thermal_reading result" where
  "nvidia_smi_read parse_float out =
     (case out of
        SmiUnavailable \<Rightarrow> ThermalReading 0 0 0
      | SmiText text1 \<Rightarrow>
          if py_strip text1 = [] then Inl IndexError
          else
            (case map py_strip (split_char (CHR '','') (takeWhile (\<lambda>c. \<not> is_line_break c) (py_strip text1))) of
               [temp_s, util_s, mem_s] \<Rightarrow>
                 rbind (int_float parse_float temp_s) (\<lambda>temp.
                 rbind (int_float parse_float util_s) (\<lambda>util.
                 rbind (int_float parse_float mem_s) (\<lambda>mem. ThermalReading temp util mem)))
             | _ \<Rightarrow> Inl ValueError))"

section \<open>Traces\<close>

fun mix_to_workload :: "mix \<Rightarrow> workload_type" where
  "mix_to_workload MIX_CHAT = CHAT"
| "mix_to_workload MIX_RAG = RAG"
| "mix_to_workload MIX_AGENTIC = AGENTIC"

definition cell_total :: "cell_spec \<Rightarrow> int" where
  "cell_total c = cs_n_warmup c + cs_n_measure c"

definition cell_duration_s :: "cell_spec \<Rightarrow> real" where
  "cell_duration_s c = max 1 (real_of_int (cell_total c) / max (real_of_int (cs_rate_rps c)) (1 / 1000000))"

text \<open>The generators' configurations, with the defaults of their dataclasses.\<close>

definition rag_cell_config :: "cell_spec \<Rightarrow> rag_config" where
  "rag_cell_config c =
     \<lparr>rg_n_requests = cell_total c, rg_seed = cs_seed c, rg_n_corpus_docs = 8, rg_doc_tokens_range = (1000, 4000),
      rg_include_fraction = 8 / 10, rg_query_tokens_range = (50, 200), rg_output_tokens_range = (50, 200),
      rg_system_prompt = DEFAULT_RAG_SYSTEM_PROMPT, rg_rate_per_sec = real_of_int (cs_rate_rps c),
      rg_duration_s = cell_duration_s c, rg_slo_class = INTERACTIVE\<rparr>"

definition agentic_cell_config :: "cell_spec \<Rightarrow> agentic_config" where
  "agentic_cell_config c =
     \<lparr>ag_n_requests = cell_total c, ag_seed = cs_seed c, ag_observation_tokens_range = (50, 500),
      ag_output_tokens_range = (100, 1000), ag_system_prompt = DEFAULT_AGENTIC_SYSTEM_PROMPT,
      ag_tool_defs = DEFAULT_TOOL_DEFS, ag_on_duration_s = 3 / 2, ag_off_duration_s = 3 / 10,
      ag_rate_per_sec = real_of_int (cs_rate_rps c), ag_duration_s = cell_duration_s c, ag_slo_class = INTERACTIVE\<rparr>"

definition build_trace :: "'g rng \<Rightarrow> cell_spec \<Rightarrow> trace result" where
  "build_trace R c =
     rbind
       (case cs_mix c of
          MIX_CHAT \<Rightarrow>
            rbind (ChatWorkloadConfig (cell_total c) (cs_seed c) (500, 2000) (50, 500) (1, 5) DEFAULT_SYSTEM_PROMPT
                     (real_of_int (cs_rate_rps c)) (cell_duration_s c) INTERACTIVE) (chat_generate R)
        | MIX_RAG \<Rightarrow>
            rbind (RagWorkloadConfig (rag_cell_config c)) (\<lambda>cfg.
            rbind (RagTraceGenerator R cfg) (\<lambda>gen.
            rbind (rag_generate R cfg gen) (\<lambda>(t, g). Inr t)))
        | MIX_AGENTIC \<Rightarrow>
            rbind (AgenticWorkloadConfig (agentic_cell_config c)) (agent_generate R))
       (\<lambda>t. Inr (t\<lparr>tr_workload := mix_to_workload (cs_mix c)\<rparr>))"

section \<open>The directory of results\<close>

type_synonym 't directory = "(string, 't) odict"

record 't codec =
  cd_dump :: "cell_result \<Rightarrow> 't"
  cd_validate :: "'t \<Rightarrow> cell_result option"

definition codec_ok :: "'t codec \<Rightarrow> bool" where
  "codec_ok C \<longleftrightarrow> (\<forall>r. cd_validate C (cd_dump C r) = Some r)"

definition sink_path :: "string \<Rightarrow> string" where
  "sink_path cid = cid @ ''.json''"

definition tmp_path :: "string \<Rightarrow> string" where
  "tmp_path cid = cid @ ''.json.tmp''"

definition sink_exists :: "'t directory \<Rightarrow> string \<Rightarrow> bool" where
  "sink_exists d cid \<longleftrightarrow> od_get d (sink_path cid) \<noteq> None"

definition sink_load :: "'t codec \<Rightarrow> 't directory \<Rightarrow> string \<Rightarrow> cell_result result" where
  "sink_load C d cid =
     (case od_get d (sink_path cid) of
        None \<Rightarrow> Inl FileNotFoundError
      | Some t \<Rightarrow> (case cd_validate C t of None \<Rightarrow> Inl ValueError | Some r \<Rightarrow> Inr r))"

text \<open>The two file operations of \<open>write\<close>: fill the temporary file, then rename it over the result.\<close>

definition write_tmp :: "string \<Rightarrow> 't \<Rightarrow> 't directory \<Rightarrow> 't directory" where
  "write_tmp cid t d = od_set (tmp_path cid) t d"

definition replace_tmp :: "string \<Rightarrow> 't directory \<Rightarrow> 't directory" where
  "replace_tmp cid d =
     (case od_get d (tmp_path cid) of
        None \<Rightarrow> d
      | Some t \<Rightarrow> od_set (sink_path cid) t (od_del (tmp_path cid) d))"

definition sink_write :: "'t codec \<Rightarrow> cell_result \<Rightarrow> 't directory \<Rightarrow> 't directory" where
  "sink_write C r d = replace_tmp (cr_cell_id r) (write_tmp (cr_cell_id r) (cd_dump C r) d)"

section \<open>Running a cell\<close>

record 'w cell_world =
  cw_replay :: "trace \<Rightarrow> 'w \<Rightarrow> request_telemetry list result \<times> 'w"
  cw_thermal :: "'w \<Rightarrow> thermal_reading result \<times> 'w"
  cw_utcnow :: "'w \<Rightarrow> real \<times> 'w"
  cw_perf_counter :: "'w \<Rightarrow> real \<times> 'w"

definition tier_hit_rate :: "cell_spec \<Rightarrow> request_telemetry list \<Rightarrow> real" where
  "tier_hit_rate c telemetries =
     (if cs_topology c \<noteq> TOPO_DISAGG_TIER then 0
      else if telemetries = [] then 0
      else real (length (filter (\<lambda>t. tl_routed_pool t = Some (pool_value TIER)) telemetries)) / real (length telemetries))"

definition measured_result :: "cell_spec \<Rightarrow> request_telemetry list \<Rightarrow> thermal_reading \<Rightarrow> real \<Rightarrow> real \<Rightarrow> cell_result result" where
  "measured_result c telemetries thermal started duration =
     (let metrics = aggregate_metrics telemetries in
      CellResult
        \<lparr>cr_cell_id = cell_id c, cr_topology = cs_topology c, cr_model = cs_model c, cr_rate_rps = cs_rate_rps c,
         cr_mix = cs_mix c, cr_n_warmup = cs_n_warmup c, cr_n_measure = cs_n_measure c, cr_seed = cs_seed c,
         cr_mean_ttft_ms = cm_mean_ttft_ms metrics, cr_p95_ttft_ms = cm_p95_ttft_ms metrics,
         cr_mean_itl_ms = cm_mean_itl_ms metrics, cr_success_rate = cm_success_rate metrics,
         cr_cache_hit_rate = tier_hit_rate c telemetries,
         cr_reconcile_passes = (99 / 100 \<le> cm_success_rate metrics), cr_thermal = thermal,
         cr_started_at = started, cr_duration_s = duration, cr_notes = []\<rparr>)"

definition execute_cell ::
  "'g rng \<Rightarrow> 't codec \<Rightarrow> 'w cell_world \<Rightarrow> cell_spec \<Rightarrow> 't directory \<times> 'w \<Rightarrow> cell_result result \<times> 't directory \<times> 'w" where
  "execute_cell R C W c s =
     (case s of (d, w) \<Rightarrow>
      (case build_trace R c of
         Inl e \<Rightarrow> (Inl e, d, w)
       | Inr trace1 \<Rightarrow>
           (case cw_utcnow W w of (started, w1) \<Rightarrow>
            case cw_perf_counter W w1 of (t0, w2) \<Rightarrow>
            case cw_replay W trace1 w2 of
              (Inl e, w3) \<Rightarrow> (Inl e, d, w3)
            | (Inr telemetries, w3) \<Rightarrow>
                (case cw_perf_counter W w3 of (t1, w4) \<Rightarrow>
                 case cw_thermal W w4 of
                   (Inl e, w5) \<Rightarrow> (Inl e, d, w5)
                 | (Inr thermal, w5) \<Rightarrow>
                     (case measured_result c telemetries thermal started (t1 - t0) of
                        Inl e \<Rightarrow> (Inl e, d, w5)
                      | Inr r \<Rightarrow> (Inr r, sink_write C r d, w5))))))"

definition run_cell ::
  "'g rng \<Rightarrow> 't codec \<Rightarrow> 'w cell_world \<Rightarrow> cell_spec \<Rightarrow> 't directory \<times> 'w \<Rightarrow> cell_result result \<times> 't directory \<times> 'w" where
  "run_cell R C W c s =
     (if sink_exists (fst s) (cell_id c)
      then (case sink_load C (fst s) (cell_id c) of
              Inr r \<Rightarrow> (Inr r, s)
            | Inl e \<Rightarrow> execute_cell R C W c s)
      else execute_cell R C W c s)"

section \<open>The file store\<close>

lemma sink_path_inj [simp]: "sink_path a = sink_path b \<longleftrightarrow> a = b"
  by (simp add: sink_path_def)

lemma tmp_not_json: "tmp_path a \<noteq> sink_path b"
proof
  assume "tmp_path a = sink_path b"
  then have "rev (tmp_path a) = rev (sink_path b)" by simp
  then show False by (simp add: tmp_path_def sink_path_def)
qed

lemma get_write_tmp: "k \<noteq> tmp_path cid \<Longrightarrow> od_get (write_tmp cid t d) k = od_get d k"
  by (simp add: write_tmp_def od_simps)

lemma get_replace_tmp:
  "od_get (replace_tmp cid (write_tmp cid t d)) k =
     (if k = sink_path cid then Some t else if k = tmp_path cid then None else od_get d k)"
  using tmp_not_json [of cid cid] by (auto simp: replace_tmp_def write_tmp_def od_simps)

lemma get_sink_write:
  "od_get (sink_write C r d) (sink_path cid) =
     (if cid = cr_cell_id r then Some (cd_dump C r) else od_get d (sink_path cid))"
  using tmp_not_json [of "cr_cell_id r" cid] by (auto simp: sink_write_def get_replace_tmp)

text \<open>
  A result store: what a load returns after a write. \<open>readable r\<close> says the codec reads \<open>r\<close> back.
\<close>

locale result_store =
  fixes put :: "cell_result \<Rightarrow> 'd \<Rightarrow> 'd"
    and fetch :: "'d \<Rightarrow> string \<Rightarrow> cell_result result"
    and stored :: "'d \<Rightarrow> string \<Rightarrow> bool"
    and readable :: "cell_result \<Rightarrow> bool"
  assumes fetch_put: "readable r \<Longrightarrow> fetch (put r d) (cr_cell_id r) = Inr r"
    and fetch_other: "cid \<noteq> cr_cell_id r \<Longrightarrow> fetch (put r d) cid = fetch d cid"
    and fetch_stored: "fetch d cid = Inr r \<Longrightarrow> stored d cid"
begin

lemma put_stored: "readable r \<Longrightarrow> stored (put r d) (cr_cell_id r)"
  by (rule fetch_stored [OF fetch_put])

lemma fetch_put_cases:
  "readable r \<Longrightarrow> fetch (put r d) cid = (if cid = cr_cell_id r then Inr r else fetch d cid)"
  by (simp add: fetch_put fetch_other)

lemma put_commute:
  "readable r \<Longrightarrow> readable q \<Longrightarrow> cr_cell_id r \<noteq> cr_cell_id q \<Longrightarrow> fetch (put r (put q d)) cid = fetch (put q (put r d)) cid"
  by (simp add: fetch_put_cases)

end

definition readable :: "'t codec \<Rightarrow> cell_result \<Rightarrow> bool" where
  "readable C r \<longleftrightarrow> cd_validate C (cd_dump C r) = Some r"

lemma readableI [simp]: "codec_ok C \<Longrightarrow> readable C r"
  by (simp add: codec_ok_def readable_def)

interpretation sink: result_store "sink_write C" "sink_load C" sink_exists "readable C" for C :: "'t codec"
proof unfold_locales
  fix r :: cell_result and d :: "'t directory" and cid
  show "sink_load C (sink_write C r d) (cr_cell_id r) = Inr r" if "readable C r"
    using that by (simp add: sink_load_def get_sink_write readable_def)
  show "sink_load C (sink_write C r d) cid = sink_load C d cid" if "cid \<noteq> cr_cell_id r"
    using that by (simp add: sink_load_def get_sink_write)
  show "sink_exists d cid" if "sink_load C d cid = Inr r"
    using that by (auto simp: sink_load_def sink_exists_def split: option.splits)
qed

text \<open>A codec that has the round-trip law: contents are results, or unreadable.\<close>

definition plain_codec :: "cell_result option codec" where
  "plain_codec = \<lparr>cd_dump = Some, cd_validate = (\<lambda>t. t)\<rparr>"

lemma plain_codec_ok: "codec_ok plain_codec"
  by (simp add: codec_ok_def plain_codec_def)

section \<open>Outcomes\<close>

lemma CellResult_Inr: "CellResult r = Inr q \<Longrightarrow> q = r"
  by (auto simp: CellResult_def split: if_splits)

lemma measured_result_Inr:
  assumes "measured_result c ts th st du = Inr r"
  shows "cr_cell_id r = cell_id c \<and> cr_topology r = cs_topology c \<and> cr_model r = cs_model c \<and>
    cr_rate_rps r = cs_rate_rps c \<and> cr_mix r = cs_mix c \<and> cr_seed r = cs_seed c \<and>
    cr_success_rate r = success_share ts \<and> cr_reconcile_passes r = (99 / 100 \<le> success_share ts) \<and>
    cr_cache_hit_rate r = tier_hit_rate c ts \<and> cr_thermal r = th \<and> cr_duration_s r = du \<and> 0 \<le> du"
  using assms by (auto simp: measured_result_def Let_def CellResult_def aggregate_metrics_def split: if_splits)

lemma tier_hit_rate_range: "0 \<le> tier_hit_rate c ts \<and> tier_hit_rate c ts \<le> 1"
  by (auto simp: tier_hit_rate_def divide_le_eq)

text \<open>An execution writes its result and nothing else, and a failed one writes nothing.\<close>

definition fired :: "'g rng \<Rightarrow> 'w cell_world \<Rightarrow> cell_spec \<Rightarrow> request_telemetry list \<Rightarrow> bool" where
  "fired R W c ts \<longleftrightarrow> (\<exists>tr w1 w2. build_trace R c = Inr tr \<and> cw_replay W tr w1 = (Inr ts, w2))"

lemma execute_cell_outcome:
  assumes "execute_cell R C W c (d, w) = (res, d', w')"
  obtains (failed) e where "res = Inl e" "d' = d"
    | (measured) r ts th st du where "res = Inr r" "d' = sink_write C r d" "fired R W c ts"
        "measured_result c ts th st du = Inr r"
proof (cases "build_trace R c")
  case (Inl e)
  then show thesis using assms failed [of e] by (simp add: execute_cell_def)
next
  case (Inr tr)
  obtain st w1 t0 w2 tel w3 where w: "cw_utcnow W w = (st, w1)" "cw_perf_counter W w1 = (t0, w2)"
    "cw_replay W tr w2 = (tel, w3)" by (metis surj_pair)
  show thesis
  proof (cases tel)
    case (Inl e)
    then show thesis using assms failed [of e] Inr w by (simp add: execute_cell_def)
  next
    case tel: (Inr ts)
    obtain t1 w4 th w5 where v: "cw_perf_counter W w3 = (t1, w4)" "cw_thermal W w4 = (th, w5)" by (metis surj_pair)
    show thesis
    proof (cases th)
      case (Inl e)
      then show thesis using assms failed [of e] Inr w tel v by (simp add: execute_cell_def)
    next
      case th: (Inr reading)
      have run: "(case measured_result c ts reading st (t1 - t0) of Inl e \<Rightarrow> (Inl e, d, w5)
          | Inr r \<Rightarrow> (Inr r, sink_write C r d, w5)) = (res, d', w')"
        using assms Inr w tel v th by (simp add: execute_cell_def)
      have "fired R W c ts" using Inr w(3) tel by (auto simp: fired_def)
      show thesis
      proof (cases "measured_result c ts reading st (t1 - t0)")
        case (Inl e)
        then have "res = Inl e" "d' = d" using run by simp_all
        then show thesis by (rule failed)
      next
        case (Inr r)
        then have "res = Inr r" "d' = sink_write C r d" using run by simp_all
        then show thesis using measured \<open>fired R W c ts\<close> Inr by blast
      qed
    qed
  qed
qed

lemma run_cell_outcome:
  assumes "run_cell R C W c (d, w) = (res, d', w')"
  obtains (loaded) r where "sink_load C d (cell_id c) = Inr r" "res = Inr r" "d' = d" "w' = w"
    | (failed) e where "\<forall>r. sink_load C d (cell_id c) \<noteq> Inr r" "res = Inl e" "d' = d"
    | (measured) r where "\<forall>r. sink_load C d (cell_id c) \<noteq> Inr r" "res = Inr r" "d' = sink_write C r d" "cr_cell_id r = cell_id c"
proof (cases "sink_load C d (cell_id c)")
  case (Inr r)
  then have "sink_exists d (cell_id c)" by (rule sink.fetch_stored)
  then have "res = Inr r \<and> d' = d \<and> w' = w" using assms Inr by (simp add: run_cell_def)
  then show thesis using that(1) Inr by blast
next
  case (Inl e)
  then have none: "\<forall>r. sink_load C d (cell_id c) \<noteq> Inr r" by simp
  have "execute_cell R C W c (d, w) = (res, d', w')" using assms Inl by (simp add: run_cell_def split: if_splits)
  then show thesis
  proof (cases rule: execute_cell_outcome)
    case (failed e)
    then show thesis using that(2) none by blast
  next
    case (measured r ts th st du)
    then show thesis using that(3) none measured_result_Inr [OF measured(4)] by blast
  qed
qed

lemma run_cell_again:
  assumes C: "codec_ok C" and run: "run_cell R C W c (d, w) = (Inr r, d', w')"
  shows "run_cell R2 C W2 c (d', w2) = (Inr r, d', w2)"
  using run
proof (cases rule: run_cell_outcome)
  case (loaded q)
  then show ?thesis using sink.fetch_stored [OF loaded(1)] by (simp add: run_cell_def)
next
  case (failed e)
  then show ?thesis by simp
next
  case (measured q)
  then have "sink_load C d' (cell_id c) = Inr r" using sink.fetch_put [of C q d] C by simp
  then show ?thesis using sink.fetch_stored [of C d' "cell_id c" r] by (simp add: run_cell_def)
qed

lemma run_cell_frame:
  assumes "run_cell R C W c (d, w) = (res, d', w')" "cid \<noteq> cell_id c"
  shows "sink_load C d' cid = sink_load C d cid"
  using assms(1) by (cases rule: run_cell_outcome) (simp_all add: assms(2) sink.fetch_other)

section \<open>The trace of a cell\<close>

lemma cell_duration_pos: "0 < cell_duration_s c"
  by (simp add: cell_duration_s_def)

lemma build_trace_ok:
  assumes R: "rng_ok R" and c: "CellSpec t m r x n k s = Inr c" and total: "n + k \<le> 380"
  shows "\<exists>tr. build_trace R c = Inr tr \<and> int (n_requests tr) = n + k \<and> tr_workload tr = mix_to_workload x \<and>
    distinct (map rq_id (tr_requests tr))"
proof -
  have f: "cs_mix c = x" "cell_total c = n + k" "0 < cell_total c" "0 < real_of_int (cs_rate_rps c)"
    using CellSpec_Inr [OF c] by (auto simp: cell_total_def)
  let ?tag = "\<lambda>tr. tr\<lparr>tr_workload := mix_to_workload x\<rparr>"
  have tag: "n_requests (?tag tr) = n_requests tr" for tr :: trace by (simp add: n_requests_def)
  show ?thesis
  proof (cases x)
    case MIX_CHAT
    obtain cfg where cfg: "ChatWorkloadConfig (cell_total c) (cs_seed c) (500, 2000) (50, 500) (1, 5) DEFAULT_SYSTEM_PROMPT
        (real_of_int (cs_rate_rps c)) (cell_duration_s c) INTERACTIVE = Inr cfg"
      using f by (simp add: ChatWorkloadConfig_def)
    obtain tr where "chat_generate R cfg = Inr tr" "int (n_requests tr) = n + k" "distinct (map rq_id (tr_requests tr))"
      using chat_generate_ok [OF R cfg] f cell_duration_pos by auto
    then show ?thesis using f cfg MIX_CHAT by (simp add: build_trace_def n_requests_def)
  next
    case MIX_RAG
    let ?c = "rag_cell_config c"
    have "2 * synth_token_count DEFAULT_RAG_SYSTEM_PROMPT \<le> length DEFAULT_RAG_SYSTEM_PROMPT + 1"
      by (rule token_count_length)
    then have "synth_token_count DEFAULT_RAG_SYSTEM_PROMPT \<le> 100" by (simp add: DEFAULT_RAG_SYSTEM_PROMPT_def)
    then have fits: "rag_config_fits ?c" using f cell_duration_pos by (simp add: rag_config_fits_def rag_cell_config_def)
    have valid: "RagWorkloadConfig ?c = Inr ?c" using f by (simp add: RagWorkloadConfig_def rag_cell_config_def)
    obtain corpus g where gen: "RagTraceGenerator R ?c = Inr (corpus, g)" "rag_fits ?c corpus"
      using rag_generator_ok [OF R valid fits] by blast
    obtain tr g' where tr: "rag_generate R ?c (corpus, g) = Inr (tr, g')" "n_requests tr = nat (rg_n_requests ?c)"
      "distinct (map rq_id (tr_requests tr))"
      using rag_generate_ok [OF R fits gen(2), of g] by blast
    have "build_trace R c = Inr (?tag tr)" using f(1) MIX_RAG valid gen(1) tr(1) by (simp add: build_trace_def)
    moreover have "int (n_requests tr) = n + k" using tr(2) f by (simp add: rag_cell_config_def)
    ultimately show ?thesis using tr(3) tag by simp
  next
    case MIX_AGENTIC
    let ?c = "agentic_cell_config c"
    have "2 * synth_token_count DEFAULT_AGENTIC_SYSTEM_PROMPT \<le> length DEFAULT_AGENTIC_SYSTEM_PROMPT + 1"
      "2 * synth_token_count DEFAULT_TOOL_DEFS \<le> length DEFAULT_TOOL_DEFS + 1"
      by (rule token_count_length)+
    then have "synth_token_count DEFAULT_AGENTIC_SYSTEM_PROMPT \<le> 100" "synth_token_count DEFAULT_TOOL_DEFS \<le> 200"
      by (simp_all add: DEFAULT_AGENTIC_SYSTEM_PROMPT_def DEFAULT_TOOL_DEFS_def)
    then have fits: "agent_fits ?c" using f total by (simp add: agent_fits_def agentic_cell_config_def)
    have valid: "AgenticWorkloadConfig ?c = Inr ?c" "0 < ag_rate_per_sec ?c" "0 < ag_duration_s ?c"
      using f cell_duration_pos by (simp_all add: AgenticWorkloadConfig_def agentic_cell_config_def)
    obtain tr where tr: "agent_generate R ?c = Inr tr" "int (n_requests tr) = ag_n_requests ?c"
      "distinct (map rq_id (tr_requests tr))"
      using agent_generate_ok [OF R valid(1) fits valid(2,3)] by blast
    have "build_trace R c = Inr (?tag tr)" using f(1) MIX_AGENTIC valid(1) tr(1) by (simp add: build_trace_def)
    moreover have "int (n_requests tr) = n + k" using tr(2) f by (simp add: agentic_cell_config_def)
    ultimately show ?thesis using tr(3) tag by simp
  qed
qed

section \<open>Properties\<close>

text \<open>
  C6: Running a cell is idempotent and survives crashes. Once a run returned a result, running the cell
  again, with any clock, server and generator, returns the same result without touching files or
  world; a failed run leaves the directory as it was; a crash between the two file operations of a
  write, with whatever content the temporary file got, changes no result; other cells' results are
  never touched.
\<close>

theorem run_cell_idempotent:
  assumes "codec_ok C" and "run_cell R C W c (d, w) = (res, d', w')"
  shows "(\<forall>r. res = Inr r \<longrightarrow> run_cell R2 C W2 c (d', w2) = (Inr r, d', w2)) \<and>
    (\<forall>e. res = Inl e \<longrightarrow> d' = d) \<and>
    (\<forall>cid t. sink_load C (write_tmp (cell_id c) t d) cid = sink_load C d cid) \<and>
    (\<forall>cid. cid \<noteq> cell_id c \<longrightarrow> sink_load C d' cid = sink_load C d cid)"
proof (intro conjI allI impI)
  show "run_cell R2 C W2 c (d', w2) = (Inr r, d', w2)" if "res = Inr r" for r
    using assms(2) unfolding that by (rule run_cell_again [OF assms(1)])
  show "d' = d" if "res = Inl e" for e
    using assms(2) by (cases rule: run_cell_outcome) (simp_all add: that)
  show "sink_load C (write_tmp (cell_id c) t d) cid = sink_load C d cid" for cid t
    using tmp_not_json [of "cell_id c" cid] by (simp add: sink_load_def get_write_tmp)
  show "sink_load C d' cid = sink_load C d cid" if "cid \<noteq> cell_id c" for cid
    using run_cell_frame [OF assms(2) that] .
qed

text \<open>A world for examples: the replay returns the given telemetries, every reading takes one second.\<close>

definition ex_world :: "request_telemetry list \<Rightarrow> real cell_world" where
  "ex_world ts =
     \<lparr>cw_replay = (\<lambda>tr w. (Inr ts, w)),
      cw_thermal = (\<lambda>w. (ThermalReading 60 90 20000, w)),
      cw_utcnow = (\<lambda>w. (w, w + 1)), cw_perf_counter = (\<lambda>w. (w, w + 1))\<rparr>"

lemma ex_cell_trace: "\<exists>tr. build_trace counting_rng (ex_cell t) = Inr tr"
  using build_trace_ok [OF counting_rng_ok ex_cell_spec, of t] by auto

lemma ex_cell_run:
  "\<exists>r. run_cell counting_rng plain_codec (ex_world [ex_bench_telemetry 200 [0, 5]]) (ex_cell t) ([], 0) =
     (Inr r, sink_write plain_codec r [], 3)"
proof -
  obtain tr where tr: "build_trace counting_rng (ex_cell t) = Inr tr" using ex_cell_trace by blast
  have "success_share [ex_bench_telemetry 200 [0, 5]] = 1"
    by (simp add: success_share_def successes_def ex_bench_telemetry_def)
  then obtain r where "measured_result (ex_cell t) [ex_bench_telemetry 200 [0, 5]]
      \<lparr>th_gpu_temp_c = 60, th_gpu_util_pct = 90, th_gpu_mem_used_mb = 20000, th_warn_c = 80\<rparr> 0 1 = Inr r"
    using tier_hit_rate_range [of "ex_cell t" "[ex_bench_telemetry 200 [0, 5]]"]
    by (simp add: measured_result_def Let_def CellResult_def aggregate_metrics_def)
  then show ?thesis
    using tr by (simp add: run_cell_def sink_exists_def od_get_def execute_cell_def ex_world_def ThermalReading_def)
qed

lemma run_cell_idempotent_witness:
  "\<exists>r d'. run_cell counting_rng plain_codec (ex_world []) (ex_cell TOPO_DISAGG) (d', 100) = (Inr r, d', 100)"
proof -
  obtain r where "run_cell counting_rng plain_codec (ex_world [ex_bench_telemetry 200 [0, 5]]) (ex_cell TOPO_DISAGG) ([], 0) =
     (Inr r, sink_write plain_codec r [], 3)" using ex_cell_run by blast
  from run_cell_idempotent [OF plain_codec_ok this, of counting_rng "ex_world []" 100] show ?thesis by blast
qed

text \<open>
  A cell that is measured anew says what happened: its identity is the specification's, it counts
  as reconciled exactly when at least 99 percent of its requests returned 200, and its tier hit rate is
  zero on every topology but the tiered one.
\<close>

theorem measured_cell_faithful:
  assumes "sink_load C d (cell_id c) = Inl e" and "codec_ok C" and "run_cell R C W c (d, w) = (Inr r, d', w')"
  shows "sink_load C d' (cell_id c) = Inr r \<and> cr_cell_id r = cell_id c \<and> cr_topology r = cs_topology c \<and>
    (\<exists>ts. fired R W c ts \<and> cr_reconcile_passes r = (99 / 100 \<le> success_share ts) \<and>
       cr_success_rate r = success_share ts \<and> cr_cache_hit_rate r = tier_hit_rate c ts) \<and>
    (cs_topology c \<noteq> TOPO_DISAGG_TIER \<longrightarrow> cr_cache_hit_rate r = 0)"
proof -
  have "execute_cell R C W c (d, w) = (Inr r, d', w')"
    using assms(1,3) by (simp add: run_cell_def split: if_splits)
  then show ?thesis
  proof (cases rule: execute_cell_outcome)
    case (failed e)
    then show ?thesis by simp
  next
    case (measured q ts th st du)
    note facts = measured_result_Inr [OF measured(4)]
    have "sink_load C d' (cell_id c) = Inr r"
      using sink.fetch_put [of C q d] assms(2) facts measured(1,2) by simp
    moreover have "cs_topology c \<noteq> TOPO_DISAGG_TIER \<longrightarrow> cr_cache_hit_rate r = 0"
      using facts measured(1) by (simp add: tier_hit_rate_def)
    ultimately show ?thesis using facts measured(1,3) by blast
  qed
qed

lemma measured_cell_faithful_witness:
  "\<exists>r d'. sink_load plain_codec d' (cell_id (ex_cell TOPO_DISAGG)) = Inr r \<and> cr_cache_hit_rate r = 0"
proof -
  obtain r where run: "run_cell counting_rng plain_codec (ex_world [ex_bench_telemetry 200 [0, 5]]) (ex_cell TOPO_DISAGG) ([], 0) =
     (Inr r, sink_write plain_codec r [], 3)" using ex_cell_run by blast
  have "sink_load plain_codec [] (cell_id (ex_cell TOPO_DISAGG)) = Inl FileNotFoundError"
    by (simp add: sink_load_def od_get_def)
  from measured_cell_faithful [OF this plain_codec_ok run] show ?thesis by (auto simp: ex_cell_def)
qed

text \<open>
  Every valid cell of up to 380 requests has a trace: generation never fails, the trace has exactly
  the warm-up and measured requests with distinct identifiers, and it is tagged with the workload
  of the cell's mix.
\<close>

theorem cell_trace_exact:
  assumes "rng_ok R" and "CellSpec t m r x n k s = Inr c" and "n + k \<le> 380"
  shows "\<exists>tr. build_trace R c = Inr tr \<and> int (n_requests tr) = n + k \<and> tr_workload tr = mix_to_workload x \<and>
    distinct (map rq_id (tr_requests tr))"
  using assms by (rule build_trace_ok)

lemma cell_trace_exact_witness: "\<exists>tr. build_trace counting_rng (ex_cell TOPO_CHUNKED) = Inr tr \<and> n_requests tr = 3"
  using cell_trace_exact [OF counting_rng_ok ex_cell_spec, of TOPO_CHUNKED] by auto

end
