(* ===== verification/MatrixAggregator.thy ===== *)
theory MatrixAggregator
  imports CellRunner
begin

text \<open>
  \<open>bench/matrix_aggregator.py\<close>: reading a directory of result files, grouping by topology and writing
  \<open>summary.json\<close>. The lemmas characterise which files end up in the aggregate and show that the
  per-topology payload loses no cell and no cost.
\<close>

record campaign_report =
  cp_n_cells_completed :: int
  cp_n_cells_failed :: int
  cp_total_duration_s :: real
  cp_cost_usd :: real
  cp_pod_id :: string
  cp_started_at :: real
  cp_ended_at :: real

definition CampaignReport :: "campaign_report \<Rightarrow> campaign_report result" where
  "CampaignReport r =
     (if 0 \<le> cp_n_cells_completed r \<and> 0 \<le> cp_n_cells_failed r \<and> 0 \<le> cp_total_duration_s r \<and> 0 \<le> cp_cost_usd r
      then Inr r else Inl ValueError)"

section \<open>Reading the directory\<close>

text \<open>\<open>glob("*.json")\<close> and \<open>path.stem\<close>; the stem of a name that is only a suffix is the name itself.\<close>

definition is_json :: "string \<Rightarrow> bool" where
  "is_json name \<longleftrightarrow> 5 \<le> length name \<and> drop (length name - 5) name = ''.json''"

definition stem :: "string \<Rightarrow> string" where
  "stem name = (if name = ''.json'' then name else take (length name - 5) name)"

definition json_files :: "'t directory \<Rightarrow> (string \<times> 't) list" where
  "json_files d = filter (\<lambda>f. is_json (fst f)) d"

text \<open>The loop over the files: unreadable ones are skipped, a misnamed one raises.\<close>

fun load_files :: "'t codec \<Rightarrow> (string \<times> 't) list \<Rightarrow> cell_result list result" where
  "load_files C [] = Inr []"
| "load_files C ((name, t) # fs) =
     (case cd_validate C t of
        None \<Rightarrow> load_files C fs
      | Some r \<Rightarrow>
          if cr_cell_id r \<noteq> stem name then Inl ValueError
          else rbind (load_files C fs) (\<lambda>rs. Inr (r # rs)))"

definition aggregate :: "'t codec \<Rightarrow> 't directory \<Rightarrow> cell_result list result" where
  "aggregate C d =
     (let files = sort_key fst (json_files d) in
      if files = [] then Inl ValueError
      else rbind (load_files C files) (\<lambda>results.
             if results = [] then Inl ValueError else Inr (sort_key cr_cell_id results)))"

section \<open>Grouping\<close>

definition group_add :: "(topology, cell_result list) odict \<Rightarrow> cell_result \<Rightarrow> (topology, cell_result list) odict" where
  "group_add g r =
     od_set (cr_topology r) ((case od_get g (cr_topology r) of None \<Rightarrow> [] | Some l \<Rightarrow> l) @ [r]) g"

definition per_topology_breakdown :: "cell_result list \<Rightarrow> (topology, cell_result list) odict" where
  "per_topology_breakdown results = foldl group_add [] results"

definition cost_per_cell :: "real \<Rightarrow> real \<Rightarrow> real" where
  "cost_per_cell duration_s cost_per_hour_usd = duration_s / 3600 * cost_per_hour_usd"

record topology_payload =
  tp_n_cells :: int
  tp_n_reconciled :: int
  tp_mean_ttft_ms :: real
  tp_mean_itl_ms :: real
  tp_success_rate :: real
  tp_n_unreconciled :: int
  tp_n_thermal_warnings :: int
  tp_total_cost_usd :: real

record summary_payload =
  sp_campaign :: campaign_report
  sp_summary :: summary_stats
  sp_per_topology :: "(string, topology_payload) odict"
  sp_per_hour_usd :: real
  sp_n_cells :: int
  sp_total_usd :: real

definition topology_entry :: "real \<Rightarrow> cell_result list \<Rightarrow> topology_payload" where
  "topology_entry cost cells =
     (let rec = reconciled cells;
          n_rec = length rec;
          avg = (\<lambda>f. if n_rec \<noteq> 0 then sum_list (map f rec) / real n_rec else 0)
      in \<lparr>tp_n_cells = int (length cells), tp_n_reconciled = int n_rec, tp_mean_ttft_ms = avg cr_mean_ttft_ms,
          tp_mean_itl_ms = avg cr_mean_itl_ms, tp_success_rate = avg cr_success_rate,
          tp_n_unreconciled = int (length cells) - int n_rec,
          tp_n_thermal_warnings = int (length (filter has_thermal_warning cells)),
          tp_total_cost_usd = sum_list (map (\<lambda>c. cost_per_cell (cr_duration_s c) cost) cells)\<rparr>)"

definition build_summary :: "campaign_report \<Rightarrow> real \<Rightarrow> cell_result list \<Rightarrow> summary_payload" where
  "build_summary campaign cost results =
     \<lparr>sp_campaign = campaign, sp_summary = from_results results,
      sp_per_topology = map (\<lambda>(t, cells). (topology_value t, topology_entry cost cells))
        (sort_key (\<lambda>kv. topology_value (fst kv)) (per_topology_breakdown results)),
      sp_per_hour_usd = cost, sp_n_cells = int (length results),
      sp_total_usd = sum_list (map (\<lambda>c. cost_per_cell (cr_duration_s c) cost) results)\<rparr>"

text \<open>\<open>dump\<close> is the JSON text of the payload; the file is written as the cells are.\<close>

definition write_summary ::
  "'t codec \<Rightarrow> (summary_payload \<Rightarrow> 't) \<Rightarrow> campaign_report \<Rightarrow> real \<Rightarrow> 't directory \<Rightarrow> 't directory result" where
  "write_summary C dump campaign cost d =
     rbind (aggregate C d) (\<lambda>results.
       Inr (replace_tmp ''summary'' (write_tmp ''summary'' (dump (build_summary campaign cost results)) d)))"

section \<open>What the aggregate holds\<close>

lemma is_json_sink_path [simp]: "is_json (sink_path cid)"
  by (simp add: is_json_def sink_path_def)

lemma stem_sink_path: "cid \<noteq> [] \<Longrightarrow> stem (sink_path cid) = cid"
  by (simp add: stem_def sink_path_def)

lemma sink_path_stem: "is_json name \<Longrightarrow> name \<noteq> ''.json'' \<Longrightarrow> sink_path (stem name) = name"
  by (metis append_take_drop_id is_json_def sink_path_def stem_def)

lemma load_files_readable:
  assumes "cd_validate C t = Some r" "load_files C ((name, t) # fs) = Inr rs"
  obtains rs' where "load_files C fs = Inr rs'" "rs = r # rs'" "cr_cell_id r = stem name"
  using assms by (auto simp: rbind_eq_Inr split: if_splits)

lemma load_files_ids:
  "load_files C fs = Inr rs \<Longrightarrow>
     map cr_cell_id rs = map (stem \<circ> fst) (filter (\<lambda>f. cd_validate C (snd f) \<noteq> None) fs)"
proof (induction C fs arbitrary: rs rule: load_files.induct)
  case (1 C)
  then show ?case by simp
next
  case (2 C name t fs)
  show ?case
  proof (cases "cd_validate C t")
    case None
    then show ?thesis using 2 by simp
  next
    case (Some r)
    obtain rs' where rs: "load_files C fs = Inr rs'" "rs = r # rs'" "cr_cell_id r = stem name"
      by (rule load_files_readable [OF Some 2(3)])
    then show ?thesis using 2(2) [OF Some _ rs(1)] Some by simp
  qed
qed

lemma load_files_set:
  "load_files C fs = Inr rs \<Longrightarrow> set rs = {r. \<exists>f\<in>set fs. cd_validate C (snd f) = Some r}"
proof (induction C fs arbitrary: rs rule: load_files.induct)
  case (1 C)
  then show ?case by simp
next
  case (2 C name t fs)
  show ?case
  proof (cases "cd_validate C t")
    case None
    then show ?thesis using 2 by simp
  next
    case (Some r)
    obtain rs' where rs: "load_files C fs = Inr rs'" "rs = r # rs'" "cr_cell_id r = stem name"
      by (rule load_files_readable [OF Some 2(3)])
    have "set rs = insert r {r. \<exists>f\<in>set fs. cd_validate C (snd f) = Some r}"
      using 2(2) [OF Some _ rs(1)] rs(2,3) by simp
    then show ?thesis using Some by auto
  qed
qed

lemma load_files_named:
  "load_files C fs = Inr rs \<Longrightarrow> f \<in> set fs \<Longrightarrow> cd_validate C (snd f) = Some r \<Longrightarrow> cr_cell_id r = stem (fst f)"
proof (induction C fs arbitrary: rs rule: load_files.induct)
  case (1 C)
  then show ?case by simp
next
  case (2 C name t fs)
  show ?case
  proof (cases "cd_validate C t")
    case None
    then show ?thesis using 2(1) [OF None] 2(3-5) by auto
  next
    case (Some q)
    obtain rs' where rs: "load_files C fs = Inr rs'" "cr_cell_id q = stem name"
      by (rule load_files_readable [OF Some 2(3)])
    then show ?thesis using 2(2) [OF Some _ rs(1)] Some 2(4,5) by auto
  qed
qed

lemma load_files_Inl:
  "load_files C fs = Inl e \<Longrightarrow>
     e = ValueError \<and> (\<exists>f\<in>set fs. \<exists>r. cd_validate C (snd f) = Some r \<and> cr_cell_id r \<noteq> stem (fst f))"
proof (induction C fs arbitrary: e rule: load_files.induct)
  case (1 C)
  then show ?case by simp
next
  case (2 C name t fs)
  show ?case
  proof (cases "cd_validate C t")
    case None
    then show ?thesis using 2 by auto
  next
    case (Some r)
    show ?thesis
    proof (cases "cr_cell_id r = stem name")
      case True
      then have "load_files C fs = Inl e" using 2(3) Some by (cases "load_files C fs") auto
      then show ?thesis using 2(2) [OF Some] True by auto
    next
      case False
      then show ?thesis using 2(3) Some by auto
    qed
  qed
qed

lemma json_files_iff:
  assumes "od_ok d"
  shows "(name, t) \<in> set (json_files d) \<longleftrightarrow> is_json name \<and> od_get d name = Some t"
  using assms by (auto simp: json_files_def od_in_set_iff)

lemma sink_load_Inr: "sink_load C d cid = Inr r \<longleftrightarrow> (\<exists>t. od_get d (sink_path cid) = Some t \<and> cd_validate C t = Some r)"
  by (auto simp: sink_load_def split: option.splits)

lemma json_names_distinct: "od_ok d \<Longrightarrow> distinct (map fst (json_files d))"
  by (induction d) (auto simp: od_ok_def json_files_def)

lemma stem_inj_on: "inj_on stem {name. is_json name \<and> name \<noteq> ''.json''}"
  by (rule inj_on_inverseI [where g = sink_path]) (simp add: sink_path_stem)

lemma distinct_filter_stems:
  assumes "distinct (map fst fs)" "\<forall>f\<in>set fs. is_json (fst f) \<and> fst f \<noteq> ''.json''"
  shows "distinct (map (stem \<circ> fst) (filter P fs))"
proof -
  have "distinct (map fst (filter P fs))" using assms(1) by (rule distinct_map_filter)
  moreover have "inj_on stem (set (map fst (filter P fs)))"
    using assms(2) by (intro inj_on_subset [OF stem_inj_on]) auto
  ultimately have "distinct (map stem (map fst (filter P fs)))" using distinct_map by blast
  then show ?thesis by (simp only: map_map)
qed

lemma aggregate_Inr:
  assumes d: "od_ok d" "od_get d ''.json'' = None" and agg: "aggregate C d = Inr rs"
  shows "sorted (map cr_cell_id rs) \<and> distinct (map cr_cell_id rs) \<and> rs \<noteq> [] \<and>
    (\<forall>r. r \<in> set rs \<longleftrightarrow> (\<exists>cid. sink_load C d cid = Inr r)) \<and>
    (\<forall>cid r. sink_load C d cid = Inr r \<and> cid \<noteq> [] \<longrightarrow> cr_cell_id r = cid)"
proof -
  let ?fs = "sort_key fst (json_files d)"
  obtain ls where ls: "load_files C ?fs = Inr ls" "ls \<noteq> []" "rs = sort_key cr_cell_id ls"
    using agg by (auto simp: aggregate_def Let_def rbind_eq_Inr split: if_splits)
  note L = load_files_ids [OF ls(1)] load_files_set [OF ls(1)]
  have named: "\<forall>f\<in>set ?fs. is_json (fst f) \<and> fst f \<noteq> ''.json''"
    using d by (auto simp: json_files_iff)
  have "distinct (map fst ?fs)"
    using json_names_distinct [OF d(1)] by (metis (mono_tags) distinct_map mset_sort mset_eq_setD mset_eq_imp_distinct_iff mset_map)
  then have "distinct (map cr_cell_id ls)" unfolding L(1) using named by (rule distinct_filter_stems)
  then have "distinct (map cr_cell_id rs)" by (simp add: ls(3) distinct_map)
  moreover have "(r \<in> set rs) = (\<exists>cid. sink_load C d cid = Inr r)" for r
  proof
    assume "r \<in> set rs"
    then obtain name t where f: "(name, t) \<in> set (json_files d)" "cd_validate C t = Some r" using L ls(3) by auto
    then have "is_json name" "od_get d name = Some t" "name \<noteq> ''.json''" using d by (auto simp: json_files_iff)
    then have "sink_load C d (stem name) = Inr r" using f(2) by (auto simp: sink_load_Inr sink_path_stem)
    then show "\<exists>cid. sink_load C d cid = Inr r" ..
  next
    assume "\<exists>cid. sink_load C d cid = Inr r"
    then obtain cid t where "od_get d (sink_path cid) = Some t" "cd_validate C t = Some r" by (auto simp: sink_load_Inr)
    then have "(sink_path cid, t) \<in> set (json_files d)" "cd_validate C t = Some r" using d(1) by (auto simp: json_files_iff)
    then have "\<exists>f\<in>set ?fs. cd_validate C (snd f) = Some r" by (intro bexI [of _ "(sink_path cid, t)"]) simp_all
    then show "r \<in> set rs" using L(2) ls(3) by simp
  qed
  moreover have "cr_cell_id r = cid" if load: "sink_load C d cid = Inr r" and cid: "cid \<noteq> []" for cid r
  proof -
    obtain t where t: "od_get d (sink_path cid) = Some t" "cd_validate C t = Some r" using load by (auto simp: sink_load_Inr)
    then have "(sink_path cid, t) \<in> set ?fs" using d(1) by (simp add: json_files_iff)
    then show ?thesis using load_files_named [OF ls(1)] t(2) stem_sink_path [OF cid] by force
  qed
  ultimately show ?thesis using ls(2,3) by (simp add: sort_eq_Nil_key)
qed

lemma aggregate_Inl:
  assumes "aggregate C d = Inl e"
  shows "e = ValueError \<and>
    ((\<forall>f\<in>set (json_files d). cd_validate C (snd f) = None) \<or>
     (\<exists>f\<in>set (json_files d). \<exists>r. cd_validate C (snd f) = Some r \<and> cr_cell_id r \<noteq> stem (fst f)))"
proof (cases "load_files C (sort_key fst (json_files d))")
  case (Inl e')
  then show ?thesis using load_files_Inl [OF Inl] assms by (auto simp: aggregate_def Let_def split: if_splits)
next
  case (Inr ls)
  then have "e = ValueError" "ls = []" using assms by (auto simp: aggregate_def Let_def split: if_splits)
  moreover have "cd_validate C (snd f) = None" if "f \<in> set (json_files d)" for f
  proof (cases "cd_validate C (snd f)")
    case (Some r)
    then have "r \<in> set ls" using load_files_set [OF Inr] that by auto
    then show ?thesis using \<open>ls = []\<close> by simp
  qed
  ultimately show ?thesis by blast
qed

section \<open>What the grouping holds\<close>

lemma breakdown_snoc: "per_topology_breakdown (rs @ [r]) = group_add (per_topology_breakdown rs) r"
  by (simp add: per_topology_breakdown_def)

lemma breakdown_ok: "od_ok (per_topology_breakdown rs)"
  by (induction rs rule: rev_induct) (simp_all add: breakdown_snoc group_add_def od_ok_set, simp add: per_topology_breakdown_def od_ok_def)

lemma breakdown_get:
  "od_get (per_topology_breakdown rs) t =
     (let cells = filter (\<lambda>r. cr_topology r = t) rs in if cells = [] then None else Some cells)"
proof (induction rs rule: rev_induct)
  case Nil
  then show ?case by (simp add: per_topology_breakdown_def)
next
  case (snoc r rs)
  then show ?case by (auto simp: breakdown_snoc group_add_def Let_def)
qed

text \<open>Any measure that grows by \<open>g r\<close> when \<open>r\<close> joins a group has the total of \<open>g\<close> over all groups.\<close>

lemma sum_od_set:
  fixes f :: "'v \<Rightarrow> 'n :: ab_group_add"
  assumes "od_ok d"
  shows "sum_list (map (f \<circ> snd) (od_set k v d)) =
    sum_list (map (f \<circ> snd) d) - (case od_get d k of None \<Rightarrow> 0 | Some u \<Rightarrow> f u) + f v"
  using assms
proof (induction k v d rule: od_set.induct)
  case (1 k v)
  then show ?case by simp
next
  case (2 k v k' v' d)
  then show ?case by (auto simp: od_ok_Cons algebra_simps)
qed

lemma breakdown_sum:
  fixes f :: "cell_result list \<Rightarrow> 'n :: ab_group_add"
  assumes "f [] = 0" "\<And>l r. f (l @ [r]) = f l + g r"
  shows "sum_list (map (f \<circ> snd) (per_topology_breakdown rs)) = sum_list (map g rs)"
proof (induction rs rule: rev_induct)
  case Nil
  then show ?case by (simp add: per_topology_breakdown_def)
next
  case (snoc r rs)
  then show ?case
    using assms sum_od_set [OF breakdown_ok, of f "cr_topology r" _ rs]
    by (simp add: breakdown_snoc group_add_def comp_def split: option.splits)
qed

lemma sum_sort_key: "sum_list (map f (sort_key k xs)) = sum_list (map (f :: 'a \<Rightarrow> 'n :: comm_monoid_add) xs)"
  by (metis mset_map mset_sort sum_mset_sum_list)

lemma payload_sum:
  fixes f :: "topology_payload \<Rightarrow> 'n :: ab_group_add"
  assumes "f (topology_entry cost []) = 0"
    "\<And>l r. f (topology_entry cost (l @ [r])) = f (topology_entry cost l) + g r"
  shows "sum_list (map (f \<circ> snd) (sp_per_topology (build_summary campaign cost rs))) = sum_list (map g rs)"
proof -
  have "map (f \<circ> snd) (sp_per_topology (build_summary campaign cost rs)) =
      map ((f \<circ> topology_entry cost) \<circ> snd) (sort_key (\<lambda>kv. topology_value (fst kv)) (per_topology_breakdown rs))"
    by (simp add: build_summary_def split_def comp_def)
  then show ?thesis
    using breakdown_sum [of "f \<circ> topology_entry cost" g rs] assms by (simp add: sum_sort_key)
qed

lemma write_summary_frame:
  assumes "write_summary C dump campaign cost d = Inr d'"
  shows "od_get d' (sink_path cid) = (if cid = ''summary'' then od_get d' (sink_path ''summary'') else od_get d (sink_path cid))"
  using assms tmp_not_json [of "''summary''" cid] by (auto simp: write_summary_def rbind_eq_Inr get_replace_tmp)

section \<open>Properties\<close>

text \<open>
  Aggregating a directory returns exactly its readable results: sorted by identifier, no identifier
  twice, each one named after its file, with every unreadable file left out. It fails only, and with
  \<open>ValueError\<close>, when no file is readable or a readable file is misnamed.
\<close>

theorem aggregate_exact:
  assumes "od_ok d" and "od_get d ''.json'' = None"
  shows "case aggregate C d of
      Inr rs \<Rightarrow> rs \<noteq> [] \<and> sorted (map cr_cell_id rs) \<and> distinct (map cr_cell_id rs) \<and>
        (\<forall>r. (r \<in> set rs) = (\<exists>cid. sink_load C d cid = Inr r)) \<and>
        (\<forall>cid r. sink_load C d cid = Inr r \<and> cid \<noteq> [] \<longrightarrow> cr_cell_id r = cid)
    | Inl e \<Rightarrow> e = ValueError \<and>
        ((\<forall>f\<in>set (json_files d). cd_validate C (snd f) = None) \<or>
         (\<exists>f\<in>set (json_files d). \<exists>r. cd_validate C (snd f) = Some r \<and> cr_cell_id r \<noteq> stem (fst f)))"
proof (cases "aggregate C d")
  case (Inl e)
  then show ?thesis using aggregate_Inl [OF Inl] by simp
next
  case (Inr rs)
  then show ?thesis using aggregate_Inr [OF assms Inr] by simp
qed

definition ex_result :: "string \<Rightarrow> topology \<Rightarrow> bool \<Rightarrow> real \<Rightarrow> cell_result" where
  "ex_result cid t ok ttft =
     \<lparr>cr_cell_id = cid, cr_topology = t, cr_model = QWEN3_1_7B, cr_rate_rps = 4, cr_mix = MIX_CHAT, cr_n_warmup = 1,
      cr_n_measure = 2, cr_seed = 7, cr_mean_ttft_ms = ttft, cr_p95_ttft_ms = ttft, cr_mean_itl_ms = 1,
      cr_success_rate = (if ok then 1 else 0), cr_cache_hit_rate = 0, cr_reconcile_passes = ok,
      cr_thermal = \<lparr>th_gpu_temp_c = 85, th_gpu_util_pct = 90, th_gpu_mem_used_mb = 20000, th_warn_c = 80\<rparr>,
      cr_started_at = 0, cr_duration_s = 36, cr_notes = []\<rparr>"

definition ex_directory :: "cell_result option directory" where
  "ex_directory = [(''b.json'', Some (ex_result ''b'' TOPO_DISAGG True 5)), (''broken.json'', None),
     (''a.json'', Some (ex_result ''a'' TOPO_COLOCATED False 0))]"

lemma ex_directory_aggregate:
  "aggregate plain_codec ex_directory = Inr [ex_result ''a'' TOPO_COLOCATED False 0, ex_result ''b'' TOPO_DISAGG True 5]"
  by (simp add: aggregate_def ex_directory_def json_files_def is_json_def Let_def plain_codec_def stem_def ex_result_def)

lemma aggregate_exact_witness:
  "\<exists>rs. aggregate plain_codec ex_directory = Inr rs \<and> sorted (map cr_cell_id rs) \<and> length rs = 2"
proof -
  have "od_ok ex_directory" "od_get ex_directory ''.json'' = None" by (simp_all add: ex_directory_def od_ok_def)
  from aggregate_exact [OF this, of plain_codec] show ?thesis by (simp add: ex_directory_aggregate)
qed

text \<open>
  C29: The written summary conserves the campaign: over the per-topology payload, the cells, the
  reconciled cells, the thermal warnings and the cost add up to the totals of the directory, and the
  payload lists each topology at most once.
\<close>

theorem write_summary_conserves:
  assumes "aggregate C d = Inr rs"
  shows "let p = build_summary campaign cost rs in
    write_summary C dump campaign cost d =
      Inr (replace_tmp ''summary'' (write_tmp ''summary'' (dump p) d)) \<and>
    sum_list (map (tp_n_cells \<circ> snd) (sp_per_topology p)) = ss_n_cells (sp_summary p) \<and>
    sum_list (map (tp_n_reconciled \<circ> snd) (sp_per_topology p)) = ss_n_cells_reconciled (sp_summary p) \<and>
    sum_list (map (tp_n_thermal_warnings \<circ> snd) (sp_per_topology p)) = ss_n_thermal_warnings (sp_summary p) \<and>
    sum_list (map (tp_total_cost_usd \<circ> snd) (sp_per_topology p)) = sp_total_usd p \<and>
    distinct (map fst (sp_per_topology p))"
proof -
  let ?p = "build_summary campaign cost rs"
  have "sum_list (map (tp_n_cells \<circ> snd) (sp_per_topology ?p)) = sum_list (map (\<lambda>_. 1) rs)"
    by (rule payload_sum) (simp_all add: topology_entry_def Let_def)
  moreover have "sum_list (map (tp_n_reconciled \<circ> snd) (sp_per_topology ?p)) =
      sum_list (map (\<lambda>r. if cr_reconcile_passes r then 1 else 0) rs)"
    by (rule payload_sum) (simp_all add: topology_entry_def Let_def reconciled_def)
  moreover have "sum_list (map (tp_n_thermal_warnings \<circ> snd) (sp_per_topology ?p)) =
      sum_list (map (\<lambda>r. if has_thermal_warning r then 1 else 0) rs)"
    by (rule payload_sum) (simp_all add: topology_entry_def Let_def)
  moreover have "sum_list (map (tp_total_cost_usd \<circ> snd) (sp_per_topology ?p)) =
      sum_list (map (\<lambda>r. cost_per_cell (cr_duration_s r) cost) rs)"
    by (rule payload_sum) (simp_all add: topology_entry_def Let_def)
  moreover have count: "sum_list (map (\<lambda>r. if P r then 1 else 0) rs) = int (length (filter P rs))" for P
    by (induction rs) simp_all
  moreover have "sum_list (map (\<lambda>_. 1) rs) = int (length rs)" by (induction rs) simp_all
  moreover have "ss_n_thermal_warnings (from_results rs) = int (length (filter has_thermal_warning rs))"
    by (simp add: from_results_def Let_def)
  moreover have "distinct (map fst (sp_per_topology ?p))"
  proof -
    have "distinct (map fst (per_topology_breakdown rs))" using breakdown_ok [of rs] by (simp add: od_ok_def)
    then have "distinct (map (topology_value \<circ> fst) (per_topology_breakdown rs))"
      by (metis distinct_map inj_onI list.map_comp topology_value_inj)
    then have "distinct (map (topology_value \<circ> fst) (sort_key (\<lambda>kv. topology_value (fst kv)) (per_topology_breakdown rs)))"
      by (metis mset_eq_imp_distinct_iff mset_map mset_sort)
    then show ?thesis by (simp add: build_summary_def split_def comp_def)
  qed
  ultimately show ?thesis
    using assms by (simp add: Let_def write_summary_def build_summary_def summary_counts reconciled_def)
qed

definition ex_campaign :: campaign_report where
  "ex_campaign = \<lparr>cp_n_cells_completed = 2, cp_n_cells_failed = 0, cp_total_duration_s = 72, cp_cost_usd = 1,
     cp_pod_id = ''pod'', cp_started_at = 0, cp_ended_at = 72\<rparr>"

lemma write_summary_conserves_witness:
  "sum_list (map (tp_n_cells \<circ> snd) (sp_per_topology (build_summary ex_campaign 2
      [ex_result ''a'' TOPO_COLOCATED False 0, ex_result ''b'' TOPO_DISAGG True 5]))) = 2"
  using write_summary_conserves [OF ex_directory_aggregate, of ex_campaign 2 "\<lambda>_. None"]
  by (simp add: Let_def build_summary_def summary_counts)

end
