(* ===== verification/RunpodMatrix.thy ===== *)
theory RunpodMatrix
  imports MatrixAggregator
begin

text \<open>
  \<open>bench/runpod_matrix.py\<close> and \<open>bench/schema/matrix_config.py\<close>: the sweep configuration, the cells it
  enumerates, the cells that are still pending on disk, and the run that drives them through
  \<open>run_cell\<close>, with its cost. The lemmas show that the enumeration is the full product without
  duplicates and that a resumed run finishes what is pending and touches nothing else.
\<close>

section \<open>The matrix\<close>

record matrix_spec =
  ms_topologies :: "topology list"
  ms_models :: "model_id list"
  ms_rates_rps :: "int list"
  ms_mixes :: "mix list"
  ms_n_warmup :: int
  ms_n_measure :: int

definition default_matrix :: matrix_spec where
  "default_matrix = \<lparr>ms_topologies = all_topologies, ms_models = all_models, ms_rates_rps = [1, 2, 4, 8, 16, 32],
     ms_mixes = all_mixes, ms_n_warmup = 5, ms_n_measure = 30\<rparr>"

definition matrix_keys :: "matrix_spec \<Rightarrow> (topology \<times> model_id \<times> int \<times> mix) list" where
  "matrix_keys s = [(t, mdl, rate, mx). t \<leftarrow> ms_topologies s, mdl \<leftarrow> ms_models s, rate \<leftarrow> ms_rates_rps s, mx \<leftarrow> ms_mixes s]"

definition cells :: "matrix_spec \<Rightarrow> cell_spec list result" where
  "cells s = rmap (\<lambda>(t, mdl, rate, mx). CellSpec t mdl rate mx (ms_n_warmup s) (ms_n_measure s) 0) (matrix_keys s)"

definition total_cells :: "matrix_spec \<Rightarrow> nat" where
  "total_cells s = length (ms_topologies s) * length (ms_models s) * length (ms_rates_rps s) * length (ms_mixes s)"

section \<open>The configuration file\<close>

record sweep_config =
  sw_topologies :: "topology list option"
  sw_models :: "model_id list option"
  sw_rates_rps :: "int list option"
  sw_mixes :: "mix list option"
  sw_n_warmup :: int
  sw_n_measure :: int
  sw_cost_per_hour_usd :: real
  sw_smoke :: bool
  sw_max_model_len :: "int option"
  sw_output_dir :: string
  sw_pod_id :: string
  sw_vllm_base_url_env :: string

definition positive_rates :: "int list option \<Rightarrow> bool" where
  "positive_rates v = (case v of None \<Rightarrow> True | Some rs \<Rightarrow> list_all (\<lambda>r. \<not> r \<le> 0) rs)"

definition MatrixSweepConfig :: "sweep_config \<Rightarrow> sweep_config result" where
  "MatrixSweepConfig c =
     (if positive_rates (sw_rates_rps c) \<and> 0 \<le> sw_n_warmup c \<and> 1 \<le> sw_n_measure c \<and> 0 < sw_cost_per_hour_usd c \<and>
         (case sw_max_model_len c of None \<Rightarrow> True | Some n \<Rightarrow> 1 \<le> n) \<and> sw_pod_id c \<noteq> [] \<and> sw_vllm_base_url_env c \<noteq> []
      then Inr c else Inl ValueError)"

text \<open>\<open>Topology(n)\<close>\<close>

definition parse_topology :: "string \<Rightarrow> topology result" where
  "parse_topology n =
     (case filter (\<lambda>t. topology_value t = n) all_topologies of [] \<Rightarrow> Inl ValueError | t # _ \<Rightarrow> Inr t)"

definition restrict_topologies :: "sweep_config \<Rightarrow> string list \<Rightarrow> sweep_config result" where
  "restrict_topologies c names =
     rbind (rmap parse_topology names) (\<lambda>wanted.
       let allowed = (case sw_topologies c of Some ts \<Rightarrow> ts | None \<Rightarrow> all_topologies);
           missing = filter (\<lambda>t. t \<notin> set allowed) wanted
       in if missing \<noteq> [] then Inl ValueError else Inr (c\<lparr>sw_topologies := Some wanted\<rparr>))"

definition to_matrix_spec :: "sweep_config \<Rightarrow> matrix_spec" where
  "to_matrix_spec c =
     \<lparr>ms_topologies = (case sw_topologies c of Some ts \<Rightarrow> ts | None \<Rightarrow> all_topologies),
      ms_models = (case sw_models c of Some ms \<Rightarrow> ms | None \<Rightarrow> all_models),
      ms_rates_rps = (case sw_rates_rps c of Some rs \<Rightarrow> rs | None \<Rightarrow> [1, 2, 4, 8, 16, 32]),
      ms_mixes = (case sw_mixes c of Some ms \<Rightarrow> ms | None \<Rightarrow> all_mixes),
      ms_n_warmup = sw_n_warmup c, ms_n_measure = sw_n_measure c\<rparr>"

text \<open>
  \<open>yaml.safe_load\<close> gives a document of type \<open>'y\<close>; \<open>is_mapping\<close> is the \<open>isinstance\<close> test and
  \<open>decode\<close> pydantic's reading of the fields, \<open>None\<close> for an unknown or ill-typed one.
\<close>

definition load_matrix_config ::
  "('txt \<Rightarrow> 'y) \<Rightarrow> ('y \<Rightarrow> bool) \<Rightarrow> ('y \<Rightarrow> sweep_config option) \<Rightarrow> 'txt \<Rightarrow> sweep_config result" where
  "load_matrix_config safe_load is_mapping decode contents =
     (let raw = safe_load contents in
      if \<not> is_mapping raw then Inl ValueError
      else (case decode raw of None \<Rightarrow> Inl ValueError | Some c \<Rightarrow> MatrixSweepConfig c))"

section \<open>Pending cells\<close>

definition sidecars :: "string list" where
  "sidecars = [''summary.json'', ''preflight.json'']"

text \<open>What one file adds to the set \<open>existing\<close>.\<close>

definition file_ids :: "'t codec \<Rightarrow> string \<times> 't \<Rightarrow> string list" where
  "file_ids C f =
     (if fst f \<in> set sidecars then []
      else (case cd_validate C (snd f) of
              None \<Rightarrow> []
            | Some r \<Rightarrow> if cr_cell_id r \<noteq> stem (fst f) then [] else [cr_cell_id r]))"

definition existing_ids :: "'t codec \<Rightarrow> 't directory \<Rightarrow> string list" where
  "existing_ids C d = concat (map (file_ids C) (json_files d))"

definition pending_cell_specs :: "'t codec \<Rightarrow> 't directory \<Rightarrow> matrix_spec \<Rightarrow> cell_spec list result" where
  "pending_cell_specs C d s =
     rbind (cells s) (\<lambda>cs. Inr (filter (\<lambda>c. cell_id c \<notin> set (existing_ids C d)) cs))"

section \<open>The run\<close>

record progress =
  pg_completed :: int
  pg_failed :: int
  pg_duration_s :: real

fun run_specs ::
  "'g rng \<Rightarrow> 't codec \<Rightarrow> 'w cell_world \<Rightarrow> bool \<Rightarrow> cell_spec list \<Rightarrow> progress \<Rightarrow> 't directory \<times> 'w \<Rightarrow>
   progress \<times> 't directory \<times> 'w" where
  "run_specs R C W stop [] p s = (p, s)"
| "run_specs R C W stop (c # cs) p s =
     (case run_cell R C W c s of
        (Inl e, s1) \<Rightarrow>
          (let p1 = p\<lparr>pg_failed := pg_failed p + 1\<rparr> in
           if stop then (p1, s1) else run_specs R C W stop cs p1 s1)
      | (Inr r, s1) \<Rightarrow>
          (let p1 = p\<lparr>pg_completed := pg_completed p + 1, pg_duration_s := pg_duration_s p + cr_duration_s r\<rparr> in
           if stop \<and> \<not> cr_reconcile_passes r then (p1, s1) else run_specs R C W stop cs p1 s1))"

record bench_matrix =
  bm_cost_per_hour :: real
  bm_pod_id :: string
  bm_matrix_spec :: matrix_spec

definition run_matrix_specs ::
  "'g rng \<Rightarrow> 't codec \<Rightarrow> 'w cell_world \<Rightarrow> bench_matrix \<Rightarrow> bool \<Rightarrow> cell_spec list \<Rightarrow> 't directory \<times> 'w \<Rightarrow>
   campaign_report result \<times> 't directory \<times> 'w" where
  "run_matrix_specs R C W b stop specs s =
     (case s of (d, w) \<Rightarrow>
      case cw_utcnow W w of (started, w1) \<Rightarrow>
      case run_specs R C W stop specs \<lparr>pg_completed = 0, pg_failed = 0, pg_duration_s = 0\<rparr> (d, w1) of (p, d2, w2) \<Rightarrow>
      case cw_utcnow W w2 of (ended, w3) \<Rightarrow>
        (CampaignReport
           \<lparr>cp_n_cells_completed = pg_completed p, cp_n_cells_failed = pg_failed p, cp_total_duration_s = pg_duration_s p,
            cp_cost_usd = (ended - started) / 3600 * bm_cost_per_hour b, cp_pod_id = bm_pod_id b,
            cp_started_at = started, cp_ended_at = ended\<rparr>, d2, w3))"

definition run_all ::
  "'g rng \<Rightarrow> 't codec \<Rightarrow> 'w cell_world \<Rightarrow> bench_matrix \<Rightarrow> bool \<Rightarrow> 't directory \<times> 'w \<Rightarrow> campaign_report result \<times> 't directory \<times> 'w" where
  "run_all R C W b stop s =
     (case cells (bm_matrix_spec b) of
        Inl e \<Rightarrow> (Inl e, s)
      | Inr specs \<Rightarrow> run_matrix_specs R C W b stop specs s)"

definition run_pending ::
  "'g rng \<Rightarrow> 't codec \<Rightarrow> 'w cell_world \<Rightarrow> bench_matrix \<Rightarrow> bool \<Rightarrow> 't directory \<times> 'w \<Rightarrow> campaign_report result \<times> 't directory \<times> 'w" where
  "run_pending R C W b stop s =
     (case pending_cell_specs C (fst s) (bm_matrix_spec b) of
        Inl e \<Rightarrow> (Inl e, s)
      | Inr specs \<Rightarrow> run_matrix_specs R C W b stop specs s)"

section \<open>The enumeration\<close>

definition matrix_ok :: "matrix_spec \<Rightarrow> bool" where
  "matrix_ok s \<longleftrightarrow> (\<forall>r\<in>set (ms_rates_rps s). 1 \<le> r \<and> r \<le> 64) \<and> 0 \<le> ms_n_warmup s \<and> 1 \<le> ms_n_measure s"

lemma rmap_total: "(\<And>x. x \<in> set xs \<Longrightarrow> \<exists>y. f x = Inr y) \<Longrightarrow> \<exists>ys. rmap f xs = Inr ys"
proof (induction xs)
  case Nil
  then show ?case by simp
next
  case (Cons x xs)
  obtain y where "f x = Inr y" using Cons.prems [of x] by auto
  moreover obtain ys where "rmap f xs = Inr ys" using Cons by auto
  ultimately show ?case by simp
qed

lemma rmap_map: "rmap f xs = Inr ys \<Longrightarrow> (\<And>x y. x \<in> set xs \<Longrightarrow> f x = Inr y \<Longrightarrow> g y = h x) \<Longrightarrow> map g ys = map h xs"
proof (induction xs arbitrary: ys)
  case Nil
  then show ?case by simp
next
  case (Cons x xs)
  obtain y ys' where y: "f x = Inr y" "rmap f xs = Inr ys'" "ys = y # ys'"
    using Cons.prems(1) by (auto simp: rbind_eq_Inr)
  then show ?case using Cons.IH [OF y(2)] Cons.prems(2) by simp
qed

lemma matrix_keys_product: "matrix_keys s =
    List.product (ms_topologies s) (List.product (ms_models s) (List.product (ms_rates_rps s) (ms_mixes s)))"
  by (simp add: matrix_keys_def product_concat_map map_concat comp_def)

lemma matrix_keys_length: "length (matrix_keys s) = total_cells s"
  by (simp add: matrix_keys_product total_cells_def)

lemma matrix_keys_set: "set (matrix_keys s) =
    set (ms_topologies s) \<times> set (ms_models s) \<times> set (ms_rates_rps s) \<times> set (ms_mixes s)"
  by (simp add: matrix_keys_product)

lemma matrix_keys_distinct:
  "distinct (ms_topologies s) \<Longrightarrow> distinct (ms_models s) \<Longrightarrow> distinct (ms_rates_rps s) \<Longrightarrow> distinct (ms_mixes s) \<Longrightarrow>
     distinct (matrix_keys s)"
  by (simp add: matrix_keys_product distinct_product)

lemma cells_Inr:
  assumes "cells s = Inr cs"
  shows "map (\<lambda>c. (cs_topology c, cs_model c, cs_rate_rps c, cs_mix c)) cs = matrix_keys s"
    and "length cs = total_cells s"
proof -
  have "map (\<lambda>c. (cs_topology c, cs_model c, cs_rate_rps c, cs_mix c)) cs = map (\<lambda>k. k) (matrix_keys s)"
    by (rule rmap_map [OF assms [unfolded cells_def]]) (auto dest: CellSpec_Inr)
  then show m: "map (\<lambda>c. (cs_topology c, cs_model c, cs_rate_rps c, cs_mix c)) cs = matrix_keys s" by simp
  show "length cs = total_cells s" using arg_cong [OF m, of length] by (simp add: matrix_keys_length)
qed

lemma cells_total: "matrix_ok s \<Longrightarrow> \<exists>cs. cells s = Inr cs"
  unfolding cells_def by (rule rmap_total) (auto simp: matrix_keys_set matrix_ok_def CellSpec_def)

lemma cells_ids:
  assumes "cells s = Inr cs"
  shows "map cell_id cs = map (\<lambda>(t, mdl, r, x). cell_name t mdl r x) (matrix_keys s)"
  using cells_Inr(1) [OF assms] by (metis (mono_tags, lifting) cell_id_def list.map_comp map_cong comp_def split_conv)

lemma cells_ids_distinct:
  assumes "cells s = Inr cs" "distinct (matrix_keys s)"
  shows "distinct (map cell_id cs)"
  unfolding cells_ids [OF assms(1)] using assms(2)
  by (auto simp: distinct_map inj_on_def cell_name_inj)

section \<open>Finished cells\<close>

definition finished :: "'t codec \<Rightarrow> 't directory \<Rightarrow> string \<Rightarrow> bool" where
  "finished C d cid \<longleftrightarrow> (\<exists>r. sink_load C d cid = Inr r \<and> cr_cell_id r = cid)"

text \<open>A directory without a file that is nothing but a suffix: its names and stems correspond.\<close>

definition dir_ok :: "'t directory \<Rightarrow> bool" where
  "dir_ok d \<longleftrightarrow> od_ok d \<and> od_get d ''.json'' = None"

lemma cell_id_name: "cell_id c \<notin> {''summary'', ''preflight'', []}"
  by (cases "cs_topology c") (simp_all add: cell_id_def cell_name_def)

lemma sidecar_iff: "sink_path cid \<in> set sidecars \<longleftrightarrow> cid = ''summary'' \<or> cid = ''preflight''"
  using sink_path_inj [of cid "''summary''"] sink_path_inj [of cid "''preflight''"]
  by (auto simp: sidecars_def sink_path_def)

lemma existing_iff:
  assumes d: "dir_ok d" and cid: "cid \<notin> {''summary'', ''preflight'', []}"
  shows "cid \<in> set (existing_ids C d) \<longleftrightarrow> finished C d cid"
proof
  assume "cid \<in> set (existing_ids C d)"
  then obtain name t where nt: "(name, t) \<in> set (json_files d)" "cid \<in> set (file_ids C (name, t))"
    by (auto simp: existing_ids_def)
  then obtain r where "cd_validate C t = Some r" "cr_cell_id r = stem name" "cid = cr_cell_id r"
    by (cases "cd_validate C t") (simp_all add: file_ids_def split: if_splits)
  with nt(1) have f: "(name, t) \<in> set (json_files d)" "cd_validate C t = Some r" "cr_cell_id r = stem name"
    "cid = cr_cell_id r" by simp_all
  then have "is_json name" "od_get d name = Some t" "name \<noteq> ''.json''" using d by (auto simp: json_files_iff dir_ok_def)
  then have "sink_load C d cid = Inr r" using f by (simp add: sink_load_Inr sink_path_stem)
  then show "finished C d cid" using f by (auto simp: finished_def)
next
  assume "finished C d cid"
  then obtain r t where t: "od_get d (sink_path cid) = Some t" "cd_validate C t = Some r" "cr_cell_id r = cid"
    by (auto simp: finished_def sink_load_Inr)
  then have "(sink_path cid, t) \<in> set (json_files d)" using d by (simp add: json_files_iff dir_ok_def)
  moreover have "sink_path cid \<notin> set sidecars" using cid by (simp add: sidecar_iff)
  moreover have "stem (sink_path cid) = cid" using cid by (simp add: stem_sink_path)
  ultimately have "(sink_path cid, t) \<in> set (json_files d)" "cid \<in> set (file_ids C (sink_path cid, t))"
    using t(2,3) by (simp_all add: file_ids_def)
  then show "cid \<in> set (existing_ids C d)" by (auto simp only: existing_ids_def set_concat set_map)
qed

lemma pending_iff:
  assumes "dir_ok d" "pending_cell_specs C d s = Inr cs"
  obtains all where "cells s = Inr all" "cs = filter (\<lambda>c. \<not> finished C d (cell_id c)) all"
proof -
  obtain all where all: "cells s = Inr all" "cs = filter (\<lambda>c. cell_id c \<notin> set (existing_ids C d)) all"
    using assms(2) by (auto simp: pending_cell_specs_def rbind_eq_Inr)
  moreover have "cell_id c \<notin> set (existing_ids C d) \<longleftrightarrow> \<not> finished C d (cell_id c)" for c
    using existing_iff [OF assms(1) cell_id_name] by blast
  ultimately show thesis using that by simp
qed

lemma dir_ok_sink_write: "dir_ok d \<Longrightarrow> cr_cell_id r \<noteq> [] \<Longrightarrow> dir_ok (sink_write C r d)"
  by (auto simp: dir_ok_def sink_write_def replace_tmp_def write_tmp_def od_ok_set od_ok_del tmp_path_def sink_path_def split: option.splits)

lemma run_cell_dir_ok:
  assumes "run_cell R C W c (d, w) = (res, d', w')" "dir_ok d"
  shows "dir_ok d'"
  using assms(1)
  by (cases rule: run_cell_outcome) (use assms(2) cell_id_name [of c] in \<open>simp_all add: dir_ok_sink_write\<close>)

text \<open>A result that is on disk stays there, unchanged.\<close>

lemma run_cell_keeps:
  assumes "run_cell R C W c (d, w) = (res, d', w')" "sink_load C d cid = Inr q"
  shows "sink_load C d' cid = Inr q"
  using assms(1)
proof (cases rule: run_cell_outcome)
  case (measured r)
  then show ?thesis using assms(2) sink.fetch_other [of cid r C d] by (cases "cid = cell_id c") auto
qed (use assms(2) in simp_all)

lemma run_cell_finishes:
  assumes "codec_ok C" "run_cell R C W c (d, w) = (Inr r, d', w')"
    "\<forall>q. sink_load C d (cell_id c) = Inr q \<longrightarrow> cr_cell_id q = cell_id c"
  shows "finished C d' (cell_id c)"
  using assms(2)
proof (cases rule: run_cell_outcome)
  case (measured q)
  then show ?thesis using sink.fetch_put [of C q d] assms(1) by (auto simp: finished_def)
qed (use assms(3) in \<open>auto simp: finished_def\<close>)

lemma run_cell_named:
  assumes "codec_ok C" "run_cell R C W c (d, w) = (res, d', w')"
    "\<forall>q. sink_load C d cid = Inr q \<longrightarrow> cr_cell_id q = cid"
  shows "\<forall>q. sink_load C d' cid = Inr q \<longrightarrow> cr_cell_id q = cid"
  using assms(2)
proof (cases rule: run_cell_outcome)
  case (measured r)
  then show ?thesis using assms(1,3) sink.fetch_put_cases [of C r d cid] by (auto split: if_splits)
qed (use assms(3) in auto)

text \<open>What a run of a cell returns is on disk afterwards.\<close>

lemma run_cell_on_disk:
  assumes "codec_ok C" "run_cell R C W c (d, w) = (Inr r, d', w')"
  shows "sink_load C d' (cell_id c) = Inr r"
  using assms(2)
proof (cases rule: run_cell_outcome)
  case (measured q)
  then show ?thesis using sink.fetch_put [of C q d] assms(1) by simp
qed auto

text \<open>A readable result whose cell identifier is not the one its file is named after.\<close>

definition misnamed :: "'t codec \<Rightarrow> 't directory \<Rightarrow> cell_spec \<Rightarrow> bool" where
  "misnamed C d c \<longleftrightarrow> (\<exists>r. sink_load C d (cell_id c) = Inr r \<and> cr_cell_id r \<noteq> cell_id c)"

lemma misnamed_unfinished: "misnamed C d c \<Longrightarrow> \<not> finished C d (cell_id c)"
  by (auto simp: misnamed_def finished_def)

section \<open>The run\<close>

lemma run_specs_cases:
  assumes "run_specs R C W stop (c # cs) p s = (p', s')"
  obtains (failed) e s1 where "run_cell R C W c s = (Inl e, s1)"
      "if stop then (p', s') = (p\<lparr>pg_failed := pg_failed p + 1\<rparr>, s1)
       else run_specs R C W stop cs (p\<lparr>pg_failed := pg_failed p + 1\<rparr>) s1 = (p', s')"
    | (completed) r s1 where "run_cell R C W c s = (Inr r, s1)"
      "if stop \<and> \<not> cr_reconcile_passes r
       then (p', s') = (p\<lparr>pg_completed := pg_completed p + 1, pg_duration_s := pg_duration_s p + cr_duration_s r\<rparr>, s1)
       else run_specs R C W stop cs
         (p\<lparr>pg_completed := pg_completed p + 1, pg_duration_s := pg_duration_s p + cr_duration_s r\<rparr>) s1 = (p', s')"
  using assms by (cases "run_cell R C W c s"; cases "fst (run_cell R C W c s)") (auto simp: Let_def split: if_splits)

lemma run_specs_counts:
  "run_specs R C W False cs p s = (p', s') \<Longrightarrow>
     pg_completed p' + pg_failed p' = pg_completed p + pg_failed p + int (length cs) \<and>
     pg_completed p \<le> pg_completed p' \<and> pg_failed p \<le> pg_failed p'"
proof (induction cs arbitrary: p s)
  case Nil
  then show ?case by simp
next
  case (Cons c cs)
  from Cons.prems show ?case
  proof (cases rule: run_specs_cases)
    case (failed e s1)
    then show ?thesis using Cons.IH [of "p\<lparr>pg_failed := pg_failed p + 1\<rparr>" s1] by simp
  next
    case (completed r s1)
    then show ?thesis
      using Cons.IH [of "p\<lparr>pg_completed := pg_completed p + 1, pg_duration_s := pg_duration_s p + cr_duration_s r\<rparr>" s1]
      by simp
  qed
qed

lemma run_specs_keeps:
  "run_specs R C W stop cs p (d, w) = (p', d', w') \<Longrightarrow> sink_load C d cid = Inr q \<Longrightarrow> sink_load C d' cid = Inr q"
proof (induction cs arbitrary: p d w)
  case Nil
  then show ?case by simp
next
  case (Cons c cs)
  from Cons.prems(1) show ?case
  proof (cases rule: run_specs_cases)
    case (failed e s1)
    obtain d1 w1 where s1: "s1 = (d1, w1)" by force
    have "sink_load C d1 cid = Inr q" by (rule run_cell_keeps [OF failed(1) [unfolded s1] Cons.prems(2)])
    then show ?thesis using failed(2) Cons.IH s1 by (auto split: if_splits)
  next
    case (completed r s1)
    obtain d1 w1 where s1: "s1 = (d1, w1)" by force
    have "sink_load C d1 cid = Inr q" by (rule run_cell_keeps [OF completed(1) [unfolded s1] Cons.prems(2)])
    then show ?thesis using completed(2) Cons.IH s1 by (auto split: if_splits)
  qed
qed

lemma run_specs_dir_ok: "run_specs R C W stop cs p (d, w) = (p', d', w') \<Longrightarrow> dir_ok d \<Longrightarrow> dir_ok d'"
proof (induction cs arbitrary: p d w)
  case Nil
  then show ?case by simp
next
  case (Cons c cs)
  from Cons.prems(1) show ?case
  proof (cases rule: run_specs_cases)
    case (failed e s1)
    obtain d1 w1 where s1: "s1 = (d1, w1)" by force
    have "dir_ok d1" by (rule run_cell_dir_ok [OF failed(1) [unfolded s1] Cons.prems(2)])
    then show ?thesis using failed(2) Cons.IH s1 by (auto split: if_splits)
  next
    case (completed r s1)
    obtain d1 w1 where s1: "s1 = (d1, w1)" by force
    have "dir_ok d1" by (rule run_cell_dir_ok [OF completed(1) [unfolded s1] Cons.prems(2)])
    then show ?thesis using completed(2) Cons.IH s1 by (auto split: if_splits)
  qed
qed

text \<open>Without failures, every cell of the run that was not misnamed is finished afterwards.\<close>

lemma run_specs_finishes:
  assumes "codec_ok C"
  shows "run_specs R C W False cs p (d, w) = (p', d', w') \<Longrightarrow> pg_failed p' = pg_failed p \<Longrightarrow>
    \<not> misnamed C d c \<Longrightarrow> c \<in> set cs \<Longrightarrow> finished C d' (cell_id c)"
proof (induction cs arbitrary: p d w)
  case Nil
  then show ?case by simp
next
  case (Cons b cs)
  from Cons.prems(1) show ?case
  proof (cases rule: run_specs_cases)
    case (failed e s1)
    then show ?thesis using run_specs_counts [of R C W cs "p\<lparr>pg_failed := pg_failed p + 1\<rparr>" s1 p'] Cons.prems(2) by simp
  next
    case (completed r s1)
    obtain d1 w1 where s1: "s1 = (d1, w1)" by force
    have run: "run_cell R C W b (d, w) = (Inr r, d1, w1)" using completed(1) s1 by simp
    let ?p = "p\<lparr>pg_completed := pg_completed p + 1, pg_duration_s := pg_duration_s p + cr_duration_s r\<rparr>"
    have rest: "run_specs R C W False cs ?p (d1, w1) = (p', d', w')" using completed(2) s1 by simp
    have named: "\<forall>q. sink_load C d (cell_id c) = Inr q \<longrightarrow> cr_cell_id q = cell_id c"
      using Cons.prems(3) by (auto simp: misnamed_def)
    then have named1: "\<not> misnamed C d1 c" using run_cell_named [OF assms run named] by (auto simp: misnamed_def)
    show ?thesis
    proof (cases "c \<in> set cs")
      case True
      show ?thesis using Cons.IH [OF rest _ named1 True] Cons.prems(2) by simp
    next
      case False
      then have "c = b" using Cons.prems(4) by simp
      then have "finished C d1 (cell_id c)" using run_cell_finishes [OF assms run] named by blast
      then obtain q where q: "sink_load C d1 (cell_id c) = Inr q" "cr_cell_id q = cell_id c"
        unfolding finished_def by blast
      have "sink_load C d' (cell_id c) = Inr q" by (rule run_specs_keeps [OF rest q(1)])
      then show ?thesis unfolding finished_def using q(2) by blast
    qed
  qed
qed

text \<open>
  With \<open>stop_on_unreconciled\<close> the run is the plain run of a prefix of the cells; only the last cell
  of a proper prefix failed or did not reconcile.
\<close>

definition bad_outcome :: "cell_result result \<Rightarrow> bool" where
  "bad_outcome res = (case res of Inl e \<Rightarrow> True | Inr r \<Rightarrow> \<not> cr_reconcile_passes r)"

fun run_results ::
  "'g rng \<Rightarrow> 't codec \<Rightarrow> 'w cell_world \<Rightarrow> cell_spec list \<Rightarrow> 't directory \<times> 'w \<Rightarrow> cell_result result list" where
  "run_results R C W [] s = []"
| "run_results R C W (c # cs) s = (case run_cell R C W c s of (res, s1) \<Rightarrow> res # run_results R C W cs s1)"

lemma run_specs_stop:
  "\<exists>n\<le>length cs. run_specs R C W True cs p s = run_specs R C W False (take n cs) p s \<and>
     (n < length cs \<longrightarrow> n \<noteq> 0 \<and> bad_outcome (last (run_results R C W (take n cs) s))) \<and>
     (\<forall>res\<in>set (butlast (run_results R C W (take n cs) s)). \<not> bad_outcome res)"
proof (induction cs arbitrary: p s)
  case Nil
  then show ?case by simp
next
  case (Cons c cs)
  obtain res s1 where step: "run_cell R C W c s = (res, s1)" by (metis surj_pair)
  show ?case
  proof (cases "bad_outcome res")
    case True
    then show ?thesis
      by (intro exI [of _ 1]) (cases res; simp add: step bad_outcome_def Let_def)
  next
    case False
    then obtain r where r: "res = Inr r" "cr_reconcile_passes r" by (cases res) (auto simp: bad_outcome_def)
    let ?p = "p\<lparr>pg_completed := pg_completed p + 1, pg_duration_s := pg_duration_s p + cr_duration_s r\<rparr>"
    obtain n where n: "n \<le> length cs" "run_specs R C W True cs ?p s1 = run_specs R C W False (take n cs) ?p s1"
      "n < length cs \<longrightarrow> n \<noteq> 0 \<and> bad_outcome (last (run_results R C W (take n cs) s1))"
      "\<forall>res\<in>set (butlast (run_results R C W (take n cs) s1)). \<not> bad_outcome res"
      using Cons.IH [of ?p s1] by blast
    have ne: "run_results R C W (take n cs) s1 \<noteq> []" if "n < length cs" "n \<noteq> 0"
      using that by (cases n; cases cs) (auto split: prod.splits)
    show ?thesis
      using n(1,2,4) ne n(3) False
      by (intro exI [of _ "Suc n"]) (auto simp: step r Let_def)
  qed
qed

text \<open>A plain run without failures has only results to show, and they are on disk.\<close>

lemma run_results_stored:
  assumes "codec_ok C"
  shows "run_specs R C W False cs p (d, w) = (p', d', w') \<Longrightarrow> pg_failed p' = pg_failed p \<Longrightarrow>
    res \<in> set (run_results R C W cs (d, w)) \<Longrightarrow> \<exists>c\<in>set cs. \<exists>r. res = Inr r \<and> sink_load C d' (cell_id c) = Inr r"
proof (induction cs arbitrary: p d w)
  case Nil
  then show ?case by simp
next
  case (Cons b cs)
  from Cons.prems(1) show ?case
  proof (cases rule: run_specs_cases)
    case (failed e s1)
    then show ?thesis using run_specs_counts [of R C W cs "p\<lparr>pg_failed := pg_failed p + 1\<rparr>" s1 p'] Cons.prems(2) by simp
  next
    case (completed r s1)
    obtain d1 w1 where s1: "s1 = (d1, w1)" by force
    have run: "run_cell R C W b (d, w) = (Inr r, d1, w1)" using completed(1) s1 by simp
    let ?p = "p\<lparr>pg_completed := pg_completed p + 1, pg_duration_s := pg_duration_s p + cr_duration_s r\<rparr>"
    have rest: "run_specs R C W False cs ?p (d1, w1) = (p', d', w')" using completed(2) s1 by simp
    have "sink_load C d' (cell_id b) = Inr r" by (rule run_specs_keeps [OF rest run_cell_on_disk [OF assms run]])
    then show ?thesis using Cons.IH [OF rest] Cons.prems(2,3) run by auto
  qed
qed

text \<open>
  A run of \<open>cs\<close>, stopping or not: it is cut after \<open>n\<close> cells only when told to stop, and without a failure only
  with an unreconciled result on disk; what it ran without a failure is finished unless it was misnamed.
\<close>

lemma run_specs_progress:
  assumes "codec_ok C" "run_specs R C W stop cs p (d, w) = (p', d', w')"
  obtains n where "n \<le> length cs" "pg_completed p' + pg_failed p' = pg_completed p + pg_failed p + int n"
    "n < length cs \<longrightarrow> stop" "pg_failed p \<le> pg_failed p'"
    "pg_failed p' = pg_failed p \<and> n < length cs \<longrightarrow>
       (\<exists>c\<in>set cs. \<exists>r. sink_load C d' (cell_id c) = Inr r \<and> \<not> cr_reconcile_passes r)"
    "\<forall>c\<in>set (take n cs). pg_failed p' = pg_failed p \<and> \<not> misnamed C d c \<longrightarrow> finished C d' (cell_id c)"
proof (cases stop)
  case False
  then have run: "run_specs R C W False cs p (d, w) = (p', d', w')" using assms(2) by simp
  show thesis
    by (rule that [of "length cs"]) (use run_specs_counts [OF run] run_specs_finishes [OF assms(1) run] in auto)
next
  case True
  obtain n where n: "n \<le> length cs" "run_specs R C W True cs p (d, w) = run_specs R C W False (take n cs) p (d, w)"
    "n < length cs \<longrightarrow> n \<noteq> 0 \<and> bad_outcome (last (run_results R C W (take n cs) (d, w)))"
    using run_specs_stop [of cs R C W p "(d, w)"] by blast
  then have run: "run_specs R C W False (take n cs) p (d, w) = (p', d', w')" using assms(2) True by simp
  have "\<exists>c\<in>set cs. \<exists>r. sink_load C d' (cell_id c) = Inr r \<and> \<not> cr_reconcile_passes r"
    if none: "pg_failed p' = pg_failed p" "n < length cs"
  proof -
    let ?res = "run_results R C W (take n cs) (d, w)"
    have "?res \<noteq> []" using n(3) none(2) by (cases cs; cases n) (auto split: prod.splits)
    then obtain c r where "c \<in> set (take n cs)" "last ?res = Inr r" "sink_load C d' (cell_id c) = Inr r"
      using run_results_stored [OF assms(1) run none(1), of "last ?res"] by auto
    then show ?thesis using n(3) none(2) by (auto simp: bad_outcome_def dest: in_set_takeD)
  qed
  then show thesis
    by (intro that [of n]) (use n(1) True run_specs_counts [OF run] run_specs_finishes [OF assms(1) run] in auto)
qed

text \<open>The same of a resumed sweep, with what is pending after it.\<close>

lemma run_pending_progress:
  assumes "codec_ok C" "dir_ok d" "pending_cell_specs C d (bm_matrix_spec b) = Inr cs"
    and "run_pending R C W b stop (d, w) = (Inr rep, d', w')"
  obtains n left where "n \<le> length cs" "cp_n_cells_completed rep + cp_n_cells_failed rep = int n"
    "n < length cs \<longrightarrow> stop" "dir_ok d'" "\<forall>cid r. sink_load C d cid = Inr r \<longrightarrow> sink_load C d' cid = Inr r"
    "cp_n_cells_failed rep = 0 \<and> n < length cs \<longrightarrow>
       (\<exists>c\<in>set cs. \<exists>r. sink_load C d' (cell_id c) = Inr r \<and> \<not> cr_reconcile_passes r)"
    "pending_cell_specs C d' (bm_matrix_spec b) = Inr left" "set left \<subseteq> set cs"
    "\<forall>c\<in>set cs. misnamed C d c \<longrightarrow> c \<in> set left"
    "cp_n_cells_failed rep = 0 \<longrightarrow> (\<forall>c\<in>set left. c \<in> set (drop n cs) \<or> misnamed C d c)"
proof -
  let ?p0 = "\<lparr>pg_completed = 0, pg_failed = 0, pg_duration_s = 0\<rparr>"
  obtain st w1 where st: "cw_utcnow W w = (st, w1)" by force
  obtain p d2 w2 where run: "run_specs R C W stop cs ?p0 (d, w1) = (p, d2, w2)" by (metis surj_pair)
  have rep: "cp_n_cells_completed rep = pg_completed p" "cp_n_cells_failed rep = pg_failed p" "d' = d2"
    using assms(3,4) st run
    by (auto simp: run_pending_def run_matrix_specs_def CampaignReport_def split: prod.splits if_splits)
  obtain all where all: "cells (bm_matrix_spec b) = Inr all" "cs = filter (\<lambda>c. \<not> finished C d (cell_id c)) all"
    by (rule pending_iff [OF assms(2,3)])
  have ok: "dir_ok d2" by (rule run_specs_dir_ok [OF run assms(2)])
  have keeps: "\<forall>cid r. sink_load C d cid = Inr r \<longrightarrow> sink_load C d2 cid = Inr r" using run_specs_keeps [OF run] by blast
  obtain n where n: "n \<le> length cs" "pg_completed p + pg_failed p = int n" "n < length cs \<longrightarrow> stop"
    "pg_failed p = 0 \<and> n < length cs \<longrightarrow> (\<exists>c\<in>set cs. \<exists>r. sink_load C d2 (cell_id c) = Inr r \<and> \<not> cr_reconcile_passes r)"
    "\<forall>c\<in>set (take n cs). pg_failed p = 0 \<and> \<not> misnamed C d c \<longrightarrow> finished C d2 (cell_id c)"
    by (rule run_specs_progress [OF assms(1) run]) simp
  define left where "left = filter (\<lambda>c. \<not> finished C d2 (cell_id c)) all"
  have "cell_id c \<notin> set (existing_ids C d2) \<longleftrightarrow> \<not> finished C d2 (cell_id c)" for c
    using existing_iff [OF ok cell_id_name] by blast
  then have left: "pending_cell_specs C d2 (bm_matrix_spec b) = Inr left"
    using all(1) by (simp add: pending_cell_specs_def left_def)
  have sub: "set left \<subseteq> set cs" using keeps by (auto simp: left_def all(2) finished_def)
  have "misnamed C d2 c" if "misnamed C d c" for c using that keeps by (auto simp: misnamed_def)
  then have mis: "\<forall>c\<in>set cs. misnamed C d c \<longrightarrow> c \<in> set left"
    using misnamed_unfinished by (auto simp: left_def all(2))
  have "\<forall>c\<in>set left. c \<in> set (drop n cs) \<or> misnamed C d c" if "pg_failed p = 0"
  proof
    fix c
    assume c: "c \<in> set left"
    then have "c \<in> set (take n cs) \<or> c \<in> set (drop n cs)" using sub by (metis Un_iff append_take_drop_id set_append subsetD)
    moreover have "\<not> finished C d2 (cell_id c)" using c by (simp add: left_def)
    ultimately show "c \<in> set (drop n cs) \<or> misnamed C d c" using n(5) that by auto
  qed
  then show thesis using that [of n left] n rep ok keeps left sub mis by simp
qed

lemma misnamed_stays_pending:
  assumes "sink_load C d (cell_id c) = Inr r" "cr_cell_id r \<noteq> cell_id c"
  shows "run_cell R C W c (d, w) = (Inr r, d, w) \<and> \<not> finished C d (cell_id c)"
  using assms sink.fetch_stored [OF assms(1)] by (auto simp: run_cell_def finished_def)

section \<open>Properties\<close>

text \<open>
  The matrix enumerates exactly the product of its four axes: as many cells as \<open>total_cells\<close> says, in
  nested-loop order, each identified by its own coordinates; with axes free of repetitions no two
  cells share an identifier. It fails only for a rate outside 1 to 64 or an invalid request count.
\<close>

theorem matrix_cells_exact:
  assumes "matrix_ok s" and "distinct (ms_topologies s)" "distinct (ms_models s)" "distinct (ms_rates_rps s)" "distinct (ms_mixes s)"
  shows "\<exists>cs. cells s = Inr cs \<and> length cs = total_cells s \<and>
    map cell_id cs = [cell_name t mdl r x. t \<leftarrow> ms_topologies s, mdl \<leftarrow> ms_models s, r \<leftarrow> ms_rates_rps s, x \<leftarrow> ms_mixes s] \<and>
    distinct (map cell_id cs)"
proof -
  obtain cs where cs: "cells s = Inr cs" using cells_total [OF assms(1)] by blast
  have "map cell_id cs = [cell_name t mdl r x. t \<leftarrow> ms_topologies s, mdl \<leftarrow> ms_models s, r \<leftarrow> ms_rates_rps s, x \<leftarrow> ms_mixes s]"
    unfolding cells_ids [OF cs] by (simp add: matrix_keys_def map_concat comp_def)
  then show ?thesis using cs cells_Inr(2) [OF cs] cells_ids_distinct [OF cs matrix_keys_distinct [OF assms(2-)]] by blast
qed

lemma matrix_cells_exact_witness: "\<exists>cs. cells default_matrix = Inr cs \<and> length cs = 216 \<and> distinct (map cell_id cs)"
proof -
  have "matrix_ok default_matrix" "distinct (ms_topologies default_matrix)" "distinct (ms_models default_matrix)"
    "distinct (ms_rates_rps default_matrix)" "distinct (ms_mixes default_matrix)" and total: "total_cells default_matrix = 216"
    by (simp_all add: matrix_ok_def total_cells_def default_matrix_def all_topologies_def all_models_def all_mixes_def)
  from matrix_cells_exact [OF this(1-5)] show ?thesis unfolding total by blast
qed

text \<open>
  C7: A resumed sweep does what is pending and nothing else, with and without \<open>stop_on_unreconciled\<close>. It runs the
  first \<open>n\<close> pending cells, counts each of them once as completed or failed, and leaves every result already
  on disk as it is. It runs all of them unless it was told to stop, and when it was cut short without a
  failure, some pending cell has an unreconciled result on disk. What is pending afterwards was pending before; cells
  whose file carries another identifier stay pending; and when no cell failed, only such cells and the ones
  not run are left. So a sweep that is not told to stop, in which nothing fails and no file is
  misnamed, leaves nothing pending. The only demands are that a result written is read back and that no file
  is called just \<open>.json\<close>.
\<close>

theorem resume_completes:
  assumes "codec_ok C" and "dir_ok d" and "pending_cell_specs C d (bm_matrix_spec b) = Inr cs"
    and "run_pending R C W b stop (d, w) = (Inr rep, d', w')"
  shows "\<exists>n left. n \<le> length cs \<and> cp_n_cells_completed rep + cp_n_cells_failed rep = int n \<and>
    (\<forall>cid r. sink_load C d cid = Inr r \<longrightarrow> sink_load C d' cid = Inr r) \<and>
    (n < length cs \<longrightarrow> stop) \<and>
    (cp_n_cells_failed rep = 0 \<and> n < length cs \<longrightarrow>
       (\<exists>c\<in>set cs. \<exists>r. sink_load C d' (cell_id c) = Inr r \<and> \<not> cr_reconcile_passes r)) \<and>
    pending_cell_specs C d' (bm_matrix_spec b) = Inr left \<and> set left \<subseteq> set cs \<and>
    (\<forall>c\<in>set cs. misnamed C d c \<longrightarrow> c \<in> set left) \<and>
    (cp_n_cells_failed rep = 0 \<longrightarrow> (\<forall>c\<in>set left. c \<in> set (drop n cs) \<or> misnamed C d c))"
  by (rule run_pending_progress [OF assms]) blast

definition ex_matrix :: matrix_spec where
  "ex_matrix = \<lparr>ms_topologies = [TOPO_DISAGG], ms_models = [QWEN3_1_7B], ms_rates_rps = [4], ms_mixes = [MIX_CHAT],
     ms_n_warmup = 1, ms_n_measure = 2\<rparr>"

definition ex_bench :: bench_matrix where
  "ex_bench = \<lparr>bm_cost_per_hour = 2, bm_pod_id = ''pod'', bm_matrix_spec = ex_matrix\<rparr>"

lemma ex_matrix_pending: "pending_cell_specs plain_codec ([] :: cell_result option directory) ex_matrix = Inr [ex_cell TOPO_DISAGG]"
  by (simp add: pending_cell_specs_def cells_def matrix_keys_def ex_matrix_def ex_cell_spec existing_ids_def json_files_def)

lemma ex_run_from:
  "\<exists>r. run_cell counting_rng plain_codec (ex_world [ex_bench_telemetry 200 [0, 5]]) (ex_cell t) ([], 1) =
     (Inr r, sink_write plain_codec r [], 4) \<and> cr_cell_id r = cell_id (ex_cell t) \<and> cr_duration_s r = 1"
proof -
  obtain tr where tr: "build_trace counting_rng (ex_cell t) = Inr tr" using ex_cell_trace by blast
  have "success_share [ex_bench_telemetry 200 [0, 5]] = 1"
    by (simp add: success_share_def successes_def ex_bench_telemetry_def)
  then obtain r where r: "measured_result (ex_cell t) [ex_bench_telemetry 200 [0, 5]]
      \<lparr>th_gpu_temp_c = 60, th_gpu_util_pct = 90, th_gpu_mem_used_mb = 20000, th_warn_c = 80\<rparr> 1 1 = Inr r"
    using tier_hit_rate_range [of "ex_cell t" "[ex_bench_telemetry 200 [0, 5]]"]
    by (simp add: measured_result_def Let_def CellResult_def aggregate_metrics_def)
  show ?thesis
    using tr measured_result_Inr [OF r] r by (simp add: run_cell_def sink_exists_def execute_cell_def ex_world_def ThermalReading_def)
qed

lemma resume_completes_witness:
  "\<exists>d'. pending_cell_specs plain_codec d' ex_matrix = Inr [] \<and> d' \<noteq> []"
proof -
  let ?W = "ex_world [ex_bench_telemetry 200 [0, 5]]"
  obtain r where r: "run_cell counting_rng plain_codec ?W (ex_cell TOPO_DISAGG) ([], 1) = (Inr r, sink_write plain_codec r [], 4)"
    "cr_cell_id r = cell_id (ex_cell TOPO_DISAGG)" "cr_duration_s r = 1" using ex_run_from by blast
  have now: "cw_utcnow ?W w = (w, w + 1)" for w by (simp add: ex_world_def)
  obtain rep where run: "run_pending counting_rng plain_codec ?W ex_bench False ([], 0) = (Inr rep, sink_write plain_codec r [], 5)"
    "cp_n_cells_failed rep = 0"
    using r ex_matrix_pending by (simp add: run_pending_def run_matrix_specs_def ex_bench_def now CampaignReport_def)
  have pend: "pending_cell_specs plain_codec [] (bm_matrix_spec ex_bench) = Inr [ex_cell TOPO_DISAGG]"
    using ex_matrix_pending by (simp add: ex_bench_def)
  have d: "dir_ok ([] :: cell_result option directory)" by (simp add: dir_ok_def od_ok_def)
  have "pending_cell_specs plain_codec (sink_write plain_codec r []) ex_matrix = Inr []"
    using resume_completes [OF plain_codec_ok d pend run(1)] run(2)
    by (auto simp: sink_load_def misnamed_def ex_bench_def)
  moreover have "sink_write plain_codec r [] \<noteq> []" by (simp add: sink_write_def replace_tmp_def write_tmp_def od_del_def)
  ultimately show ?thesis by blast
qed

text \<open>
  Stopping on an unreconciled cell spends nothing more: the run equals the plain run of a prefix of
  the cells, in which every cell before the last succeeded and reconciled, and when cells are left
  over the last one run failed or did not reconcile.
\<close>

theorem stop_runs_prefix:
  "\<exists>n\<le>length cs. run_specs R C W True cs p s = run_specs R C W False (take n cs) p s \<and>
     (n < length cs \<longrightarrow> n \<noteq> 0 \<and> bad_outcome (last (run_results R C W (take n cs) s))) \<and>
     (\<forall>res\<in>set (butlast (run_results R C W (take n cs) s)). \<not> bad_outcome res)"
  by (rule run_specs_stop)

lemma stop_runs_prefix_witness:
  "\<exists>n\<le>1. run_specs counting_rng plain_codec (ex_world []) True [ex_cell TOPO_DISAGG] \<lparr>pg_completed = 0, pg_failed = 0, pg_duration_s = 0\<rparr> ([], 0) =
     run_specs counting_rng plain_codec (ex_world []) False (take n [ex_cell TOPO_DISAGG]) \<lparr>pg_completed = 0, pg_failed = 0, pg_duration_s = 0\<rparr> ([], 0)"
  using stop_runs_prefix [of "[ex_cell TOPO_DISAGG]" counting_rng plain_codec "ex_world []"] by fastforce

end
