(* ===== verification/MatrixReport.thy ===== *)
theory MatrixReport
  imports RunpodMatrix
begin

text \<open>
  \<open>bench/matrix_report.py\<close>: the read-only completion report of a sweep. The lemmas show that the report
  accounts for every expected cell once and that it agrees with the runner on what is still to be run.
\<close>

record sweep_report =
  sr_expected_total :: nat
  sr_on_disk :: nat
  sr_missing_count :: nat
  sr_missing_by_topology :: "(topology, nat) odict"
  sr_missing_cell_ids :: "string list"
  sr_corrupt_or_mismatched :: "string list"
  sr_completion_pct :: real

text \<open>
  The walk over the files in name order; a set is the list of its members without repetition, in the
  order in which they were added.
\<close>

fun scan_files :: "'t codec \<Rightarrow> (string \<times> 't) list \<Rightarrow> string list \<times> string list" where
  "scan_files C [] = ([], [])"
| "scan_files C ((name, t) # fs) =
     (case scan_files C fs of (valid, corrupt) \<Rightarrow>
        if \<not> py_contains ''__rate-'' name then (valid, corrupt)
        else (case cd_validate C t of
                None \<Rightarrow> (valid, name # corrupt)
              | Some r \<Rightarrow>
                  if cr_cell_id r \<noteq> stem name then (valid, name # corrupt)
                  else (List.insert (cr_cell_id r) valid, corrupt)))"

definition scan_raw :: "'t codec \<Rightarrow> 't directory \<Rightarrow> string list \<times> string list" where
  "scan_raw C d = scan_files C (sort_key fst (json_files d))"

definition topo_for_id :: "cell_spec list \<Rightarrow> (string, topology) odict" where
  "topo_for_id cs = foldl (\<lambda>m c. od_set (cell_id c) (cs_topology c) m) [] cs"

definition count_topology :: "(topology, nat) odict \<Rightarrow> topology \<Rightarrow> (topology, nat) odict" where
  "count_topology m t = od_set t ((case od_get m t of None \<Rightarrow> 0 | Some n \<Rightarrow> n) + 1) m"

definition default_topology :: "(topology, nat) odict \<Rightarrow> topology \<Rightarrow> (topology, nat) odict" where
  "default_topology m t = (case od_get m t of None \<Rightarrow> od_set t 0 m | Some n \<Rightarrow> m)"

definition count_missing :: "(string, topology) odict \<Rightarrow> string list \<Rightarrow> (topology, nat) odict" where
  "count_missing topo missing_ids =
     foldl default_topology (foldl (\<lambda>m cid. count_topology m (the (od_get topo cid))) [] missing_ids) all_topologies"

definition sweep_completion_report :: "'t codec \<Rightarrow> 't directory \<Rightarrow> matrix_spec \<Rightarrow> sweep_report result" where
  "sweep_completion_report C d s =
     rbind (cells s) (\<lambda>cs.
       let expected_ids = remdups (map cell_id cs);
           (valid_ids, corrupt) = scan_raw C d;
           missing_ids = sort (filter (\<lambda>i. i \<notin> set valid_ids) expected_ids);
           pct = (if expected_ids \<noteq> []
                  then 100 * real (length (filter (\<lambda>i. i \<in> set valid_ids) expected_ids)) / real (length expected_ids)
                  else 100)
       in Inr \<lparr>sr_expected_total = length expected_ids, sr_on_disk = length valid_ids,
               sr_missing_count = length missing_ids,
               sr_missing_by_topology = count_missing (topo_for_id cs) missing_ids,
               sr_missing_cell_ids = missing_ids, sr_corrupt_or_mismatched = sort corrupt, sr_completion_pct = pct\<rparr>)"

definition topology_line :: "sweep_report \<Rightarrow> topology \<Rightarrow> string" where
  "topology_line r t =
     ''    '' @ ljust 12 (topology_value t) @ ''  missing='' @
     nat_str (case od_get (sr_missing_by_topology r) t of None \<Rightarrow> 0 | Some n \<Rightarrow> n)"

definition render_report :: "sweep_report \<Rightarrow> string" where
  "render_report r =
     joined [newline]
       ([''Sweep completion report'',
         ''  expected:    '' @ nat_str (sr_expected_total r),
         ''  on disk:     '' @ nat_str (sr_on_disk r),
         ''  missing:     '' @ nat_str (sr_missing_count r),
         ''  corrupt:     '' @ nat_str (length (sr_corrupt_or_mismatched r)),
         ''  complete:    '' @ fixed_str 1 (sr_completion_pct r) @ ''%'',
         ''  by topology:''] @
        map (topology_line r) all_topologies @
        (if sr_corrupt_or_mismatched r \<noteq> []
         then ''  corrupt files:'' # map (\<lambda>name. ''    '' @ name) (sr_corrupt_or_mismatched r) else []))"

section \<open>Scanning\<close>

lemma cell_name_rate: "py_contains ''__rate-'' (sink_path (cell_name t mdl r x))"
proof -
  have "sink_path (cell_name t mdl r x) = (topology_value t @ ''__'' @ model_value mdl) @
      (''__rate-'' @ (int_str r @ ''__'' @ mix_value x @ ''.json''))"
    by (simp add: sink_path_def cell_name_def)
  then show ?thesis using py_contains_append [OF py_contains_prefix] by metis
qed

text \<open>A file counts when it is named like a cell, readable, and named after the result it holds.\<close>

definition counts :: "'t codec \<Rightarrow> string \<times> 't \<Rightarrow> cell_result \<Rightarrow> bool" where
  "counts C f r \<longleftrightarrow> py_contains ''__rate-'' (fst f) \<and> cd_validate C (snd f) = Some r \<and> cr_cell_id r = stem (fst f)"

lemma scan_files_Cons:
  "fst (scan_files C (f # fs)) =
     (case cd_validate C (snd f) of
        Some r \<Rightarrow> if counts C f r then List.insert (cr_cell_id r) (fst (scan_files C fs)) else fst (scan_files C fs)
      | None \<Rightarrow> fst (scan_files C fs))"
  by (cases f; cases "cd_validate C (snd f)"; cases "scan_files C fs") (simp_all add: counts_def)

lemma scan_files_valid: "cid \<in> set (fst (scan_files C fs)) \<longleftrightarrow> (\<exists>f\<in>set fs. \<exists>r. counts C f r \<and> cr_cell_id r = cid)"
proof (induction fs)
  case Nil
  then show ?case by simp
next
  case (Cons f fs)
  have only: "counts C f r \<Longrightarrow> cd_validate C (snd f) = Some r" for r by (simp add: counts_def)
  show ?case
  proof (cases "\<exists>r. counts C f r")
    case True
    then obtain r where r: "counts C f r" by blast
    have "counts C f q \<longleftrightarrow> q = r" for q using only [OF r] only [of q] r by auto
    then show ?thesis using Cons only [OF r] r by (simp add: scan_files_Cons) blast
  next
    case False
    then show ?thesis using Cons by (simp add: scan_files_Cons split: option.splits)
  qed
qed

lemma scan_files_distinct: "distinct (fst (scan_files C fs))"
  by (induction fs) (simp_all add: scan_files_Cons split: option.splits)

lemma scan_raw_iff:
  assumes "dir_ok d"
  shows "cell_id c \<in> set (fst (scan_raw C d)) \<longleftrightarrow> finished C d (cell_id c)"
proof
  assume "cell_id c \<in> set (fst (scan_raw C d))"
  then obtain u r where u: "u \<in> set (sort_key fst (json_files d))" "counts C u r" "cr_cell_id r = cell_id c"
    unfolding scan_raw_def scan_files_valid by blast
  obtain name t where "u = (name, t)" by force
  with u have f: "(name, t) \<in> set (json_files d)" "cd_validate C t = Some r" "cr_cell_id r = stem name"
    "cr_cell_id r = cell_id c" by (simp_all add: counts_def)
  then have "is_json name" "od_get d name = Some t" "name \<noteq> ''.json''" using assms by (auto simp: json_files_iff dir_ok_def)
  then have "od_get d (sink_path (cell_id c)) = Some t" using f(3,4) sink_path_stem [of name] by metis
  then have "sink_load C d (cell_id c) = Inr r" using f(2) by (simp add: sink_load_Inr)
  then show "finished C d (cell_id c)" using f by (auto simp: finished_def)
next
  assume "finished C d (cell_id c)"
  then obtain r t where t: "od_get d (sink_path (cell_id c)) = Some t" "cd_validate C t = Some r" "cr_cell_id r = cell_id c"
    by (auto simp: finished_def sink_load_Inr)
  then have "(sink_path (cell_id c), t) \<in> set (json_files d)" using assms by (simp add: json_files_iff dir_ok_def)
  moreover have "stem (sink_path (cell_id c)) = cell_id c" using cell_id_name [of c] by (simp add: stem_sink_path)
  moreover have "py_contains ''__rate-'' (sink_path (cell_id c))" by (simp add: cell_id_def cell_name_rate)
  ultimately have "(sink_path (cell_id c), t) \<in> set (sort_key fst (json_files d))" "counts C (sink_path (cell_id c), t) r"
    using t(2,3) by (simp_all add: counts_def)
  then show "cell_id c \<in> set (fst (scan_raw C d))"
    using t(3) unfolding scan_raw_def scan_files_valid by blast
qed

section \<open>Counting\<close>

lemma sum_count_topology: "od_ok m \<Longrightarrow> sum_list (map snd (count_topology m t)) = sum_list (map snd m) + 1"
proof -
  have "sum_list (map snd (od_set t (n + 1) m)) = sum_list (map snd m) + 1" if "od_ok m" "od_get m t = Some n" for n :: nat
    using that by (induction m) (auto simp: od_ok_Cons)
  moreover have "sum_list (map snd (od_set t 1 m)) = sum_list (map snd m) + 1" if "od_get m t = None" for m :: "(topology, nat) odict"
    using that by (induction m) (auto split: if_splits)
  ultimately show "od_ok m \<Longrightarrow> sum_list (map snd (count_topology m t)) = sum_list (map snd m) + 1"
    by (auto simp: count_topology_def split: option.splits)
qed

lemma sum_default_topology: "sum_list (map snd (default_topology m t)) = sum_list (map snd m)"
proof -
  have "sum_list (map snd (od_set t 0 m)) = sum_list (map snd m)" if "od_get m t = None" for m :: "(topology, nat) odict"
    using that by (induction m) (auto split: if_splits)
  then show ?thesis by (auto simp: default_topology_def split: option.splits)
qed

lemma count_missing_sum: "sum_list (map snd (count_missing topo ids)) = length ids"
proof -
  have "od_ok m \<Longrightarrow> sum_list (map snd (foldl (\<lambda>m cid. count_topology m (f cid)) m ids)) = sum_list (map snd m) + length ids"
    for m :: "(topology, nat) odict" and f :: "string \<Rightarrow> topology"
  proof (induction ids arbitrary: m)
    case Nil
    then show ?case by simp
  next
    case (Cons i ids)
    have "od_ok (count_topology m (f i))" using Cons.prems by (simp add: count_topology_def od_ok_set)
    then show ?case using Cons.IH [of "count_topology m (f i)"] sum_count_topology [OF Cons.prems] by simp
  qed
  moreover have "sum_list (map snd (foldl default_topology m ts)) = sum_list (map snd m)" for m ts
    by (induction ts arbitrary: m) (simp_all add: sum_default_topology)
  ultimately show ?thesis by (simp add: count_missing_def od_ok_def)
qed

lemma count_missing_all: "od_get (count_missing topo ids) t \<noteq> None"
proof -
  have keep: "od_get m t \<noteq> None \<Longrightarrow> od_get (foldl default_topology m ts) t \<noteq> None" for m ts
    by (induction ts arbitrary: m) (auto simp: default_topology_def split: option.splits)
  have "t \<in> set ts \<Longrightarrow> od_get (foldl default_topology m ts) t \<noteq> None" for m ts
  proof (induction ts arbitrary: m)
    case Nil
    then show ?case by simp
  next
    case (Cons u ts)
    have "od_get (default_topology m u) u \<noteq> None" by (auto simp: default_topology_def split: option.splits)
    then show ?case using Cons keep by auto
  qed
  then show ?thesis by (simp add: count_missing_def)
qed

section \<open>Properties\<close>

text \<open>
  C18: The completion report accounts for the sweep: missing and present cells partition the expected
  ones, the per-topology counts cover every topology and add up to the missing total, the
  percentage is 100 exactly when nothing is missing, and what the report calls missing is exactly
  what a resumed run would execute.
\<close>

theorem report_accounts:
  assumes "dir_ok d" and "sweep_completion_report C d s = Inr rep" and "pending_cell_specs C d s = Inr cs"
  shows "set (sr_missing_cell_ids rep) = set (map cell_id cs) \<and> sorted (sr_missing_cell_ids rep) \<and>
    distinct (sr_missing_cell_ids rep) \<and> sr_missing_count rep = length (sr_missing_cell_ids rep) \<and>
    sum_list (map snd (sr_missing_by_topology rep)) = sr_missing_count rep \<and>
    (\<forall>t. od_get (sr_missing_by_topology rep) t \<noteq> None) \<and>
    sr_missing_count rep \<le> sr_expected_total rep \<and> (sr_completion_pct rep = 100) = (sr_missing_count rep = 0)"
proof -
  obtain all where all: "cells s = Inr all" "cs = filter (\<lambda>c. \<not> finished C d (cell_id c)) all"
    by (rule pending_iff [OF assms(1,3)])
  let ?ids = "remdups (map cell_id all)"
  let ?valid = "fst (scan_raw C d)"
  let ?missing = "filter (\<lambda>i. i \<notin> set ?valid) ?ids"
  let ?present = "filter (\<lambda>i. i \<in> set ?valid) ?ids"
  have rep: "sr_missing_cell_ids rep = sort ?missing" "sr_missing_count rep = length ?missing"
    "sr_missing_by_topology rep = count_missing (topo_for_id all) (sort ?missing)" "sr_expected_total rep = length ?ids"
    "sr_completion_pct rep = (if ?ids \<noteq> [] then 100 * real (length ?present) / real (length ?ids) else 100)"
    using assms(2) all(1) by (auto simp: sweep_completion_report_def Let_def split: prod.splits)
  have "set ?missing = set (map cell_id cs)" using all(2) scan_raw_iff [OF assms(1)] by auto
  moreover have parts: "length ?present + length ?missing = length ?ids" by (rule sum_length_filter_compl)
  moreover have "(sr_completion_pct rep = 100) = (sr_missing_count rep = 0)"
  proof (cases "?ids = []")
    case True
    then show ?thesis using rep by simp
  next
    case False
    define n where "n = length ?ids"
    have "n \<noteq> 0" using False by (simp add: n_def)
    then have "100 * real k / real n = 100 \<longleftrightarrow> k = n" for k by (simp add: divide_eq_eq)
    then have "100 * real (length ?present) / real (length ?ids) = 100 \<longleftrightarrow> length ?present = length ?ids" unfolding n_def .
    moreover have "sr_missing_count rep = 0 \<longleftrightarrow> length ?present = length ?ids" using rep(2) parts by linarith
    moreover have "sr_completion_pct rep = 100 * real (length ?present) / real (length ?ids)" using rep(5) False by (simp only: if_True not_False_eq_True)
    ultimately show ?thesis by (simp only:)
  qed
  ultimately show ?thesis
    using rep count_missing_sum [of "topo_for_id all" "sort ?missing"] count_missing_all [of "topo_for_id all" "sort ?missing"]
    by (simp add: distinct_filter)
qed

lemma report_accounts_witness:
  "\<exists>rep. sweep_completion_report plain_codec [] ex_matrix = Inr rep \<and> sr_missing_cell_ids rep = [cell_id (ex_cell TOPO_DISAGG)]"
proof -
  have d: "dir_ok ([] :: cell_result option directory)" by (simp add: dir_ok_def od_ok_def)
  obtain rep where rep: "sweep_completion_report plain_codec ([] :: cell_result option directory) ex_matrix = Inr rep"
    by (cases "sweep_completion_report plain_codec ([] :: cell_result option directory) ex_matrix")
      (simp_all add: sweep_completion_report_def cells_def matrix_keys_def ex_matrix_def ex_cell_spec Let_def split: prod.splits)
  have "set (sr_missing_cell_ids rep) = {cell_id (ex_cell TOPO_DISAGG)}" "distinct (sr_missing_cell_ids rep)"
    using report_accounts [OF d rep ex_matrix_pending] by simp_all
  then have "sr_missing_cell_ids rep = [cell_id (ex_cell TOPO_DISAGG)]"
    by (cases "sr_missing_cell_ids rep"; cases "tl (sr_missing_cell_ids rep)") auto
  then show ?thesis using rep by blast
qed

end
