(* ===== verification/Preflight.thy ===== *)
theory Preflight
  imports RunpodMatrix
begin

text \<open>
  \<open>bench/preflight.py\<close>: the two gates that run before a paid sweep, the cost estimate with its spend
  approval, and the prompt check that generates the traces of the pending cells and compares them
  with the context window. The lemmas show when the prompt check is sound, and where its sampling
  cap makes it blind.
\<close>

definition CELL_OVERHEAD_S :: real where
  "CELL_OVERHEAD_S = 45"

definition APPROVE_ENV :: string where
  "APPROVE_ENV = ''APPROVE_GPU_SPEND''"

definition MAX_SAMPLED_CELLS_PER_MIX :: nat where
  "MAX_SAMPLED_CELLS_PER_MIX = 6"

section \<open>Cost\<close>

definition estimate_cell_seconds :: "cell_spec \<Rightarrow> real" where
  "estimate_cell_seconds c =
     real_of_int (cs_n_warmup c + cs_n_measure c) / max (real_of_int (cs_rate_rps c)) (1 / 1000000) + CELL_OVERHEAD_S"

record cost_preflight =
  cf_n_total_cells :: int
  cf_n_pending_cells :: int
  cf_n_skipped_cells :: int
  cf_topologies :: "string list"
  cf_models :: "string list"
  cf_rates_rps :: "int list"
  cf_mixes :: "string list"
  cf_n_warmup :: int
  cf_n_measure :: int
  cf_est_wall_minutes :: real
  cf_cost_per_hour_usd :: real
  cf_est_cost_usd :: real
  cf_output_dir :: string
  cf_smoke :: bool

text \<open>\<open>_uniq\<close>: the keys of a dictionary filled in order.\<close>

definition uniq :: "string list \<Rightarrow> string list" where
  "uniq values = foldl (\<lambda>seen v. if v \<in> set seen then seen else seen @ [v]) [] values"

definition est_wall_s :: "cell_spec list \<Rightarrow> real" where
  "est_wall_s pending = sum_list (map estimate_cell_seconds pending)"

definition build_cost_preflight :: "cell_spec list \<Rightarrow> int \<Rightarrow> real \<Rightarrow> string \<Rightarrow> bool \<Rightarrow> cost_preflight" where
  "build_cost_preflight pending n_total cost_per_hour output_dir smoke =
     \<lparr>cf_n_total_cells = n_total, cf_n_pending_cells = int (length pending),
      cf_n_skipped_cells = n_total - int (length pending),
      cf_topologies = uniq (map (\<lambda>c. topology_value (cs_topology c)) pending),
      cf_models = uniq (map (\<lambda>c. model_value (cs_model c)) pending),
      cf_rates_rps = sort (remdups (map cs_rate_rps pending)),
      cf_mixes = uniq (map (\<lambda>c. mix_value (cs_mix c)) pending),
      cf_n_warmup = (case pending of [] \<Rightarrow> 0 | c # _ \<Rightarrow> cs_n_warmup c),
      cf_n_measure = (case pending of [] \<Rightarrow> 0 | c # _ \<Rightarrow> cs_n_measure c),
      cf_est_wall_minutes = est_wall_s pending / 60, cf_cost_per_hour_usd = cost_per_hour,
      cf_est_cost_usd = est_wall_s pending / 3600 * cost_per_hour, cf_output_dir = output_dir, cf_smoke = smoke\<rparr>"

text \<open>The dictionary written to \<open>preflight.json\<close>: the record with two fields rounded.\<close>

definition cost_to_dict :: "cost_preflight \<Rightarrow> cost_preflight" where
  "cost_to_dict pf =
     pf\<lparr>cf_est_wall_minutes := py_round_to 1 (cf_est_wall_minutes pf), cf_est_cost_usd := py_round_to 2 (cf_est_cost_usd pf)\<rparr>"

definition format_cost_preflight :: "cost_preflight \<Rightarrow> string" where
  "format_cost_preflight pf =
     joined [newline]
       [''[preflight] ---- cost preflight ----'',
        ''[preflight] pending cells:     '' @ int_str (cf_n_pending_cells pf) @ '' of '' @ int_str (cf_n_total_cells pf) @
          '' ('' @ int_str (cf_n_skipped_cells pf) @ '' already on disk, skipped)'',
        ''[preflight] topologies:        '' @ str_list (cf_topologies pf),
        ''[preflight] models:            '' @ str_list (cf_models pf),
        ''[preflight] rates_rps:         '' @ int_list (cf_rates_rps pf),
        ''[preflight] mixes:             '' @ str_list (cf_mixes pf),
        ''[preflight] warmup/measure:    '' @ int_str (cf_n_warmup pf) @ ''/'' @ int_str (cf_n_measure pf) @ '' per cell'',
        ''[preflight] est wall time:     '' @ fixed_str 1 (cf_est_wall_minutes pf) @ '' min'',
        ''[preflight] hourly rate:       $'' @ fixed_str 2 (cf_cost_per_hour_usd pf) @ ''/hr'',
        ''[preflight] est cost:          $'' @ fixed_str 2 (cf_est_cost_usd pf),
        ''[preflight] output dir:        '' @ cf_output_dir pf,
        ''[preflight] run class:         '' @
          (if cf_smoke pf then ''SMOKE (gate exempt)'' else ''PAID (approval required)''),
        ''[preflight] ------------------------'']"

definition spend_approved :: "bool \<Rightarrow> (string, string) odict \<Rightarrow> bool" where
  "spend_approved approve_flag env =
     (if approve_flag then True
      else py_lower (py_strip (case od_get env APPROVE_ENV of None \<Rightarrow> [] | Some v \<Rightarrow> v)) = ''yes'')"

section \<open>Prompts\<close>

record mix_stats =
  mxs_mix :: string
  mxs_n_requests :: int
  mxs_min_prompt_tokens :: int
  mxs_mean_prompt_tokens :: real
  mxs_p95_prompt_tokens :: int
  mxs_max_prompt_tokens :: int
  mxs_max_prompt_plus_output_tokens :: int

record prompt_preflight =
  pp_max_model_len :: "int option"
  pp_per_mix :: "mix_stats list"

definition overflow_mixes :: "prompt_preflight \<Rightarrow> string list" where
  "overflow_mixes pf =
     (case pp_max_model_len pf of
        None \<Rightarrow> []
      | Some n \<Rightarrow> map mxs_mix (filter (\<lambda>s. n < mxs_max_prompt_plus_output_tokens s) (pp_per_mix pf)))"

definition preflight_ok :: "prompt_preflight \<Rightarrow> bool" where
  "preflight_ok pf \<longleftrightarrow> overflow_mixes pf = []"

definition p95 :: "int list \<Rightarrow> int" where
  "p95 values =
     (if values = [] then 0 else sort values ! nat (py_round (95 / 100 * real (length values - 1))))"

definition sample_spec :: "(mix, cell_spec list) odict \<Rightarrow> cell_spec \<Rightarrow> (mix, cell_spec list) odict" where
  "sample_spec sampled c =
     (let bucket = (case od_get sampled (cs_mix c) of None \<Rightarrow> [] | Some l \<Rightarrow> l) in
      od_set (cs_mix c) (if length bucket < MAX_SAMPLED_CELLS_PER_MIX then bucket @ [c] else bucket) sampled)"

definition sample_specs :: "cell_spec list \<Rightarrow> (mix, cell_spec list) odict" where
  "sample_specs specs = foldl sample_spec [] specs"

definition mix_stats_of :: "mix \<Rightarrow> request_spec list \<Rightarrow> mix_stats" where
  "mix_stats_of m reqs =
     (let prompt_tokens = map rq_prompt_tokens reqs;
          prompt_plus_output = map (\<lambda>r. rq_prompt_tokens r + rq_output_tokens r) reqs
      in \<lparr>mxs_mix = mix_value m, mxs_n_requests = int (length prompt_tokens),
          mxs_min_prompt_tokens = Min (set prompt_tokens),
          mxs_mean_prompt_tokens = real_of_int (sum_list prompt_tokens) / real (length prompt_tokens),
          mxs_p95_prompt_tokens = p95 prompt_tokens,
          mxs_max_prompt_tokens = Max (set prompt_tokens),
          mxs_max_prompt_plus_output_tokens = Max (set prompt_plus_output)\<rparr>)"

definition mix_entry :: "'g rng \<Rightarrow> mix \<times> cell_spec list \<Rightarrow> mix_stats list result" where
  "mix_entry R kv =
     rbind (rmap (build_trace R) (snd kv)) (\<lambda>traces.
       let reqs = concat (map tr_requests traces) in
       if reqs = [] then Inr [] else Inr [mix_stats_of (fst kv) reqs])"

definition build_prompt_preflight :: "'g rng \<Rightarrow> cell_spec list \<Rightarrow> int option \<Rightarrow> prompt_preflight result" where
  "build_prompt_preflight R specs max_model_len =
     rbind (rmap (mix_entry R) (sample_specs specs)) (\<lambda>entries.
       Inr \<lparr>pp_max_model_len = max_model_len, pp_per_mix = concat entries\<rparr>)"

definition stats_to_dict :: "mix_stats \<Rightarrow> mix_stats" where
  "stats_to_dict s = s\<lparr>mxs_mean_prompt_tokens := py_round_to 1 (mxs_mean_prompt_tokens s)\<rparr>"

record prompt_dict =
  pd_max_model_len :: "int option"
  pd_per_mix :: "mix_stats list"
  pd_overflow_mixes :: "string list"
  pd_ok :: bool

definition prompt_to_dict :: "prompt_preflight \<Rightarrow> prompt_dict" where
  "prompt_to_dict pf =
     \<lparr>pd_max_model_len = pp_max_model_len pf, pd_per_mix = map stats_to_dict (pp_per_mix pf),
      pd_overflow_mixes = overflow_mixes pf, pd_ok = preflight_ok pf\<rparr>"

text \<open>The dash of the first message is its three UTF-8 bytes.\<close>

definition format_prompt_preflight :: "prompt_preflight \<Rightarrow> string" where
  "format_prompt_preflight pf =
     joined [newline]
       ([''[preflight] ---- prompt/context preflight ----''] @
        (case pp_max_model_len pf of
           None \<Rightarrow> [''[preflight] max_model_len not set in config '' @ [CHR 0xE2, CHR 0x80, CHR 0x94] @ '' overflow check skipped;'' @
                    '' set it to the vLLM --max-model-len value to gate paid runs.'']
         | Some n \<Rightarrow> []) @
        map (\<lambda>s.
          ''[preflight] '' @ ljust 8 (mxs_mix s) @ '' n='' @ rjust 4 (int_str (mxs_n_requests s)) @
          '' prompt tokens min/mean/p95/max ='' @
          '' '' @ int_str (mxs_min_prompt_tokens s) @ ''/'' @ fixed_str 0 (mxs_mean_prompt_tokens s) @
          ''/'' @ int_str (mxs_p95_prompt_tokens s) @ ''/'' @ int_str (mxs_max_prompt_tokens s) @
          ''  worst prompt+output = '' @ int_str (mxs_max_prompt_plus_output_tokens s)) (pp_per_mix pf) @
        (case pp_max_model_len pf of
           None \<Rightarrow> []
         | Some n \<Rightarrow>
             if preflight_ok pf
             then [''[preflight] context check OK: worst request fits in'' @ '' max_model_len='' @ int_str n]
             else [''[preflight] CONTEXT OVERFLOW: mixes '' @ str_list (overflow_mixes pf) @ '' exceed'' @
                   '' max_model_len='' @ int_str n @ ''.'' @
                   '' Fix before paying: raise --max-model-len (check GPU memory'' @
                   '' headroom first) or shrink the workload'' @ [CHR 0x27] @ ''s prompt shape.'']) @
        [''[preflight] ------------------------''])"

section \<open>Sampling\<close>

lemma sample_snoc: "sample_specs (cs @ [c]) = sample_spec (sample_specs cs) c"
  by (simp add: sample_specs_def)

lemma sample_get:
  "od_get (sample_specs cs) m =
     (let same = filter (\<lambda>c. cs_mix c = m) cs in if same = [] then None else Some (take MAX_SAMPLED_CELLS_PER_MIX same))"
proof (induction cs rule: rev_induct)
  case Nil
  then show ?case by (simp add: sample_specs_def)
next
  case (snoc c cs)
  then show ?case by (auto simp: sample_snoc sample_spec_def Let_def MAX_SAMPLED_CELLS_PER_MIX_def)
qed

lemma sample_ok: "od_ok (sample_specs cs)"
  by (induction cs rule: rev_induct) (simp_all add: sample_snoc sample_spec_def od_ok_set Let_def, simp add: sample_specs_def od_ok_def)

lemma rmap_in: "rmap f xs = Inr ys \<Longrightarrow> x \<in> set xs \<Longrightarrow> \<exists>y\<in>set ys. f x = Inr y"
  by (induction xs arbitrary: ys) (auto simp: rbind_eq_Inr)

lemma mix_entry_bound:
  assumes "mix_entry R (m, cs) = Inr es" "\<forall>s\<in>set es. mxs_max_prompt_plus_output_tokens s \<le> n" "c \<in> set cs"
  shows "\<exists>tr. build_trace R c = Inr tr \<and> (\<forall>r\<in>set (tr_requests tr). rq_prompt_tokens r + rq_output_tokens r \<le> n)"
proof -
  obtain traces where tr: "rmap (build_trace R) cs = Inr traces" using assms(1) by (auto simp: mix_entry_def rbind_eq_Inr)
  then obtain t where t: "t \<in> set traces" "build_trace R c = Inr t" using rmap_in [OF tr assms(3)] by blast
  have "rq_prompt_tokens r + rq_output_tokens r \<le> n" if r: "r \<in> set (tr_requests t)" for r
  proof -
    let ?reqs = "concat (map tr_requests traces)"
    have in_reqs: "r \<in> set ?reqs" using r t(1) by auto
    then have "?reqs \<noteq> []" by (metis empty_iff empty_set)
    then have "es = [mix_stats_of m ?reqs]" using assms(1) tr by (auto simp: mix_entry_def Let_def split: if_splits)
    then have "mxs_max_prompt_plus_output_tokens (mix_stats_of m ?reqs) \<le> n" using assms(2) by simp
    moreover have "rq_prompt_tokens r + rq_output_tokens r \<le> mxs_max_prompt_plus_output_tokens (mix_stats_of m ?reqs)"
      unfolding mix_stats_of_def Let_def mix_stats.select_convs using in_reqs by (intro Max_ge) (simp_all only: List.finite_set set_map image_eqI finite_imageI)
    ultimately show ?thesis by (rule order_trans [rotated])
  qed
  then show ?thesis using t(2) by blast
qed

lemma preflight_bound:
  assumes build: "build_prompt_preflight R specs (Some n) = Inr pf" and ok: "preflight_ok pf"
    and cap: "\<forall>m. length (filter (\<lambda>c. cs_mix c = m) specs) \<le> MAX_SAMPLED_CELLS_PER_MIX" and c: "c \<in> set specs"
  shows "\<exists>tr. build_trace R c = Inr tr \<and> (\<forall>r\<in>set (tr_requests tr). rq_prompt_tokens r + rq_output_tokens r \<le> n)"
proof -
  obtain entries where entries: "rmap (mix_entry R) (sample_specs specs) = Inr entries"
    and pf: "pf = \<lparr>pp_max_model_len = Some n, pp_per_mix = concat entries\<rparr>"
    using build by (auto simp: build_prompt_preflight_def rbind_eq_Inr)
  let ?same = "filter (\<lambda>b. cs_mix b = cs_mix c) specs"
  have "?same \<noteq> []" using c by (auto simp: filter_empty_conv)
  moreover have "take MAX_SAMPLED_CELLS_PER_MIX ?same = ?same" using cap by simp
  ultimately have "od_get (sample_specs specs) (cs_mix c) = Some ?same" by (simp add: sample_get Let_def)
  then have "(cs_mix c, ?same) \<in> set (sample_specs specs)" by (rule od_get_in_set)
  then obtain es where es: "es \<in> set entries" "mix_entry R (cs_mix c, ?same) = Inr es"
    using rmap_in [OF entries] by blast
  have "\<forall>s\<in>set es. mxs_max_prompt_plus_output_tokens s \<le> n"
    using ok es(1) by (auto simp: preflight_ok_def overflow_mixes_def pf filter_empty_conv not_less)
  then show ?thesis using mix_entry_bound [OF es(2)] c by simp
qed

section \<open>Properties\<close>

text \<open>
  C28: The prompt check is sound up to its sampling cap: when it passes against a context window and no
  mix has more pending cells than the cap, every pending cell has a trace and every request of it,
  prompt and output budget together, fits the window.
\<close>

theorem prompt_preflight_sound:
  assumes "build_prompt_preflight R specs (Some n) = Inr pf" and "preflight_ok pf"
    and "\<forall>m. length (filter (\<lambda>c. cs_mix c = m) specs) \<le> 6" and "c \<in> set specs"
  shows "\<exists>tr. build_trace R c = Inr tr \<and> (\<forall>r\<in>set (tr_requests tr). rq_prompt_tokens r + rq_output_tokens r \<le> n)"
  using preflight_bound [OF assms(1,2) _ assms(4)] assms(3) by (simp add: MAX_SAMPLED_CELLS_PER_MIX_def)

text \<open>The chat cells of the default generator fit a window of 2500 tokens.\<close>

lemma chat_cell_bound:
  assumes "rng_ok R" "CellSpec t m r MIX_CHAT n k s = Inr c" "build_trace R c = Inr tr" "q \<in> set (tr_requests tr)"
  shows "rq_prompt_tokens q + rq_output_tokens q \<le> 2500"
proof -
  have f: "cs_mix c = MIX_CHAT" "0 < cell_total c" "0 < real_of_int (cs_rate_rps c)"
    using CellSpec_Inr [OF assms(2)] by (auto simp: cell_total_def)
  obtain cfg where cfg: "ChatWorkloadConfig (cell_total c) (cs_seed c) (500, 2000) (50, 500) (1, 5) DEFAULT_SYSTEM_PROMPT
      (real_of_int (cs_rate_rps c)) (cell_duration_s c) INTERACTIVE = Inr cfg"
    using f by (simp add: ChatWorkloadConfig_def)
  obtain t1 where t1: "chat_generate R cfg = Inr t1" "\<forall>i<n_requests t1. chat_spec_ok cfg i (tr_requests t1 ! i)"
    using chat_generate_ok [OF assms(1) cfg] f cell_duration_pos by auto
  have "tr = t1\<lparr>tr_workload := CHAT\<rparr>" using assms(3) f cfg t1(1) by (simp add: build_trace_def)
  then obtain i where "i < n_requests t1" "q = tr_requests t1 ! i"
    using assms(4) by (auto simp: in_set_conv_nth n_requests_def)
  then have "chat_spec_ok cfg i q" using t1(2) by blast
  moreover have "snd (ch_prompt_tokens_range cfg) = 2000" "snd (ch_output_tokens_range cfg) = 500"
    using cfg by (auto simp: ChatWorkloadConfig_def split: if_splits)
  ultimately show ?thesis by (auto simp: chat_spec_ok_def)
qed

lemma ex_preflight: "\<exists>pf. build_prompt_preflight counting_rng [ex_cell TOPO_DISAGG] (Some 2500) = Inr pf \<and> preflight_ok pf"
proof -
  obtain tr where tr: "build_trace counting_rng (ex_cell TOPO_DISAGG) = Inr tr" "int (n_requests tr) = 3"
    using build_trace_ok [OF counting_rng_ok ex_cell_spec, of TOPO_DISAGG] by auto
  have ne: "tr_requests tr \<noteq> []" using tr(2) by (auto simp: n_requests_def)
  have "\<forall>q\<in>set (tr_requests tr). rq_prompt_tokens q + rq_output_tokens q \<le> 2500"
    using chat_cell_bound [OF counting_rng_ok ex_cell_spec tr(1)] by blast
  then have "mxs_max_prompt_plus_output_tokens (mix_stats_of MIX_CHAT (tr_requests tr)) \<le> 2500"
    using ne by (simp add: mix_stats_of_def Let_def)
  then show ?thesis
    using tr(1) ne by (simp add: build_prompt_preflight_def sample_specs_def sample_spec_def Let_def MAX_SAMPLED_CELLS_PER_MIX_def
      mix_entry_def preflight_ok_def overflow_mixes_def ex_cell_def)
qed

lemma prompt_preflight_sound_witness:
  "\<exists>tr. build_trace counting_rng (ex_cell TOPO_DISAGG) = Inr tr \<and>
     (\<forall>r\<in>set (tr_requests tr). rq_prompt_tokens r + rq_output_tokens r \<le> 2500)"
proof -
  obtain pf where "build_prompt_preflight counting_rng [ex_cell TOPO_DISAGG] (Some 2500) = Inr pf" "preflight_ok pf"
    using ex_preflight by blast
  from prompt_preflight_sound [OF this, of "ex_cell TOPO_DISAGG"] show ?thesis by simp
qed

text \<open>
  Beyond the cap the check is blind: a further cell of a mix whose six samples are taken changes
  nothing in the verdict, although its trace has a seed of its own.
\<close>

lemma preflight_ignores_beyond_cap:
  assumes "6 \<le> length (filter (\<lambda>b. cs_mix b = cs_mix c) specs)"
  shows "build_prompt_preflight R (specs @ [c]) n = build_prompt_preflight R specs n"
proof -
  let ?bucket = "take MAX_SAMPLED_CELLS_PER_MIX (filter (\<lambda>b. cs_mix b = cs_mix c) specs)"
  have get: "od_get (sample_specs specs) (cs_mix c) = Some ?bucket"
    using assms by (auto simp: sample_get Let_def)
  have "od_set k v d = d" if "od_get d k = Some v" for k v and d :: "(mix, cell_spec list) odict"
    using that by (induction k v d rule: od_set.induct) (auto split: if_splits)
  then have "sample_specs (specs @ [c]) = sample_specs specs"
    using get assms by (simp add: sample_snoc sample_spec_def Let_def MAX_SAMPLED_CELLS_PER_MIX_def)
  then show ?thesis by (simp add: build_prompt_preflight_def)
qed

end
