(* ===== verification/RunMatrix.thy ===== *)
theory RunMatrix
  imports Preflight MatrixReport
begin

text \<open>
  The command lines over a sweep: \<open>main\<close> of \<open>scripts/run_matrix.py\<close> (configuration, preflights, spend
  gate, run, summary, exit code) and of \<open>scripts/sweep_report.py\<close>. A run gives its exit code, or the
  exception that leaves \<open>main\<close>, with the directory and the world. Printing is left out.
\<close>

record run_args =
  ra_topologies :: "string option"
  ra_run_all :: bool
  ra_approve_cost :: bool
  ra_keep_going :: bool
  ra_allow_overflow :: bool

text \<open>The names of \<open>--topologies\<close>: the stripped, non-empty parts between commas.\<close>

definition topology_names :: "string \<Rightarrow> string list" where
  "topology_names s = filter (\<lambda>t. t \<noteq> []) (map py_strip (split_char (CHR '','') s))"

definition filtered_config :: "run_args \<Rightarrow> sweep_config \<Rightarrow> sweep_config result" where
  "filtered_config args cfg =
     (case ra_topologies args of
        None \<Rightarrow> Inr cfg
      | Some s \<Rightarrow> if s = [] then Inr cfg else restrict_topologies cfg (topology_names s))"

definition matrix_of :: "sweep_config \<Rightarrow> bench_matrix" where
  "matrix_of cfg =
     \<lparr>bm_cost_per_hour = sw_cost_per_hour_usd cfg, bm_pod_id = sw_pod_id cfg, bm_matrix_spec = to_matrix_spec cfg\<rparr>"

definition selected_cells :: "'t codec \<Rightarrow> run_args \<Rightarrow> sweep_config \<Rightarrow> 't directory \<Rightarrow> cell_spec list result" where
  "selected_cells C args cfg d =
     (if ra_run_all args then cells (to_matrix_spec cfg) else pending_cell_specs C d (to_matrix_spec cfg))"

text \<open>Gates in the order of the code: the overflow check (6), then the spend approval (5).\<close>

definition gate_code :: "run_args \<Rightarrow> (string, string) odict \<Rightarrow> sweep_config \<Rightarrow> cell_spec list \<Rightarrow> prompt_preflight \<Rightarrow> int option" where
  "gate_code args env cfg pending pf =
     (if \<not> preflight_ok pf \<and> \<not> ra_allow_overflow args then Some 6
      else if pending \<noteq> [] \<and> \<not> sw_smoke cfg \<and> \<not> spend_approved (ra_approve_cost args) env then Some 5
      else None)"

record 't dumps =
  du_preflight :: "cost_preflight \<times> prompt_dict \<Rightarrow> 't"
  du_summary :: "summary_payload \<Rightarrow> 't"

definition record_preflight ::
  "'t dumps \<Rightarrow> sweep_config \<Rightarrow> cell_spec list \<Rightarrow> prompt_preflight \<Rightarrow> 't directory \<Rightarrow> 't directory" where
  "record_preflight D cfg pending pf d =
     od_set ''preflight.json''
       (du_preflight D
          (cost_to_dict (build_cost_preflight pending (int (total_cells (to_matrix_spec cfg))) (sw_cost_per_hour_usd cfg)
             (sw_output_dir cfg) (sw_smoke cfg)),
           prompt_to_dict pf)) d"

text \<open>The part after the gates.\<close>

definition run_and_summarize ::
  "'g rng \<Rightarrow> 't codec \<Rightarrow> 'w cell_world \<Rightarrow> 't dumps \<Rightarrow> run_args \<Rightarrow> sweep_config \<Rightarrow> 't directory \<times> 'w \<Rightarrow>
   int result \<times> 't directory \<times> 'w" where
  "run_and_summarize R C W D args cfg s =
     (let stop = \<not> ra_keep_going args in
      case (if ra_run_all args then run_all R C W (matrix_of cfg) stop s else run_pending R C W (matrix_of cfg) stop s) of
        (Inl e, s1) \<Rightarrow> (Inl e, s1)
      | (Inr report, s1) \<Rightarrow>
          if cp_n_cells_completed report = 0 then (Inr 3, s1)
          else
            (case write_summary C (du_summary D) report (sw_cost_per_hour_usd cfg) (fst s1) of
               Inl ValueError \<Rightarrow> (Inr 4, s1)
             | Inl e \<Rightarrow> (Inl e, s1)
             | Inr d2 \<Rightarrow> (Inr (if cp_n_cells_failed report = 0 then 0 else 1), d2, snd s1)))"

definition run_matrix_main ::
  "'g rng \<Rightarrow> 't codec \<Rightarrow> 'w cell_world \<Rightarrow> 't dumps \<Rightarrow> run_args \<Rightarrow> (string, string) odict \<Rightarrow> sweep_config result \<Rightarrow>
   't directory \<times> 'w \<Rightarrow> int result \<times> 't directory \<times> 'w" where
  "run_matrix_main R C W D args env loaded s =
     (case loaded of
        Inl e \<Rightarrow> (Inl e, s)
      | Inr cfg0 \<Rightarrow>
          (case filtered_config args cfg0 of
             Inl e \<Rightarrow> (Inr 2, s)
           | Inr cfg \<Rightarrow>
               if (case od_get env (sw_vllm_base_url_env cfg) of None \<Rightarrow> True | Some u \<Rightarrow> u = []) then (Inr 2, s)
               else
                 (case selected_cells C args cfg (fst s) of
                    Inl e \<Rightarrow> (Inl e, s)
                  | Inr pending \<Rightarrow>
                      (case build_prompt_preflight R pending (sw_max_model_len cfg) of
                         Inl e \<Rightarrow> (Inl e, s)
                       | Inr pf \<Rightarrow>
                           (case gate_code args env cfg pending pf of
                              Some code \<Rightarrow> (Inr code, s)
                            | None \<Rightarrow>
                                run_and_summarize R C W D args cfg (record_preflight D cfg pending pf (fst s), snd s))))))"

definition sweep_report_main :: "'t codec \<Rightarrow> 't directory \<Rightarrow> sweep_config result \<Rightarrow> int result" where
  "sweep_report_main C d loaded =
     rbind loaded (\<lambda>cfg.
     rbind (sweep_completion_report C d (to_matrix_spec cfg)) (\<lambda>report.
       Inr (if sr_missing_count report = 0 \<and> sr_corrupt_or_mismatched report = [] then 0 else 1)))"

section \<open>Gates\<close>

text \<open>Everything that touches the directory or the world happens behind the two gates.\<close>

lemma main_gated:
  assumes "run_matrix_main R C W D args env loaded s = (res, s')" "s' \<noteq> s"
  obtains cfg0 cfg pending pf where "loaded = Inr cfg0" "filtered_config args cfg0 = Inr cfg"
    "selected_cells C args cfg (fst s) = Inr pending" "build_prompt_preflight R pending (sw_max_model_len cfg) = Inr pf"
    "gate_code args env cfg pending pf = None"
    "run_and_summarize R C W D args cfg (record_preflight D cfg pending pf (fst s), snd s) = (res, s')"
  using assms unfolding run_matrix_main_def
  by (auto split: sum.splits option.splits if_splits)

section \<open>A sweep whose results are all on disk\<close>

lemma run_cell_stored:
  "sink_load C d (cell_id c) = Inr r \<Longrightarrow> run_cell R C W c (d, w) = (Inr r, d, w)"
  using sink.fetch_stored [of C d "cell_id c" r] by (simp add: run_cell_def)

lemma run_specs_stored:
  assumes "\<forall>c\<in>set cs. \<exists>r. sink_load C d (cell_id c) = Inr r"
  shows "\<exists>p'. run_specs R C W False cs p (d, w) = (p', d, w)"
  using assms
proof (induction cs arbitrary: p)
  case Nil
  then show ?case by simp
next
  case (Cons c cs)
  then obtain r where "sink_load C d (cell_id c) = Inr r" by auto
  then show ?case using Cons by (simp add: run_cell_stored Let_def)
qed

lemma run_specs_stored_stop:
  assumes "\<forall>c\<in>set cs. \<exists>r. sink_load C d (cell_id c) = Inr r"
  shows "\<exists>p'. run_specs R C W stop cs p (d, w) = (p', d, w)"
proof (cases stop)
  case True
  obtain n where "run_specs R C W True cs p (d, w) = run_specs R C W False (take n cs) p (d, w)"
    using run_specs_stop [of cs R C W p "(d, w)"] by blast
  moreover have "\<forall>c\<in>set (take n cs). \<exists>r. sink_load C d (cell_id c) = Inr r" using assms set_take_subset [of n cs] by blast
  ultimately show ?thesis using True run_specs_stored [of "take n cs" C d R W p w] by simp
next
  case False
  then show ?thesis using run_specs_stored [OF assms] by simp
qed

text \<open>\<open>--run-all\<close> on a directory that holds every cell replays the stored results and measures nothing.\<close>

lemma run_all_stored:
  assumes "cells (bm_matrix_spec b) = Inr cs" and "\<forall>c\<in>set cs. \<exists>r. sink_load C d (cell_id c) = Inr r"
  shows "fst (snd (run_all R C W b stop (d, w))) = d \<and>
    snd (snd (run_all R C W b stop (d, w))) = snd (cw_utcnow W (snd (cw_utcnow W w)))"
proof -
  obtain st w1 where st: "cw_utcnow W w = (st, w1)" by force
  obtain p where "run_specs R C W stop cs \<lparr>pg_completed = 0, pg_failed = 0, pg_duration_s = 0\<rparr> (d, w1) = (p, d, w1)"
    using run_specs_stored_stop [OF assms(2), of R W stop "\<lparr>pg_completed = 0, pg_failed = 0, pg_duration_s = 0\<rparr>" w1] by blast
  then show ?thesis using assms(1) st by (simp add: run_all_def run_matrix_specs_def split: prod.splits)
qed

text \<open>The sidecar files are invisible to the search for finished cells.\<close>

lemma sink_load_sidecar:
  "cid \<noteq> ''preflight'' \<Longrightarrow> sink_load C (od_set ''preflight.json'' t d) cid = sink_load C d cid"
  using sink_path_inj [of cid "''preflight''"] by (simp add: sink_load_def) (simp add: sink_path_def)

lemma record_preflight_frame:
  "cid \<noteq> ''preflight'' \<Longrightarrow> sink_load C (record_preflight D cfg pending pf d) cid = sink_load C d cid"
  by (simp add: record_preflight_def sink_load_sidecar)

lemma record_preflight_dir_ok: "dir_ok d \<Longrightarrow> dir_ok (record_preflight D cfg pending pf d)"
  by (simp add: record_preflight_def dir_ok_def od_ok_set)

lemma finished_preflight: "finished C (record_preflight D cfg pending pf d) (cell_id c) \<longleftrightarrow> finished C d (cell_id c)"
  using cell_id_name [of c] by (simp add: finished_def record_preflight_frame)

lemma pending_preflight:
  assumes "dir_ok d" "pending_cell_specs C d s = Inr cs"
  shows "pending_cell_specs C (record_preflight D cfg pending pf d) s = Inr cs"
proof -
  obtain all where all: "cells s = Inr all" "cs = filter (\<lambda>c. \<not> finished C d (cell_id c)) all" by (rule pending_iff [OF assms])
  have "cell_id c \<notin> set (existing_ids C (record_preflight D cfg pending pf d)) \<longleftrightarrow> \<not> finished C d (cell_id c)" for c
    using existing_iff [OF record_preflight_dir_ok [OF assms(1)] cell_id_name] finished_preflight by blast
  then show ?thesis using all by (simp add: pending_cell_specs_def)
qed

lemma empty_preflight: "build_prompt_preflight R [] n = Inr \<lparr>pp_max_model_len = n, pp_per_mix = []\<rparr>"
  by (simp add: build_prompt_preflight_def sample_specs_def)

lemma empty_preflight_ok: "preflight_ok \<lparr>pp_max_model_len = n, pp_per_mix = []\<rparr>"
  by (simp add: preflight_ok_def overflow_mixes_def split: option.splits)

text \<open>A resumed sweep with nothing left to do ends with the code of a sweep in which every cell failed.\<close>

lemma complete_sweep_exits_3:
  assumes "dir_ok d" and "filtered_config args cfg0 = Inr cfg" and "\<not> ra_run_all args"
    and "pending_cell_specs C d (to_matrix_spec cfg) = Inr []" and "od_get env (sw_vllm_base_url_env cfg) = Some (u # us)"
    and "0 < sw_cost_per_hour_usd cfg" and "cw_utcnow W w = (t0, w1)" and "cw_utcnow W w1 = (t1, w2)" and "t0 \<le> t1"
  shows "\<exists>pf. run_matrix_main R C W D args env (Inr cfg0) (d, w) = (Inr 3, record_preflight D cfg [] pf d, w2)"
proof -
  let ?pf = "\<lparr>pp_max_model_len = sw_max_model_len cfg, pp_per_mix = []\<rparr>"
  let ?d = "record_preflight D cfg [] ?pf d"
  have gate: "gate_code args env cfg [] ?pf = None" by (simp add: gate_code_def empty_preflight_ok)
  have "pending_cell_specs C ?d (bm_matrix_spec (matrix_of cfg)) = Inr []"
    using pending_preflight [OF assms(1,4)] by (simp add: matrix_of_def)
  then have "run_pending R C W (matrix_of cfg) stop (?d, w) =
      (CampaignReport \<lparr>cp_n_cells_completed = 0, cp_n_cells_failed = 0, cp_total_duration_s = 0,
         cp_cost_usd = (t1 - t0) / 3600 * sw_cost_per_hour_usd cfg, cp_pod_id = sw_pod_id cfg, cp_started_at = t0, cp_ended_at = t1\<rparr>, ?d, w2)" for stop
    using assms(7,8) by (simp add: run_pending_def run_matrix_specs_def) (simp add: matrix_of_def)
  moreover have "0 \<le> (t1 - t0) / 3600 * sw_cost_per_hour_usd cfg" using assms(6,9) by simp
  ultimately have "run_and_summarize R C W D args cfg (?d, w) = (Inr 3, ?d, w2)"
    using assms(3) by (simp add: run_and_summarize_def CampaignReport_def)
  then have "run_matrix_main R C W D args env (Inr cfg0) (d, w) = (Inr 3, ?d, w2)"
    using assms(2-5) gate by (simp add: run_matrix_main_def selected_cells_def empty_preflight)
  then show ?thesis ..
qed

text \<open>A sweep that stops at an unreconciled cell has no failed cell to report.\<close>

lemma unreconciled_stop_counts_no_failure:
  assumes "run_cell R C W c s = (Inr r, s1)" "\<not> cr_reconcile_passes r"
  shows "run_specs R C W True (c # cs) \<lparr>pg_completed = 0, pg_failed = 0, pg_duration_s = 0\<rparr> s =
    (\<lparr>pg_completed = 1, pg_failed = 0, pg_duration_s = cr_duration_s r\<rparr>, s1)"
  using assms by (simp add: Let_def)

section \<open>Success\<close>

lemma misnamed_preflight: "misnamed C (record_preflight D cfg pending pf d) c \<longleftrightarrow> misnamed C d c"
  using cell_id_name [of c] by (simp add: misnamed_def record_preflight_frame)

lemma write_summary_load:
  assumes "write_summary C dump campaign cost d = Inr d'"
  shows "sink_load C d' (cell_id c) = sink_load C d (cell_id c)"
  using write_summary_frame [OF assms, of "cell_id c"] cell_id_name [of c] by (simp add: sink_load_def)

lemma write_summary_keeps:
  assumes "write_summary C dump campaign cost d = Inr d'"
  shows "finished C d' (cell_id c) \<longleftrightarrow> finished C d (cell_id c)"
  using write_summary_frame [OF assms, of "cell_id c"] cell_id_name [of c] by (simp add: finished_def sink_load_def)

lemma write_summary_dir_ok:
  assumes "write_summary C dump campaign cost d = Inr d'" "dir_ok d"
  shows "dir_ok d'"
proof -
  obtain t where "d' = replace_tmp ''summary'' (write_tmp ''summary'' t d)"
    using assms(1) by (auto simp: write_summary_def rbind_eq_Inr)
  then show ?thesis
    using assms(2) by (auto simp: dir_ok_def replace_tmp_def write_tmp_def od_ok_set od_ok_del tmp_path_def sink_path_def split: option.splits)
qed

text \<open>The report finds missing what is not finished.\<close>

lemma report_missing:
  assumes "dir_ok d" "cells s = Inr all"
  shows "\<exists>rep. sweep_completion_report C d s = Inr rep \<and> sr_missing_count rep = length (sr_missing_cell_ids rep) \<and>
    set (sr_missing_cell_ids rep) = {cell_id c |c. c \<in> set all \<and> \<not> finished C d (cell_id c)}"
proof -
  have "set (filter (\<lambda>i. i \<notin> set (fst (scan_raw C d))) (remdups (map cell_id all))) =
      {cell_id c |c. c \<in> set all \<and> \<not> finished C d (cell_id c)}"
    using scan_raw_iff [OF assms(1)] by auto
  then show ?thesis using assms(2) by (cases "scan_raw C d") (simp add: sweep_completion_report_def Let_def)
qed

lemma gate_code_None:
  "gate_code args env cfg pending pf = None \<longleftrightarrow>
     (preflight_ok pf \<or> ra_allow_overflow args) \<and>
     (pending = [] \<or> sw_smoke cfg \<or> spend_approved (ra_approve_cost args) env)"
  by (auto simp: gate_code_def)

lemma run_and_summarize_0:
  assumes "run_and_summarize R C W D args cfg s = (Inr 0, s')"
  obtains report d1 w1 d2 where
    "(if ra_run_all args then run_all R C W (matrix_of cfg) (\<not> ra_keep_going args) s
      else run_pending R C W (matrix_of cfg) (\<not> ra_keep_going args) s) = (Inr report, d1, w1)"
    "cp_n_cells_completed report \<noteq> 0" "cp_n_cells_failed report = 0"
    "write_summary C (du_summary D) report (sw_cost_per_hour_usd cfg) d1 = Inr d2" "s' = (d2, w1)"
proof -
  obtain res d1 w1 where run: "(if ra_run_all args then run_all R C W (matrix_of cfg) (\<not> ra_keep_going args) s
      else run_pending R C W (matrix_of cfg) (\<not> ra_keep_going args) s) = (res, d1, w1)" by (metis surj_pair)
  obtain report where res: "res = Inr report" using assms run by (cases res) (simp_all add: run_and_summarize_def Let_def)
  have some: "cp_n_cells_completed report \<noteq> 0"
    using assms run res by (simp add: run_and_summarize_def Let_def split: if_splits)
  obtain d2 where sum: "write_summary C (du_summary D) report (sw_cost_per_hour_usd cfg) d1 = Inr d2"
    using assms run res some
    by (cases "write_summary C (du_summary D) report (sw_cost_per_hour_usd cfg) d1")
      (simp_all add: run_and_summarize_def Let_def split: if_splits py_error.splits)
  show thesis
    using assms run res some sum by (intro that [OF run [unfolded res] some _ sum]) (simp_all add: run_and_summarize_def Let_def split: if_splits)
qed

section \<open>Properties\<close>

text \<open>
  Nothing is spent without passing the gates. If a run of the command changed anything, a file or
  the outside world, then its cells were selected from the configuration, the prompt check passed or
  overflow was allowed, and the run was a smoke run, was approved, or had nothing to execute.
\<close>

theorem no_spend_without_gates:
  assumes "run_matrix_main R C W D args env loaded s = (res, s')" and "s' \<noteq> s"
  shows "\<exists>cfg0 cfg pending pf. loaded = Inr cfg0 \<and> filtered_config args cfg0 = Inr cfg \<and>
    selected_cells C args cfg (fst s) = Inr pending \<and>
    build_prompt_preflight R pending (sw_max_model_len cfg) = Inr pf \<and>
    (preflight_ok pf \<or> ra_allow_overflow args) \<and>
    (pending = [] \<or> sw_smoke cfg \<or> spend_approved (ra_approve_cost args) env)"
  using assms(1,2)
proof (rule main_gated)
  fix cfg0 cfg pending pf
  assume "loaded = Inr cfg0" "filtered_config args cfg0 = Inr cfg" "selected_cells C args cfg (fst s) = Inr pending"
    "build_prompt_preflight R pending (sw_max_model_len cfg) = Inr pf" "gate_code args env cfg pending pf = None"
  then show ?thesis using gate_code_None by blast
qed

text \<open>
  C16: A successful resumed run leaves a complete sweep, but for two disclosed gaps. When the command, resuming,
  exits with 0, then in the directory it leaves behind either every cell the completion report calls missing
  already had a file that carries another cell's identifier, or the command was not told to keep going and some
  cell has an unreconciled result on disk, at which the sweep stopped. In particular, told to keep going on a
  directory without misnamed files, it leaves no cell missing. The only demands are that a result written
  is read back and that no file is called just \<open>.json\<close>.
\<close>

theorem exit_zero_complete:
  assumes "codec_ok C" and "dir_ok d" and "\<not> ra_run_all args" and "filtered_config args cfg0 = Inr cfg"
    and "run_matrix_main R C W D args env (Inr cfg0) (d, w) = (Inr 0, d', w')"
  shows "\<exists>rep all. sweep_completion_report C d' (to_matrix_spec cfg) = Inr rep \<and> cells (to_matrix_spec cfg) = Inr all \<and>
    ((\<forall>i\<in>set (sr_missing_cell_ids rep). \<exists>c\<in>set all. i = cell_id c \<and> misnamed C d c) \<or>
     (\<not> ra_keep_going args \<and> (\<exists>c\<in>set all. \<exists>r. sink_load C d' (cell_id c) = Inr r \<and> \<not> cr_reconcile_passes r))) \<and>
    (ra_keep_going args \<and> \<not> (\<exists>c\<in>set all. misnamed C d c) \<longrightarrow> sr_missing_count rep = 0)"
proof -
  obtain pending pf where main: "selected_cells C args cfg d = Inr pending"
    "run_and_summarize R C W D args cfg (record_preflight D cfg pending pf d, w) = (Inr 0, d', w')"
    using assms(4,5) by (auto simp: run_matrix_main_def gate_code_def split: sum.splits option.splits if_splits)
  let ?d = "record_preflight D cfg pending pf d" and ?b = "matrix_of cfg"
  have spec: "bm_matrix_spec ?b = to_matrix_spec cfg" by (simp add: matrix_of_def)
  obtain report d1 where run: "run_pending R C W ?b (\<not> ra_keep_going args) (?d, w) = (Inr report, d1, w')"
    and ok: "cp_n_cells_failed report = 0"
    and sum: "write_summary C (du_summary D) report (sw_cost_per_hour_usd cfg) d1 = Inr d'"
    by (rule run_and_summarize_0 [OF main(2)]) (use assms(3) in auto)
  have pend: "pending_cell_specs C d (to_matrix_spec cfg) = Inr pending"
    using main(1) assms(3) by (simp add: selected_cells_def)
  obtain all where all: "cells (to_matrix_spec cfg) = Inr all" "pending = filter (\<lambda>c. \<not> finished C d (cell_id c)) all"
    by (rule pending_iff [OF assms(2) pend])
  have pend1: "pending_cell_specs C ?d (bm_matrix_spec ?b) = Inr pending" using pending_preflight [OF assms(2) pend] spec by simp
  obtain n left where left: "n < length pending \<longrightarrow> \<not> ra_keep_going args" "dir_ok d1"
    "n < length pending \<longrightarrow> (\<exists>c\<in>set pending. \<exists>r. sink_load C d1 (cell_id c) = Inr r \<and> \<not> cr_reconcile_passes r)"
    "pending_cell_specs C d1 (to_matrix_spec cfg) = Inr left" "\<forall>c\<in>set left. c \<in> set (drop n pending) \<or> misnamed C d c"
  proof (rule run_pending_progress [OF assms(1) record_preflight_dir_ok [OF assms(2)] pend1 run])
    fix n left
    assume "n < length pending \<longrightarrow> \<not> ra_keep_going args" "dir_ok d1"
      "cp_n_cells_failed report = 0 \<and> n < length pending \<longrightarrow>
         (\<exists>c\<in>set pending. \<exists>r. sink_load C d1 (cell_id c) = Inr r \<and> \<not> cr_reconcile_passes r)"
      "pending_cell_specs C d1 (bm_matrix_spec ?b) = Inr left"
      "cp_n_cells_failed report = 0 \<longrightarrow> (\<forall>c\<in>set left. c \<in> set (drop n pending) \<or> misnamed C ?d c)"
    then show thesis using that [of n left] ok by (simp add: spec misnamed_preflight)
  qed
  obtain all2 where "cells (to_matrix_spec cfg) = Inr all2" "left = filter (\<lambda>c. \<not> finished C d1 (cell_id c)) all2"
    by (rule pending_iff [OF left(2,4)])
  then have left_set: "set left = {c \<in> set all. \<not> finished C d' (cell_id c)}"
    using all(1) write_summary_keeps [OF sum] by auto
  obtain rep where rep: "sweep_completion_report C d' (to_matrix_spec cfg) = Inr rep"
    "sr_missing_count rep = length (sr_missing_cell_ids rep)"
    "set (sr_missing_cell_ids rep) = {cell_id c |c. c \<in> set all \<and> \<not> finished C d' (cell_id c)}"
    using report_missing [OF write_summary_dir_ok [OF sum left(2)] all(1)] by blast
  have ids: "set (sr_missing_cell_ids rep) = cell_id ` set left" using rep(3) left_set by auto
  have sub: "set left \<subseteq> set all" using left_set by auto
  show ?thesis
  proof (cases "n < length pending")
    case True
    then obtain c r where "c \<in> set all" "sink_load C d' (cell_id c) = Inr r" "\<not> cr_reconcile_passes r"
      using left(3) all(2) write_summary_load [OF sum] by auto
    then show ?thesis using rep(1) all(1) left(1) True by blast
  next
    case False
    then have mis: "\<forall>i\<in>set (sr_missing_cell_ids rep). \<exists>c\<in>set all. i = cell_id c \<and> misnamed C d c"
      using left(5) ids sub by auto
    then have "\<not> (\<exists>c\<in>set all. misnamed C d c) \<longrightarrow> sr_missing_count rep = 0" using rep(2) by auto
    then show ?thesis using rep(1) all(1) mis by blast
  qed
qed

text \<open>
  \<open>--run-all\<close> does not measure again: on a directory that already holds a readable result for every
  cell, it leaves every file as it is and the world is only asked for the time.
\<close>

theorem run_all_measures_nothing:
  assumes "cells (bm_matrix_spec b) = Inr cs" and "\<forall>c\<in>set cs. \<exists>r. sink_load C d (cell_id c) = Inr r"
  shows "fst (snd (run_all R C W b stop (d, w))) = d \<and>
    snd (snd (run_all R C W b stop (d, w))) = snd (cw_utcnow W (snd (cw_utcnow W w)))"
  using assms by (rule run_all_stored)

section \<open>Examples\<close>

definition ex_config :: sweep_config where
  "ex_config = \<lparr>sw_topologies = Some [TOPO_DISAGG], sw_models = Some [QWEN3_1_7B], sw_rates_rps = Some [4],
     sw_mixes = Some [MIX_CHAT], sw_n_warmup = 1, sw_n_measure = 2, sw_cost_per_hour_usd = 2, sw_smoke = True,
     sw_max_model_len = Some 2500, sw_output_dir = ''out'', sw_pod_id = ''pod'', sw_vllm_base_url_env = ''URL''\<rparr>"

definition ex_args :: run_args where
  "ex_args = \<lparr>ra_topologies = None, ra_run_all = False, ra_approve_cost = False, ra_keep_going = True, ra_allow_overflow = False\<rparr>"

definition ex_dumps :: "cell_result option dumps" where
  "ex_dumps = \<lparr>du_preflight = (\<lambda>x. None), du_summary = (\<lambda>x. None)\<rparr>"

lemma ex_config_matrix: "to_matrix_spec ex_config = ex_matrix"
  by (simp add: to_matrix_spec_def ex_config_def ex_matrix_def)

lemma nat_str_4: "nat_str 4 = ''4''"
proof -
  have "char_of (of_char (CHR ''4'') :: nat) = CHR ''4''" by (rule char_of_char)
  then have "char_of (52 :: nat) = CHR ''4''" by simp
  then show ?thesis by (simp add: nat_str.simps digit_char_def)
qed

lemma ex_run_on:
  assumes "od_get d (sink_path (cell_id (ex_cell TOPO_DISAGG))) = None"
  shows "\<exists>r. run_cell counting_rng plain_codec (ex_world [ex_bench_telemetry 200 [0, 5]]) (ex_cell TOPO_DISAGG) (d, 1) =
     (Inr r, sink_write plain_codec r d, 4) \<and> cr_cell_id r = cell_id (ex_cell TOPO_DISAGG) \<and> cr_duration_s r = 1"
proof -
  obtain r where r: "run_cell counting_rng plain_codec (ex_world [ex_bench_telemetry 200 [0, 5]]) (ex_cell TOPO_DISAGG) ([], 1) =
     (Inr r, sink_write plain_codec r [], 4)" "cr_cell_id r = cell_id (ex_cell TOPO_DISAGG)" "cr_duration_s r = 1"
    using ex_run_from by blast
  have "execute_cell counting_rng plain_codec (ex_world [ex_bench_telemetry 200 [0, 5]]) (ex_cell TOPO_DISAGG) (d, 1) =
     (Inr r, sink_write plain_codec r d, 4)"
    using r(1) by (auto simp: run_cell_def sink_exists_def execute_cell_def split: sum.splits prod.splits)
  then show ?thesis using r assms by (auto simp: run_cell_def sink_exists_def)
qed

lemma ex_main:
  "\<exists>d'. run_matrix_main counting_rng plain_codec (ex_world [ex_bench_telemetry 200 [0, 5]]) ex_dumps ex_args
     [(''URL'', ''http'')] (Inr ex_config) ([], 0) = (Inr 0, d', 5)"
proof -
  let ?W = "ex_world [ex_bench_telemetry 200 [0, 5]]" and ?c = "ex_cell TOPO_DISAGG"
  obtain pf where pf: "build_prompt_preflight counting_rng [?c] (Some 2500) = Inr pf" "preflight_ok pf"
    using ex_preflight by blast
  let ?d = "record_preflight ex_dumps ex_config [?c] pf []"
  have d: "?d = [(''preflight.json'', None)]" by (simp add: record_preflight_def ex_dumps_def)
  have id: "cell_id ?c = cell_name TOPO_DISAGG QWEN3_1_7B 4 MIX_CHAT" by (simp add: cell_id_def ex_cell_def)
  have "od_get ?d (sink_path (cell_id ?c)) = None"
    by (simp add: d id sink_path_def cell_name_def)
  then obtain r where r: "run_cell counting_rng plain_codec ?W ?c (?d, 1) = (Inr r, sink_write plain_codec r ?d, 4)"
    "cr_cell_id r = cell_id ?c" "cr_duration_s r = 1" using ex_run_on by blast
  have now: "cw_utcnow ?W w = (w, w + 1)" for w by (simp add: ex_world_def)
  have pend: "pending_cell_specs plain_codec ?d ex_matrix = Inr [?c]"
    by (rule pending_preflight [OF _ ex_matrix_pending]) (simp add: dir_ok_def od_ok_def)
  let ?d1 = "sink_write plain_codec r ?d"
  let ?rep = "\<lparr>cp_n_cells_completed = 1, cp_n_cells_failed = 0, cp_total_duration_s = 1, cp_cost_usd = 5 / 3600 * 2 - 1 / 3600 * 2,
    cp_pod_id = ''pod'', cp_started_at = 0, cp_ended_at = 4\<rparr>"
  have run: "run_pending counting_rng plain_codec ?W (matrix_of ex_config) False (?d, 0) = (Inr ?rep, ?d1, 5)"
    using r pend by (simp add: run_pending_def run_matrix_specs_def matrix_of_def ex_config_matrix now CampaignReport_def)
      (simp add: ex_config_def)
  have path: "sink_path (cell_id ?c) = ''disagg__qwen3-1.7b__rate-4__chat.json''"
    by (simp add: id sink_path_def cell_name_def int_str_def nat_str_4)
  have tmp: "tmp_path (cell_id ?c) = ''disagg__qwen3-1.7b__rate-4__chat.json.tmp''"
    by (simp add: id tmp_path_def cell_name_def int_str_def nat_str_4)
  have name: "cell_id ?c = ''disagg__qwen3-1.7b__rate-4__chat''"
    by (simp add: id cell_name_def int_str_def nat_str_4)
  have d1: "?d1 = [(''preflight.json'', None), (''disagg__qwen3-1.7b__rate-4__chat.json'', Some r)]"
    by (simp add: sink_write_def replace_tmp_def write_tmp_def d r(2) path tmp od_del_def plain_codec_def)
  have "aggregate plain_codec ?d1 = Inr [r]"
    unfolding d1 by (simp add: aggregate_def json_files_def is_json_def Let_def plain_codec_def stem_def r(2) name)
  then obtain d2 where sum: "write_summary plain_codec (du_summary ex_dumps) ?rep 2 ?d1 = Inr d2"
    by (simp add: write_summary_def)
  have "run_and_summarize counting_rng plain_codec ?W ex_dumps ex_args ex_config (?d, 0) = (Inr 0, d2, 5)"
    using run sum by (simp add: run_and_summarize_def ex_args_def Let_def) (simp add: ex_config_def)
  moreover have "selected_cells plain_codec ex_args ex_config [] = Inr [?c]"
    using ex_matrix_pending by (simp add: selected_cells_def ex_args_def ex_config_matrix)
  moreover have "gate_code ex_args [(''URL'', ''http'')] ex_config [?c] pf = None"
    using pf(2) by (simp add: gate_code_None ex_config_def)
  ultimately show ?thesis
    using pf(1) by (simp add: run_matrix_main_def filtered_config_def ex_args_def) (simp add: ex_config_def)
qed

lemma no_spend_without_gates_witness:
  "\<exists>pending pf. selected_cells plain_codec ex_args ex_config [] = Inr pending \<and>
     build_prompt_preflight counting_rng pending (sw_max_model_len ex_config) = Inr pf \<and> preflight_ok pf"
proof -
  obtain d' where "run_matrix_main counting_rng plain_codec (ex_world [ex_bench_telemetry 200 [0, 5]]) ex_dumps ex_args
     [(''URL'', ''http'')] (Inr ex_config) ([], 0) = (Inr 0, d', 5)" using ex_main by blast
  from no_spend_without_gates [OF this] show ?thesis by (auto simp: filtered_config_def ex_args_def)
qed

lemma exit_zero_complete_witness:
  "\<exists>d' rep. sweep_completion_report plain_codec d' ex_matrix = Inr rep \<and> sr_missing_count rep = 0"
proof -
  obtain d' where run: "run_matrix_main counting_rng plain_codec (ex_world [ex_bench_telemetry 200 [0, 5]]) ex_dumps ex_args
     [(''URL'', ''http'')] (Inr ex_config) ([], 0) = (Inr 0, d', 5)" using ex_main by blast
  have "dir_ok ([] :: cell_result option directory)" "\<not> ra_run_all ex_args" "filtered_config ex_args ex_config = Inr ex_config"
    by (simp_all add: dir_ok_def od_ok_def ex_args_def filtered_config_def)
  from exit_zero_complete [OF plain_codec_ok this run] show ?thesis
    by (auto simp: ex_config_matrix ex_args_def misnamed_def sink_load_def)
qed

lemma run_all_measures_nothing_witness:
  "\<exists>r. fst (snd (run_all counting_rng plain_codec (ex_world []) ex_bench False
     ([(sink_path (cell_id (ex_cell TOPO_DISAGG)), Some r)], 7))) = [(sink_path (cell_id (ex_cell TOPO_DISAGG)), Some r)]"
proof -
  let ?r = "ex_result (cell_id (ex_cell TOPO_DISAGG)) TOPO_DISAGG True 5"
  have "cells (bm_matrix_spec ex_bench) = Inr [ex_cell TOPO_DISAGG]"
    by (simp add: ex_bench_def cells_def matrix_keys_def ex_matrix_def ex_cell_spec)
  moreover have "\<forall>c\<in>set [ex_cell TOPO_DISAGG]. \<exists>r. sink_load plain_codec [(sink_path (cell_id (ex_cell TOPO_DISAGG)), Some ?r)] (cell_id c) = Inr r"
    by (simp add: sink_load_def plain_codec_def)
  ultimately show ?thesis using run_all_measures_nothing [of ex_bench "[ex_cell TOPO_DISAGG]" plain_codec _ counting_rng "ex_world []" False 7] by blast
qed

end
