(* ===== verification/Sse.thy ===== *)
theory Sse
  imports PyJson PyText
begin

text \<open>
  \<open>loadgen/sse.py\<close>: the server-sent-event parser. The generator is modelled by what it has yielded when
  it stops, the clock after it, and the exception that ended it, if any. The clock is an iterator:
  \<open>tick c = None\<close> when it is exhausted.
\<close>

record token_event =
  te_content :: json
  te_ts_ns :: int
  te_finish_reason :: json
  te_reasoning :: bool

type_synonym 'c clock = "'c \<Rightarrow> (int \<times> 'c) option"

definition rstrip_eol :: "string \<Rightarrow> string" where
  "rstrip_eol s = rev (dropWhile (\<lambda>c. c = CHR 0x0D \<or> c = CHR 0x0A) (rev s))"

datatype line_effect = Skip | Stop | Event json json bool

text \<open>The body of the loop for one line, up to the clock: what the line amounts to.\<close>

definition sse_delta :: "json \<Rightarrow> line_effect result" where
  "sse_delta payload =
     rbind (jget payload ''choices'') (\<lambda>v.
     let choices = jor v (JList []) in
     if \<not> truthy choices then Inr Skip
     else
       rbind (jfirst choices) (\<lambda>c0.
       rbind (jget c0 ''delta'') (\<lambda>d.
       let delta = jor d (JObj []) in
       rbind (jget delta ''content'') (\<lambda>content.
       rbind (jget delta ''reasoning_content'') (\<lambda>reasoning_content.
       rbind (jget delta ''reasoning'') (\<lambda>reasoning_text.
       rbind (jget c0 ''finish_reason'') (\<lambda>finish.
         Inr (if truthy content then Event content finish False
              else if truthy reasoning_content \<or> truthy reasoning_text
              then Event (jor reasoning_content reasoning_text) finish True
              else Skip))))))))"

definition sse_line :: "json_parser \<Rightarrow> string \<Rightarrow> line_effect result" where
  "sse_line json_loads raw =
     (let line = rstrip_eol raw in
      if line = [] \<or> py_startswith line '':'' then Inr Skip
      else if \<not> py_startswith line ''data: '' then Inr Skip
      else let payload_str = py_strip (drop (length ''data: '') line) in
        if payload_str = ''[DONE]'' then Inr Stop
        else case json_loads payload_str of
               None \<Rightarrow> Inr Skip
             | Some payload \<Rightarrow> sse_delta payload)"

fun parse_sse_lines ::
  "json_parser \<Rightarrow> 'c clock \<Rightarrow> string list \<Rightarrow> 'c \<Rightarrow> token_event list \<times> 'c \<times> py_error option" where
  "parse_sse_lines json_loads tick [] c = ([], c, None)"
| "parse_sse_lines json_loads tick (raw # raws) c =
     (case sse_line json_loads raw of
        Inl e \<Rightarrow> ([], c, Some e)
      | Inr Skip \<Rightarrow> parse_sse_lines json_loads tick raws c
      | Inr Stop \<Rightarrow> ([], c, None)
      | Inr (Event body finish reasoning) \<Rightarrow>
          (case tick c of
             None \<Rightarrow> ([], c, Some RuntimeError)
           | Some (ts, c1) \<Rightarrow>
               (case parse_sse_lines json_loads tick raws c1 of
                  (evs, c2, e) \<Rightarrow>
                    (\<lparr>te_content = body, te_ts_ns = ts, te_finish_reason = finish, te_reasoning = reasoning\<rparr> # evs, c2, e))))"

section \<open>What the parser yields\<close>

lemma truthy_jor [simp]: "truthy (jor a b) \<longleftrightarrow> truthy a \<or> truthy b"
  by (simp add: jor_def)

lemma sse_delta_event: "sse_delta payload = Inr (Event body finish r) \<Longrightarrow> truthy body"
  by (auto simp: sse_delta_def Let_def rbind_eq_Inr jor_def split: if_splits)

lemma sse_delta_not_stop: "sse_delta payload \<noteq> Inr Stop"
  by (auto simp: sse_delta_def Let_def rbind_eq_Inr split: if_splits)

lemma sse_line_event: "sse_line json_loads raw = Inr (Event body finish r) \<Longrightarrow> truthy body"
  by (auto simp: sse_line_def Let_def dest: sse_delta_event split: if_splits option.splits)

text \<open>A clock that never goes back: \<open>low c\<close> bounds every later reading from below.\<close>

definition monotonic_clock :: "'c clock \<Rightarrow> ('c \<Rightarrow> int) \<Rightarrow> bool" where
  "monotonic_clock tick low \<longleftrightarrow> (\<forall>c ts c'. tick c = Some (ts, c') \<longrightarrow> low c \<le> ts \<and> ts \<le> low c')"

lemma parse_sse_sorted:
  assumes "monotonic_clock tick low"
  shows "parse_sse_lines json_loads tick raws c = (evs, c', e) \<Longrightarrow>
     sorted (map te_ts_ns evs) \<and> (\<forall>ev\<in>set evs. low c \<le> te_ts_ns ev \<and> te_ts_ns ev \<le> low c' \<and> truthy (te_content ev)) \<and> low c \<le> low c'"
proof (induction raws arbitrary: c evs)
  case Nil
  then show ?case by simp
next
  case (Cons raw raws)
  show ?case
  proof (cases "\<exists>body finish r. sse_line json_loads raw = Inr (Event body finish r)")
    case False
    then show ?thesis using Cons by (auto split: sum.splits line_effect.splits)
  next
    case True
    then obtain body finish r where ev: "sse_line json_loads raw = Inr (Event body finish r)" by blast
    show ?thesis
    proof (cases "tick c")
      case None
      then show ?thesis using Cons.prems ev by simp
    next
      case (Some p)
      obtain ts c1 where p: "p = (ts, c1)" by force
      obtain evs2 c2 e2 where rest: "parse_sse_lines json_loads tick raws c1 = (evs2, c2, e2)" by (metis surj_pair)
      have mono: "low c \<le> ts \<and> ts \<le> low c1" using assms Some p by (simp add: monotonic_clock_def)
      have out: "evs = \<lparr>te_content = body, te_ts_ns = ts, te_finish_reason = finish, te_reasoning = r\<rparr> # evs2" "c' = c2" "e = e2"
        using Cons.prems ev Some p rest by auto
      show ?thesis
        using Cons.IH [of c1 evs2] rest mono out sse_line_event [OF ev] by (auto intro: order_trans)
    qed
  qed
qed

text \<open>On a whole stream, nothing after a \<open>[DONE]\<close> line is read.\<close>

lemma parse_sse_done:
  assumes "sse_line json_loads done = Inr Stop"
  shows "parse_sse_lines json_loads tick (raws @ done # rest) c = parse_sse_lines json_loads tick raws c"
proof (induction raws arbitrary: c)
  case Nil
  then show ?case using assms by simp
next
  case (Cons raw raws)
  show ?case
    by (cases "sse_line json_loads raw") (auto simp: Cons.IH split: line_effect.splits option.splits prod.splits)
qed

lemma done_line: "sse_line json_loads ''data: [DONE]'' = Inr Stop"
  by (simp add: sse_line_def rstrip_eol_def py_startswith_def py_strip_def is_space_def)

end
