(* ===== verification/Arrival.thy ===== *)
theory Arrival
  imports PyRandom Trace
begin

text \<open>
  \<open>loadgen/arrival.py\<close>: the Poisson and on/off arrival processes and the open-loop scheduler. The inner
  loop of the on/off process draws until the phase ends; it is a partial function, \<open>None\<close> when it never
  returns, and it is shown to return when the generator's unit draws repeat and are not all zero.
\<close>

section \<open>Poisson arrivals\<close>

record 'g poisson =
  po_rate :: real
  po_rng :: 'g

definition PoissonArrival :: "'g rng \<Rightarrow> real \<Rightarrow> int \<Rightarrow> 'g poisson result" where
  "PoissonArrival R rate seed = (if rate \<le> 0 then Inl ValueError else Inr \<lparr>po_rate = rate, po_rng = rng_seed R seed\<rparr>)"

fun poisson_loop :: "'g rng \<Rightarrow> real \<Rightarrow> nat \<Rightarrow> real \<Rightarrow> 'g \<Rightarrow> real list \<times> 'g" where
  "poisson_loop R rate 0 t g = ([], g)"
| "poisson_loop R rate (Suc n) t g =
     (case expovariate R rate g of (d, g1) \<Rightarrow>
        case poisson_loop R rate n (t + d) g1 of (offsets, g2) \<Rightarrow> ((t + d) # offsets, g2))"

definition poisson_sample :: "'g rng \<Rightarrow> 'g poisson \<Rightarrow> int \<Rightarrow> (real list \<times> 'g poisson) result" where
  "poisson_sample R p n =
     (if n < 0 then Inl ValueError
      else if n = 0 then Inr ([], p)
      else case poisson_loop R (po_rate p) (nat n) 0 (po_rng p) of (offsets, g) \<Rightarrow> Inr (offsets, p\<lparr>po_rng := g\<rparr>))"

section \<open>On/off arrivals\<close>

record 'g onoff =
  oo_on_rate :: real
  oo_on_dur :: real
  oo_off_dur :: real
  oo_rng :: 'g

definition OnOffArrival :: "'g rng \<Rightarrow> real \<Rightarrow> real \<Rightarrow> real \<Rightarrow> int \<Rightarrow> 'g onoff result" where
  "OnOffArrival R on_rate on_dur off_dur seed =
     (if on_rate \<le> 0 then Inl ValueError
      else if on_dur \<le> 0 \<or> off_dur \<le> 0 then Inl ValueError
      else Inr \<lparr>oo_on_rate = on_rate, oo_on_dur = on_dur, oo_off_dur = off_dur, oo_rng = rng_seed R seed\<rparr>)"

partial_function (option) on_phase ::
  "'g rng \<Rightarrow> real \<Rightarrow> real \<Rightarrow> real \<Rightarrow> real list \<Rightarrow> 'g \<Rightarrow> (real list \<times> 'g) option" where
  "on_phase R rate on_end phase_t offsets g =
     (if phase_t < on_end
      then on_phase R rate on_end (phase_t + fst (expovariate R rate g))
             (if phase_t + fst (expovariate R rate g) < on_end
              then offsets @ [phase_t + fst (expovariate R rate g)] else offsets)
             (snd (expovariate R rate g))
      else Some (offsets, g))"

definition cycle_len :: "'g onoff \<Rightarrow> real" where
  "cycle_len p = oo_on_dur p + oo_off_dur p"

text \<open>The loop over cycles, with its safety stop; \<open>t\<close> is the start of cycle \<open>cycle_idx\<close>.\<close>

function onoff_loop ::
  "'g rng \<Rightarrow> 'g onoff \<Rightarrow> real \<Rightarrow> int \<Rightarrow> int \<Rightarrow> real \<Rightarrow> real list \<Rightarrow> 'g \<Rightarrow> (real list \<times> 'g) option" where
  "onoff_loop R p duration_s n_cycles cycle_idx t offsets g =
     (if t < duration_s
      then let cycle_start = real_of_int cycle_idx * cycle_len p;
               on_end = (if cycle_start + oo_on_dur p > duration_s then duration_s else cycle_start + oo_on_dur p)
           in case on_phase R (oo_on_rate p) on_end cycle_start offsets g of
                None \<Rightarrow> None
              | Some (offsets', g') \<Rightarrow>
                  if cycle_idx + 1 > n_cycles + 1 then Some (offsets', g')
                  else onoff_loop R p duration_s n_cycles (cycle_idx + 1) (cycle_start + cycle_len p) offsets' g'
      else Some (offsets, g))"
  by pat_completeness auto
termination
  by (relation "measure (\<lambda>(R, p, d, n, i, t, offs, g). nat (n + 2 - i))") auto

declare onoff_loop.simps [simp del]

definition onoff_sample :: "'g rng \<Rightarrow> 'g onoff \<Rightarrow> real \<Rightarrow> (real list \<times> 'g onoff) option" where
  "onoff_sample R p duration_s =
     (if duration_s \<le> 0 then Some ([], p)
      else case onoff_loop R p duration_s (\<lfloor>duration_s / cycle_len p\<rfloor> + 1) 0 0 [] (oo_rng p) of
             None \<Rightarrow> None
           | Some (offsets, g) \<Rightarrow> Some (offsets, p\<lparr>oo_rng := g\<rparr>))"

section \<open>The open-loop scheduler\<close>

record scheduler =
  sc_trace :: trace
  sc_offsets :: "real list"

text \<open>\<open>__init__\<close>: \<open>None\<close> when sampling never returns.\<close>

definition OpenLoopScheduler :: "'g rng \<Rightarrow> trace \<Rightarrow> scheduler result option" where
  "OpenLoopScheduler R tr =
     (case ar_process (tr_arrival tr) of
        Poisson \<Rightarrow>
          Some (rbind (PoissonArrival R (ar_rate_per_sec (tr_arrival tr)) (ar_seed (tr_arrival tr))) (\<lambda>p.
            rbind (poisson_sample R p (int (n_requests tr))) (\<lambda>(offsets, p').
              Inr \<lparr>sc_trace = tr, sc_offsets = offsets\<rparr>)))
      | OnOff \<Rightarrow>
          (case (ar_on_duration_s (tr_arrival tr), ar_off_duration_s (tr_arrival tr)) of
             (Some on, Some off) \<Rightarrow>
               (case OnOffArrival R (ar_rate_per_sec (tr_arrival tr)) on off (ar_seed (tr_arrival tr)) of
                  Inl e \<Rightarrow> Some (Inl e)
                | Inr p \<Rightarrow>
                    (case onoff_sample R p (tr_duration_s tr) of
                       None \<Rightarrow> None
                     | Some (offsets, p') \<Rightarrow> Some (Inr \<lparr>sc_trace = tr, sc_offsets = offsets\<rparr>)))
           | _ \<Rightarrow> Some (Inl AssertionError)))"

text \<open>\<open>__iter__\<close> from the clock reading \<open>t0_ns\<close>; \<open>i\<close> is the index of the next offset.\<close>

fun schedule_from :: "request_spec list \<Rightarrow> int \<Rightarrow> nat \<Rightarrow> real list \<Rightarrow> (request_spec \<times> int) list" where
  "schedule_from requests t0_ns i [] = []"
| "schedule_from requests t0_ns i (offset_s # offsets) =
     (if i \<ge> length requests then []
      else (requests ! i, t0_ns + py_int (offset_s * 1000000000)) # schedule_from requests t0_ns (Suc i) offsets)"

definition schedule :: "scheduler \<Rightarrow> int \<Rightarrow> (request_spec \<times> int) list" where
  "schedule s t0_ns = schedule_from (tr_requests (sc_trace s)) t0_ns 0 (sc_offsets s)"

definition n_scheduled :: "scheduler \<Rightarrow> nat" where
  "n_scheduled s = min (length (sc_offsets s)) (length (tr_requests (sc_trace s)))"

section \<open>Sampling\<close>

lemma poisson_loop_sorted:
  assumes "rng_ok R" "0 < rate"
  shows "poisson_loop R rate n t g = (offsets, g') \<Longrightarrow> length offsets = n \<and> sorted offsets \<and> (\<forall>x\<in>set offsets. t \<le> x)"
proof (induction n arbitrary: t g offsets)
  case 0
  then show ?case by simp
next
  case (Suc n)
  obtain d g1 where d: "expovariate R rate g = (d, g1)" by force
  obtain offs g2 where rest: "poisson_loop R rate n (t + d) g1 = (offs, g2)" by force
  have "0 \<le> d" using expovariate_nonneg [OF assms, of g] d by simp
  then show ?case using Suc.IH [of "t + d" g1 offs] Suc.prems d rest by fastforce
qed

text \<open>What a phase adds: an ordered run of offsets within the phase.\<close>

lemma on_phase_sound:
  assumes "rng_ok R" "0 < rate" and ret: "on_phase R rate on_end phase_t offsets g = Some res"
  shows "\<exists>new. fst res = offsets @ new \<and> sorted new \<and> (\<forall>x\<in>set new. phase_t \<le> x \<and> x < on_end)"
proof -
  let ?P = "\<lambda>R rate on_end phase_t offsets g (res :: real list \<times> 'a). rng_ok R \<longrightarrow> 0 < rate \<longrightarrow>
    (\<exists>new. fst res = offsets @ new \<and> sorted new \<and> (\<forall>x\<in>set new. phase_t \<le> x \<and> x < on_end))"
  have "?P R rate on_end phase_t offsets g res"
  proof (rule on_phase.raw_induct [where P = ?P, OF _ ret])
    fix f :: "'a rng \<Rightarrow> real \<Rightarrow> real \<Rightarrow> real \<Rightarrow> real list \<Rightarrow> 'a \<Rightarrow> (real list \<times> 'a) option"
      and R rate on_end phase_t offsets g and res :: "real list \<times> 'a"
    assume IH: "\<And>R rate on_end phase_t offsets g res. f R rate on_end phase_t offsets g = Some res \<Longrightarrow> ?P R rate on_end phase_t offsets g res"
      and eq: "(if phase_t < on_end
        then f R rate on_end (phase_t + fst (expovariate R rate g))
             (if phase_t + fst (expovariate R rate g) < on_end
              then offsets @ [phase_t + fst (expovariate R rate g)] else offsets)
             (snd (expovariate R rate g))
        else Some (offsets, g)) = Some res"
    show "?P R rate on_end phase_t offsets g res"
    proof (intro impI)
      assume ok: "rng_ok R" "0 < rate"
      show "\<exists>new. fst res = offsets @ new \<and> sorted new \<and> (\<forall>x\<in>set new. phase_t \<le> x \<and> x < on_end)"
      proof (cases "phase_t < on_end")
        case False
        then show ?thesis using eq by (intro exI [of _ "[]"]) auto
      next
        case True
        let ?d = "fst (expovariate R rate g)"
        have d: "0 \<le> ?d" using expovariate_nonneg [OF ok] .
        let ?offs = "if phase_t + ?d < on_end then offsets @ [phase_t + ?d] else offsets"
        obtain new where new: "fst res = ?offs @ new" "sorted new" "\<forall>x\<in>set new. phase_t + ?d \<le> x \<and> x < on_end"
          using IH [of R rate on_end "phase_t + ?d" ?offs "snd (expovariate R rate g)" res] eq True ok by auto
        show ?thesis
        proof (cases "phase_t + ?d < on_end")
          case True
          then show ?thesis using new d by (intro exI [of _ "(phase_t + ?d) # new"]) auto
        next
          case False
          then show ?thesis using new d by (intro exI [of _ new]) auto
        qed
      qed
    qed
  qed
  then show ?thesis using assms(1,2) by blast
qed

text \<open>
  The unit draws from a state on. The twister is documented to have a period (of 2 to the 19937 less one) and to
  be uniform on the unit interval: the sequence of draws repeats, and not all of them are zero. Single draws,
  and any number of them within the period, may be zero.
\<close>

fun draw_state :: "'g rng \<Rightarrow> nat \<Rightarrow> 'g \<Rightarrow> 'g" where
  "draw_state R 0 g = g"
| "draw_state R (Suc n) g = draw_state R n (snd (rng_unit R g))"

definition unit_draw :: "'g rng \<Rightarrow> nat \<Rightarrow> 'g \<Rightarrow> real" where
  "unit_draw R n g = fst (rng_unit R (draw_state R n g))"

definition rng_periodic :: "'g rng \<Rightarrow> 'g \<Rightarrow> bool" where
  "rng_periodic R g \<longleftrightarrow> (\<exists>period>0. \<forall>n. unit_draw R (n + period) g = unit_draw R n g) \<and> (\<exists>n. unit_draw R n g \<noteq> 0)"

text \<open>What the loops need of it: again and again, a draw is at least \<open>u\<close>.\<close>

definition keeps_drawing :: "'g rng \<Rightarrow> real \<Rightarrow> 'g \<Rightarrow> bool" where
  "keeps_drawing R u g \<longleftrightarrow> 0 < u \<and> (\<forall>m. \<exists>n\<ge>m. u \<le> unit_draw R n g)"

lemma unit_draw_0 [simp]: "unit_draw R 0 g = fst (rng_unit R g)"
  by (simp add: unit_draw_def)

lemma unit_draw_Suc [simp]: "unit_draw R (Suc n) g = unit_draw R n (snd (rng_unit R g))"
  by (simp add: unit_draw_def)

lemma periodic_keeps_drawing:
  assumes "rng_ok R" "rng_periodic R g"
  shows "\<exists>u. keeps_drawing R u g"
proof -
  obtain period n where per: "0 < period" "\<And>n. unit_draw R (n + period) g = unit_draw R n g" "unit_draw R n g \<noteq> 0"
    using assms(2) by (auto simp: rng_periodic_def)
  have rep: "unit_draw R (n + k * period) g = unit_draw R n g" for k
  proof (induction k)
    case (Suc k)
    then show ?case using per(2) [of "n + k * period"] by (simp add: algebra_simps)
  qed simp
  have "m \<le> n + m * period" for m
    by (rule trans_le_add2) (use per(1) in simp)
  then have "\<exists>i\<ge>m. unit_draw R n g \<le> unit_draw R i g" for m using rep by (metis order_refl)
  moreover have "0 \<le> unit_draw R n g" using assms(1) by (simp add: unit_draw_def rng_ok_def)
  ultimately have "keeps_drawing R (unit_draw R n g) g" using per(3) by (simp add: keeps_drawing_def)
  then show ?thesis ..
qed

lemma keeps_drawing_next: "keeps_drawing R u g \<Longrightarrow> keeps_drawing R u (snd (rng_unit R g))"
  unfolding keeps_drawing_def by (metis Suc_le_D Suc_le_mono unit_draw_Suc)

lemma expovariate_state [simp]: "snd (expovariate R rate g) = snd (rng_unit R g)"
  by (simp add: expovariate_def case_prod_beta)

lemma expovariate_advances:
  assumes "rng_ok R" "0 < u" "u \<le> fst (rng_unit R g)" "0 < rate"
  shows "0 < - ln (1 - u) / rate \<and> - ln (1 - u) / rate \<le> fst (expovariate R rate g)"
proof -
  have lt: "fst (rng_unit R g) < 1" using assms(1) by (simp add: rng_ok_def)
  then have "ln (1 - fst (rng_unit R g)) \<le> ln (1 - u)" using assms(3) by simp
  then have "- ln (1 - u) / rate \<le> - ln (1 - fst (rng_unit R g)) / rate"
    using assms(4) by (intro divide_right_mono) auto
  moreover have "ln (1 - u) < 0" using assms(2,3) lt by simp
  then have "0 < - ln (1 - u) / rate" using assms(4) by (intro divide_pos_pos) auto
  ultimately show ?thesis by (simp add: expovariate_def case_prod_beta)
qed

text \<open>
  A phase ends: by induction on the large draws still needed to leave it and, below that, on the number of
  draws until the next large one.
\<close>

lemma on_phase_ended: "\<not> phase_t < on_end \<Longrightarrow> on_phase R rate on_end phase_t offsets g = Some (offsets, g)"
  by (subst on_phase.simps) simp

lemma on_phase_returns:
  assumes "rng_ok R" "keeps_drawing R u g" "0 < rate"
  shows "\<exists>offsets' g'. on_phase R rate on_end phase_t offsets g = Some (offsets', g') \<and> keeps_drawing R u g'"
proof -
  define gap where "gap = - ln (1 - u) / rate"
  have u: "0 < u" using assms(2) by (simp add: keeps_drawing_def)
  have large: "gap \<le> fst (expovariate R rate g)" if "u \<le> fst (rng_unit R g)" for g
    using expovariate_advances [OF assms(1) u that assms(3)] by (simp add: gap_def)
  obtain k where "u \<le> unit_draw R k g" using assms(2) by (auto simp: keeps_drawing_def)
  then have gap: "0 < gap"
    using expovariate_advances [OF assms(1) u _ assms(3)] by (auto simp: gap_def unit_draw_def)
  have "\<exists>offsets' g'. on_phase R rate on_end phase_t offsets g = Some (offsets', g') \<and> keeps_drawing R u g'"
    if "on_end - phase_t \<le> real n * gap" "keeps_drawing R u g" for n phase_t offsets g
    using that
  proof (induction n arbitrary: phase_t offsets g)
    case 0
    then show ?case by (simp add: on_phase_ended)
  next
    case (Suc n)
    obtain k where "u \<le> unit_draw R k g" using Suc.prems(2) by (auto simp: keeps_drawing_def)
    with Suc.prems show ?case
    proof (induction k arbitrary: phase_t offsets g)
      case 0
      have "on_end - (phase_t + fst (expovariate R rate g)) \<le> real n * gap"
        using 0(1) large [of g] 0(3) by (simp add: distrib_right)
      from Suc.IH [OF this keeps_drawing_next [OF 0(2)]] show ?case using 0(2) by (subst on_phase.simps) auto
    next
      case (Suc k)
      have "on_end - (phase_t + fst (expovariate R rate g)) \<le> real (Suc n) * gap"
        using Suc.prems(1) expovariate_nonneg [OF assms(1,3), of g] by linarith
      from Suc.IH [OF this keeps_drawing_next [OF Suc.prems(2)]] Suc.prems(3) show ?case using Suc.prems(2) by (subst on_phase.simps) auto
    qed
  qed
  moreover obtain n where "on_end - phase_t \<le> real n * gap"
    using reals_Archimedean3 [OF gap] less_imp_le by blast
  ultimately show ?thesis using assms(2) by blast
qed

lemma onoff_loop_returns:
  assumes "rng_ok R" "keeps_drawing R u g" "0 < oo_on_rate p"
  shows "\<exists>res. onoff_loop R p d n i t offs g = Some res"
  using assms
proof (induction R p d n i t offs g rule: onoff_loop.induct)
  case (1 R p d n i t offs g)
  let ?start = "real_of_int i * cycle_len p"
  let ?on_end = "if ?start + oo_on_dur p > d then d else ?start + oo_on_dur p"
  obtain offs' g' where ph: "on_phase R (oo_on_rate p) ?on_end ?start offs g = Some (offs', g')" "keeps_drawing R u g'"
    using on_phase_returns [OF 1(2-4), of ?on_end ?start offs] by blast
  show ?case
  proof (cases "t < d \<and> \<not> i + 1 > n + 1")
    case True
    have "\<exists>res. onoff_loop R p d n (i + 1) (?start + cycle_len p) offs' g' = Some res"
      by (rule 1(1) [OF _ refl refl ph(1) refl]) (use True 1(2-) ph(2) in auto)
    then show ?thesis using True ph(1) by (subst onoff_loop.simps) (simp add: Let_def)
  next
    case False
    then show ?thesis using ph(1) by (subst onoff_loop.simps) (auto simp: Let_def)
  qed
qed

text \<open>The phases during which requests may arrive.\<close>

definition in_on_phase :: "'g onoff \<Rightarrow> real \<Rightarrow> bool" where
  "in_on_phase p x \<longleftrightarrow> (\<exists>k::nat. real k * cycle_len p \<le> x \<and> x < real k * cycle_len p + oo_on_dur p)"

definition onoff_ok :: "'g onoff \<Rightarrow> bool" where
  "onoff_ok p \<longleftrightarrow> 0 < oo_on_rate p \<and> 0 < oo_on_dur p \<and> 0 < oo_off_dur p"

lemma OnOffArrival_ok: "OnOffArrival R rate on off seed = Inr p \<Longrightarrow>
    onoff_ok p \<and> oo_on_rate p = rate \<and> oo_on_dur p = on \<and> oo_off_dur p = off"
  by (auto simp: OnOffArrival_def onoff_ok_def split: if_splits)

lemma onoff_loop_sound:
  assumes "rng_ok R" "onoff_ok p" "onoff_loop R p d n i t offs g = Some (offs', g')"
    and "0 \<le> i" "t = real_of_int i * cycle_len p" "sorted offs" "\<forall>x\<in>set offs. x \<le> t \<and> x < d \<and> in_on_phase p x"
  shows "sorted offs' \<and> (\<forall>x\<in>set offs'. x < d \<and> in_on_phase p x)"
  using assms
proof (induction R p d n i t offs g rule: onoff_loop.induct)
  case (1 R p d n i t offs g)
  let ?start = "real_of_int i * cycle_len p"
  let ?on_end = "if ?start + oo_on_dur p > d then d else ?start + oo_on_dur p"
  show ?case
  proof (cases "t < d")
    case False
    then show ?thesis using 1(4-) by (subst (asm) onoff_loop.simps) simp
  next
    case True
    then obtain o1 g1 where ph: "on_phase R (oo_on_rate p) ?on_end ?start offs g = Some (o1, g1)"
      using 1(4) by (subst (asm) onoff_loop.simps) (auto simp: Let_def split: option.splits)
    have "0 < oo_on_rate p" and dur: "0 < oo_on_dur p" "0 < oo_off_dur p" using 1(3) by (simp_all add: onoff_ok_def)
    then obtain new where new: "o1 = offs @ new" "sorted new" "\<forall>x\<in>set new. ?start \<le> x \<and> x < ?on_end"
      using on_phase_sound [OF 1(2) _ ph] by auto
    have win: "x < d \<and> in_on_phase p x \<and> x \<le> ?start + cycle_len p" if "x \<in> set new" for x
    proof -
      have x: "?start \<le> x" "x < ?on_end" using new(3) that by auto
      then have "x < d" "x < ?start + oo_on_dur p" by (auto split: if_splits)
      moreover have "real (nat i) = real_of_int i" using 1(5) by simp
      ultimately show ?thesis
        using x(1) dur unfolding in_on_phase_def by (auto simp: cycle_len_def intro!: exI [of _ "nat i"])
    qed
    have o1: "sorted o1" "\<forall>x\<in>set o1. x \<le> ?start + cycle_len p \<and> x < d \<and> in_on_phase p x"
      using new win 1(6-) dur by (fastforce simp: sorted_append cycle_len_def)+
    show ?thesis
    proof (cases "i + 1 > n + 1")
      case stop: True
      have "(offs', g') = (o1, g1)"
        using 1(4) True ph stop by (subst (asm) onoff_loop.simps) (simp add: Let_def)
      then show ?thesis using o1 by auto
    next
      case go: False
      have "onoff_loop R p d n (i + 1) (?start + cycle_len p) o1 g1 = Some (offs', g')"
        using 1(4) True ph go by (subst (asm) onoff_loop.simps) (simp add: Let_def)
      then show ?thesis
        by (rule 1(1) [OF True refl refl ph refl go 1(2,3)]) (use 1(5) o1 in \<open>auto simp: distrib_right\<close>)
    qed
  qed
qed

text \<open>The safety stop never fires: a larger bound on the number of cycles changes nothing.\<close>

lemma onoff_loop_bound:
  assumes "0 < cycle_len p" "\<lfloor>d / cycle_len p\<rfloor> + 1 \<le> n" "n \<le> m" "t = real_of_int i * cycle_len p"
  shows "onoff_loop R p d n i t offs g = onoff_loop R p d m i t offs g"
  using assms
proof (induction R p d n i t offs g rule: onoff_loop.induct)
  case (1 R p d n i t offs g)
  let ?start = "real_of_int i * cycle_len p"
  let ?on_end = "if ?start + oo_on_dur p > d then d else ?start + oo_on_dur p"
  show ?case
  proof (cases "t < d")
    case False
    then show ?thesis by (simp add: onoff_loop.simps [of R p d _ i t offs g])
  next
    case True
    then have "real_of_int i < d / cycle_len p" using 1(2,5) by (simp add: pos_less_divide_eq)
    then have "i \<le> \<lfloor>d / cycle_len p\<rfloor>" by linarith
    then have i: "\<not> i + 1 > n + 1" "\<not> i + 1 > m + 1" using 1(3,4) by auto
    show ?thesis
    proof (cases "on_phase R (oo_on_rate p) ?on_end ?start offs g")
      case None
      then show ?thesis using True by (simp add: onoff_loop.simps [of R p d _ i t offs g] Let_def)
    next
      case (Some r)
      obtain o1 g1 where r: "r = (o1, g1)" by force
      have "onoff_loop R p d n (i + 1) (?start + cycle_len p) o1 g1 = onoff_loop R p d m (i + 1) (?start + cycle_len p) o1 g1"
        by (rule 1(1) [OF True refl refl Some [unfolded r] refl i(1) 1(2-4)]) (simp add: distrib_right)
      then show ?thesis using True Some r i
        by (simp add: onoff_loop.simps [of R p d n i t offs g] onoff_loop.simps [of R p d m i t offs g] Let_def)
    qed
  qed
qed

section \<open>Scheduling\<close>

lemma schedule_from_eq:
  "schedule_from requests t0 i offsets =
     map (\<lambda>(r, x). (r, t0 + py_int (x * 1000000000))) (zip (drop i requests) offsets)"
proof (induction offsets arbitrary: i)
  case Nil
  then show ?case by simp
next
  case (Cons x offsets)
  show ?case
  proof (cases "i < length requests")
    case True
    then show ?thesis using Cons by (simp add: Cons_nth_drop_Suc [symmetric])
  next
    case False
    then show ?thesis by simp
  qed
qed

lemma schedule_length: "length (schedule s t0) = n_scheduled s"
  by (simp add: schedule_def schedule_from_eq n_scheduled_def min.commute)

lemma schedule_requests: "map fst (schedule s t0) = take (n_scheduled s) (tr_requests (sc_trace s))"
  by (simp add: schedule_def schedule_from_eq n_scheduled_def case_prod_beta comp_def map_fst_zip_take min.commute)

lemma schedule_times: "map snd (schedule s t0) = map (\<lambda>x. t0 + py_int (x * 1000000000)) (take (n_scheduled s) (sc_offsets s))"
proof -
  let ?z = "zip (tr_requests (sc_trace s)) (sc_offsets s)"
  have "map snd (schedule s t0) = map (\<lambda>x. t0 + py_int (x * 1000000000)) (map snd ?z)"
    by (simp add: schedule_def schedule_from_eq case_prod_beta comp_def)
  then show ?thesis by (simp add: map_snd_zip_take n_scheduled_def min.commute)
qed

lemma sorted_ns:
  assumes "sorted xs" "\<forall>x\<in>set xs. 0 \<le> x"
  shows "sorted (map (\<lambda>x. t0 + py_int (x * 1000000000)) xs) \<and> (\<forall>x\<in>set xs. t0 \<le> t0 + py_int (x * 1000000000))"
proof -
  have "py_int (x * 1000000000) \<le> py_int (y * 1000000000)" if "x \<le> y" for x y :: real
    using that by (intro py_int_mono) simp
  then have "sorted (map (\<lambda>x. t0 + py_int (x * 1000000000)) xs)"
    using assms(1) by (induction xs) auto
  moreover have "0 \<le> py_int (x * 1000000000)" if "0 \<le> x" for x using that by (simp add: py_int_nonneg)
  ultimately show ?thesis using assms(2) by auto
qed

text \<open>The offsets of a built scheduler are ordered, non-negative, and for the on/off process within phases.\<close>

lemma scheduler_offsets:
  assumes "rng_ok R" "OpenLoopScheduler R tr = Some (Inr s)"
  shows "sc_trace s = tr \<and> sorted (sc_offsets s) \<and> (\<forall>x\<in>set (sc_offsets s). 0 \<le> x) \<and>
    (ar_process (tr_arrival tr) = Poisson \<longrightarrow> length (sc_offsets s) = n_requests tr)"
proof (cases "ar_process (tr_arrival tr)")
  case Poisson
  let ?rate = "ar_rate_per_sec (tr_arrival tr)"
  obtain p offs p' where p: "PoissonArrival R ?rate (ar_seed (tr_arrival tr)) = Inr p"
    and smp: "poisson_sample R p (int (n_requests tr)) = Inr (offs, p')" and s: "s = \<lparr>sc_trace = tr, sc_offsets = offs\<rparr>"
    using assms(2) Poisson by (auto simp: OpenLoopScheduler_def rbind_eq_Inr)
  have rate: "0 < po_rate p" using p by (auto simp: PoissonArrival_def split: if_splits)
  have "sorted offs \<and> (\<forall>x\<in>set offs. 0 \<le> x) \<and> length offs = n_requests tr"
    using smp poisson_loop_sorted [OF assms(1) rate, of "n_requests tr" 0 "po_rng p"]
    by (auto simp: poisson_sample_def split: if_splits prod.splits)
  then show ?thesis by (simp add: s)
next
  case OnOff
  obtain on off p offs p' where p: "OnOffArrival R (ar_rate_per_sec (tr_arrival tr)) on off (ar_seed (tr_arrival tr)) = Inr p"
    and smp: "onoff_sample R p (tr_duration_s tr) = Some (offs, p')" and s: "s = \<lparr>sc_trace = tr, sc_offsets = offs\<rparr>"
    using assms(2) OnOff by (auto simp: OpenLoopScheduler_def split: option.splits sum.splits prod.splits)
  have ok: "onoff_ok p" using OnOffArrival_ok [OF p] by blast
  have "sorted offs \<and> (\<forall>x\<in>set offs. 0 \<le> x)"
  proof (cases "tr_duration_s tr \<le> 0")
    case True
    then show ?thesis using smp by (simp add: onoff_sample_def)
  next
    case False
    then obtain g where "onoff_loop R p (tr_duration_s tr) (\<lfloor>tr_duration_s tr / cycle_len p\<rfloor> + 1) 0 0 [] (oo_rng p) = Some (offs, g)"
      using smp by (auto simp: onoff_sample_def split: option.splits)
    from onoff_loop_sound [OF assms(1) ok this]
    have "sorted offs" "\<forall>x\<in>set offs. in_on_phase p x" by auto
    moreover have "0 \<le> x" if phase: "in_on_phase p x" for x
    proof -
      obtain k :: nat where k: "real k * cycle_len p \<le> x" using phase unfolding in_on_phase_def by blast
      have "0 \<le> real k * cycle_len p" using ok by (simp add: onoff_ok_def cycle_len_def)
      with k show ?thesis by linarith
    qed
    ultimately show ?thesis by blast
  qed
  then show ?thesis by (simp add: s OnOff)
qed

section \<open>Properties\<close>

text \<open>
  The schedule is open-loop and ordered. A scheduler built from a trace yields its first requests in
  trace order, as many as there are both offsets and requests (all of them for a Poisson process), with
  arrival times that start at the clock reading and never decrease.
\<close>

theorem schedule_ordered:
  assumes "rng_ok R" and "OpenLoopScheduler R tr = Some (Inr s)"
  shows "map fst (schedule s t0) = take (n_scheduled s) (tr_requests tr) \<and> length (schedule s t0) = n_scheduled s \<and>
    sorted (map snd (schedule s t0)) \<and> (\<forall>e\<in>set (schedule s t0). t0 \<le> snd e) \<and>
    (ar_process (tr_arrival tr) = Poisson \<longrightarrow> n_scheduled s = n_requests tr)"
proof -
  note offs = scheduler_offsets [OF assms]
  let ?xs = "take (n_scheduled s) (sc_offsets s)"
  have xs: "sorted ?xs" "\<forall>x\<in>set ?xs. 0 \<le> x" using offs sorted_wrt_take by (auto dest: in_set_takeD)
  have "\<forall>t\<in>set (map snd (schedule s t0)). t0 \<le> t"
    unfolding schedule_times using sorted_ns [OF xs, of t0] by auto
  then have "\<forall>e\<in>set (schedule s t0). t0 \<le> snd e" by auto
  moreover have "sorted (map snd (schedule s t0))" unfolding schedule_times using sorted_ns [OF xs] by blast
  ultimately show ?thesis using offs schedule_requests [of s t0] schedule_length [of s t0]
    by (auto simp: n_scheduled_def n_requests_def)
qed

text \<open>
  C14: On/off arrivals fall into on phases, and sampling ends. For a validated process, and a generator whose
  unit draws lie in the half-open unit interval, repeat after some period from the seed on and are not all
  zero, sampling returns, with ordered offsets before the duration, each inside the on phase of some
  cycle. A draw of zero, which moves the phase clock by nothing, is allowed.
\<close>

theorem onoff_arrivals_in_phase:
  assumes "rng_ok R" and "rng_periodic R (rng_seed R seed)" and "OnOffArrival R rate on off seed = Inr p" and "0 < duration"
  shows "\<exists>offsets p'. onoff_sample R p duration = Some (offsets, p') \<and> sorted offsets \<and>
    (\<forall>x\<in>set offsets. x < duration \<and> (\<exists>k::nat. real k * (on + off) \<le> x \<and> x < real k * (on + off) + on))"
proof -
  have ok: "onoff_ok p" and dur: "oo_on_dur p = on" "oo_off_dur p = off" using OnOffArrival_ok [OF assms(3)] by auto
  have rng: "oo_rng p = rng_seed R seed" using assms(3) by (auto simp: OnOffArrival_def split: if_splits)
  let ?n = "\<lfloor>duration / cycle_len p\<rfloor> + 1"
  obtain u where "keeps_drawing R u (oo_rng p)" using periodic_keeps_drawing [OF assms(1,2)] rng by auto
  then obtain offs g where run: "onoff_loop R p duration ?n 0 0 [] (oo_rng p) = Some (offs, g)"
    using onoff_loop_returns [OF assms(1), of u "oo_rng p" p duration ?n 0 0 "[]"] ok by (auto simp: onoff_ok_def)
  from onoff_loop_sound [OF assms(1) ok run] have "sorted offs" "\<forall>x\<in>set offs. x < duration \<and> in_on_phase p x" by auto
  then show ?thesis using run assms(4) by (simp add: onoff_sample_def in_on_phase_def cycle_len_def dur)
qed

definition ex_trace :: trace where
  "ex_trace = \<lparr>tr_workload = CHAT, tr_seed = 0, tr_duration_s = 10,
     tr_arrival = \<lparr>ar_process = Poisson, ar_rate_per_sec = 2, ar_seed = 0, ar_on_duration_s = None, ar_off_duration_s = None\<rparr>,
     tr_requests = [\<lparr>rq_id = ''a'', rq_slo_class = BATCH, rq_workload = CHAT, rq_prompt_tokens = 1, rq_output_tokens = 1, rq_prompt_text = ''a''\<rparr>,
                    \<lparr>rq_id = ''b'', rq_slo_class = BATCH, rq_workload = CHAT, rq_prompt_tokens = 1, rq_output_tokens = 1, rq_prompt_text = ''b''\<rparr>]\<rparr>"

lemma ex_scheduler: "OpenLoopScheduler counting_rng ex_trace = Some (Inr \<lparr>sc_trace = ex_trace, sc_offsets = [1 / 2, 1]\<rparr>)"
  by (simp add: OpenLoopScheduler_def ex_trace_def PoissonArrival_def poisson_sample_def n_requests_def eval_nat_numeral)

theorem schedule_ordered_witness:
  "map snd (schedule \<lparr>sc_trace = ex_trace, sc_offsets = [1 / 2, 1]\<rparr> 100) = [500000100, 1000000100] \<and>
   n_scheduled \<lparr>sc_trace = ex_trace, sc_offsets = [1 / 2, 1]\<rparr> = 2"
proof -
  have "n_scheduled \<lparr>sc_trace = ex_trace, sc_offsets = [1 / 2, 1]\<rparr> = 2"
    using schedule_ordered [OF counting_rng_ok ex_scheduler, of 100] by (simp add: ex_trace_def n_requests_def)
  then show ?thesis by (simp add: schedule_def ex_trace_def py_int_def)
qed

text \<open>A generator whose draws alternate between zero and one half.\<close>

definition halting_rng :: "bool rng" where
  "halting_rng = \<lparr>rng_seed = (\<lambda>_. False), rng_below = (\<lambda>n g. (0, g)), rng_unit = (\<lambda>g. (if g then 1 / 2 else 0, \<not> g))\<rparr>"

lemma halting_rng_ok: "rng_ok halting_rng"
  by (simp add: rng_ok_def halting_rng_def)

lemma halting_rng_periodic: "rng_periodic halting_rng g"
proof -
  have "unit_draw halting_rng (n + 2) g = unit_draw halting_rng n g" for n
    by (induction n arbitrary: g) (simp_all add: halting_rng_def numeral_2_eq_2)
  then have "\<exists>period>0. \<forall>n. unit_draw halting_rng (n + period) g = unit_draw halting_rng n g"
    by (intro exI [of _ 2]) simp
  moreover have "\<exists>n. unit_draw halting_rng n g \<noteq> 0"
    by (rule exI [of _ "if g then 0 else 1"]) (simp add: halting_rng_def)
  ultimately show ?thesis by (simp add: rng_periodic_def)
qed

theorem onoff_arrivals_in_phase_witness:
  "\<exists>offsets p'. onoff_sample halting_rng \<lparr>oo_on_rate = 2, oo_on_dur = 3 / 2, oo_off_dur = 1, oo_rng = False\<rparr> 4 = Some (offsets, p') \<and>
     (\<forall>x\<in>set offsets. x < 4)"
proof -
  have "OnOffArrival halting_rng 2 (3 / 2) 1 0 = Inr \<lparr>oo_on_rate = 2, oo_on_dur = 3 / 2, oo_off_dur = 1, oo_rng = False\<rparr>"
    by (simp add: OnOffArrival_def halting_rng_def)
  from onoff_arrivals_in_phase [OF halting_rng_ok halting_rng_periodic this, of 4] show ?thesis by auto
qed

end
