(* ===== verification/HttpClient.thy ===== *)
theory HttpClient
  imports Sse Arrival
begin

text \<open>
  \<open>loadgen/client.py\<close> and \<open>loadgen/replay.py\<close>: one streaming request becomes one telemetry record. What
  \<open>httpx\<close> delivers is the input \<open>exchange\<close>: either an exception before a response, or a status, the
  text of an error body, the lines of the stream until it ends (a \<open>RemoteProtocolError\<close> ends it too),
  and the text of the exception that broke the reading of either, if one did. \<open>now\<close> is the performance counter.
\<close>

datatype exchange =
    Unreachable string
  | Response int string "string list" "string option"

text \<open>The constructor: \<open>asyncio.Semaphore\<close> refuses a negative number of slots.\<close>

record http_client =
  hc_base_url :: string
  hc_model :: string
  hc_timeout :: real
  hc_slots :: nat

definition VllmHttpClient :: "string \<Rightarrow> string \<Rightarrow> real \<Rightarrow> int \<Rightarrow> http_client result" where
  "VllmHttpClient base_url model timeout_s max_concurrent =
     (if max_concurrent < 0 then Inl ValueError
      else Inr \<lparr>hc_base_url = rstrip_slash base_url, hc_model = model, hc_timeout = timeout_s,
                hc_slots = nat max_concurrent\<rparr>)"

definition tick_of :: "('c \<Rightarrow> int \<times> 'c) \<Rightarrow> 'c clock" where
  "tick_of now c = Some (now c)"

text \<open>How long \<open>_wait_until\<close> sleeps, in seconds; \<open>None\<close> when it returns at once.\<close>

definition wait_until :: "int \<Rightarrow> int \<Rightarrow> real option" where
  "wait_until arrival_ts_ns now_ns =
     (if arrival_ts_ns \<le> now_ns then None
      else Some (max (real_of_int (arrival_ts_ns - now_ns) / 1000000000) (1 / 1000)))"

record chat_payload =
  pl_model :: string
  pl_content :: string
  pl_max_tokens :: int
  pl_stream :: bool
  pl_temperature :: real

definition build_payload :: "string \<Rightarrow> request_spec \<Rightarrow> chat_payload" where
  "build_payload model spec =
     \<lparr>pl_model = model, pl_content = rq_prompt_text spec, pl_max_tokens = rq_output_tokens spec,
      pl_stream = True, pl_temperature = 0\<rparr>"

text \<open>The parser is driven one line at a time, so each line gets a parser of its own.\<close>

fun stream_tokens ::
  "json_parser \<Rightarrow> ('c \<Rightarrow> int \<times> 'c) \<Rightarrow> string list \<Rightarrow> 'c \<Rightarrow> token_event list \<times> 'c \<times> py_error option" where
  "stream_tokens json_loads now [] c = ([], c, None)"
| "stream_tokens json_loads now (line # lines) c =
     (case parse_sse_lines json_loads (tick_of now) [line] c of
        (evs, c1, Some e) \<Rightarrow> ([], c1, Some e)
      | (evs, c1, None) \<Rightarrow>
          (case stream_tokens json_loads now lines c1 of (evs2, c2, e) \<Rightarrow> (evs @ evs2, c2, e)))"

text \<open>What the \<open>try\<close> block leaves in the local variables of \<open>send_one\<close>.\<close>

record sent =
  se_ttft_ms :: "real option"
  se_per_token :: "int list"
  se_completion_ts :: "int option"
  se_status :: int
  se_error :: "string option"

definition first_latency_ms :: "int \<Rightarrow> int list \<Rightarrow> real option" where
  "first_latency_ms enqueue_ts stamps =
     (case stamps of [] \<Rightarrow> None | t # _ \<Rightarrow> Some (real_of_int (t - enqueue_ts) / 1000000))"

definition exchange_result ::
  "json_parser \<Rightarrow> (py_error \<Rightarrow> string) \<Rightarrow> ('c \<Rightarrow> int \<times> 'c) \<Rightarrow> int \<Rightarrow> exchange \<Rightarrow> 'c \<Rightarrow> sent \<times> 'c" where
  "exchange_result json_loads exc_text now enqueue_ts ex c =
     (case ex of
        Unreachable msg \<Rightarrow>
          (\<lparr>se_ttft_ms = None, se_per_token = [], se_completion_ts = None, se_status = 599, se_error = Some msg\<rparr>, c)
      | Response status body lines broken \<Rightarrow>
          if status \<ge> 400
          then (\<lparr>se_ttft_ms = None, se_per_token = [], se_completion_ts = None, se_status = status,
                 se_error = Some (case broken of Some msg \<Rightarrow> msg | None \<Rightarrow> ''HTTP '' @ int_str status @ '': '' @ take 200 body)\<rparr>, c)
          else case stream_tokens json_loads now lines c of (evs, c1, err) \<Rightarrow>
            let stamps = map te_ts_ns evs;
                failed = (case err of Some e \<Rightarrow> Some (exc_text e) | None \<Rightarrow> broken)
            in case failed of
                 Some msg \<Rightarrow>
                   (\<lparr>se_ttft_ms = first_latency_ms enqueue_ts stamps, se_per_token = stamps, se_completion_ts = None,
                     se_status = (if status = 0 then 599 else status), se_error = Some msg\<rparr>, c1)
               | None \<Rightarrow>
                   (case now c1 of (done_ts, c2) \<Rightarrow>
                     (\<lparr>se_ttft_ms = first_latency_ms enqueue_ts stamps, se_per_token = stamps,
                       se_completion_ts = Some done_ts, se_status = status, se_error = None\<rparr>, c2)))"

text \<open>\<open>asyncio.sleep\<close> is \<open>slp\<close>: what the counter's state is after so many seconds.\<close>

definition send_one ::
  "json_parser \<Rightarrow> (py_error \<Rightarrow> string) \<Rightarrow> ('c \<Rightarrow> int \<times> 'c) \<Rightarrow> (real \<Rightarrow> 'c \<Rightarrow> 'c) \<Rightarrow> request_spec \<Rightarrow> int \<Rightarrow> string option \<Rightarrow>
   exchange \<Rightarrow> 'c \<Rightarrow> request_telemetry result \<times> 'c" where
  "send_one json_loads exc_text now slp spec arrival_ts_ns routed_pool ex c =
     (case now c of (waiting_ts, c0) \<Rightarrow>
      case now (case wait_until arrival_ts_ns waiting_ts of None \<Rightarrow> c0 | Some delay \<Rightarrow> slp delay c0) of (enqueue_ts, c1) \<Rightarrow>
      case exchange_result json_loads exc_text now enqueue_ts ex c1 of (s, c2) \<Rightarrow>
        (RequestTelemetry (rq_id spec) (rq_prompt_tokens spec) enqueue_ts (se_ttft_ms s) (se_per_token s)
           (se_completion_ts s) (se_status s) (se_error s) routed_pool, c2))"

text \<open>
  What \<open>run\<close> gathers, in schedule order, when every task sees its own exchange and its own clock readings;
  how the tasks share the slots is the subject of \<open>ClientSlots\<close>. \<open>replay\<close> is \<open>run\<close>.
\<close>

definition task_telemetry ::
  "json_parser \<Rightarrow> (py_error \<Rightarrow> string) \<Rightarrow> ('c \<Rightarrow> int \<times> 'c) \<Rightarrow> (real \<Rightarrow> 'c \<Rightarrow> 'c) \<Rightarrow> (request_spec \<Rightarrow> string option) option \<Rightarrow>
   (request_spec \<times> int) \<times> exchange \<times> 'c \<Rightarrow> request_telemetry result" where
  "task_telemetry json_loads exc_text now slp routed_pool_for = (\<lambda>((spec, ts), ex, c).
     fst (send_one json_loads exc_text now slp spec ts
            (case routed_pool_for of None \<Rightarrow> None | Some f \<Rightarrow> f spec) ex c))"

definition client_run ::
  "json_parser \<Rightarrow> (py_error \<Rightarrow> string) \<Rightarrow> ('c \<Rightarrow> int \<times> 'c) \<Rightarrow> (real \<Rightarrow> 'c \<Rightarrow> 'c) \<Rightarrow> (request_spec \<Rightarrow> string option) option \<Rightarrow>
   ((request_spec \<times> int) \<times> exchange \<times> 'c) list \<Rightarrow> request_telemetry list result" where
  "client_run json_loads exc_text now slp routed_pool_for tasks =
     rmap (task_telemetry json_loads exc_text now slp routed_pool_for) tasks"

text \<open>The whole of \<open>run\<close>: the schedule from the reading \<open>t0_ns\<close>, one observation per task.\<close>

definition run_trace ::
  "'g rng \<Rightarrow> json_parser \<Rightarrow> (py_error \<Rightarrow> string) \<Rightarrow> ('c \<Rightarrow> int \<times> 'c) \<Rightarrow> (real \<Rightarrow> 'c \<Rightarrow> 'c) \<Rightarrow>
   (request_spec \<Rightarrow> string option) option \<Rightarrow> trace \<Rightarrow> int \<Rightarrow> (exchange \<times> 'c) list \<Rightarrow> request_telemetry list result option" where
  "run_trace R json_loads exc_text now slp routed_pool_for tr t0_ns obs =
     map_option (\<lambda>scheduler. rbind scheduler (\<lambda>s.
       client_run json_loads exc_text now slp routed_pool_for (zip (schedule s t0_ns) obs))) (OpenLoopScheduler R tr)"

definition replay ::
  "'g rng \<Rightarrow> json_parser \<Rightarrow> (py_error \<Rightarrow> string) \<Rightarrow> ('c \<Rightarrow> int \<times> 'c) \<Rightarrow> (real \<Rightarrow> 'c \<Rightarrow> 'c) \<Rightarrow>
   (request_spec \<Rightarrow> string option) option \<Rightarrow> trace \<Rightarrow> int \<Rightarrow> (exchange \<times> 'c) list \<Rightarrow> request_telemetry list result option" where
  "replay R json_loads exc_text now slp routed_pool_for tr t0_ns obs =
     run_trace R json_loads exc_text now slp routed_pool_for tr t0_ns obs"

section \<open>Timestamps\<close>

definition steady :: "('c \<Rightarrow> int \<times> 'c) \<Rightarrow> ('c \<Rightarrow> int) \<Rightarrow> bool" where
  "steady now low \<longleftrightarrow> (\<forall>c. 0 \<le> low c \<and> low c \<le> fst (now c) \<and> fst (now c) \<le> low (snd (now c)))"

lemma steady_now:
  assumes "steady now low" "now c = (t, c')"
  shows "0 \<le> low c \<and> low c \<le> t \<and> t \<le> low c'"
proof -
  have "0 \<le> low c \<and> low c \<le> fst (now c) \<and> fst (now c) \<le> low (snd (now c))"
    using assms(1) by (simp add: steady_def)
  then show ?thesis using assms(2) by simp
qed

text \<open>Sleeping takes at least the time asked for.\<close>

definition sleeps :: "(real \<Rightarrow> 'c \<Rightarrow> 'c) \<Rightarrow> ('c \<Rightarrow> int) \<Rightarrow> bool" where
  "sleeps slp low \<longleftrightarrow> (\<forall>d c. real_of_int (low c) + d * 1000000000 \<le> real_of_int (low (slp d c)))"

lemma wait_until_reaches:
  assumes "sleeps slp low" "t \<le> low c"
  shows "arrival \<le> low (case wait_until arrival t of None \<Rightarrow> c | Some delay \<Rightarrow> slp delay c)"
proof (cases "arrival \<le> t")
  case True
  then show ?thesis using assms(2) by (simp add: wait_until_def)
next
  case False
  define d where "d = max (real_of_int (arrival - t) / 1000000000) (1 / 1000)"
  have "real_of_int (arrival - t) / 1000000000 \<le> d" by (simp add: d_def)
  then have "real_of_int (arrival - t) \<le> d * 1000000000" by (simp add: divide_le_eq)
  moreover have "real_of_int (low c) + d * 1000000000 \<le> real_of_int (low (slp d c))"
    using assms(1) by (simp add: sleeps_def)
  ultimately have "real_of_int arrival \<le> real_of_int (low (slp d c))" using assms(2) by linarith
  then have "arrival \<le> low (slp d c)" by linarith
  then show ?thesis using False by (simp add: wait_until_def d_def)
qed

lemma steady_tick: "steady now low \<Longrightarrow> monotonic_clock (tick_of now) low"
  using steady_now [of now low] by (simp add: monotonic_clock_def tick_of_def)

lemma stream_tokens_sorted:
  assumes "steady now low"
  shows "stream_tokens json_loads now lines c = (evs, c', e) \<Longrightarrow>
     sorted (map te_ts_ns evs) \<and> (\<forall>ev\<in>set evs. low c \<le> te_ts_ns ev \<and> te_ts_ns ev \<le> low c') \<and> low c \<le> low c'"
proof (induction lines arbitrary: c evs)
  case Nil
  then show ?case by simp
next
  case (Cons line lines)
  obtain evs1 c1 e1 where one: "parse_sse_lines json_loads (tick_of now) [line] c = (evs1, c1, e1)" by (metis surj_pair)
  note s1 = parse_sse_sorted [OF steady_tick [OF assms] one]
  show ?case
  proof (cases e1)
    case (Some err)
    then show ?thesis using Cons.prems one s1 by auto
  next
    case None
    obtain evs2 c2 e2 where rest: "stream_tokens json_loads now lines c1 = (evs2, c2, e2)" by (metis surj_pair)
    have out: "evs = evs1 @ evs2" "c' = c2" "e = e2" using Cons.prems one None rest by auto
    have s2: "sorted (map te_ts_ns evs2) \<and> (\<forall>ev\<in>set evs2. low c1 \<le> te_ts_ns ev \<and> te_ts_ns ev \<le> low c2) \<and> low c1 \<le> low c2"
      using Cons.IH [of c1 evs2] rest out by simp
    then show ?thesis using s1 out by (fastforce simp: sorted_append)
  qed
qed

text \<open>Per line, a \<open>[DONE]\<close> marker only ends the parser of its own line.\<close>

lemma stream_tokens_done:
  assumes "sse_line json_loads done = Inr Stop"
  shows "stream_tokens json_loads now (lines @ done # rest) c = stream_tokens json_loads now (lines @ rest) c"
proof (induction lines arbitrary: c)
  case Nil
  then show ?case using assms by simp
next
  case (Cons line lines)
  then show ?case by (auto split: prod.splits option.splits)
qed

definition status_in_range :: "exchange \<Rightarrow> bool" where
  "status_in_range ex = (case ex of Unreachable msg \<Rightarrow> True | Response st body lines broken \<Rightarrow> 100 \<le> st \<and> st \<le> 599)"

lemma exchange_result_ok:
  assumes "steady now low" "exchange_result json_loads exc_text now enq ex c = (s, c')" "enq \<le> low c"
    and "status_in_range ex"
  shows "sorted (se_per_token s) \<and> (\<forall>t\<in>set (se_per_token s). enq \<le> t) \<and> 100 \<le> se_status s \<and> se_status s \<le> 599 \<and>
    se_ttft_ms s = first_latency_ms enq (se_per_token s) \<and>
    (se_error s = None \<longleftrightarrow> se_completion_ts s \<noteq> None) \<and>
    (\<forall>d. se_completion_ts s = Some d \<longrightarrow> (\<forall>t\<in>set (se_per_token s). t \<le> d) \<and> se_status s < 400)"
proof (cases ex)
  case (Unreachable msg)
  then show ?thesis using assms(2) by (auto simp: exchange_result_def first_latency_ms_def)
next
  case (Response st body lines broken)
  have st: "100 \<le> st" "st \<le> 599" using assms(4) Response by (auto simp: status_in_range_def)
  show ?thesis
  proof (cases "st \<ge> 400")
    case True
    then show ?thesis using assms(2) Response st by (auto simp: exchange_result_def first_latency_ms_def)
  next
    case False
    obtain evs c1 err where str: "stream_tokens json_loads now lines c = (evs, c1, err)" by (metis surj_pair)
    note s1 = stream_tokens_sorted [OF assms(1) str]
    define failed where "failed = (case err of Some e \<Rightarrow> Some (exc_text e) | None \<Rightarrow> broken)"
    obtain d c2 where d: "now c1 = (d, c2)" by force
    have "low c1 \<le> d" using steady_now [OF assms(1) d] by simp
    have out: "s = (case failed of
        Some msg \<Rightarrow> \<lparr>se_ttft_ms = first_latency_ms enq (map te_ts_ns evs), se_per_token = map te_ts_ns evs,
           se_completion_ts = None, se_status = (if st = 0 then 599 else st), se_error = Some msg\<rparr>
      | None \<Rightarrow> \<lparr>se_ttft_ms = first_latency_ms enq (map te_ts_ns evs), se_per_token = map te_ts_ns evs,
           se_completion_ts = Some d, se_status = st, se_error = None\<rparr>)"
      using assms(2) Response False str d
      by (auto simp: exchange_result_def Let_def failed_def split: option.splits)
    have "\<forall>t\<in>set (map te_ts_ns evs). enq \<le> t \<and> t \<le> d" using s1 assms(3) \<open>low c1 \<le> d\<close> by fastforce
    then show ?thesis using out s1 st False by (auto split: option.splits)
  qed
qed

section \<open>Properties\<close>

text \<open>
  C10: Every request yields well-formed telemetry. With a steady counter, a valid request and a response
  status in range, \<open>send_one\<close> returns a record: its token timestamps are ordered, none precedes the
  enqueue time, which is not before the scheduled arrival, the time to first token is that of the first of them, and it has an error precisely
  when it has no completion time.
\<close>

theorem send_one_telemetry:
  assumes "steady now low" and "1 \<le> rq_prompt_tokens spec" and "rq_prompt_tokens spec \<le> 200000"
    and "status_in_range ex" and "sleeps slp low"
  shows "\<exists>t c'. send_one json_loads exc_text now slp spec arrival pool ex c = (Inr t, c') \<and> tl_request_id t = rq_id spec \<and>
    arrival \<le> tl_enqueue_ts_ns t \<and>
    tl_routed_pool t = pool \<and> sorted (tl_per_token_ts_ns t) \<and>
    (\<forall>x\<in>set (tl_per_token_ts_ns t). tl_enqueue_ts_ns t \<le> x) \<and>
    tl_ttft_ms t = first_latency_ms (tl_enqueue_ts_ns t) (tl_per_token_ts_ns t) \<and>
    (tl_error t = None \<longleftrightarrow> tl_completion_ts_ns t \<noteq> None)"
proof -
  obtain w c0 where w: "now c = (w, c0)" by force
  obtain enq c1 where enq: "now (case wait_until arrival w of None \<Rightarrow> c0 | Some delay \<Rightarrow> slp delay c0) = (enq, c1)" by force
  obtain s c2 where s: "exchange_result json_loads exc_text now enq ex c1 = (s, c2)" by force
  have le: "0 \<le> enq" "enq \<le> low c1" using steady_now [OF assms(1) enq] by auto
  note ok = exchange_result_ok [OF assms(1) s le(2) assms(4)]
  have "w \<le> low c0" using steady_now [OF assms(1) w] by simp
  then have reach: "arrival \<le> enq"
    using wait_until_reaches [OF assms(5)] steady_now [OF assms(1) enq] by (meson order_trans)
  have mono: "per_token_monotonic None (se_per_token s)" using ok per_token_monotonic_sorted [of None] by simp
  show ?thesis
    using w enq s ok mono le reach assms(2,3)
    by (simp add: send_one_def RequestTelemetry_def)
qed

text \<open>
  A stream that breaks midway keeps its 200. When a response of status 200 is broken by an exception
  while it streams, the record reports status 200, an error and no completion time.
\<close>

theorem broken_stream_keeps_status:
  assumes "steady now low" and "1 \<le> rq_prompt_tokens spec" and "rq_prompt_tokens spec \<le> 200000"
  shows "\<exists>t c'. send_one json_loads exc_text now slp spec arrival pool (Response 200 body lines (Some msg)) c = (Inr t, c') \<and>
    tl_status_code t = 200 \<and> tl_error t \<noteq> None \<and> tl_completion_ts_ns t = None"
proof -
  obtain w c0 where w: "now c = (w, c0)" by force
  obtain enq c1 where enq: "now (case wait_until arrival w of None \<Rightarrow> c0 | Some delay \<Rightarrow> slp delay c0) = (enq, c1)" by force
  let ?ex = "Response 200 body lines (Some msg)"
  obtain s c2 where s: "exchange_result json_loads exc_text now enq ?ex c1 = (s, c2)" by force
  have le: "0 \<le> enq" "enq \<le> low c1" using steady_now [OF assms(1) enq] by auto
  have ok: "sorted (se_per_token s)" using exchange_result_ok [OF assms(1) s le(2)] by (simp add: status_in_range_def)
  have "se_status s = 200 \<and> se_error s \<noteq> None \<and> se_completion_ts s = None"
    using s by (auto simp: exchange_result_def Let_def split: prod.splits option.splits)
  then show ?thesis
    using w enq s ok le assms(2,3) per_token_monotonic_sorted [of None]
    by (simp add: send_one_def RequestTelemetry_def)
qed

text \<open>
  The client reads past the end marker. The parser on a whole stream stops at \<open>data: [DONE]\<close>, but the
  client gives every line a parser of its own: for it the marker has no effect on the tokens it reports.
\<close>

theorem done_marker_ignored:
  "parse_sse_lines json_loads (tick_of now) (lines @ ''data: [DONE]'' # rest) c =
     parse_sse_lines json_loads (tick_of now) lines c \<and>
   stream_tokens json_loads now (lines @ ''data: [DONE]'' # rest) c = stream_tokens json_loads now (lines @ rest) c"
  by (rule conjI [OF parse_sse_done [OF done_line] stream_tokens_done [OF done_line]])

text \<open>A counter that counts, and a JSON parser that knows one payload.\<close>

definition ex_now :: "nat \<Rightarrow> int \<times> nat" where
  "ex_now n = (int n, Suc n)"

definition ex_slp :: "real \<Rightarrow> nat \<Rightarrow> nat" where
  "ex_slp d n = n + nat \<lceil>d * 1000000000\<rceil>"

lemma ex_sleeps: "sleeps ex_slp int"
proof -
  have "d * 1000000000 \<le> real (nat \<lceil>d * 1000000000\<rceil>)" for d :: real by linarith
  then show ?thesis by (simp add: sleeps_def ex_slp_def)
qed

definition ex_loads :: json_parser where
  "ex_loads s = (if s = ''tok'' then Some (JObj [(''choices'', JList [JObj [(''delta'', JObj [(''content'', JStr ''a'')])]])]) else None)"

lemma ex_steady: "steady ex_now int"
  by (simp add: steady_def ex_now_def)

definition ex_request :: request_spec where
  "ex_request = \<lparr>rq_id = ''a'', rq_slo_class = BATCH, rq_workload = CHAT, rq_prompt_tokens = 1, rq_output_tokens = 1, rq_prompt_text = ''a''\<rparr>"

lemma ex_line: "sse_line ex_loads ''data: tok'' = Inr (Event (JStr ''a'') JNull False)"
proof -
  have "rstrip_eol ''data: tok'' = ''data: tok''" by (simp add: rstrip_eol_def)
  moreover have "py_strip ''tok'' = ''tok''" by (simp add: py_strip_def is_space_def)
  moreover have "sse_delta (JObj [(''choices'', JList [JObj [(''delta'', JObj [(''content'', JStr ''a'')])]])]) =
      Inr (Event (JStr ''a'') JNull False)"
    by (simp add: sse_delta_def jor_def)
  ultimately show ?thesis by (simp add: sse_line_def py_startswith_def ex_loads_def)
qed

lemma ex_stream:
  "stream_tokens ex_loads ex_now [''data: tok'', ''data: tok''] 2 =
     ([\<lparr>te_content = JStr ''a'', te_ts_ns = 2, te_finish_reason = JNull, te_reasoning = False\<rparr>,
       \<lparr>te_content = JStr ''a'', te_ts_ns = 3, te_finish_reason = JNull, te_reasoning = False\<rparr>], 4, None)"
  by (simp add: ex_line tick_of_def ex_now_def)

lemma ex_send: "send_one ex_loads (\<lambda>e. []) ex_now ex_slp ex_request 0 None (Response 200 [] [''data: tok'', ''data: tok''] None) 0 =
  (Inr \<lparr>tl_request_id = ''a'', tl_prompt_tokens = 1, tl_enqueue_ts_ns = 1, tl_ttft_ms = Some (1 / 1000000),
    tl_per_token_ts_ns = [2, 3], tl_completion_ts_ns = Some 4, tl_status_code = 200, tl_error = None, tl_routed_pool = None\<rparr>, 5)"
proof -
  have "ex_now 0 = (0, 1)" "ex_now 1 = (1, 2)" "ex_now 4 = (4, 5)" by (simp_all add: ex_now_def)
  then show ?thesis
    by (simp add: send_one_def wait_until_def exchange_result_def ex_stream first_latency_ms_def RequestTelemetry_def ex_request_def
        del: stream_tokens.simps)
qed

theorem send_one_telemetry_witness: "sorted [2, 3 :: int] \<and>
   (\<exists>t c'. send_one ex_loads (\<lambda>e. []) ex_now ex_slp ex_request 0 None (Response 200 [] [''data: tok'', ''data: tok''] None) 0 = (Inr t, c') \<and>
     tl_per_token_ts_ns t = [2, 3])"
proof -
  have "1 \<le> rq_prompt_tokens ex_request" "rq_prompt_tokens ex_request \<le> 200000"
    "status_in_range (Response 200 [] [''data: tok'', ''data: tok''] None)"
    by (simp_all add: ex_request_def status_in_range_def)
  from send_one_telemetry [OF ex_steady this ex_sleeps, of ex_loads "\<lambda>e. []" 0 None 0] ex_send show ?thesis by auto
qed

theorem broken_stream_keeps_status_witness:
  "\<exists>t c'. send_one ex_loads (\<lambda>e. []) ex_now ex_slp ex_request 0 None (Response 200 [] [''data: tok''] (Some ''ReadTimeout: '')) 0 = (Inr t, c') \<and>
     tl_status_code t = 200 \<and> tl_error t \<noteq> None"
proof -
  have "1 \<le> rq_prompt_tokens ex_request" "rq_prompt_tokens ex_request \<le> 200000" by (simp_all add: ex_request_def)
  from broken_stream_keeps_status [OF ex_steady this, of ex_loads "\<lambda>e. []" ex_slp 0 None "[]" "[''data: tok'']" "''ReadTimeout: ''" 0]
  show ?thesis by blast
qed

end
