(* ===== verification/Orchestrator.thy ===== *)
theory Orchestrator
  imports CellRunner HttpClient Router
begin

text \<open>
  \<open>bench/orchestrator.py\<close> and \<open>bench/mock_vllm.py\<close>: the dry-run pipeline. The mock server's stream of
  chunks for a request, the summary of a run's telemetries, and a campaign that routes the requests of
  a trace in schedule order and fires them at the server. The lemmas show that the client reads back
  exactly the tokens the mock streams, and what the reported cache hit rate can be.
\<close>

section \<open>The mock server\<close>

definition role_chunk :: json where
  "role_chunk = JObj [(''id'', JStr ''cmpl-mock''),
     (''choices'', JList [JObj [(''delta'', JObj [(''role'', JStr ''assistant'')]), (''index'', JNum 0)]])]"

definition token_chunk :: "nat \<Rightarrow> json" where
  "token_chunk i = JObj [(''id'', JStr ''cmpl-mock''),
     (''choices'', JList [JObj [(''delta'', JObj [(''content'', JStr (''tok'' @ nat_str i))]), (''index'', JNum 0)]])]"

definition finish_chunk :: json where
  "finish_chunk = JObj [(''id'', JStr ''cmpl-mock''),
     (''choices'', JList [JObj [(''delta'', JObj []), (''finish_reason'', JStr ''stop''), (''index'', JNum 0)]])]"

text \<open>\<open>int(body.get("max_tokens", 5))\<close>; \<open>int_text\<close> is the builtin on strings.\<close>

definition mock_max_tokens :: "(string \<Rightarrow> int option) \<Rightarrow> json \<Rightarrow> int result" where
  "mock_max_tokens int_text body =
     (case body of
        JObj kvs \<Rightarrow>
          (case od_get kvs ''max_tokens'' of
             None \<Rightarrow> Inr 5
           | Some (JNum x) \<Rightarrow> Inr (py_int x)
           | Some (JBool b) \<Rightarrow> Inr (if b then 1 else 0)
           | Some (JStr s) \<Rightarrow> (case int_text s of None \<Rightarrow> Inl ValueError | Some n \<Rightarrow> Inr n)
           | Some v \<Rightarrow> Inl TypeError)
      | _ \<Rightarrow> Inl AttributeError)"

definition data_frame :: "string \<Rightarrow> string" where
  "data_frame payload = ''data: '' @ payload @ [newline, newline]"

text \<open>What the response generator yields; \<open>dumps\<close> is \<open>json.dumps\<close>.\<close>

definition mock_stream :: "(json \<Rightarrow> string) \<Rightarrow> int \<Rightarrow> string list" where
  "mock_stream dumps max_tokens =
     [data_frame (dumps role_chunk)] @
     map (\<lambda>i. data_frame (dumps (token_chunk i))) [0..<nat max_tokens] @
     [data_frame (dumps finish_chunk), data_frame ''[DONE]'']"

definition mock_models :: json where
  "mock_models = JObj [(''data'', JList [JObj [(''id'', JStr ''mock-model''), (''object'', JStr ''model'')]])]"

section \<open>The report\<close>

text \<open>The module's own copy of the percentile.\<close>

definition orch_percentile :: "real list \<Rightarrow> real \<Rightarrow> real" where
  "orch_percentile values pct =
     (if values = [] then 0
      else if length values = 1 then values ! 0
      else let s = sort values;
               k = real (length s - 1) * pct;
               f = nat (py_int k);
               c = min (f + 1) (length s - 1)
           in if f = c then s ! f else s ! f + (s ! c - s ! f) * (k - real f))"

record topology_report =
  tr_topology :: topology
  tr_n_requests :: int
  tr_success_rate :: real
  tr_mean_ttft_ms :: real
  tr_p95_ttft_ms :: real
  tr_mean_itl_ms :: real
  tr_cache_hit_rate :: real
  tr_reconcile_passes :: bool
  tr_notes :: "string list"

definition TopologyReport :: "topology_report \<Rightarrow> topology_report result" where
  "TopologyReport r =
     (if 0 \<le> tr_n_requests r \<and> 0 \<le> tr_success_rate r \<and> tr_success_rate r \<le> 1 \<and> 0 \<le> tr_mean_ttft_ms r \<and>
         0 \<le> tr_p95_ttft_ms r \<and> 0 \<le> tr_mean_itl_ms r \<and> 0 \<le> tr_cache_hit_rate r \<and> tr_cache_hit_rate r \<le> 1
      then Inr r else Inl ValueError)"

record run_summary =
  rs_n_requests :: real
  rs_success_rate :: real
  rs_mean_ttft_ms :: real
  rs_p95_ttft_ms :: real
  rs_mean_itl_ms :: real
  rs_cache_hit_rate :: real

definition routed :: "request_telemetry list \<Rightarrow> request_telemetry list" where
  "routed telemetries = filter (\<lambda>t. tl_routed_pool t \<noteq> None) telemetries"

definition summary :: "request_telemetry list \<Rightarrow> run_summary" where
  "summary telemetries =
     \<lparr>rs_n_requests = real (length telemetries), rs_success_rate = success_share telemetries,
      rs_mean_ttft_ms = mean_or_zero (ttft_values (successes telemetries)),
      rs_p95_ttft_ms = orch_percentile (ttft_values (successes telemetries)) (95 / 100),
      rs_mean_itl_ms = mean_or_zero (itl_values (successes telemetries)),
      rs_cache_hit_rate = real (length (routed telemetries)) / real (max (length (routed telemetries)) 1)\<rparr>"

definition DRY_RUN_TAG :: string where
  "DRY_RUN_TAG = ''[DRY-RUN]''"

text \<open>
  \<open>routed_pool_for\<close> is called once per request in schedule order; it moves the router and names the pool
  the telemetry is tagged with.
\<close>

fun assign_pools :: "digest \<Rightarrow> router \<Rightarrow> request_spec list \<Rightarrow> (request_spec \<times> string) list \<times> router" where
  "assign_pools sha rt [] = ([], rt)"
| "assign_pools sha rt (spec # specs) =
     (case route sha rt spec of (rt1, decision) \<Rightarrow>
      case assign_pools sha rt1 specs of (rest, rt2) \<Rightarrow>
        ((spec, if pd_admitted decision then pool_value (pd_pool decision) else ''colocated'') # rest, rt2))"

text \<open>\<open>fire\<close> is the client against the mock application: the telemetries of the tagged requests.\<close>

definition run_topology ::
  "digest \<Rightarrow> ((request_spec \<times> string) list \<Rightarrow> request_telemetry list result) \<Rightarrow> string \<Rightarrow> topology \<Rightarrow> request_spec list \<Rightarrow>
   router \<Rightarrow> topology_report result \<times> router" where
  "run_topology sha fire label t specs rt =
     (case assign_pools sha rt specs of (tagged, rt1) \<Rightarrow>
        (rbind (fire tagged) (\<lambda>telemetries.
           let s = summary telemetries in
           TopologyReport
             \<lparr>tr_topology = t, tr_n_requests = py_int (rs_n_requests s), tr_success_rate = rs_success_rate s,
              tr_mean_ttft_ms = rs_mean_ttft_ms s, tr_p95_ttft_ms = rs_p95_ttft_ms s, tr_mean_itl_ms = rs_mean_itl_ms s,
              tr_cache_hit_rate = rs_cache_hit_rate s, tr_reconcile_passes = (99 / 100 \<le> rs_success_rate s),
              tr_notes = [DRY_RUN_TAG, ''mock_vllm_label='' @ label]\<rparr>), rt1))"

definition run_campaign ::
  "digest \<Rightarrow> ((request_spec \<times> string) list \<Rightarrow> request_telemetry list result) \<Rightarrow> string \<Rightarrow> (topology \<Rightarrow> router) \<Rightarrow>
   (topology \<times> request_spec list) list \<Rightarrow> topology_report list result" where
  "run_campaign sha fire label router_factory traces =
     rmap (\<lambda>(t, specs). fst (run_topology sha fire label t specs (router_factory t))) traces"

section \<open>The reported rates\<close>

lemma orch_percentile_eq: "orch_percentile = percentile"
  by (intro ext) (simp add: orch_percentile_def percentile_def)

lemma routed_share: "rs_cache_hit_rate (summary ts) = (if routed ts = [] then 0 else 1)"
  by (cases "routed ts") (simp_all add: summary_def)

section \<open>What the client reads\<close>

text \<open>The lines of a frame, as the HTTP library iterates over them.\<close>

definition frame_lines :: "string \<Rightarrow> string list" where
  "frame_lines f = butlast (split_char newline f)"

definition mock_lines :: "(json \<Rightarrow> string) \<Rightarrow> int \<Rightarrow> string list" where
  "mock_lines dumps n = concat (map frame_lines (mock_stream dumps n))"

definition wire_safe :: "string \<Rightarrow> bool" where
  "wire_safe s \<longleftrightarrow> s \<noteq> [] \<and> CHR 0x0A \<notin> set s \<and> CHR 0x0D \<notin> set s \<and> py_strip s = s \<and> s \<noteq> ''[DONE]''"

text \<open>A line of the wire format.\<close>

definition data_line :: "string \<Rightarrow> string" where
  "data_line s = ''data: '' @ s"

lemma split_char_none: "c \<notin> set s \<Longrightarrow> split_char c s = [s]"
  by (induction s) auto

lemma split_char_append: "c \<notin> set s \<Longrightarrow> split_char c (s @ c # t) = s # split_char c t"
  by (induction s) auto

lemma frame_lines_data: "newline \<notin> set s \<Longrightarrow> frame_lines (data_frame s) = [data_line s, []]"
  using split_char_append [of newline "''data: '' @ s" "[newline]"] by (simp add: frame_lines_def data_frame_def data_line_def)

lemma rstrip_eol_last: "s \<noteq> [] \<Longrightarrow> last s \<noteq> CHR 0x0A \<Longrightarrow> last s \<noteq> CHR 0x0D \<Longrightarrow> rstrip_eol s = s"
  by (cases s rule: rev_cases) (simp_all add: rstrip_eol_def)

lemma sse_line_data:
  assumes "wire_safe s" "json_loads s = Some j"
  shows "sse_line json_loads (data_line s) = sse_delta j"
proof -
  have s: "s \<noteq> []" "CHR 0x0A \<notin> set s" "CHR 0x0D \<notin> set s" using assms(1) by (auto simp: wire_safe_def)
  then have "last s \<noteq> CHR 0x0A" "last s \<noteq> CHR 0x0D" using last_in_set [OF s(1)] by metis+
  then have "rstrip_eol (''data: '' @ s) = ''data: '' @ s" using s(1) by (intro rstrip_eol_last) simp_all
  moreover have "py_strip s = s" "s \<noteq> ''[DONE]''" using assms(1) by (auto simp: wire_safe_def)
  ultimately show ?thesis using assms(2) by (simp add: sse_line_def py_startswith_def data_line_def)
qed

lemma sse_line_empty: "sse_line json_loads [] = Inr Skip"
  by (simp add: sse_line_def rstrip_eol_def)

lemma sse_chunks:
  "sse_delta role_chunk = Inr Skip" "sse_delta finish_chunk = Inr Skip"
  "sse_delta (token_chunk i) = Inr (Event (JStr (''tok'' @ nat_str i)) JNull False)"
  by (simp_all add: sse_delta_def role_chunk_def finish_chunk_def token_chunk_def jor_def Let_def)

definition loads_chunks :: "json_parser \<Rightarrow> (json \<Rightarrow> string) \<Rightarrow> int \<Rightarrow> bool" where
  "loads_chunks json_loads dumps n \<longleftrightarrow>
     (\<forall>j\<in>{role_chunk, finish_chunk} \<union> token_chunk ` {..<nat n}. wire_safe (dumps j) \<and> json_loads (dumps j) = Some j)"

lemma stream_skip: "sse_line json_loads line = Inr Skip \<Longrightarrow> stream_tokens json_loads now (line # lines) c = stream_tokens json_loads now lines c"
  by (simp split: prod.splits)

lemma stream_event:
  assumes "sse_line json_loads line = Inr (Event b f r)" "now c = (ts, c1)"
    "stream_tokens json_loads now lines c1 = (evs, c2, e)"
  shows "stream_tokens json_loads now (line # lines) c =
    (\<lparr>te_content = b, te_ts_ns = ts, te_finish_reason = f, te_reasoning = r\<rparr> # evs, c2, e)"
  using assms by (simp add: tick_of_def)

lemma stream_done: "stream_tokens json_loads now [data_line ''[DONE]'', []] c = ([], c, None)"
  by (simp add: data_line_def done_line sse_line_empty)

text \<open>The tokens from the \<open>i\<close>-th on, then the finish chunk and the end marker.\<close>

lemma stream_from:
  assumes "loads_chunks json_loads dumps n" "i \<le> nat n"
  shows "\<exists>evs c'. stream_tokens json_loads now
      (concat (map (\<lambda>i. [data_line (dumps (token_chunk i)), []]) [i..<nat n]) @
       [data_line (dumps finish_chunk), [], data_line ''[DONE]'', []]) c = (evs, c', None) \<and>
    map te_content evs = map (\<lambda>i. JStr (''tok'' @ nat_str i)) [i..<nat n]"
  using assms(2)
proof (induction "nat n - i" arbitrary: i c)
  case 0
  have "sse_line json_loads (data_line (dumps finish_chunk)) = Inr Skip"
    using sse_line_data [of "dumps finish_chunk"] assms(1) by (simp add: loads_chunks_def sse_chunks)
  then have "stream_tokens json_loads now [data_line (dumps finish_chunk), [], data_line ''[DONE]'', []] c = ([], c, None)"
    by (simp only: stream_skip stream_skip [OF sse_line_empty] stream_done)
  then show ?case using 0 by simp
next
  case (Suc k)
  then have i: "i < nat n" and k: "k = nat n - Suc i" by simp_all
  have ev: "sse_line json_loads (data_line (dumps (token_chunk i))) = Inr (Event (JStr (''tok'' @ nat_str i)) JNull False)"
    using sse_line_data [of "dumps (token_chunk i)"] assms(1) i by (simp add: loads_chunks_def sse_chunks)
  obtain ts c1 where now: "now c = (ts, c1)" by force
  let ?rest = "concat (map (\<lambda>i. [data_line (dumps (token_chunk i)), []]) [Suc i..<nat n]) @
       [data_line (dumps finish_chunk), [], data_line ''[DONE]'', []]"
  have "\<exists>evs c'. stream_tokens json_loads now ?rest c1 = (evs, c', None) \<and>
      map te_content evs = map (\<lambda>i. JStr (''tok'' @ nat_str i)) [Suc i..<nat n]"
    using Suc.hyps(1) [OF k] i by simp
  then obtain evs c' where evs: "stream_tokens json_loads now ?rest c1 = (evs, c', None)"
    "map te_content evs = map (\<lambda>i. JStr (''tok'' @ nat_str i)) [Suc i..<nat n]" by blast
  have "stream_tokens json_loads now ([] # ?rest) c1 = (evs, c', None)" using evs(1) by (simp only: stream_skip [OF sse_line_empty])
  note step = stream_event [OF ev now this]
  have up: "[i..<nat n] = i # [Suc i..<nat n]" using i by (simp add: upt_conv_Cons)
  then have "concat (map (\<lambda>i. [data_line (dumps (token_chunk i)), []]) [i..<nat n]) @
       [data_line (dumps finish_chunk), [], data_line ''[DONE]'', []] = data_line (dumps (token_chunk i)) # [] # ?rest" by simp
  moreover have "map te_content (\<lparr>te_content = JStr (''tok'' @ nat_str i), te_ts_ns = ts, te_finish_reason = JNull, te_reasoning = False\<rparr> # evs) =
      map (\<lambda>i. JStr (''tok'' @ nat_str i)) [i..<nat n]" unfolding up using evs(2) by simp
  ultimately show ?case using step by metis
qed

lemma mock_lines_shape:
  assumes "loads_chunks json_loads dumps n"
  shows "mock_lines dumps n = [data_line (dumps role_chunk), []] @
    concat (map (\<lambda>i. [data_line (dumps (token_chunk i)), []]) [0..<nat n]) @
    [data_line (dumps finish_chunk), [], data_line ''[DONE]'', []]"
proof -
  have safe: "newline \<notin> set (dumps j)" if "j \<in> {role_chunk, finish_chunk} \<union> token_chunk ` {..<nat n}" for j
    using assms that by (auto simp: loads_chunks_def wire_safe_def)
  have "map (\<lambda>i. frame_lines (data_frame (dumps (token_chunk i)))) [0..<nat n] =
      map (\<lambda>i. [data_line (dumps (token_chunk i)), []]) [0..<nat n]"
    using safe by (intro map_cong refl frame_lines_data) auto
  then have "concat (map (\<lambda>i. frame_lines (data_frame (dumps (token_chunk i)))) [0..<nat n]) =
      concat (map (\<lambda>i. [data_line (dumps (token_chunk i)), []]) [0..<nat n])" by (rule arg_cong)
  moreover have "frame_lines (data_frame ''[DONE]'') = [data_line ''[DONE]'', []]" by (simp add: frame_lines_data)
  ultimately show ?thesis using safe [of role_chunk] safe [of finish_chunk] by (simp add: mock_lines_def mock_stream_def frame_lines_data comp_def)
qed

section \<open>Properties\<close>

text \<open>
  What the mock streams is what the client reads. For a request of \<open>n\<close> tokens, with a JSON library that
  reads back the chunks it wrote, the client's parser yields exactly the \<open>n\<close> contents the mock sent, in
  order and without an exception: the role and finish chunks and the end marker add nothing.
\<close>

theorem mock_roundtrip:
  assumes "loads_chunks json_loads dumps n"
  shows "\<exists>evs c'. stream_tokens json_loads now (mock_lines dumps n) c = (evs, c', None) \<and>
    map te_content evs = map (\<lambda>i. JStr (''tok'' @ nat_str i)) [0..<nat n]"
proof -
  have "sse_line json_loads (data_line (dumps role_chunk)) = Inr Skip"
    using sse_line_data [of "dumps role_chunk"] assms by (simp add: loads_chunks_def sse_chunks)
  then show ?thesis
    using stream_from [OF assms, of 0 now c] unfolding mock_lines_shape [OF assms]
    by (simp only: append_Cons append_Nil stream_skip stream_skip [OF sse_line_empty])
qed

definition ex_dumps :: "json \<Rightarrow> string" where
  "ex_dumps j = (if j = role_chunk then ''role'' else if j = finish_chunk then ''finish'' else ''tok0'')"

definition ex_loads :: json_parser where
  "ex_loads s = (if s = ''role'' then Some role_chunk else if s = ''finish'' then Some finish_chunk
     else if s = ''tok0'' then Some (token_chunk 0) else None)"

lemma mock_roundtrip_witness:
  "\<exists>evs c'. stream_tokens ex_loads (\<lambda>c. (c, c + 1)) (mock_lines ex_dumps 1) 0 = (evs, c', None) \<and> length evs = 1"
proof -
  have "role_chunk \<noteq> finish_chunk" "token_chunk 0 \<noteq> role_chunk" "token_chunk 0 \<noteq> finish_chunk"
    by (simp_all add: role_chunk_def finish_chunk_def token_chunk_def)
  then have "loads_chunks ex_loads ex_dumps 1"
    by (simp add: loads_chunks_def ex_dumps_def ex_loads_def wire_safe_def py_strip_def is_space_def lessThan_Suc)
  from mock_roundtrip [OF this, of "\<lambda>c. (c, c + 1)" 0] obtain evs c' where
    "stream_tokens ex_loads (\<lambda>c. (c, c + 1)) (mock_lines ex_dumps 1) 0 = (evs, c', None)"
    "map te_content evs = map (\<lambda>i. JStr (''tok'' @ nat_str i)) [0..<nat 1]" by blast
  moreover from this(2) have "length (map te_content evs) = 1" by simp
  ultimately show ?thesis by auto
qed

text \<open>
  The reported cache hit rate counts routed requests among routed requests: it is 1 as soon as one
  telemetry names a pool, and says nothing about the cache.
\<close>

lemma dry_run_hit_rate_constant: "rs_cache_hit_rate (summary ts) \<in> {0, 1}"
  by (simp add: routed_share)

text \<open>
  The two modules agree: the percentile of the orchestrator is that of the cell runner, so on the same
  telemetries the dry-run summary and the cell metrics report the same latencies and success rate.
\<close>

theorem orchestrator_agrees:
  "orch_percentile = percentile \<and> rs_success_rate (summary ts) = cm_success_rate (aggregate_metrics ts) \<and>
   rs_mean_ttft_ms (summary ts) = cm_mean_ttft_ms (aggregate_metrics ts) \<and>
   rs_p95_ttft_ms (summary ts) = cm_p95_ttft_ms (aggregate_metrics ts) \<and>
   rs_mean_itl_ms (summary ts) = cm_mean_itl_ms (aggregate_metrics ts)"
  by (simp add: orch_percentile_eq summary_def aggregate_metrics_def)

end
