(* ===== verification/KvTheory.thy ===== *)
theory KvTheory
  imports PyText
begin

text \<open>
  The theory side of the KV-cache scaling study (\<open>bench/kv_scaling/theory.py\<close>): the bytes a token
  occupies in the cache, computed from a model configuration. The configuration is the dictionary
  the caller read; its values are \<open>hf_value\<close>s, with \<open>HfOther\<close> carrying the text \<open>str\<close> gives for a value of
  any other type. The lemmas show what a successful parse says, and that a \<open>head_dim\<close> entry is never used.
\<close>

section \<open>Bytes per token\<close>

definition kv_bytes_per_token :: "int \<Rightarrow> int \<Rightarrow> int \<Rightarrow> int \<Rightarrow> int result" where
  "kv_bytes_per_token n_layers n_kv_heads head_dim bytes_per_element =
     (if \<exists>value\<in>set [n_layers, n_kv_heads, head_dim, bytes_per_element]. value \<le> 0 then Inl ValueError
      else Inr (2 * n_layers * n_kv_heads * head_dim * bytes_per_element))"

definition head_dim_from_config :: "int \<Rightarrow> int \<Rightarrow> int result" where
  "head_dim_from_config hidden_size num_attention_heads =
     (if num_attention_heads \<le> 0 then Inl ValueError
      else if hidden_size mod num_attention_heads \<noteq> 0 then Inl ValueError
      else Inr (hidden_size div num_attention_heads))"

text \<open>\<open>s.replace(pat, "")\<close> for a pattern that is not empty\<close>

function remove_all :: "string \<Rightarrow> string \<Rightarrow> string" where
  "remove_all pat [] = []"
| "remove_all pat (c # s) =
     (if take (length pat) (c # s) = pat then remove_all pat (drop (length pat - 1) s)
      else c # remove_all pat s)"
  by pat_completeness auto
termination by (relation "measure (\<lambda>(pat, s). length s)") auto

definition dtype_table :: "(string, int) odict" where
  "dtype_table = [(''float32'', 4), (''fp32'', 4), (''float16'', 2), (''fp16'', 2), (''bfloat16'', 2), (''bf16'', 2),
     (''float8_e4m3fn'', 1), (''float8_e5m2'', 1), (''fp8'', 1)]"

definition bytes_per_element_from_dtype :: "string \<Rightarrow> int result" where
  "bytes_per_element_from_dtype dtype =
     (case od_get dtype_table (remove_all ''torch.'' (py_lower (py_strip dtype))) of
        None \<Rightarrow> Inl ValueError
      | Some n \<Rightarrow> Inr n)"

section \<open>Model configurations\<close>

datatype hf_value = HfInt int | HfBool bool | HfStr string | HfOther string

type_synonym hf_config = "(string, hf_value) odict"

fun hf_str :: "hf_value \<Rightarrow> string" where
  "hf_str (HfInt i) = int_str i"
| "hf_str (HfBool b) = (if b then ''True'' else ''False'')"
| "hf_str (HfStr s) = s"
| "hf_str (HfOther s) = s"

record hf_theory =
  ht_n_layers :: int
  ht_n_kv_heads :: int
  ht_head_dim :: int
  ht_bytes_per_element :: int
  ht_bytes_per_token :: int
  ht_revision :: string

fun int_field :: "hf_value \<Rightarrow> int result" where
  "int_field (HfInt i) = Inr i"
| "int_field v = Inl ValueError"

definition config_int :: "hf_config \<Rightarrow> string \<Rightarrow> int result" where
  "config_int config key = (case od_get config key of None \<Rightarrow> Inl KeyError | Some v \<Rightarrow> int_field v)"

definition config_from_hf_config :: "hf_config \<Rightarrow> string \<Rightarrow> hf_theory result" where
  "config_from_hf_config config revision =
     rbind (config_int config ''num_hidden_layers'') (\<lambda>n_layers.
     rbind (config_int config ''num_attention_heads'') (\<lambda>n_query_heads.
     rbind (if od_get config ''num_key_value_heads'' \<noteq> None then config_int config ''num_key_value_heads''
            else Inr n_query_heads) (\<lambda>n_kv_heads.
     rbind (config_int config ''hidden_size'') (\<lambda>hidden_size.
     rbind (head_dim_from_config hidden_size n_query_heads) (\<lambda>head_dim.
     rbind (case od_get config ''torch_dtype'' of
              None \<Rightarrow> Inl KeyError
            | Some v \<Rightarrow> bytes_per_element_from_dtype (hf_str v)) (\<lambda>bpe.
     rbind (kv_bytes_per_token n_layers n_kv_heads head_dim bpe) (\<lambda>bpt.
       Inr \<lparr>ht_n_layers = n_layers, ht_n_kv_heads = n_kv_heads, ht_head_dim = head_dim,
            ht_bytes_per_element = bpe, ht_bytes_per_token = bpt, ht_revision = revision\<rparr>)))))))"

section \<open>What a parse says\<close>

lemma kv_bytes_Inr: "kv_bytes_per_token a b c d = Inr n \<longleftrightarrow> 0 < a \<and> 0 < b \<and> 0 < c \<and> 0 < d \<and> n = 2 * a * b * c * d"
  by (auto simp: kv_bytes_per_token_def)

lemma head_dim_Inr: "head_dim_from_config h n = Inr d \<longleftrightarrow> 0 < n \<and> d * n = h"
  by (auto simp: head_dim_from_config_def)

lemma dtype_bytes_Inr: "bytes_per_element_from_dtype s = Inr n \<Longrightarrow> n \<in> {1, 2, 4}"
  by (auto simp: bytes_per_element_from_dtype_def dtype_table_def split: option.splits if_splits)

lemma config_Inr:
  assumes "config_from_hf_config config revision = Inr t"
  obtains h q where "config_int config ''num_hidden_layers'' = Inr (ht_n_layers t)"
    "config_int config ''num_attention_heads'' = Inr q" "config_int config ''hidden_size'' = Inr h"
    "0 < q" "ht_head_dim t * q = h" "0 < ht_n_layers t" "0 < ht_n_kv_heads t" "0 < ht_head_dim t"
    "ht_bytes_per_element t \<in> {1, 2, 4}" "ht_revision t = revision"
    "ht_bytes_per_token t = 2 * ht_n_layers t * ht_n_kv_heads t * ht_head_dim t * ht_bytes_per_element t"
    "ht_n_kv_heads t = (case od_get config ''num_key_value_heads'' of Some (HfInt k) \<Rightarrow> k | _ \<Rightarrow> q)"
proof -
  obtain l q k h d b n where
    steps: "config_int config ''num_hidden_layers'' = Inr l" "config_int config ''num_attention_heads'' = Inr q"
      "(if od_get config ''num_key_value_heads'' \<noteq> None then config_int config ''num_key_value_heads'' else Inr q) = Inr k"
      "config_int config ''hidden_size'' = Inr h" "head_dim_from_config h q = Inr d"
      "(case od_get config ''torch_dtype'' of None \<Rightarrow> Inl KeyError
        | Some v \<Rightarrow> bytes_per_element_from_dtype (hf_str v)) = Inr b"
      "kv_bytes_per_token l k d b = Inr n"
    and t: "t = \<lparr>ht_n_layers = l, ht_n_kv_heads = k, ht_head_dim = d, ht_bytes_per_element = b,
      ht_bytes_per_token = n, ht_revision = revision\<rparr>"
    using assms unfolding config_from_hf_config_def by (auto simp: rbind_eq_Inr)
  have b: "b \<in> {1, 2, 4}" using steps(6) by (auto split: option.splits dest: dtype_bytes_Inr)
  have k: "k = (case od_get config ''num_key_value_heads'' of Some (HfInt k) \<Rightarrow> k | _ \<Rightarrow> q)"
    using steps(3) by (auto simp: config_int_def split: option.splits if_splits hf_value.splits)
  show thesis
    using steps(1,2,4,5,7) b k
    by (intro that [of q h]) (auto simp: t kv_bytes_Inr head_dim_Inr)
qed

section \<open>Properties\<close>

text \<open>
  A parsed configuration gives the size of the cache entry of one token: two vectors per layer and key-value
  head, with the head count of the grouped query heads when the configuration has one and of all
  query heads otherwise, and a head dimension that divides the hidden size exactly; a \<open>head_dim\<close>
  entry changes nothing.
\<close>

theorem hf_theory_exact:
  assumes "config_from_hf_config config revision = Inr t"
  shows "ht_bytes_per_token t = 2 * ht_n_layers t * ht_n_kv_heads t * ht_head_dim t * ht_bytes_per_element t \<and>
    0 < ht_bytes_per_token t \<and> ht_bytes_per_element t \<in> {1, 2, 4} \<and>
    (\<exists>q. config_int config ''num_attention_heads'' = Inr q \<and>
      config_int config ''hidden_size'' = Inr (ht_head_dim t * q) \<and>
      ht_n_kv_heads t = (case od_get config ''num_key_value_heads'' of Some (HfInt k) \<Rightarrow> k | _ \<Rightarrow> q)) \<and>
    config_from_hf_config (od_set ''head_dim'' v config) revision = Inr t"
proof -
  have same: "config_from_hf_config (od_set ''head_dim'' v config) revision = Inr t"
    unfolding assms [symmetric] by (simp add: config_from_hf_config_def config_int_def cong: if_cong)
  show ?thesis
  proof (rule config_Inr [OF assms])
    fix h q
    assume "config_int config ''num_attention_heads'' = Inr q" "config_int config ''hidden_size'' = Inr h"
      and h: "ht_head_dim t * q = h"
      and "ht_n_kv_heads t = (case od_get config ''num_key_value_heads'' of Some (HfInt k) \<Rightarrow> k | _ \<Rightarrow> q)"
    then have "\<exists>q. config_int config ''num_attention_heads'' = Inr q \<and>
        config_int config ''hidden_size'' = Inr (ht_head_dim t * q) \<and>
        ht_n_kv_heads t = (case od_get config ''num_key_value_heads'' of Some (HfInt k) \<Rightarrow> k | _ \<Rightarrow> q)" by blast
    moreover assume "0 < ht_n_layers t" "0 < ht_n_kv_heads t" "0 < ht_head_dim t" "ht_bytes_per_element t \<in> {1, 2, 4}"
      and "ht_bytes_per_token t = 2 * ht_n_layers t * ht_n_kv_heads t * ht_head_dim t * ht_bytes_per_element t"
    moreover from calculation(5) have "0 < ht_bytes_per_element t" by auto
    ultimately show ?thesis using same by simp
  qed
qed

definition qwen_config :: hf_config where
  "qwen_config = [(''num_hidden_layers'', HfInt 24), (''num_attention_heads'', HfInt 14), (''num_key_value_heads'', HfInt 2),
     (''hidden_size'', HfInt 896), (''torch_dtype'', HfStr ''bfloat16'')]"

lemma qwen_theory: "\<exists>t. config_from_hf_config qwen_config r = Inr t \<and> ht_bytes_per_token t = 12288"
proof -
  have key: "remove_all ''torch.'' (py_lower (py_strip ''bfloat16'')) = ''bfloat16''"
    by (simp add: py_strip_def is_space_def py_lower_def char_lower_def)
  show ?thesis
    by (simp add: config_from_hf_config_def config_int_def qwen_config_def head_dim_from_config_def
        kv_bytes_per_token_def bytes_per_element_from_dtype_def key) (simp add: dtype_table_def)
qed

lemma hf_theory_exact_witness:
  "\<exists>t. config_from_hf_config (od_set ''head_dim'' (HfInt 128) qwen_config) [] = Inr t \<and> ht_bytes_per_token t = 12288"
proof -
  obtain t where "config_from_hf_config qwen_config [] = Inr t" "ht_bytes_per_token t = 12288" using qwen_theory by blast
  with hf_theory_exact show ?thesis by blast
qed

end
