(* ===== verification/KvSchema.thy ===== *)
theory KvSchema
  imports BenchStats
begin

text \<open>
  The records of the KV-cache scaling study (\<open>bench/kv_scaling/schema.py\<close>). Each model class is a record,
  its constructor a function that runs the field constraints and validators; pydantic's
  \<open>ValidationError\<close> is a \<open>ValueError\<close>. The lemmas relate the percentile of this module to the one
  of the cell runner, and give the median of constant samples.
\<close>

section \<open>Percentiles\<close>

definition sorted_percentile :: "real list \<Rightarrow> real \<Rightarrow> real" where
  "sorted_percentile sorted_values q =
     (let n = length sorted_values
      in if n = 1 then sorted_values ! 0
         else let rank = q * real (n - 1);
                  lo = nat (py_int rank);
                  hi = min (lo + 1) (n - 1);
                  frac = rank - real lo
              in sorted_values ! lo + frac * (sorted_values ! hi - sorted_values ! lo))"

section \<open>Cells and campaigns\<close>

record kv_cell =
  kc_model_id :: string
  kc_gpu :: string
  kc_vllm_version :: string
  kc_seq_len :: int
  kc_batch_size :: int
  kc_n_samples :: int
  kc_kv_bytes_used_samples :: "int list"
  kc_kv_bytes_prefill_samples :: "int list option"
  kc_total_tokens :: int
  kc_baseline_bytes :: int
  kc_method :: string

definition samples_match :: "kv_cell \<Rightarrow> bool" where
  "samples_match c \<longleftrightarrow>
     int (length (kc_kv_bytes_used_samples c)) = kc_n_samples c \<and>
     (case kc_kv_bytes_prefill_samples c of
        None \<Rightarrow> True
      | Some samples \<Rightarrow> int (length samples) = kc_n_samples c)"

definition KvScalingCell :: "kv_cell \<Rightarrow> kv_cell result" where
  "KvScalingCell c =
     (if 0 < kc_seq_len c \<and> 0 < kc_batch_size c \<and> 0 < kc_n_samples c \<and> kc_kv_bytes_used_samples c \<noteq> [] \<and>
         0 < kc_total_tokens c \<and> 0 \<le> kc_baseline_bytes c \<and> samples_match c
      then Inr c else Inl ValueError)"

definition p50_bytes :: "kv_cell \<Rightarrow> real" where
  "p50_bytes c = sorted_percentile (sort (map real_of_int (kc_kv_bytes_used_samples c))) (50 / 100)"

definition p95_bytes :: "kv_cell \<Rightarrow> real" where
  "p95_bytes c = sorted_percentile (sort (map real_of_int (kc_kv_bytes_used_samples c))) (95 / 100)"

definition measured_bytes_per_token :: "kv_cell \<Rightarrow> real" where
  "measured_bytes_per_token c = p50_bytes c / real_of_int (kc_total_tokens c)"

record regression_fit =
  rf_slope_bpt :: real
  rf_intercept_bytes :: real
  rf_r2 :: real
  rf_residual_se :: real

definition RegressionFit :: "regression_fit \<Rightarrow> regression_fit result" where
  "RegressionFit f =
     (if 0 \<le> rf_slope_bpt f \<and> 0 \<le> rf_r2 f \<and> rf_r2 f \<le> 1 \<and> 0 \<le> rf_residual_se f
      then Inr f else Inl ValueError)"

record knee_point =
  kp_total_tokens :: int
  kp_kv_share :: real
  kp_batch_size :: "int option"

definition KneePoint :: "knee_point \<Rightarrow> knee_point result" where
  "KneePoint k =
     (if 0 < kp_total_tokens k \<and> 0 \<le> kp_kv_share k \<and> kp_kv_share k \<le> 1 \<and>
         (case kp_batch_size k of None \<Rightarrow> True | Some b \<Rightarrow> 0 < b)
      then Inr k else Inl ValueError)"

record kv_campaign =
  kg_campaign_id :: string
  kg_model_revision :: string
  kg_cells :: "kv_cell list"
  kg_theory_bytes_per_token :: int
  kg_regression :: regression_fit
  kg_knee :: knee_point

definition KvScalingCampaign :: "kv_campaign \<Rightarrow> kv_campaign result" where
  "KvScalingCampaign g =
     (if kg_cells g \<noteq> [] \<and> 0 < kg_theory_bytes_per_token g then Inr g else Inl ValueError)"

section \<open>Percentiles of samples\<close>

text \<open>The third percentile of the program is the first one, applied to sorted values.\<close>

lemma sorted_percentile_sort: "values \<noteq> [] \<Longrightarrow> sorted_percentile (sort values) q = percentile values q"
  by (auto simp: sorted_percentile_def percentile_def Let_def mult.commute sort_eq_Nil_key length_Suc_conv)

lemma KvScalingCell_Inr: "KvScalingCell c = Inr c' \<Longrightarrow> c' = c"
  by (simp add: KvScalingCell_def split: if_splits)

lemma KvScalingCell_positive:
  "KvScalingCell c = Inr c' \<Longrightarrow> 0 < kc_total_tokens c \<and> 0 \<le> kc_baseline_bytes c \<and> kc_kv_bytes_used_samples c \<noteq> []"
  by (simp add: KvScalingCell_def split: if_splits)

lemma samples_bracket:
  assumes "values \<noteq> []" "0 \<le> q" "q \<le> 1" "\<forall>x\<in>set values. lo \<le> x \<and> x \<le> hi"
  shows "lo \<le> sorted_percentile (sort values) q \<and> sorted_percentile (sort values) q \<le> hi"
proof -
  let ?i = "nat \<lfloor>real (length values - 1) * q\<rfloor>" and ?s = "sort values"
  have len: "length ?s = length values" "0 < length values" using assms(1) by auto
  have "?i \<le> length values - 1" using rank_bounds [OF assms(2,3)] by (intro floor_le_rank) auto
  then have i: "?i < length values" "min (?i + 1) (length values - 1) < length values" using len(2) by linarith+
  have "?s ! j \<in> set values" if "j < length values" for j using nth_mem [of j ?s] that by simp
  from this [OF i(1)] this [OF i(2)] have "lo \<le> ?s ! ?i" "?s ! min (?i + 1) (length values - 1) \<le> hi" using assms(4) by auto
  then show ?thesis
    using percentile_bracket [OF assms(1-3)] by (simp add: sorted_percentile_sort [OF assms(1)])
qed

lemma p50_bracket:
  assumes "kc_kv_bytes_used_samples c \<noteq> []" "\<forall>x\<in>set (kc_kv_bytes_used_samples c). lo \<le> x \<and> x \<le> hi"
  shows "real_of_int lo \<le> p50_bytes c \<and> p50_bytes c \<le> real_of_int hi"
  unfolding p50_bytes_def using assms by (intro samples_bracket) auto

lemma p50_constant:
  assumes "kc_kv_bytes_used_samples c = replicate (Suc n) v"
  shows "p50_bytes c = real_of_int v"
  using p50_bracket [of c v v] assms by simp

lemma p50_nonneg: "kc_kv_bytes_used_samples c \<noteq> [] \<Longrightarrow> \<forall>x\<in>set (kc_kv_bytes_used_samples c). 0 \<le> x \<Longrightarrow> 0 \<le> p50_bytes c"
proof -
  assume a: "kc_kv_bytes_used_samples c \<noteq> []" "\<forall>x\<in>set (kc_kv_bytes_used_samples c). 0 \<le> x"
  have "\<forall>x\<in>set (kc_kv_bytes_used_samples c). 0 \<le> x \<and> x \<le> Max (set (kc_kv_bytes_used_samples c))" using a(2) by simp
  from p50_bracket [OF a(1) this] show ?thesis by simp
qed

end
