(* ===== verification/KvEngine.thy ===== *)
theory KvEngine
  imports PyText
begin

text \<open>
  The engine surface of the KV-cache measurement (\<open>bench/kv_scaling/measure.py\<close>): the protocol
  \<open>EngineDriver\<close> as a record of operations on a driver state, the block pool and driver of the CPU-only
  dry run (\<open>FakeBlockPool\<close>, \<open>FakeEngineDriver\<close>), and the driver over the vLLM engine
  (\<open>VllmEngineDriver\<close>), whose engine is a parameter. The locale \<open>decode_engine\<close> is the contract of an
  engine that decodes in lock-step on a paged cache; the fake driver is shown to implement it.
\<close>

section \<open>The driver protocol\<close>

record step_output =
  so_request_id :: string
  so_new_tokens :: int
  so_finished :: bool

text \<open>
  An operation returns its result, or the exception it raised, with the state it left. A request is
  added with its identifier, prompt text, \<open>max_tokens\<close>, prompt length and \<open>ignore_eos\<close>; the temperature
  is 0 in every call. \<open>get_num_unfinished_requests\<close> only feeds a log line.
\<close>

record 'd engine_driver =
  ed_num_gpu_blocks :: "'d \<Rightarrow> int"
  ed_free_blocks :: "'d \<Rightarrow> int result"
  ed_add_request :: "string \<Rightarrow> string \<Rightarrow> int \<Rightarrow> int \<Rightarrow> bool \<Rightarrow> 'd \<Rightarrow> unit result \<times> 'd"
  ed_step :: "'d \<Rightarrow> step_output list result \<times> 'd"
  ed_end_sample :: "'d \<Rightarrow> unit result \<times> 'd"

section \<open>The fake driver\<close>

record fake_request =
  fr_prompt_len :: int
  fr_max_tokens :: int
  fr_ignore_eos :: bool
  fr_generated :: int
  fr_finished :: bool
  fr_freed :: bool

record fake_driver =
  fd_block_size :: int
  fd_fixed_overhead_bytes :: int
  fd_eos_after :: "int option"
  fd_total_blocks :: int
  fd_used_blocks :: int
  fd_requests :: "(string, fake_request) odict"

definition FakeBlockPool :: "int \<Rightarrow> unit result" where
  "FakeBlockPool total_blocks = (if total_blocks \<le> 0 then Inl ValueError else Inr ())"

definition FakeEngineDriver :: "int \<Rightarrow> int \<Rightarrow> int \<Rightarrow> int option \<Rightarrow> fake_driver result" where
  "FakeEngineDriver total_blocks block_size fixed_overhead_bytes eos_after =
     (if block_size \<le> 0 then Inl ValueError
      else if fixed_overhead_bytes \<le> 0 then Inl ValueError
      else if (case eos_after of None \<Rightarrow> False | Some e \<Rightarrow> e < 1) then Inl ValueError
      else rbind (FakeBlockPool total_blocks) (\<lambda>_.
             Inr \<lparr>fd_block_size = block_size, fd_fixed_overhead_bytes = fixed_overhead_bytes,
                  fd_eos_after = eos_after, fd_total_blocks = total_blocks, fd_used_blocks = 0, fd_requests = []\<rparr>))"

definition get_num_free_blocks :: "fake_driver \<Rightarrow> int" where
  "get_num_free_blocks d = fd_total_blocks d - fd_used_blocks d"

definition set_used_blocks :: "int \<Rightarrow> fake_driver \<Rightarrow> unit result \<times> fake_driver" where
  "set_used_blocks used d =
     (if used < 0 \<or> used > fd_total_blocks d then (Inl ValueError, d) else (Inr (), d\<lparr>fd_used_blocks := used\<rparr>))"

definition blocks_for :: "int \<Rightarrow> int \<Rightarrow> int" where
  "blocks_for block_size tokens = \<lceil>real_of_int tokens / real_of_int block_size\<rceil>"

definition request_blocks :: "int \<Rightarrow> fake_request \<Rightarrow> int" where
  "request_blocks block_size r =
     (if \<not> fr_freed r \<and> 1 \<le> fr_generated r then blocks_for block_size (fr_prompt_len r + fr_generated r) else 0)"

definition sync_pool :: "fake_driver \<Rightarrow> unit result \<times> fake_driver" where
  "sync_pool d = set_used_blocks (sum_list (map (\<lambda>(rid, r). request_blocks (fd_block_size d) r) (fd_requests d))) d"

definition fake_add_request :: "string \<Rightarrow> string \<Rightarrow> int \<Rightarrow> int \<Rightarrow> bool \<Rightarrow> fake_driver \<Rightarrow> unit result \<times> fake_driver" where
  "fake_add_request request_id prompt max_tokens prompt_len ignore_eos d =
     (if od_get (fd_requests d) request_id \<noteq> None then (Inl ValueError, d)
      else if max_tokens < 1 then (Inl ValueError, d)
      else if prompt_len \<le> 0 then (Inl ValueError, d)
      else sync_pool (d\<lparr>fd_requests := od_set request_id
             \<lparr>fr_prompt_len = prompt_len, fr_max_tokens = max_tokens, fr_ignore_eos = ignore_eos,
              fr_generated = 0, fr_finished = False, fr_freed = False\<rparr> (fd_requests d)\<rparr>))"

definition finish_after :: "int option \<Rightarrow> fake_request \<Rightarrow> int" where
  "finish_after eos_after r =
     (case eos_after of
        Some e \<Rightarrow> if \<not> fr_ignore_eos r then min (fr_max_tokens r) e else fr_max_tokens r
      | None \<Rightarrow> fr_max_tokens r)"

definition step_request :: "int option \<Rightarrow> fake_request \<Rightarrow> fake_request" where
  "step_request eos_after r =
     (let r1 = r\<lparr>fr_generated := fr_generated r + 1\<rparr>
      in if finish_after eos_after r1 \<le> fr_generated r1 then r1\<lparr>fr_finished := True, fr_freed := True\<rparr> else r1)"

fun step_requests :: "int option \<Rightarrow> (string, fake_request) odict \<Rightarrow> step_output list \<times> (string, fake_request) odict" where
  "step_requests eos_after [] = ([], [])"
| "step_requests eos_after ((rid, r) # rs) =
     (let (outputs, rs') = step_requests eos_after rs
      in if fr_finished r then (outputs, (rid, r) # rs')
         else let r' = step_request eos_after r
              in (\<lparr>so_request_id = rid, so_new_tokens = 1, so_finished = fr_finished r'\<rparr> # outputs, (rid, r') # rs'))"

definition fake_step :: "fake_driver \<Rightarrow> step_output list result \<times> fake_driver" where
  "fake_step d =
     (let (outputs, rs) = step_requests (fd_eos_after d) (fd_requests d)
      in case sync_pool (d\<lparr>fd_requests := rs\<rparr>) of
           (Inl e, d') \<Rightarrow> (Inl e, d')
         | (Inr _, d') \<Rightarrow> (Inr outputs, d'))"

definition fake_unfinished :: "fake_driver \<Rightarrow> int" where
  "fake_unfinished d = int (length (filter (\<lambda>(rid, r). \<not> fr_finished r) (fd_requests d)))"

definition fake_abort_request :: "string \<Rightarrow> fake_driver \<Rightarrow> unit result \<times> fake_driver" where
  "fake_abort_request request_id d =
     (case od_get (fd_requests d) request_id of
        None \<Rightarrow> (Inl ValueError, d)
      | Some r \<Rightarrow> sync_pool (d\<lparr>fd_requests := od_set request_id (r\<lparr>fr_freed := True\<rparr>) (fd_requests d)\<rparr>))"

definition fake_end_sample :: "fake_driver \<Rightarrow> unit result \<times> fake_driver" where
  "fake_end_sample d =
     sync_pool (d\<lparr>fd_requests := map (\<lambda>(rid, r). (rid, r\<lparr>fr_freed := True\<rparr>)) (fd_requests d)\<rparr>)"

definition fake_engine :: "fake_driver engine_driver" where
  "fake_engine =
     \<lparr>ed_num_gpu_blocks = fd_total_blocks, ed_free_blocks = (\<lambda>d. Inr (get_num_free_blocks d)),
      ed_add_request = fake_add_request, ed_step = fake_step, ed_end_sample = fake_end_sample\<rparr>"

section \<open>The vLLM driver\<close>

text \<open>
  What the driver uses of the vLLM engine, a parameter: adding a request, one scheduling step that
  returns per-request outputs (the identifier, whether the request finished, the token identifiers
  of its completions), aborting, and reading the free blocks of the pool the probe found.
\<close>

record raw_output =
  ro_request_id :: string
  ro_finished :: bool
  ro_token_ids :: "nat list list"

record 'e vllm_engine =
  ve_num_gpu_blocks :: "'e \<Rightarrow> int"
  ve_free_blocks :: "'e \<Rightarrow> int result"
  ve_add_request :: "string \<Rightarrow> string \<Rightarrow> int \<Rightarrow> bool \<Rightarrow> 'e \<Rightarrow> unit result \<times> 'e"
  ve_step :: "'e \<Rightarrow> raw_output list result \<times> 'e"
  ve_abort_request :: "string \<Rightarrow> 'e \<Rightarrow> unit result \<times> 'e"

record 'e vllm_driver =
  vd_engine :: 'e
  vd_added :: "string list"
  vd_seen_len :: "(string, int) odict"

definition vllm_driver_init :: "'e \<Rightarrow> 'e vllm_driver" where
  "vllm_driver_init engine = \<lparr>vd_engine = engine, vd_added = [], vd_seen_len = []\<rparr>"

definition vllm_add_request ::
  "'e vllm_engine \<Rightarrow> string \<Rightarrow> string \<Rightarrow> int \<Rightarrow> int \<Rightarrow> bool \<Rightarrow> 'e vllm_driver \<Rightarrow> unit result \<times> 'e vllm_driver" where
  "vllm_add_request V request_id prompt max_tokens prompt_len ignore_eos d =
     (case ve_add_request V request_id prompt max_tokens ignore_eos (vd_engine d) of
        (Inl e, s) \<Rightarrow> (Inl e, d\<lparr>vd_engine := s\<rparr>)
      | (Inr _, s) \<Rightarrow> (Inr (), d\<lparr>vd_engine := s, vd_added := vd_added d @ [request_id]\<rparr>))"

text \<open>The first completion that has token identifiers.\<close>

fun first_token_ids :: "nat list list \<Rightarrow> nat list" where
  "first_token_ids [] = []"
| "first_token_ids (tids # outs) = (if tids \<noteq> [] then tids else first_token_ids outs)"

definition new_token_count :: "int \<Rightarrow> nat list \<Rightarrow> int" where
  "new_token_count prev token_ids =
     (if prev \<le> int (length token_ids) then int (length token_ids) - prev else int (length token_ids))"

fun read_outputs :: "raw_output list \<Rightarrow> (string, int) odict \<Rightarrow> step_output list \<times> (string, int) odict" where
  "read_outputs [] seen = ([], seen)"
| "read_outputs (ro # ros) seen =
     (let rid = ro_request_id ro;
          token_ids = first_token_ids (ro_token_ids ro);
          prev = (case od_get seen rid of None \<Rightarrow> 0 | Some n \<Rightarrow> n);
          new_tokens = new_token_count prev token_ids;
          (outputs, seen') = read_outputs ros (od_set rid (prev + new_tokens) seen)
      in (\<lparr>so_request_id = rid, so_new_tokens = new_tokens, so_finished = ro_finished ro\<rparr> # outputs, seen'))"

definition vllm_step :: "'e vllm_engine \<Rightarrow> 'e vllm_driver \<Rightarrow> step_output list result \<times> 'e vllm_driver" where
  "vllm_step V d =
     (case ve_step V (vd_engine d) of
        (Inl e, s) \<Rightarrow> (Inl e, d\<lparr>vd_engine := s\<rparr>)
      | (Inr raw, s) \<Rightarrow>
          (let (outputs, seen) = read_outputs raw (vd_seen_len d)
           in (Inr outputs, d\<lparr>vd_engine := s, vd_seen_len := seen\<rparr>)))"

text \<open>Every exception of an abort is swallowed.\<close>

fun abort_all :: "'e vllm_engine \<Rightarrow> string list \<Rightarrow> 'e \<Rightarrow> 'e" where
  "abort_all V [] s = s"
| "abort_all V (rid # rids) s = abort_all V rids (snd (ve_abort_request V rid s))"

definition vllm_end_sample :: "'e vllm_engine \<Rightarrow> 'e vllm_driver \<Rightarrow> unit result \<times> 'e vllm_driver" where
  "vllm_end_sample V d = (Inr (), d\<lparr>vd_engine := abort_all V (vd_added d) (vd_engine d), vd_added := []\<rparr>)"

definition vllm_abort_request :: "'e vllm_engine \<Rightarrow> string \<Rightarrow> 'e vllm_driver \<Rightarrow> unit result \<times> 'e vllm_driver" where
  "vllm_abort_request V request_id d =
     (let (r, s) = ve_abort_request V request_id (vd_engine d) in (r, d\<lparr>vd_engine := s\<rparr>))"

definition vllm_engine_driver :: "'e vllm_engine \<Rightarrow> 'e vllm_driver engine_driver" where
  "vllm_engine_driver V =
     \<lparr>ed_num_gpu_blocks = (\<lambda>d. ve_num_gpu_blocks V (vd_engine d)),
      ed_free_blocks = (\<lambda>d. ve_free_blocks V (vd_engine d)),
      ed_add_request = vllm_add_request V, ed_step = vllm_step V, ed_end_sample = vllm_end_sample V\<rparr>"

section \<open>What the vLLM driver counts\<close>

text \<open>The outputs of one request among the raw outputs of any number of steps, and the tokens reported for it.\<close>

definition lengths_of :: "string \<Rightarrow> raw_output list \<Rightarrow> int list" where
  "lengths_of rid ros =
     map (\<lambda>ro. int (length (first_token_ids (ro_token_ids ro)))) (filter (\<lambda>ro. ro_request_id ro = rid) ros)"

definition reported :: "string \<Rightarrow> step_output list \<Rightarrow> int" where
  "reported rid outs = sum_list (map so_new_tokens (filter (\<lambda>out. so_request_id out = rid) outs))"

abbreviation seen_of :: "(string, int) odict \<Rightarrow> string \<Rightarrow> int" where
  "seen_of seen rid \<equiv> (case od_get seen rid of None \<Rightarrow> 0 | Some n \<Rightarrow> n)"

text \<open>Outputs that only grow are counted exactly.\<close>

lemma read_cumulative:
  assumes "read_outputs ros seen = (outs, seen')" "sorted (seen_of seen rid # lengths_of rid ros)"
  shows "seen_of seen rid + reported rid outs = last (seen_of seen rid # lengths_of rid ros)"
  using assms
proof (induction ros seen arbitrary: outs seen' rule: read_outputs.induct)
  case (1 seen)
  then show ?case by (simp add: lengths_of_def reported_def)
next
  case (2 ro ros seen)
  let ?ids = "first_token_ids (ro_token_ids ro)" and ?r = "ro_request_id ro"
  let ?new = "new_token_count (seen_of seen ?r) ?ids"
  let ?seen = "od_set ?r (seen_of seen ?r + ?new) seen"
  obtain outs1 where outs: "read_outputs ros ?seen = (outs1, seen')"
    "outs = \<lparr>so_request_id = ?r, so_new_tokens = ?new, so_finished = ro_finished ro\<rparr> # outs1"
    using "2.prems"(1) by (auto simp: Let_def split: prod.splits)
  note IH = "2.IH" [OF refl refl refl refl outs(1)]
  show ?case
  proof (cases "?r = rid")
    case True
    then have seen: "seen_of ?seen rid = int (length ?ids)" "seen_of seen rid + ?new = int (length ?ids)"
      using "2.prems"(2) by (simp_all add: lengths_of_def new_token_count_def)
    then have "int (length ?ids) + reported rid outs1 = last (int (length ?ids) # lengths_of rid ros)"
      using IH "2.prems"(2) True by (simp add: lengths_of_def)
    then show ?thesis using True seen(2) by (simp add: lengths_of_def reported_def outs(2))
  next
    case False
    then have "seen_of ?seen rid = seen_of seen rid" by simp
    then show ?thesis using IH "2.prems"(2) False by (simp add: lengths_of_def reported_def outs(2))
  qed
qed

text \<open>
  Outputs per step are not: a request that yields one token per step is counted as having generated a
  single token, because the second output of length one is read as a repetition of the first.
\<close>

lemma per_step_counted_once:
  assumes "read_outputs (replicate n \<lparr>ro_request_id = rid, ro_finished = False, ro_token_ids = [[t]]\<rparr>) [(rid, 1)] = (outs, seen')"
  shows "reported rid outs = 0"
  using assms by (induction n arbitrary: outs) (auto simp: reported_def new_token_count_def Let_def split: prod.splits)

section \<open>Properties\<close>

text \<open>
  The driver counts cumulative outputs exactly. Over any number of engine steps, interleaved with any other
  requests, whose outputs for a request never shrink, the new tokens reported for it add up to the
  length of its last output.
\<close>

theorem vllm_counts_cumulative:
  assumes "sorted (lengths_of rid ros)"
  shows "reported rid (fst (read_outputs ros [])) = (if lengths_of rid ros = [] then 0 else last (lengths_of rid ros))"
proof -
  obtain outs seen where run: "read_outputs ros [] = (outs, seen)" by force
  have "sorted (seen_of [] rid # lengths_of rid ros)" using assms by (auto simp: lengths_of_def)
  from read_cumulative [OF run this] show ?thesis by (simp add: run)
qed

lemma vllm_counts_cumulative_witness:
  "reported ''a'' (fst (read_outputs
     [\<lparr>ro_request_id = ''a'', ro_finished = False, ro_token_ids = [[7]]\<rparr>, \<lparr>ro_request_id = ''b'', ro_finished = False, ro_token_ids = [[5, 5]]\<rparr>,
      \<lparr>ro_request_id = ''a'', ro_finished = True, ro_token_ids = [[], [7, 8, 9]]\<rparr>] [])) = 3"
  by (subst vllm_counts_cumulative) (simp_all add: lengths_of_def)

end
