(* ===== verification/KvSampling.thy ===== *)
theory KvSampling
  imports KvEngine KvSchema
begin

text \<open>
  One sample of the KV-cache measurement (\<open>sample_decode_window\<close> of \<open>bench/kv_scaling/measure.py\<close>), over
  any engine driver: the block-consistency gate, the step loop that takes the prefill reading once and
  moves the decode reading forward, and the final checks. The step budget is the fuel of the
  loop, as in the source. The lemmas show what a reading that is reported has passed, whatever
  the engine does.
\<close>

section \<open>The consistency gate\<close>

definition check_block_consistency :: "int \<Rightarrow> int \<Rightarrow> int \<Rightarrow> int \<Rightarrow> bool \<Rightarrow> unit result" where
  "check_block_consistency used_blocks live_tokens batch_size block_size fully_scheduled =
     (if used_blocks < 0 then Inl ValueError
      else let used_slots = used_blocks * block_size;
               hi = live_tokens + batch_size * block_size + 64
           in if used_slots > hi then Inl ValueError
              else if fully_scheduled \<and> used_slots < live_tokens then Inl ValueError
              else Inr ())"

section \<open>The sampling loop\<close>

text \<open>
  The state of the loop: tokens generated and finished flag per request, and the two readings
  (blocks used, tokens live), each set as a pair.
\<close>

record window =
  w_generated :: "(string, int) odict"
  w_finished :: "(string, bool) odict"
  w_prefill :: "(int \<times> int) option"
  w_decode :: "(int \<times> int) option"

record sample_readings =
  sr_kv_bytes_prefill :: int
  sr_kv_bytes_decode :: int
  sr_live_tokens_prefill :: int
  sr_live_tokens_decode :: int
  sr_used_blocks_prefill :: int
  sr_used_blocks_decode :: int

text \<open>Every request identifier is a key of both dictionaries from the start.\<close>

definition generated_of :: "window \<Rightarrow> string \<Rightarrow> int" where
  "generated_of w rid = (case od_get (w_generated w) rid of None \<Rightarrow> 0 | Some n \<Rightarrow> n)"

definition finished_of :: "window \<Rightarrow> string \<Rightarrow> bool" where
  "finished_of w rid = (case od_get (w_finished w) rid of None \<Rightarrow> False | Some b \<Rightarrow> b)"

definition all_finished :: "window \<Rightarrow> bool" where
  "all_finished w = list_all snd (w_finished w)"

definition any_finished :: "window \<Rightarrow> bool" where
  "any_finished w = list_ex snd (w_finished w)"

definition active :: "string list \<Rightarrow> window \<Rightarrow> string list" where
  "active rids w = filter (\<lambda>rid. \<not> finished_of w rid) rids"

definition live_tokens :: "string list \<Rightarrow> int list \<Rightarrow> window \<Rightarrow> int" where
  "live_tokens rids lens w =
     sum_list (map (\<lambda>(rid, pl). if finished_of w rid then 0 else pl + generated_of w rid) (zip rids lens))"

definition scheduled :: "string list \<Rightarrow> window \<Rightarrow> bool" where
  "scheduled rids w = list_all (\<lambda>rid. 1 \<le> generated_of w rid) (active rids w)"

fun count_outputs :: "step_output list \<Rightarrow> window \<Rightarrow> window result" where
  "count_outputs [] w = Inr w"
| "count_outputs (out # outs) w =
     (let rid = so_request_id out
      in case od_get (w_generated w) rid of
           None \<Rightarrow> Inl ValueError
         | Some n \<Rightarrow>
             if so_new_tokens out < 0 then Inl ValueError
             else count_outputs outs
                    (w\<lparr>w_generated := od_set rid (n + so_new_tokens out) (w_generated w),
                       w_finished := (if so_finished out then od_set rid True (w_finished w) else w_finished w)\<rparr>))"

text \<open>The gate before and after a step, then the readings taken after it.\<close>

definition gate :: "string list \<Rightarrow> int list \<Rightarrow> int \<Rightarrow> int \<Rightarrow> window \<Rightarrow> unit result" where
  "gate rids lens block_size used w =
     check_block_consistency used (live_tokens rids lens w) (int (length rids)) block_size (scheduled rids w)"

definition note_readings :: "string list \<Rightarrow> int list \<Rightarrow> int \<Rightarrow> window \<Rightarrow> window result" where
  "note_readings rids lens used w =
     (let live = live_tokens rids lens w
      in if w_prefill w = None \<and> any_finished w then Inl ValueError
         else let w1 = (if w_prefill w = None \<and> scheduled rids w then w\<lparr>w_prefill := Some (used, live)\<rparr> else w)
              in Inr (if w_prefill w1 \<noteq> None \<and> \<not> any_finished w1 then w1\<lparr>w_decode := Some (used, live)\<rparr> else w1))"

definition after_step ::
  "'d engine_driver \<Rightarrow> string list \<Rightarrow> int list \<Rightarrow> int \<Rightarrow> int \<Rightarrow> 'd \<Rightarrow> window \<Rightarrow> window result" where
  "after_step E rids lens block_size n_blocks d w =
     rbind (ed_free_blocks E d) (\<lambda>free.
     rbind (gate rids lens block_size (n_blocks - free) w) (\<lambda>_.
       note_readings rids lens (n_blocks - free) w))"

text \<open>\<open>for step_idx in range(n) \<dots> else raise\<close>; \<open>break\<close> when every request has finished.\<close>

fun sample_loop ::
  "'d engine_driver \<Rightarrow> string list \<Rightarrow> int list \<Rightarrow> int \<Rightarrow> int \<Rightarrow> nat \<Rightarrow> window \<Rightarrow> 'd \<Rightarrow> window result \<times> 'd" where
  "sample_loop E rids lens block_size n_blocks 0 w d = (Inl ValueError, d)"
| "sample_loop E rids lens block_size n_blocks (Suc n) w d =
     (case rbind (ed_free_blocks E d) (\<lambda>free. gate rids lens block_size (n_blocks - free) w) of
        Inl e \<Rightarrow> (Inl e, d)
      | Inr _ \<Rightarrow>
          (case ed_step E d of
             (Inl e, d1) \<Rightarrow> (Inl e, d1)
           | (Inr outs, d1) \<Rightarrow>
               (case count_outputs outs w of
                  Inl e \<Rightarrow> (Inl e, d1)
                | Inr w1 \<Rightarrow>
                    if all_finished w1 then (Inr w1, d1)
                    else (case after_step E rids lens block_size n_blocks d1 w1 of
                            Inl e \<Rightarrow> (Inl e, d1)
                          | Inr w2 \<Rightarrow> sample_loop E rids lens block_size n_blocks n w2 d1))))"

definition window_readings :: "int \<Rightarrow> int \<Rightarrow> window \<Rightarrow> sample_readings result" where
  "window_readings block_size theory_bpt w =
     (case w_prefill w of
        None \<Rightarrow> Inl ValueError
      | Some (prefill_used, prefill_live) \<Rightarrow>
          (case w_decode w of
             None \<Rightarrow> Inl ValueError
           | Some (decode_used, decode_live) \<Rightarrow>
               if decode_used < prefill_used then Inl ValueError
               else Inr \<lparr>sr_kv_bytes_prefill = prefill_used * block_size * theory_bpt,
                         sr_kv_bytes_decode = decode_used * block_size * theory_bpt,
                         sr_live_tokens_prefill = prefill_live, sr_live_tokens_decode = decode_live,
                         sr_used_blocks_prefill = prefill_used, sr_used_blocks_decode = decode_used\<rparr>))"

fun add_requests ::
  "'d engine_driver \<Rightarrow> int \<Rightarrow> bool \<Rightarrow> (string \<times> string \<times> int) list \<Rightarrow> 'd \<Rightarrow> unit result \<times> 'd" where
  "add_requests E decode_tokens ignore_eos [] d = (Inr (), d)"
| "add_requests E decode_tokens ignore_eos ((rid, prompt, plen) # rs) d =
     (case ed_add_request E rid prompt decode_tokens plen ignore_eos d of
        (Inl e, d1) \<Rightarrow> (Inl e, d1)
      | (Inr _, d1) \<Rightarrow> add_requests E decode_tokens ignore_eos rs d1)"

definition start_window :: "string list \<Rightarrow> window" where
  "start_window rids =
     \<lparr>w_generated = foldl (\<lambda>g rid. od_set rid 0 g) [] rids, w_finished = foldl (\<lambda>g rid. od_set rid False g) [] rids,
      w_prefill = None, w_decode = None\<rparr>"

definition bad_arguments :: "string list \<Rightarrow> string list \<Rightarrow> int list \<Rightarrow> int \<Rightarrow> int \<Rightarrow> int \<Rightarrow> bool" where
  "bad_arguments rids prompts lens decode_tokens theory_bpt block_size \<longleftrightarrow>
     rids = [] \<or> \<not> (length prompts = length rids \<and> length lens = length rids) \<or> list_ex (\<lambda>pl. pl \<le> 0) lens \<or>
     decode_tokens < 1 \<or> theory_bpt \<le> 0 \<or> block_size \<le> 0"

text \<open>
  The requests are added before the \<open>try\<close>; the \<open>finally\<close> clause ends the sample, and an exception of
  its own replaces the outcome.
\<close>

definition sample_decode_window ::
  "'d engine_driver \<Rightarrow> string list \<Rightarrow> string list \<Rightarrow> int list \<Rightarrow> int \<Rightarrow> bool \<Rightarrow> int \<Rightarrow> int \<Rightarrow> int \<Rightarrow> 'd \<Rightarrow>
   sample_readings result \<times> 'd" where
  "sample_decode_window E rids prompts lens decode_tokens ignore_eos prefill_chunks theory_bpt block_size d =
     (if bad_arguments rids prompts lens decode_tokens theory_bpt block_size then (Inl ValueError, d)
      else if ed_num_gpu_blocks E d \<le> 0 then (Inl ValueError, d)
      else case add_requests E decode_tokens ignore_eos (zip rids (zip prompts lens)) d of
        (Inl e, d1) \<Rightarrow> (Inl e, d1)
      | (Inr _, d1) \<Rightarrow>
          (let (wr, d2) = sample_loop E rids lens block_size (ed_num_gpu_blocks E d)
                 (nat (prefill_chunks + decode_tokens + 8)) (start_window rids) d1
           in case ed_end_sample E d2 of
                (Inl e, d3) \<Rightarrow> (Inl e, d3)
              | (Inr _, d3) \<Rightarrow> (rbind wr (window_readings block_size theory_bpt), d3)))"

section \<open>What a reported reading has passed\<close>

lemma check_Inr:
  "check_block_consistency used live batch bs full = Inr u \<Longrightarrow>
     0 \<le> used \<and> used * bs \<le> live + batch * bs + 64 \<and> (full \<longrightarrow> live \<le> used * bs)"
  by (auto simp: check_block_consistency_def Let_def split: if_splits)

text \<open>A reading within the bounds of the gate, with every request past its prefill.\<close>

definition sound_reading :: "string list \<Rightarrow> int list \<Rightarrow> int \<Rightarrow> int \<times> int \<Rightarrow> bool" where
  "sound_reading rids lens bs r \<longleftrightarrow>
     snd r \<le> fst r * bs \<and> fst r * bs \<le> snd r + int (length rids) * bs + 64 \<and>
     sum_list lens + int (length rids) \<le> snd r"

definition window_sound :: "string list \<Rightarrow> int list \<Rightarrow> int \<Rightarrow> window \<Rightarrow> bool" where
  "window_sound rids lens bs w \<longleftrightarrow>
     (\<forall>rid\<in>set rids. od_get (w_generated w) rid \<noteq> None) \<and>
     (\<forall>r. w_prefill w = Some r \<longrightarrow> sound_reading rids lens bs r \<and> (\<forall>rid\<in>set rids. 1 \<le> generated_of w rid)) \<and>
     (\<forall>r. w_decode w = Some r \<longrightarrow> sound_reading rids lens bs r)"

lemma not_any_finished: "\<not> any_finished w \<Longrightarrow> \<not> finished_of w rid"
  by (fastforce simp: any_finished_def finished_of_def list_ex_iff split: option.splits dest: od_get_in_set)

lemma live_all:
  assumes "\<not> any_finished w" "length lens = length rids" "\<forall>rid\<in>set rids. 1 \<le> generated_of w rid"
  shows "sum_list lens + int (length rids) \<le> live_tokens rids lens w"
  using assms(2,3)
proof (induction rids arbitrary: lens)
  case Nil
  then show ?case by (simp add: live_tokens_def)
next
  case (Cons rid rids)
  then obtain pl ls where lens: "lens = pl # ls" by (cases lens) auto
  show ?case using Cons lens not_any_finished [OF assms(1)] by (force simp: live_tokens_def)
qed

lemma count_outputs_frame:
  "count_outputs outs w = Inr w' \<Longrightarrow> w_prefill w' = w_prefill w \<and> w_decode w' = w_decode w \<and>
     generated_of w rid \<le> generated_of w' rid \<and> (od_get (w_generated w') rid = None) = (od_get (w_generated w) rid = None)"
proof (induction outs w rule: count_outputs.induct)
  case (1 w)
  then show ?case by simp
next
  case (2 out outs w)
  obtain n where n: "od_get (w_generated w) (so_request_id out) = Some n" "0 \<le> so_new_tokens out"
    and rest: "count_outputs outs (w\<lparr>w_generated := od_set (so_request_id out) (n + so_new_tokens out) (w_generated w),
       w_finished := (if so_finished out then od_set (so_request_id out) True (w_finished w) else w_finished w)\<rparr>) = Inr w'"
    using "2.prems" by (auto simp: Let_def split: option.splits if_splits)
  from "2.IH" [OF refl n(1) _ rest] n show ?case
    by (auto simp: generated_of_def split: option.splits if_splits)
qed

lemma window_sound_count:
  assumes "window_sound rids lens bs w" "count_outputs outs w = Inr w'"
  shows "window_sound rids lens bs w'"
proof -
  have frame: "w_prefill w' = w_prefill w" "w_decode w' = w_decode w" "generated_of w rid \<le> generated_of w' rid"
    "(od_get (w_generated w') rid = None) = (od_get (w_generated w) rid = None)" for rid
    using count_outputs_frame [OF assms(2)] by blast+
  have "1 \<le> generated_of w' rid" if "1 \<le> generated_of w rid" for rid using frame(3) [of rid] that by simp
  then show ?thesis using assms(1) unfolding window_sound_def frame(1,2,4) by blast
qed

lemma window_sound_note:
  assumes "window_sound rids lens bs w" "length lens = length rids"
    and passed: "gate rids lens bs used w = Inr u" and noted: "note_readings rids lens used w = Inr w'"
  shows "window_sound rids lens bs w'"
proof -
  let ?live = "live_tokens rids lens w"
  have sound: "sound_reading rids lens bs (used, ?live)"
    if "\<not> any_finished w" "\<forall>rid\<in>set rids. 1 \<le> generated_of w rid"
  proof -
    have "scheduled rids w" using that(2) by (simp add: scheduled_def active_def list_all_iff)
    then show ?thesis
      using check_Inr [OF passed [unfolded gate_def]] live_all [OF that(1) assms(2) that(2)] by (simp add: sound_reading_def)
  qed
  have past: "\<forall>rid\<in>set rids. 1 \<le> generated_of w rid" if "\<not> any_finished w" "scheduled rids w"
    using that not_any_finished [OF that(1)] by (simp add: scheduled_def active_def list_all_iff)
  have same: "generated_of (w\<lparr>w_prefill := p\<rparr>) = generated_of w" "generated_of (w\<lparr>w_decode := p\<rparr>) = generated_of w"
    "any_finished (w\<lparr>w_prefill := p\<rparr>) = any_finished w" for p
    by (auto simp: generated_of_def any_finished_def fun_eq_iff)
  show ?thesis
  proof (cases "w_prefill w")
    case None
    then have fin: "\<not> any_finished w" using noted by (auto simp: note_readings_def Let_def split: if_splits)
    show ?thesis
    proof (cases "scheduled rids w")
      case True
      then have "w' = w\<lparr>w_prefill := Some (used, ?live), w_decode := Some (used, ?live)\<rparr>"
        using noted None fin by (auto simp: note_readings_def Let_def same split: if_splits)
      then show ?thesis
        using assms(1) sound [OF fin past [OF fin True]] past [OF fin True] by (auto simp: window_sound_def same generated_of_def)
    next
      case False
      then have "w' = w" using noted None fin by (auto simp: note_readings_def Let_def split: if_splits)
      then show ?thesis using assms(1) by simp
    qed
  next
    case (Some r)
    then have past': "\<forall>rid\<in>set rids. 1 \<le> generated_of w rid" using assms(1) by (simp add: window_sound_def)
    have "w' = (if \<not> any_finished w then w\<lparr>w_decode := Some (used, ?live)\<rparr> else w)"
      using noted Some by (auto simp: note_readings_def Let_def split: if_splits)
    then show ?thesis using assms(1) sound past' by (auto simp: window_sound_def same generated_of_def)
  qed
qed

lemma sample_loop_sound:
  assumes "window_sound rids lens bs w" "length lens = length rids"
    and "sample_loop E rids lens bs n_blocks n w d = (Inr w', d')"
  shows "window_sound rids lens bs w'"
  using assms(1,3)
proof (induction n arbitrary: w d)
  case 0
  then show ?case by simp
next
  case (Suc n)
  obtain outs d1 w1 where step: "ed_step E d = (Inr outs, d1)" "count_outputs outs w = Inr w1"
    and rest: "if all_finished w1 then (Inr w1, d1) = (Inr w', d') else
      (\<exists>w2. after_step E rids lens bs n_blocks d1 w1 = Inr w2 \<and> sample_loop E rids lens bs n_blocks n w2 d1 = (Inr w', d'))"
    using Suc.prems(2) by (auto split: sum.splits prod.splits if_splits)
  have w1: "window_sound rids lens bs w1" using window_sound_count [OF Suc.prems(1) step(2)] .
  show ?case
  proof (cases "all_finished w1")
    case True
    then show ?thesis using rest w1 by simp
  next
    case False
    then obtain w2 where w2: "after_step E rids lens bs n_blocks d1 w1 = Inr w2"
      "sample_loop E rids lens bs n_blocks n w2 d1 = (Inr w', d')" using rest by auto
    then obtain used u where "gate rids lens bs used w1 = Inr u" "note_readings rids lens used w1 = Inr w2"
      by (auto simp: after_step_def rbind_eq_Inr)
    from window_sound_note [OF w1 assms(2) this] w2(2) show ?thesis by (rule Suc.IH)
  qed
qed

lemma start_generated: "od_get (foldl (\<lambda>g rid. od_set rid v g) g0 rids) rid =
    (if rid \<in> set rids then Some v else od_get g0 rid)"
  by (induction rids arbitrary: g0) auto

lemma window_sound_start: "window_sound rids lens bs (start_window rids)"
  by (auto simp: window_sound_def start_window_def start_generated)

lemma sample_outcome:
  assumes "sample_decode_window E rids prompts lens decode_tokens ignore_eos chunks bpt bs d = (Inr r, d')"
  obtains d1 w d2 where "\<not> bad_arguments rids prompts lens decode_tokens bpt bs"
    "add_requests E decode_tokens ignore_eos (zip rids (zip prompts lens)) d = (Inr (), d1)"
    "sample_loop E rids lens bs (ed_num_gpu_blocks E d) (nat (chunks + decode_tokens + 8)) (start_window rids) d1 = (Inr w, d2)"
    "ed_end_sample E d2 = (Inr (), d')" "window_readings bs bpt w = Inr r"
  using assms unfolding sample_decode_window_def
  by (auto simp: Let_def rbind_eq_Inr split: if_splits prod.splits sum.splits intro: that)

lemma window_readings_Inr:
  assumes "window_readings bs bpt w = Inr r"
  obtains "w_prefill w = Some (sr_used_blocks_prefill r, sr_live_tokens_prefill r)"
    "w_decode w = Some (sr_used_blocks_decode r, sr_live_tokens_decode r)"
    "sr_used_blocks_prefill r \<le> sr_used_blocks_decode r"
    "sr_kv_bytes_prefill r = sr_used_blocks_prefill r * bs * bpt"
    "sr_kv_bytes_decode r = sr_used_blocks_decode r * bs * bpt"
  using assms by (auto simp: window_readings_def split: option.splits if_splits intro: that)

lemma sample_readings_sound:
  assumes "sample_decode_window E rids prompts lens decode_tokens ignore_eos chunks bpt bs d = (Inr r, d')"
  shows "0 < bpt" "0 < bs" "length lens = length rids"
    "sound_reading rids lens bs (sr_used_blocks_prefill r, sr_live_tokens_prefill r)"
    "sound_reading rids lens bs (sr_used_blocks_decode r, sr_live_tokens_decode r)"
    "sr_used_blocks_prefill r \<le> sr_used_blocks_decode r" "sr_kv_bytes_decode r = sr_used_blocks_decode r * bs * bpt"
    "sr_kv_bytes_prefill r = sr_used_blocks_prefill r * bs * bpt"
proof -
  obtain d1 w d2 where ok: "\<not> bad_arguments rids prompts lens decode_tokens bpt bs"
    and loop: "sample_loop E rids lens bs (ed_num_gpu_blocks E d) (nat (chunks + decode_tokens + 8)) (start_window rids) d1 = (Inr w, d2)"
    and rd: "window_readings bs bpt w = Inr r"
    using sample_outcome [OF assms] by metis
  show "0 < bpt" "0 < bs" and len: "length lens = length rids" using ok by (simp_all add: bad_arguments_def)
  have "window_sound rids lens bs w" using sample_loop_sound [OF window_sound_start len loop] .
  then show "sound_reading rids lens bs (sr_used_blocks_prefill r, sr_live_tokens_prefill r)"
    "sound_reading rids lens bs (sr_used_blocks_decode r, sr_live_tokens_decode r)"
    "sr_used_blocks_prefill r \<le> sr_used_blocks_decode r" "sr_kv_bytes_decode r = sr_used_blocks_decode r * bs * bpt"
    "sr_kv_bytes_prefill r = sr_used_blocks_prefill r * bs * bpt"
    by (auto simp: window_sound_def intro: window_readings_Inr [OF rd])
qed

section \<open>A cell of the sweep\<close>

record sweep_context =
  sc_campaign_id :: string
  sc_model_id :: string
  sc_model_revision :: string
  sc_gpu :: string
  sc_vllm_version :: string
  sc_theory_bpt :: int
  sc_baseline_bytes :: int
  sc_block_size :: int
  sc_decode_tokens :: int
  sc_method :: string
  sc_max_num_batched_tokens :: int

definition prefill_chunk_count :: "int \<Rightarrow> int \<Rightarrow> int \<Rightarrow> int result" where
  "prefill_chunk_count batch_size seq_len max_num_batched_tokens =
     (if max_num_batched_tokens = 0 then Inl ZeroDivisionError
      else Inr (- ((- batch_size * seq_len) div max_num_batched_tokens)))"

definition EXTENDED_DECODE_TOKENS :: int where
  "EXTENDED_DECODE_TOKENS = 5 * 6"

definition cell_decode_tokens :: "int \<Rightarrow> int" where
  "cell_decode_tokens decode_tokens = max decode_tokens EXTENDED_DECODE_TOKENS"

definition sample_request_ids :: "string \<Rightarrow> int \<Rightarrow> int \<Rightarrow> nat \<Rightarrow> string list" where
  "sample_request_ids campaign_id seq_len batch_size i =
     map (\<lambda>k. campaign_id @ ''-s'' @ int_str seq_len @ ''-b'' @ int_str batch_size @ ''-n'' @ nat_str i @ ''-r'' @ nat_str k)
       [0..<nat batch_size]"

definition cell_sample ::
  "'d engine_driver \<Rightarrow> sweep_context \<Rightarrow> int \<Rightarrow> int \<Rightarrow> string list \<Rightarrow> int \<Rightarrow> nat \<Rightarrow> 'd \<Rightarrow> sample_readings result \<times> 'd" where
  "cell_sample E ctx seq_len batch_size prompts chunks i d =
     sample_decode_window E (sample_request_ids (sc_campaign_id ctx) seq_len batch_size i) prompts
       (replicate (nat batch_size) seq_len) (cell_decode_tokens (sc_decode_tokens ctx)) True chunks
       (sc_theory_bpt ctx) (sc_block_size ctx) d"

fun take_samples ::
  "(nat \<Rightarrow> 'd \<Rightarrow> sample_readings result \<times> 'd) \<Rightarrow> nat list \<Rightarrow> 'd \<Rightarrow> sample_readings list result \<times> 'd" where
  "take_samples f [] d = (Inr [], d)"
| "take_samples f (i # is) d =
     (case f i d of
        (Inl e, d1) \<Rightarrow> (Inl e, d1)
      | (Inr r, d1) \<Rightarrow>
          (case take_samples f is d1 of
             (Inl e, d2) \<Rightarrow> (Inl e, d2)
           | (Inr rs, d2) \<Rightarrow> (Inr (r # rs), d2)))"

definition cell_of_samples :: "sweep_context \<Rightarrow> int \<Rightarrow> int \<Rightarrow> int \<Rightarrow> sample_readings list \<Rightarrow> kv_cell result" where
  "cell_of_samples ctx seq_len batch_size n_samples rs =
     (let live_counts = map sr_live_tokens_decode rs
      in if list_ex (\<lambda>c. c \<noteq> live_counts ! 0) live_counts then Inl ValueError
         else KvScalingCell \<lparr>kc_model_id = sc_model_id ctx, kc_gpu = sc_gpu ctx, kc_vllm_version = sc_vllm_version ctx,
                kc_seq_len = seq_len, kc_batch_size = batch_size, kc_n_samples = n_samples,
                kc_kv_bytes_used_samples = map sr_kv_bytes_decode rs,
                kc_kv_bytes_prefill_samples = Some (map sr_kv_bytes_prefill rs),
                kc_total_tokens = live_counts ! 0, kc_baseline_bytes = sc_baseline_bytes ctx, kc_method = sc_method ctx\<rparr>)"

definition kv_run_cell ::
  "'d engine_driver \<Rightarrow> sweep_context \<Rightarrow> int \<Rightarrow> int \<Rightarrow> int \<Rightarrow> string list \<Rightarrow> 'd \<Rightarrow> kv_cell result \<times> 'd" where
  "kv_run_cell E ctx seq_len batch_size n_samples prompts d =
     (if n_samples \<le> 0 then (Inl ValueError, d)
      else if int (length prompts) \<noteq> batch_size then (Inl ValueError, d)
      else case prefill_chunk_count batch_size seq_len (sc_max_num_batched_tokens ctx) of
        Inl e \<Rightarrow> (Inl e, d)
      | Inr chunks \<Rightarrow>
          (case take_samples (cell_sample E ctx seq_len batch_size prompts chunks) [0..<nat n_samples] d of
             (Inl e, d1) \<Rightarrow> (Inl e, d1)
           | (Inr rs, d1) \<Rightarrow> (cell_of_samples ctx seq_len batch_size n_samples rs, d1)))"

lemma take_samples_Inr:
  assumes "take_samples f is d = (Inr rs, d')" and "\<And>i d r d'. f i d = (Inr r, d') \<Longrightarrow> P r"
  shows "length rs = length is \<and> (\<forall>r\<in>set rs. P r)"
  using assms(1)
proof (induction "is" arbitrary: d rs)
  case Nil
  then show ?case by simp
next
  case (Cons i js)
  then obtain r d1 rs' where "f i d = (Inr r, d1)" "take_samples f js d1 = (Inr rs', d')" "rs = r # rs'"
    by (auto split: prod.splits sum.splits)
  then show ?case using Cons.IH [of d1 rs'] assms(2) by auto
qed

lemma cell_of_samples_Inr:
  assumes "cell_of_samples ctx seq_len batch_size n_samples rs = Inr c"
  shows "\<forall>r\<in>set rs. sr_live_tokens_decode r = kc_total_tokens c" "kc_kv_bytes_used_samples c = map sr_kv_bytes_decode rs"
    "rs \<noteq> []" "0 < kc_total_tokens c" "kc_seq_len c = seq_len" "kc_batch_size c = batch_size"
    "kc_baseline_bytes c = sc_baseline_bytes ctx" "kc_n_samples c = n_samples" "kc_model_id c = sc_model_id ctx"
proof -
  have same: "\<forall>r\<in>set rs. sr_live_tokens_decode r = map sr_live_tokens_decode rs ! 0"
    using assms by (auto simp: cell_of_samples_def Let_def list_ex_iff split: if_splits)
  have c: "KvScalingCell \<lparr>kc_model_id = sc_model_id ctx, kc_gpu = sc_gpu ctx, kc_vllm_version = sc_vllm_version ctx,
      kc_seq_len = seq_len, kc_batch_size = batch_size, kc_n_samples = n_samples,
      kc_kv_bytes_used_samples = map sr_kv_bytes_decode rs, kc_kv_bytes_prefill_samples = Some (map sr_kv_bytes_prefill rs),
      kc_total_tokens = map sr_live_tokens_decode rs ! 0, kc_baseline_bytes = sc_baseline_bytes ctx, kc_method = sc_method ctx\<rparr> = Inr c"
    using assms by (auto simp: cell_of_samples_def Let_def split: if_splits)
  show "\<forall>r\<in>set rs. sr_live_tokens_decode r = kc_total_tokens c" "kc_kv_bytes_used_samples c = map sr_kv_bytes_decode rs"
    "rs \<noteq> []" "0 < kc_total_tokens c" "kc_seq_len c = seq_len" "kc_batch_size c = batch_size"
    "kc_baseline_bytes c = sc_baseline_bytes ctx" "kc_n_samples c = n_samples" "kc_model_id c = sc_model_id ctx"
    using same KvScalingCell_positive [OF c] unfolding KvScalingCell_Inr [OF c] by (simp_all only: kv_cell.simps map_is_Nil_conv not_False_eq_True)
qed

text \<open>Every sample of a cell is within the bounds of the gate, in bytes.\<close>

lemma kv_run_cell_sound:
  assumes "kv_run_cell E ctx seq_len batch_size n_samples prompts d = (Inr c, d')"
  shows "0 < sc_theory_bpt ctx" "0 < sc_block_size ctx" "0 < batch_size" "batch_size * (seq_len + 1) \<le> kc_total_tokens c"
    "\<forall>x\<in>set (kc_kv_bytes_used_samples c). kc_total_tokens c * sc_theory_bpt ctx \<le> x \<and>
       x \<le> (kc_total_tokens c + batch_size * sc_block_size ctx + 64) * sc_theory_bpt ctx"
proof -
  let ?ids = "sample_request_ids (sc_campaign_id ctx) seq_len batch_size" and ?lens = "replicate (nat batch_size) seq_len"
  let ?P = "\<lambda>r. \<exists>i. 0 < sc_theory_bpt ctx \<and> 0 < sc_block_size ctx \<and> ?ids i \<noteq> [] \<and>
    sound_reading (?ids i) ?lens (sc_block_size ctx) (sr_used_blocks_decode r, sr_live_tokens_decode r) \<and>
    sr_kv_bytes_decode r = sr_used_blocks_decode r * sc_block_size ctx * sc_theory_bpt ctx"
  obtain chunks rs where run: "take_samples (cell_sample E ctx seq_len batch_size prompts chunks) [0..<nat n_samples] d = (Inr rs, d')"
    and cell: "cell_of_samples ctx seq_len batch_size n_samples rs = Inr c"
    using assms by (auto simp: kv_run_cell_def split: if_splits sum.splits prod.splits)
  have P: "?P r" if sample: "cell_sample E ctx seq_len batch_size prompts chunks i d = (Inr r, d')" for i d r d'
  proof -
    have "?ids i \<noteq> []"
      using sample_outcome [OF sample [unfolded cell_sample_def]] by (metis bad_arguments_def)
    then show ?thesis using sample_readings_sound [OF sample [unfolded cell_sample_def]] by blast
  qed
  have samples: "\<forall>r\<in>set rs. ?P r" using take_samples_Inr [OF run, of ?P] P by blast
  note facts = cell_of_samples_Inr [OF cell]
  have ids: "length (?ids i) = nat batch_size" for i by (simp add: sample_request_ids_def)
  obtain r0 where r0: "r0 \<in> set rs" "?P r0" using samples facts(3) by (cases rs) auto
  then obtain i where i: "?ids i \<noteq> []" by blast
  have "nat batch_size \<noteq> 0" using ids [of i] i by auto
  then show pos: "0 < batch_size" by simp
  show bpt: "0 < sc_theory_bpt ctx" and "0 < sc_block_size ctx" using r0(2) by blast+
  have reading: "kc_total_tokens c \<le> sr_used_blocks_decode r * sc_block_size ctx \<and>
      sr_used_blocks_decode r * sc_block_size ctx \<le> kc_total_tokens c + batch_size * sc_block_size ctx + 64 \<and>
      batch_size * (seq_len + 1) \<le> kc_total_tokens c \<and>
      sr_kv_bytes_decode r = sr_used_blocks_decode r * sc_block_size ctx * sc_theory_bpt ctx" if r: "r \<in> set rs" for r
  proof -
    have live: "sr_live_tokens_decode r = kc_total_tokens c" using facts(1) r by blast
    obtain i where i: "sound_reading (?ids i) ?lens (sc_block_size ctx) (sr_used_blocks_decode r, kc_total_tokens c)"
      and bytes: "sr_kv_bytes_decode r = sr_used_blocks_decode r * sc_block_size ctx * sc_theory_bpt ctx"
      using samples r unfolding live [symmetric] by blast
    have "sum_list ?lens + batch_size = batch_size * (seq_len + 1)" using pos by (simp add: sum_list_replicate algebra_simps)
    then show ?thesis using i bytes pos by (simp add: sound_reading_def ids)
  qed
  show "batch_size * (seq_len + 1) \<le> kc_total_tokens c" using reading r0(1) by blast
  show "\<forall>x\<in>set (kc_kv_bytes_used_samples c). kc_total_tokens c * sc_theory_bpt ctx \<le> x \<and>
       x \<le> (kc_total_tokens c + batch_size * sc_block_size ctx + 64) * sc_theory_bpt ctx"
    unfolding facts(2) using reading bpt by (auto intro!: mult_right_mono)
qed

end
