(* ===== verification/KvFake.thy ===== *)
theory KvFake
  imports KvSampling
begin

text \<open>
  What a correct engine makes of a sample. The locale \<open>decode_engine\<close> is the contract of a lock-step
  engine over a paged cache; inside it the sampling loop, a whole sample and a cell are evaluated in closed
  form. The fake driver of the dry run implements the contract, so its cells are known exactly:
  the readings are the block counts of the tokens live at the first and at the last step before the
  batch finishes.
\<close>

section \<open>The contract of a lock-step engine\<close>

text \<open>An unfinished request: its identifier, prompt length and number of generated tokens.\<close>

type_synonym live_request = "string \<times> int \<times> int"

definition demand :: "int \<Rightarrow> live_request list \<Rightarrow> int" where
  "demand bs v = sum_list (map (\<lambda>(rid, p, g). if 1 \<le> g then blocks_for bs (p + g) else 0) v)"

definition advance :: "int \<Rightarrow> live_request list \<Rightarrow> live_request list" where
  "advance D v = filter (\<lambda>(rid, p, g). g < D) (map (\<lambda>(rid, p, g). (rid, p, g + 1)) v)"

definition advance_outputs :: "int \<Rightarrow> live_request list \<Rightarrow> step_output list" where
  "advance_outputs D v =
     map (\<lambda>(rid, p, g). \<lparr>so_request_id = rid, so_new_tokens = 1, so_finished = (D \<le> g + 1)\<rparr>) v"

locale decode_engine =
  fixes E :: "'d engine_driver"
    and view :: "'d \<Rightarrow> live_request list"
    and known :: "'d \<Rightarrow> string set"
    and ready :: "int \<Rightarrow> 'd \<Rightarrow> bool"
    and bs :: "'d \<Rightarrow> int"
    and capacity :: "'d \<Rightarrow> int"
  assumes size_pos: "ready D d \<Longrightarrow> 0 < bs d"
    and idle: "ready D d \<Longrightarrow> view d = [] \<Longrightarrow> ready D' d"
    and blocks: "ready D d \<Longrightarrow> ed_num_gpu_blocks E d = capacity d"
    and free: "ready D d \<Longrightarrow> ed_free_blocks E d = Inr (capacity d - demand (bs d) (view d))"
    and add: "ready D d \<Longrightarrow> rid \<notin> known d \<Longrightarrow> 1 \<le> D \<Longrightarrow> 0 < p \<Longrightarrow>
      \<exists>d'. ed_add_request E rid prompt D p True d = (Inr (), d') \<and> ready D d' \<and> view d' = view d @ [(rid, p, 0)] \<and>
        known d' = insert rid (known d) \<and> bs d' = bs d \<and> capacity d' = capacity d"
    and step: "ready D d \<Longrightarrow> demand (bs d) (advance D (view d)) \<le> capacity d \<Longrightarrow>
      \<exists>d'. ed_step E d = (Inr (advance_outputs D (view d)), d') \<and> ready D d' \<and> view d' = advance D (view d) \<and>
        known d' = known d \<and> bs d' = bs d \<and> capacity d' = capacity d"
    and end_sample: "ready D d \<Longrightarrow> view d = [] \<Longrightarrow>
      \<exists>d'. ed_end_sample E d = (Inr (), d') \<and> ready D d' \<and> view d' = [] \<and>
        known d' = known d \<and> bs d' = bs d \<and> capacity d' = capacity d"

section \<open>Batches in lock-step\<close>

text \<open>A batch of requests that have all generated \<open>g\<close> tokens.\<close>

definition batch :: "string list \<Rightarrow> int list \<Rightarrow> int \<Rightarrow> live_request list" where
  "batch rids lens g = map (\<lambda>(rid, p). (rid, p, g)) (zip rids lens)"

definition batch_blocks :: "int \<Rightarrow> int list \<Rightarrow> int \<Rightarrow> int" where
  "batch_blocks bs lens g = sum_list (map (\<lambda>p. blocks_for bs (p + g)) lens)"

definition batch_tokens :: "int list \<Rightarrow> int \<Rightarrow> int" where
  "batch_tokens lens g = sum_list (map (\<lambda>p. p + g) lens)"

text \<open>The window after \<open>g\<close> steps of such a batch.\<close>

definition batch_window :: "int \<Rightarrow> string list \<Rightarrow> int list \<Rightarrow> int \<Rightarrow> window" where
  "batch_window bs rids lens g =
     \<lparr>w_generated = map (\<lambda>rid. (rid, g)) rids, w_finished = map (\<lambda>rid. (rid, False)) rids,
      w_prefill = (if 1 \<le> g then Some (batch_blocks bs lens 1, batch_tokens lens 1) else None),
      w_decode = (if 1 \<le> g then Some (batch_blocks bs lens g, batch_tokens lens g) else None)\<rparr>"

lemma blocks_for_bounds:
  assumes "0 < bs"
  shows "t \<le> blocks_for bs t * bs" "blocks_for bs t * bs < t + bs"
proof -
  have "real_of_int t / real_of_int bs \<le> real_of_int (blocks_for bs t)"
    "real_of_int (blocks_for bs t) < real_of_int t / real_of_int bs + 1"
    unfolding blocks_for_def by linarith+
  then have "real_of_int t \<le> real_of_int (blocks_for bs t) * real_of_int bs"
    "real_of_int (blocks_for bs t) * real_of_int bs < real_of_int t + real_of_int bs"
    using assms by (simp_all add: field_simps)
  then show "t \<le> blocks_for bs t * bs" "blocks_for bs t * bs < t + bs"
    by (metis of_int_le_iff of_int_mult, metis of_int_add of_int_less_iff of_int_mult)
qed

lemma blocks_for_mono: "0 < bs \<Longrightarrow> t \<le> u \<Longrightarrow> blocks_for bs t \<le> blocks_for bs u"
  unfolding blocks_for_def by (intro ceiling_mono divide_right_mono) auto

lemma blocks_for_nonneg: "0 < bs \<Longrightarrow> 0 \<le> t \<Longrightarrow> 0 \<le> blocks_for bs t"
  using blocks_for_mono [of bs 0 t] by (simp add: blocks_for_def)

lemma batch_blocks_mono: "0 < bs \<Longrightarrow> g \<le> h \<Longrightarrow> batch_blocks bs lens g \<le> batch_blocks bs lens h"
  unfolding batch_blocks_def by (intro sum_list_mono blocks_for_mono) auto

lemma batch_blocks_bounds:
  assumes "0 < bs"
  shows "batch_tokens lens g \<le> batch_blocks bs lens g * bs"
    "batch_blocks bs lens g * bs \<le> batch_tokens lens g + int (length lens) * bs"
proof (induction lens)
  case (Cons p lens)
  have "p + g \<le> blocks_for bs (p + g) * bs" "blocks_for bs (p + g) * bs \<le> (p + g) + bs"
    using blocks_for_bounds [OF assms, of "p + g"] by simp_all
  with Cons show "batch_tokens (p # lens) g \<le> batch_blocks bs (p # lens) g * bs"
    "batch_blocks bs (p # lens) g * bs \<le> batch_tokens (p # lens) g + int (length (p # lens)) * bs"
    by (simp_all add: batch_tokens_def batch_blocks_def algebra_simps)
qed (simp_all add: batch_tokens_def batch_blocks_def)

lemma batch_blocks_nonneg: "0 < bs \<Longrightarrow> \<forall>p\<in>set lens. 0 < p \<Longrightarrow> 0 \<le> g \<Longrightarrow> 0 \<le> batch_blocks bs lens g"
  unfolding batch_blocks_def by (intro sum_list_nonneg) (fastforce intro: blocks_for_nonneg)

lemma batch_zip: "length lens = length rids \<Longrightarrow> sum_list (map (\<lambda>(rid, p). f p) (zip rids lens)) = (sum_list (map f lens) :: int)"
  by (induction rids lens rule: list_induct2') auto

lemma demand_batch:
  "length lens = length rids \<Longrightarrow> demand bs (batch rids lens g) = (if 1 \<le> g then batch_blocks bs lens g else 0)"
proof (induction rids lens rule: list_induct2')
qed (auto simp: demand_def batch_def batch_blocks_def)

lemma advance_batch: "advance D (batch rids lens g) = (if g + 1 < D then batch rids lens (g + 1) else [])"
  by (auto simp: advance_def batch_def filter_map comp_def case_prod_beta filter_empty_conv)

lemma generated_batch: "rid \<in> set rids \<Longrightarrow> generated_of (batch_window bs rids lens g) rid = g"
  by (induction rids) (auto simp: generated_of_def batch_window_def)

lemma not_finished_batch: "finished_of (batch_window bs rids lens g) rid = False"
proof -
  have "od_get (map (\<lambda>r. (r, False)) rids) rid \<noteq> Some True" by (auto dest: od_get_in_set)
  then show ?thesis by (auto simp: finished_of_def batch_window_def split: option.splits)
qed

lemma live_batch:
  assumes "length lens = length rids"
  shows "live_tokens rids lens (batch_window bs rids lens g) = batch_tokens lens g"
proof -
  have "map (\<lambda>(rid, pl). if finished_of (batch_window bs rids lens g) rid then 0
          else pl + generated_of (batch_window bs rids lens g) rid) (zip rids lens) = map (\<lambda>(rid, p). p + g) (zip rids lens)"
    by (auto simp: not_finished_batch generated_batch dest: set_zip_leftD)
  then show ?thesis unfolding live_tokens_def batch_tokens_def by (simp only: batch_zip [OF assms])
qed

lemma scheduled_batch: "rids \<noteq> [] \<Longrightarrow> scheduled rids (batch_window bs rids lens g) = (1 \<le> g)"
  by (cases rids) (auto simp: scheduled_def active_def not_finished_batch generated_batch list_all_iff)

lemma gate_batch:
  assumes "0 < bs" "rids \<noteq> []" "length lens = length rids" "\<forall>p\<in>set lens. 0 < p" "0 \<le> g"
    and "used = (if 1 \<le> g then batch_blocks bs lens g else 0)"
  shows "gate rids lens bs used (batch_window bs' rids lens g) = Inr ()"
proof -
  have "0 \<le> batch_tokens lens g" using assms(4,5) unfolding batch_tokens_def by (intro sum_list_nonneg) auto
  moreover have "0 \<le> int (length lens) * bs" using assms(1) by simp
  ultimately show ?thesis
    using batch_blocks_bounds [OF assms(1), of lens g] batch_blocks_nonneg [OF assms(1,4,5)]
    by (auto simp: gate_def check_block_consistency_def live_batch [OF assms(3)] scheduled_batch [OF assms(2)] assms(3,6) Let_def)
qed

lemma foldl_od_set: "distinct (map fst d @ rids) \<Longrightarrow> foldl (\<lambda>g rid. od_set rid v g) d rids = d @ map (\<lambda>rid. (rid, v)) rids"
proof (induction rids arbitrary: d)
  case Nil
  then show ?case by simp
next
  case (Cons r rids)
  have new: "r \<notin> fst ` set d \<Longrightarrow> od_set r v d = d @ [(r, v)]" by (induction d) auto
  show ?case using Cons.IH [of "d @ [(r, v)]"] Cons.prems by (simp add: new)
qed

lemma start_batch: "distinct rids \<Longrightarrow> start_window rids = batch_window bs rids lens 0"
  by (simp add: start_window_def batch_window_def foldl_od_set)

text \<open>Counting the outputs of one step, a prefix of which has been read.\<close>

lemma count_batch_from:
  assumes "distinct (seen @ rids)" "w_generated w = map (\<lambda>r. (r, g + 1)) seen @ map (\<lambda>r. (r, g)) rids"
    and "w_finished w = map (\<lambda>r. (r, b)) seen @ map (\<lambda>r. (r, False)) rids"
  shows "count_outputs (map (\<lambda>r. \<lparr>so_request_id = r, so_new_tokens = 1, so_finished = b\<rparr>) rids) w =
    Inr (w\<lparr>w_generated := map (\<lambda>r. (r, g + 1)) (seen @ rids), w_finished := map (\<lambda>r. (r, b)) (seen @ rids)\<rparr>)"
  using assms
proof (induction rids arbitrary: seen w)
  case Nil
  then show ?case by simp
next
  case (Cons r rids)
  have get: "od_get (map (\<lambda>r. (r, x)) seen @ (r, y) # rest) r = Some y" for x y :: 'a and rest
    using Cons.prems(1) by (induction seen) auto
  have put: "od_set r z (map (\<lambda>r. (r, x)) seen @ (r, y) # rest) = map (\<lambda>r. (r, x)) seen @ (r, z) # rest" for x y z :: 'b and rest
    using Cons.prems(1) by (induction seen) auto
  let ?w = "w\<lparr>w_generated := map (\<lambda>r. (r, g + 1)) (seen @ [r]) @ map (\<lambda>r. (r, g)) rids,
    w_finished := map (\<lambda>r. (r, b)) (seen @ [r]) @ map (\<lambda>r. (r, False)) rids\<rparr>"
  have "od_get (w_generated w) r = Some g" using Cons.prems(1) unfolding Cons.prems(2) by (induction seen) auto
  moreover have "od_set r (g + 1) (w_generated w) = w_generated ?w"
    using Cons.prems(1) unfolding Cons.prems(2) by (induction seen) auto
  moreover have "(if b then od_set r True (w_finished w) else w_finished w) = w_finished ?w"
    using Cons.prems(1) unfolding Cons.prems(3) by (induction seen) auto
  ultimately have "count_outputs (map (\<lambda>r. \<lparr>so_request_id = r, so_new_tokens = 1, so_finished = b\<rparr>) (r # rids)) w =
      count_outputs (map (\<lambda>r. \<lparr>so_request_id = r, so_new_tokens = 1, so_finished = b\<rparr>) rids) ?w"
    by (simp add: Let_def)
  also have "\<dots> = Inr (?w\<lparr>w_generated := map (\<lambda>r. (r, g + 1)) ((seen @ [r]) @ rids),
      w_finished := map (\<lambda>r. (r, b)) ((seen @ [r]) @ rids)\<rparr>)"
    using Cons.prems(1) by (intro Cons.IH) auto
  finally show ?case by simp
qed

lemma count_batch:
  assumes "distinct rids" "length lens = length rids"
  shows "count_outputs (advance_outputs D (batch rids lens g)) (batch_window bs rids lens g) =
    Inr ((batch_window bs rids lens g)\<lparr>w_generated := map (\<lambda>r. (r, g + 1)) rids,
      w_finished := map (\<lambda>r. (r, D \<le> g + 1)) rids\<rparr>)"
proof -
  let ?out = "\<lambda>r. \<lparr>so_request_id = r, so_new_tokens = 1, so_finished = (D \<le> g + 1)\<rparr>"
  have "advance_outputs D (batch rids lens g) = map ?out (map fst (zip rids lens))"
    by (simp add: advance_outputs_def batch_def case_prod_beta comp_def)
  then have "advance_outputs D (batch rids lens g) = map ?out rids" using assms(2) by simp
  then show ?thesis using count_batch_from [of "[]" rids "batch_window bs rids lens g" g "D \<le> g + 1"] assms(1)
    by (simp add: batch_window_def)
qed

lemma note_batch:
  assumes "rids \<noteq> []" "length lens = length rids" "0 \<le> g"
    and w: "w = (batch_window bs rids lens g)\<lparr>w_generated := map (\<lambda>r. (r, g + 1)) rids, w_finished := map (\<lambda>r. (r, False)) rids\<rparr>"
  shows "note_readings rids lens (batch_blocks bs lens (g + 1)) w = Inr (batch_window bs rids lens (g + 1))"
proof -
  have same: "generated_of w = generated_of (batch_window bs rids lens (g + 1))"
    "finished_of w = finished_of (batch_window bs rids lens (g + 1))"
    by (auto simp: generated_of_def finished_of_def batch_window_def w)
  have live: "live_tokens rids lens w = batch_tokens lens (g + 1)"
    using live_batch [OF assms(2), of bs "g + 1"] by (simp only: live_tokens_def same)
  have sched: "scheduled rids w"
    using scheduled_batch [OF assms(1), of bs lens "g + 1"] assms(3) by (simp add: scheduled_def active_def same)
  have none: "\<not> any_finished w" "\<not> any_finished (w\<lparr>w_prefill := p\<rparr>)" for p
    by (simp_all add: any_finished_def list_ex_iff w batch_window_def)
  have noted: "note_readings rids lens (batch_blocks bs lens (g + 1)) w =
      Inr (w\<lparr>w_prefill := (if 1 \<le> g then w_prefill w else Some (batch_blocks bs lens (g + 1), batch_tokens lens (g + 1))),
        w_decode := Some (batch_blocks bs lens (g + 1), batch_tokens lens (g + 1))\<rparr>)"
  proof (cases "1 \<le> g")
    case True
    then have "\<exists>p. w_prefill w = Some p" by (simp add: w batch_window_def)
    then show ?thesis using True by (auto simp: note_readings_def Let_def live sched none)
  next
    case False
    then have "w_prefill w = None" by (simp add: w batch_window_def)
    then show ?thesis using False by (simp add: note_readings_def Let_def live sched none)
  qed
  consider "1 \<le> g" | "g = 0" using assms(3) by linarith
  then show ?thesis unfolding noted by cases (simp_all add: w batch_window_def)
qed

section \<open>Samples on a lock-step engine\<close>

text \<open>A sample of a fresh batch, in closed form.\<close>

definition batch_readings :: "int \<Rightarrow> int \<Rightarrow> int list \<Rightarrow> int \<Rightarrow> sample_readings" where
  "batch_readings block_size bpt lens D =
     \<lparr>sr_kv_bytes_prefill = batch_blocks block_size lens 1 * block_size * bpt,
      sr_kv_bytes_decode = batch_blocks block_size lens (D - 1) * block_size * bpt,
      sr_live_tokens_prefill = batch_tokens lens 1, sr_live_tokens_decode = batch_tokens lens (D - 1),
      sr_used_blocks_prefill = batch_blocks block_size lens 1, sr_used_blocks_decode = batch_blocks block_size lens (D - 1)\<rparr>"

context decode_engine
begin

lemma loop_batch:
  assumes "distinct rids" "rids \<noteq> []" "length lens = length rids" "\<forall>p\<in>set lens. 0 < p"
    and "ready D d" "view d = batch rids lens g" "batch_blocks (bs d) lens (D - 1) \<le> capacity d"
    and "0 \<le> g" "g < D" "D \<le> int n + g"
  shows "\<exists>d'. sample_loop E rids lens (bs d) (capacity d) n (batch_window (bs d) rids lens g) d =
      (Inr ((batch_window (bs d) rids lens (D - 1))\<lparr>w_generated := map (\<lambda>r. (r, D)) rids,
         w_finished := map (\<lambda>r. (r, True)) rids\<rparr>), d') \<and>
    ready D d' \<and> view d' = [] \<and> known d' = known d \<and> bs d' = bs d \<and> capacity d' = capacity d"
  using assms(5-)
proof (induction n arbitrary: d g)
  case 0
  then show ?case by simp
next
  case (Suc n)
  let ?w = "batch_window (bs d) rids lens g"
  note size = size_pos [OF Suc.prems(1)]
  have used: "capacity d - (capacity d - demand (bs d) (view d)) = (if 1 \<le> g then batch_blocks (bs d) lens g else 0)"
    unfolding Suc.prems(2) by (simp add: demand_batch [OF assms(3)])
  have pre: "rbind (ed_free_blocks E d) (\<lambda>free. gate rids lens (bs d) (capacity d - free) ?w) = Inr ()"
    unfolding free [OF Suc.prems(1)] rbind_Inr
    using gate_batch [OF size assms(2-4) Suc.prems(4) used] .
  have room: "demand (bs d) (advance D (view d)) \<le> capacity d"
  proof (cases "g + 1 < D")
    case True
    then have "batch_blocks (bs d) lens (g + 1) \<le> batch_blocks (bs d) lens (D - 1)"
      by (intro batch_blocks_mono [OF size]) simp
    then show ?thesis
      using True Suc.prems(3,4) by (simp add: Suc.prems(2) advance_batch demand_batch [OF assms(3)])
  next
    case False
    have "0 \<le> batch_blocks (bs d) lens (D - 1)"
      using Suc.prems(4,5) by (intro batch_blocks_nonneg [OF size assms(4)]) simp
    then show ?thesis using False Suc.prems(3) by (simp add: Suc.prems(2) advance_batch demand_def)
  qed
  obtain d1 where d1: "ed_step E d = (Inr (advance_outputs D (view d)), d1)" "ready D d1" "view d1 = advance D (view d)"
    "known d1 = known d" "bs d1 = bs d" "capacity d1 = capacity d"
    using step [OF Suc.prems(1) room] by blast
  define w1 where "w1 = ?w\<lparr>w_generated := map (\<lambda>r. (r, g + 1)) rids, w_finished := map (\<lambda>r. (r, D \<le> g + 1)) rids\<rparr>"
  have count: "count_outputs (advance_outputs D (view d)) ?w = Inr w1"
    unfolding Suc.prems(2) w1_def by (rule count_batch [OF assms(1,3)])
  show ?case
  proof (cases "D \<le> g + 1")
    case True
    then have g: "g = D - 1" using Suc.prems(5) by simp
    have "all_finished w1" using True by (simp add: all_finished_def w1_def list_all_iff)
    moreover have "view d1 = []" using True by (simp add: d1(3) Suc.prems(2) advance_batch)
    ultimately show ?thesis using d1(2,4-6) True by (simp add: pre d1(1) count) (simp add: w1_def g)
  next
    case False
    have unfinished: "\<not> all_finished w1" using False assms(2) by (cases rids) (auto simp: all_finished_def w1_def)
    have view1: "view d1 = batch rids lens (g + 1)" using False by (simp add: d1(3) Suc.prems(2) advance_batch)
    then have freed: "capacity d - (capacity d1 - demand (bs d1) (view d1)) = batch_blocks (bs d) lens (g + 1)"
      using Suc.prems(4) by (simp add: d1(5,6) demand_batch [OF assms(3)])
    have w1: "w1 = ?w\<lparr>w_generated := map (\<lambda>r. (r, g + 1)) rids, w_finished := map (\<lambda>r. (r, False)) rids\<rparr>"
      using False by (simp add: w1_def)
    have same: "generated_of w1 = generated_of (batch_window (bs d) rids lens (g + 1))"
      "finished_of w1 = finished_of (batch_window (bs d) rids lens (g + 1))"
      by (auto simp: generated_of_def finished_of_def batch_window_def w1)
    have "gate rids lens (bs d) (batch_blocks (bs d) lens (g + 1)) w1 =
        gate rids lens (bs d) (batch_blocks (bs d) lens (g + 1)) (batch_window (bs d) rids lens (g + 1))"
      by (simp only: gate_def live_tokens_def scheduled_def active_def same)
    also have "\<dots> = Inr ()" using gate_batch [OF size assms(2-4), of "g + 1"] Suc.prems(4) by simp
    finally have "gate rids lens (bs d) (batch_blocks (bs d) lens (g + 1)) w1 = Inr ()" .
    then have "after_step E rids lens (bs d) (capacity d) d1 w1 = Inr (batch_window (bs d) rids lens (g + 1))"
      unfolding after_step_def free [OF d1(2)] rbind_Inr freed using note_batch [OF assms(2,3) Suc.prems(4) w1] by simp
    moreover have "\<exists>d'. sample_loop E rids lens (bs d1) (capacity d1) n (batch_window (bs d1) rids lens (g + 1)) d1 =
        (Inr ((batch_window (bs d1) rids lens (D - 1))\<lparr>w_generated := map (\<lambda>r. (r, D)) rids,
           w_finished := map (\<lambda>r. (r, True)) rids\<rparr>), d') \<and>
      ready D d' \<and> view d' = [] \<and> known d' = known d1 \<and> bs d' = bs d1 \<and> capacity d' = capacity d1"
      using Suc.prems(3-6) False by (intro Suc.IH [OF d1(2) view1]) (auto simp: d1(5,6))
    ultimately show ?thesis using unfinished by (simp add: pre d1(1,4-6) count)
  qed
qed

lemma add_batch:
  assumes "ready D d" "1 \<le> D" "length prompts = length rids" "length lens = length rids" "\<forall>p\<in>set lens. 0 < p"
    and "distinct rids" "set rids \<inter> known d = {}"
  shows "\<exists>d'. add_requests E D True (zip rids (zip prompts lens)) d = (Inr (), d') \<and> ready D d' \<and>
    view d' = view d @ batch rids lens 0 \<and> known d' = known d \<union> set rids \<and> bs d' = bs d \<and> capacity d' = capacity d"
  using assms(1,3-)
proof (induction rids arbitrary: prompts lens d)
  case Nil
  then show ?case by (simp add: batch_def)
next
  case (Cons r rids)
  obtain t ts p ps where lists: "prompts = t # ts" "lens = p # ps"
    using Cons.prems(2,3) by (metis length_Suc_conv)
  obtain d1 where d1: "ed_add_request E r t D p True d = (Inr (), d1)" "ready D d1" "view d1 = view d @ [(r, p, 0)]"
    "known d1 = insert r (known d)" "bs d1 = bs d" "capacity d1 = capacity d"
    using add [OF Cons.prems(1) _ assms(2), of r p t] Cons.prems(4-6) by (auto simp: lists)
  have "\<exists>d'. add_requests E D True (zip rids (zip ts ps)) d1 = (Inr (), d') \<and> ready D d' \<and>
      view d' = view d1 @ batch rids ps 0 \<and> known d' = known d1 \<union> set rids \<and> bs d' = bs d1 \<and> capacity d' = capacity d1"
    using Cons.prems(2-6) by (intro Cons.IH [OF d1(2)]) (auto simp: lists d1(4))
  then show ?case by (auto simp: lists d1 batch_def)
qed

lemma sample_batch:
  assumes "ready D d" "view d = []" "2 \<le> D" "rids \<noteq> []" "distinct rids" "set rids \<inter> known d = {}"
    and "length prompts = length rids" "length lens = length rids" "\<forall>p\<in>set lens. 0 < p" "0 \<le> chunks" "0 < bpt"
    and "batch_blocks (bs d) lens (D - 1) \<le> capacity d" "0 < capacity d"
  shows "\<exists>d'. sample_decode_window E rids prompts lens D True chunks bpt (bs d) d = (Inr (batch_readings (bs d) bpt lens D), d') \<and>
    ready D d' \<and> view d' = [] \<and> known d' = known d \<union> set rids \<and> bs d' = bs d \<and> capacity d' = capacity d"
proof -
  have args: "\<not> bad_arguments rids prompts lens D bpt (bs d)"
    using assms(3,4,7-11) size_pos [OF assms(1)] by (auto simp: bad_arguments_def list_ex_iff)
  obtain d1 where d1: "add_requests E D True (zip rids (zip prompts lens)) d = (Inr (), d1)" "ready D d1"
    "view d1 = batch rids lens 0" "known d1 = known d \<union> set rids" "bs d1 = bs d" "capacity d1 = capacity d"
    using add_batch [OF assms(1) _ assms(7-9,5,6)] assms(2,3) by auto
  let ?w = "(batch_window (bs d) rids lens (D - 1))\<lparr>w_generated := map (\<lambda>r. (r, D)) rids, w_finished := map (\<lambda>r. (r, True)) rids\<rparr>"
  obtain d2 where d2: "sample_loop E rids lens (bs d1) (capacity d1) (nat (chunks + D + 8)) (batch_window (bs d1) rids lens 0) d1 =
      (Inr ?w, d2)" "ready D d2" "view d2 = []" "known d2 = known d1" "bs d2 = bs d1" "capacity d2 = capacity d1"
    using loop_batch [OF assms(5,4,8,9) d1(2,3), of "nat (chunks + D + 8)"] assms(3,10,12) by (auto simp: d1(5,6))
  obtain d3 where d3: "ed_end_sample E d2 = (Inr (), d3)" "ready D d3" "view d3 = []" "known d3 = known d2" "bs d3 = bs d2"
    "capacity d3 = capacity d2" using end_sample [OF d2(2,3)] by blast
  have "batch_blocks (bs d) lens 1 \<le> batch_blocks (bs d) lens (D - 1)"
    using assms(3) by (intro batch_blocks_mono [OF size_pos [OF assms(1)]]) simp
  then have "window_readings (bs d) bpt ?w = Inr (batch_readings (bs d) bpt lens D)"
    using assms(3) by (simp add: window_readings_def batch_window_def batch_readings_def)
  then have "sample_decode_window E rids prompts lens D True chunks bpt (bs d) d = (Inr (batch_readings (bs d) bpt lens D), d3)"
    using args assms(13) d1 d2(1) d3(1)
    by (simp add: sample_decode_window_def blocks [OF assms(1)] start_batch [OF assms(5), of "bs d" lens])
  then show ?thesis using d1 d2 d3 by auto
qed

end

section \<open>The fake driver implements the contract\<close>

definition request_ready :: "int \<Rightarrow> int option \<Rightarrow> fake_request \<Rightarrow> bool" where
  "request_ready D eos_after r \<longleftrightarrow>
     (if fr_finished r then fr_freed r
      else \<not> fr_freed r \<and> 0 \<le> fr_generated r \<and> fr_generated r < D \<and> 0 < fr_prompt_len r \<and> finish_after eos_after r = D)"

definition requests_view :: "(string, fake_request) odict \<Rightarrow> live_request list" where
  "requests_view rs =
     map (\<lambda>(rid, r). (rid, fr_prompt_len r, fr_generated r)) (filter (\<lambda>(rid, r). \<not> fr_finished r) rs)"

definition fake_view :: "fake_driver \<Rightarrow> live_request list" where
  "fake_view d = requests_view (fd_requests d)"

definition fake_known :: "fake_driver \<Rightarrow> string set" where
  "fake_known d = fst ` set (fd_requests d)"

definition fake_ready :: "int \<Rightarrow> fake_driver \<Rightarrow> bool" where
  "fake_ready D d \<longleftrightarrow>
     0 < fd_block_size d \<and> od_ok (fd_requests d) \<and> (\<forall>kr\<in>set (fd_requests d). request_ready D (fd_eos_after d) (snd kr)) \<and>
     fd_used_blocks d = demand (fd_block_size d) (fake_view d) \<and> demand (fd_block_size d) (fake_view d) \<le> fd_total_blocks d"

lemma requests_view_simps [simp]:
  "requests_view [] = []"
  "requests_view ((rid, r) # rs) = (if fr_finished r then requests_view rs else (rid, fr_prompt_len r, fr_generated r) # requests_view rs)"
  "requests_view (rs @ rs') = requests_view rs @ requests_view rs'"
  by (simp_all add: requests_view_def)

lemma demand_simps [simp]:
  "demand bs [] = 0"
  "demand bs ((rid, p, g) # v) = (if 1 \<le> g then blocks_for bs (p + g) else 0) + demand bs v"
  "demand bs (v @ v') = demand bs v + demand bs v'"
  by (simp_all add: demand_def)

lemma demand_requests:
  "\<forall>kr\<in>set rs. request_ready D eos_after (snd kr) \<Longrightarrow>
     sum_list (map (\<lambda>(rid, r). request_blocks bs r) rs) = demand bs (requests_view rs)"
  by (induction rs) (auto simp: request_ready_def request_blocks_def split: if_splits)

lemma ready_blocks_nonneg:
  "0 < bs \<Longrightarrow> request_ready D eos_after r \<Longrightarrow> \<not> fr_finished r \<Longrightarrow> 0 \<le> blocks_for bs (fr_prompt_len r + fr_generated r)"
  by (rule blocks_for_nonneg) (simp_all add: request_ready_def)

lemma demand_nonneg:
  "0 < bs \<Longrightarrow> \<forall>kr\<in>set rs. request_ready D eos_after (snd kr) \<Longrightarrow> 0 \<le> demand bs (requests_view rs)"
  by (induction rs) (auto intro!: add_nonneg_nonneg intro: ready_blocks_nonneg)

text \<open>Synchronising the pool succeeds when the demand fits, and leaves a ready driver.\<close>

lemma sync_ready:
  assumes "0 < fd_block_size d" "od_ok (fd_requests d)"
    and "\<forall>kr\<in>set (fd_requests d). request_ready D (fd_eos_after d) (snd kr)"
    and "demand (fd_block_size d) (fake_view d) \<le> fd_total_blocks d"
  shows "\<exists>d'. sync_pool d = (Inr (), d') \<and> fake_ready D d' \<and> fake_view d' = fake_view d \<and> fake_known d' = fake_known d \<and>
    fd_block_size d' = fd_block_size d \<and> fd_total_blocks d' = fd_total_blocks d"
proof -
  let ?d = "d\<lparr>fd_used_blocks := demand (fd_block_size d) (fake_view d)\<rparr>"
  have "sync_pool d = (Inr (), ?d)"
    using assms demand_nonneg [OF assms(1,3)]
    by (simp add: sync_pool_def set_used_blocks_def demand_requests [OF assms(3)] fake_view_def)
  moreover have "fake_ready D ?d" using assms by (simp add: fake_ready_def fake_view_def)
  ultimately show ?thesis by (intro exI [of _ ?d]) (simp add: fake_view_def fake_known_def)
qed

lemma step_request_ready:
  assumes "request_ready D eos_after r" "\<not> fr_finished r"
  shows "fr_prompt_len (step_request eos_after r) = fr_prompt_len r"
    "fr_generated (step_request eos_after r) = fr_generated r + 1"
    "fr_finished (step_request eos_after r) = (D \<le> fr_generated r + 1)"
    "request_ready D eos_after (step_request eos_after r)"
proof -
  have "finish_after eos_after (r\<lparr>fr_generated := n\<rparr>) = finish_after eos_after r"
    "finish_after eos_after (r\<lparr>fr_generated := n, fr_finished := b, fr_freed := c\<rparr>) = finish_after eos_after r" for n b c
    by (cases eos_after; simp add: finish_after_def)+
  then show "fr_prompt_len (step_request eos_after r) = fr_prompt_len r"
    "fr_generated (step_request eos_after r) = fr_generated r + 1"
    "fr_finished (step_request eos_after r) = (D \<le> fr_generated r + 1)"
    "request_ready D eos_after (step_request eos_after r)"
    using assms by (simp_all add: step_request_def request_ready_def Let_def)
qed

lemma step_requests_view:
  assumes "\<forall>kr\<in>set rs. request_ready D eos_after (snd kr)" "step_requests eos_after rs = (outs, rs')"
  shows "outs = advance_outputs D (requests_view rs) \<and> requests_view rs' = advance D (requests_view rs) \<and>
    od_keys rs' = od_keys rs \<and> (\<forall>kr\<in>set rs'. request_ready D eos_after (snd kr))"
  using assms
proof (induction rs arbitrary: outs rs')
  case Nil
  then show ?case by (simp add: advance_outputs_def advance_def)
next
  case (Cons kr rs)
  obtain rid r where kr: "kr = (rid, r)" by force
  obtain outs1 rs1 where rec: "step_requests eos_after rs = (outs1, rs1)" by force
  have ready: "request_ready D eos_after r" using Cons.prems(1) by (simp add: kr)
  have IH: "outs1 = advance_outputs D (requests_view rs)" "requests_view rs1 = advance D (requests_view rs)"
    "od_keys rs1 = od_keys rs" "\<forall>kr\<in>set rs1. request_ready D eos_after (snd kr)"
    using Cons.IH [OF _ rec] Cons.prems(1) by simp_all
  show ?case
  proof (cases "fr_finished r")
    case True
    then have "outs = outs1" "rs' = (rid, r) # rs1" using Cons.prems(2) by (simp_all add: kr rec)
    then show ?thesis using True ready IH by (simp add: kr)
  next
    case False
    note stepped = step_request_ready [OF ready False]
    have "outs = \<lparr>so_request_id = rid, so_new_tokens = 1, so_finished = (D \<le> fr_generated r + 1)\<rparr> # outs1"
      "rs' = (rid, step_request eos_after r) # rs1"
      using Cons.prems(2) False by (simp_all add: kr rec Let_def stepped)
    then show ?thesis using False IH stepped by (auto simp: kr advance_outputs_def advance_def)
  qed
qed

lemma view_idle: "requests_view rs = [] \<longleftrightarrow> (\<forall>kr\<in>set rs. fr_finished (snd kr))"
  by (induction rs) (auto split: if_splits)

lemma od_set_fresh: "od_get d k = None \<Longrightarrow> od_set k v d = d @ [(k, v)]"
  by (induction d) (auto split: if_splits)

interpretation fake: decode_engine fake_engine fake_view fake_known fake_ready fd_block_size fd_total_blocks
proof (unfold_locales, goal_cases)
  case (1 D d)
  then show ?case by (simp add: fake_ready_def)
next
  case (2 D d D')
  then show ?case by (auto simp: fake_ready_def fake_view_def view_idle request_ready_def)
next
  case (3 D d)
  then show ?case by (simp add: fake_engine_def)
next
  case (4 D d)
  then show ?case by (simp add: fake_engine_def get_num_free_blocks_def fake_ready_def)
next
  case (5 D d rid p prompt)
  let ?r = "\<lparr>fr_prompt_len = p, fr_max_tokens = D, fr_ignore_eos = True, fr_generated = 0, fr_finished = False, fr_freed = False\<rparr>"
  let ?d = "d\<lparr>fd_requests := fd_requests d @ [(rid, ?r)]\<rparr>"
  have fresh: "od_get (fd_requests d) rid = None" using 5(2) by (simp add: od_get_None_iff fake_known_def)
  have "request_ready D (fd_eos_after d) ?r" using 5(3,4) by (simp add: request_ready_def finish_after_def split: option.split)
  moreover have view: "fake_view ?d = fake_view d @ [(rid, p, 0)]" by (simp add: fake_view_def)
  ultimately have "0 < fd_block_size ?d" "od_ok (fd_requests ?d)"
    "\<forall>kr\<in>set (fd_requests ?d). request_ready D (fd_eos_after ?d) (snd kr)"
    "demand (fd_block_size ?d) (fake_view ?d) \<le> fd_total_blocks ?d"
    using 5(1) fresh by (simp_all add: fake_ready_def od_ok_def od_get_None_iff)
  from sync_ready [OF this] obtain d' where d': "sync_pool ?d = (Inr (), d')" "fake_ready D d'" "fake_view d' = fake_view ?d"
    "fake_known d' = fake_known ?d" "fd_block_size d' = fd_block_size ?d" "fd_total_blocks d' = fd_total_blocks ?d" by blast
  have "fake_add_request rid prompt D p True d = (Inr (), d')"
    using d'(1) fresh 5(3,4) by (simp add: fake_add_request_def od_set_fresh)
  then show ?case using d' by (auto simp: fake_engine_def view fake_known_def)
next
  case (6 D d)
  obtain outs rs where st: "step_requests (fd_eos_after d) (fd_requests d) = (outs, rs)" by force
  have ready: "\<forall>kr\<in>set (fd_requests d). request_ready D (fd_eos_after d) (snd kr)" using 6(1) by (simp add: fake_ready_def)
  have stepped: "outs = advance_outputs D (fake_view d)" "requests_view rs = advance D (fake_view d)"
    "od_keys rs = od_keys (fd_requests d)" "\<forall>kr\<in>set rs. request_ready D (fd_eos_after d) (snd kr)"
    using step_requests_view [OF ready st] by (simp_all add: fake_view_def)
  have "od_ok rs" using 6(1) by (simp only: fake_ready_def od_ok_def stepped(3))
  let ?d = "d\<lparr>fd_requests := rs\<rparr>"
  have view: "fake_view ?d = advance D (fake_view d)" using stepped(2) by (simp add: fake_view_def)
  have "0 < fd_block_size ?d" "od_ok (fd_requests ?d)" "demand (fd_block_size ?d) (fake_view ?d) \<le> fd_total_blocks ?d"
    "\<forall>kr\<in>set (fd_requests ?d). request_ready D (fd_eos_after ?d) (snd kr)"
    using 6 stepped(4) \<open>od_ok rs\<close> unfolding view by (simp_all add: fake_ready_def)
  from sync_ready [OF this(1,2,4,3)]
  obtain d' where d': "sync_pool ?d = (Inr (), d')" "fake_ready D d'" "fake_view d' = fake_view ?d"
    "fake_known d' = fake_known ?d" "fd_block_size d' = fd_block_size ?d" "fd_total_blocks d' = fd_total_blocks ?d" by blast
  have keys: "fst ` set rs = fst ` set (fd_requests d)" using arg_cong [OF stepped(3), of set] by simp
  show ?case using d' stepped(1,2) keys by (auto simp: fake_engine_def fake_step_def st fake_view_def fake_known_def)
next
  case (7 D d)
  let ?rs = "map (\<lambda>(rid, r). (rid, r\<lparr>fr_freed := True\<rparr>)) (fd_requests d)" 
  let ?d = "d\<lparr>fd_requests := ?rs\<rparr>"
  have fin: "\<forall>kr\<in>set (fd_requests d). fr_finished (snd kr)" using 7(2) by (simp add: fake_view_def view_idle)
  then have view: "requests_view ?rs = []" by (auto simp: view_idle)
  have keys: "od_keys ?rs = od_keys (fd_requests d)" by (auto simp: comp_def case_prod_beta)
  have "od_ok ?rs" using 7(1) by (simp only: fake_ready_def od_ok_def keys)
  moreover have "\<forall>kr\<in>set ?rs. request_ready D (fd_eos_after d) (snd kr)" using fin by (auto simp: request_ready_def)
  ultimately have "0 < fd_block_size ?d" "od_ok (fd_requests ?d)"
    "\<forall>kr\<in>set (fd_requests ?d). request_ready D (fd_eos_after ?d) (snd kr)"
    "demand (fd_block_size ?d) (fake_view ?d) \<le> fd_total_blocks ?d"
    using 7 by (simp_all add: fake_ready_def fake_view_def view)
  from sync_ready [OF this] obtain d' where d': "sync_pool ?d = (Inr (), d')" "fake_ready D d'" "fake_view d' = fake_view ?d"
    "fake_known d' = fake_known ?d" "fd_block_size d' = fd_block_size ?d" "fd_total_blocks d' = fd_total_blocks ?d" by blast
  have "fst ` set ?rs = fst ` set (fd_requests d)" by (simp add: image_image case_prod_beta)
  then show ?case using d' view by (auto simp: fake_engine_def fake_end_sample_def fake_view_def fake_known_def)
qed

section \<open>Cells on a lock-step engine\<close>

lemma mark_not_in_nat: "CHR ''-'' \<notin> set (nat_str n)"
  using nat_str_digits [of "CHR ''-''" n] by (auto simp: is_digit_def)

lemma mark_not_in_int: "0 \<le> i \<Longrightarrow> CHR ''-'' \<notin> set (int_str i)"
  using mark_not_in_nat [of "nat i"] by (simp add: int_str_def)

text \<open>Request identifiers are never reused across samples and cells.\<close>

lemma sample_id_inj:
  assumes "0 \<le> s" "0 \<le> s'" "0 \<le> b" "0 \<le> b'"
    and "cid @ ''-s'' @ int_str s @ ''-b'' @ int_str b @ ''-n'' @ nat_str i @ ''-r'' @ nat_str k =
      cid @ ''-s'' @ int_str s' @ ''-b'' @ int_str b' @ ''-n'' @ nat_str i' @ ''-r'' @ nat_str k'"
  shows "s = s' \<and> b = b' \<and> i = i' \<and> k = k'"
proof -
  have "int_str s @ CHR ''-'' # ''b'' @ int_str b @ ''-n'' @ nat_str i @ ''-r'' @ nat_str k =
      int_str s' @ CHR ''-'' # ''b'' @ int_str b' @ ''-n'' @ nat_str i' @ ''-r'' @ nat_str k'"
    using assms(5) by simp
  then have s: "int_str s = int_str s'"
    and "''b'' @ int_str b @ ''-n'' @ nat_str i @ ''-r'' @ nat_str k = ''b'' @ int_str b' @ ''-n'' @ nat_str i' @ ''-r'' @ nat_str k'"
    unfolding until_mark [OF mark_not_in_int [OF assms(1)] mark_not_in_int [OF assms(2)]] by blast+
  then have "int_str b @ CHR ''-'' # ''n'' @ nat_str i @ ''-r'' @ nat_str k = int_str b' @ CHR ''-'' # ''n'' @ nat_str i' @ ''-r'' @ nat_str k'"
    by simp
  then have b: "int_str b = int_str b'" and "''n'' @ nat_str i @ ''-r'' @ nat_str k = ''n'' @ nat_str i' @ ''-r'' @ nat_str k'"
    unfolding until_mark [OF mark_not_in_int [OF assms(3)] mark_not_in_int [OF assms(4)]] by blast+
  then have "nat_str i @ CHR ''-'' # ''r'' @ nat_str k = nat_str i' @ CHR ''-'' # ''r'' @ nat_str k'" by simp
  then have "nat_str i = nat_str i'" "''r'' @ nat_str k = ''r'' @ nat_str k'"
    unfolding until_mark [OF mark_not_in_nat mark_not_in_nat] by blast+
  then show ?thesis using s b by simp
qed

lemma sample_ids_distinct: "0 \<le> s \<Longrightarrow> 0 \<le> b \<Longrightarrow> distinct (sample_request_ids cid s b i)"
  unfolding sample_request_ids_def distinct_map by (intro conjI inj_onI) (simp, use sample_id_inj in blast)

lemma sample_ids_disjoint:
  assumes "0 \<le> s" "0 \<le> s'" "0 \<le> b" "0 \<le> b'" "(s, b, i) \<noteq> (s', b', i')"
  shows "set (sample_request_ids cid s b i) \<inter> set (sample_request_ids cid s' b' i') = {}"
proof (rule ccontr)
  assume "\<not> ?thesis"
  then obtain k k' where "cid @ ''-s'' @ int_str s @ ''-b'' @ int_str b @ ''-n'' @ nat_str i @ ''-r'' @ nat_str k =
      cid @ ''-s'' @ int_str s' @ ''-b'' @ int_str b' @ ''-n'' @ nat_str i' @ ''-r'' @ nat_str k'"
    unfolding sample_request_ids_def set_map by blast
  from sample_id_inj [OF assms(1-4) this] assms(5) show False by blast
qed

lemma sample_ids_length: "length (sample_request_ids cid s b i) = nat b"
  by (simp add: sample_request_ids_def)

definition lockstep_blocks :: "sweep_context \<Rightarrow> int \<Rightarrow> int \<Rightarrow> int" where
  "lockstep_blocks ctx seq_len batch_size =
     batch_size * blocks_for (sc_block_size ctx) (seq_len + cell_decode_tokens (sc_decode_tokens ctx) - 1)"

definition lockstep_cell :: "sweep_context \<Rightarrow> int \<Rightarrow> int \<Rightarrow> nat \<Rightarrow> kv_cell" where
  "lockstep_cell ctx seq_len batch_size n_samples =
     \<lparr>kc_model_id = sc_model_id ctx, kc_gpu = sc_gpu ctx, kc_vllm_version = sc_vllm_version ctx,
      kc_seq_len = seq_len, kc_batch_size = batch_size, kc_n_samples = int n_samples,
      kc_kv_bytes_used_samples = replicate n_samples (lockstep_blocks ctx seq_len batch_size * sc_block_size ctx * sc_theory_bpt ctx),
      kc_kv_bytes_prefill_samples = Some (replicate n_samples
        (batch_size * blocks_for (sc_block_size ctx) (seq_len + 1) * sc_block_size ctx * sc_theory_bpt ctx)),
      kc_total_tokens = batch_size * (seq_len + cell_decode_tokens (sc_decode_tokens ctx) - 1),
      kc_baseline_bytes = sc_baseline_bytes ctx, kc_method = sc_method ctx\<rparr>"

definition cell_request_ids :: "string \<Rightarrow> int \<Rightarrow> int \<Rightarrow> nat \<Rightarrow> string set" where
  "cell_request_ids cid seq_len batch_size n = (\<Union>i<n. set (sample_request_ids cid seq_len batch_size i))"

lemma batch_replicate:
  "0 \<le> b \<Longrightarrow> batch_blocks bs (replicate (nat b) s) g = b * blocks_for bs (s + g)"
  "0 \<le> b \<Longrightarrow> batch_tokens (replicate (nat b) s) g = b * (s + g)"
  by (simp_all add: batch_blocks_def batch_tokens_def sum_list_replicate)

lemma cell_of_lockstep:
  assumes "0 < seq_len" "0 < batch_size" "0 < n" "0 \<le> sc_baseline_bytes ctx"
  shows "cell_of_samples ctx seq_len batch_size (int n) (replicate n
      (batch_readings (sc_block_size ctx) (sc_theory_bpt ctx) (replicate (nat batch_size) seq_len) (cell_decode_tokens (sc_decode_tokens ctx)))) =
    Inr (lockstep_cell ctx seq_len batch_size n)"
proof -
  have "0 < seq_len + cell_decode_tokens (sc_decode_tokens ctx) - 1"
    using assms(1) by (simp add: cell_decode_tokens_def EXTENDED_DECODE_TOKENS_def)
  moreover from this have "0 < batch_size * (seq_len + cell_decode_tokens (sc_decode_tokens ctx) - 1)" using assms(2) by simp
  ultimately show ?thesis
    using assms
    by (simp add: cell_of_samples_def KvScalingCell_def samples_match_def batch_readings_def batch_replicate
        lockstep_cell_def lockstep_blocks_def list_ex_iff algebra_simps Let_def)
qed

context decode_engine
begin

lemma samples_batch:
  fixes ctx cid seq_len batch_size
  defines "D \<equiv> cell_decode_tokens (sc_decode_tokens ctx)"
    and "lens \<equiv> replicate (nat batch_size) seq_len" and "cid \<equiv> sc_campaign_id ctx"
  assumes "ready D d" "view d = []" "0 < seq_len" "0 < batch_size" "int (length prompts) = batch_size" "0 \<le> chunks"
    and "0 < sc_theory_bpt ctx" "sc_block_size ctx = bs d" "batch_blocks (bs d) lens (D - 1) \<le> capacity d" "0 < capacity d"
    and "distinct js" "\<forall>i\<in>set js. set (sample_request_ids cid seq_len batch_size i) \<inter> known d = {}"
  shows "\<exists>d'. take_samples (cell_sample E ctx seq_len batch_size prompts chunks) js d =
      (Inr (replicate (length js) (batch_readings (bs d) (sc_theory_bpt ctx) lens D)), d') \<and> ready D d' \<and> view d' = [] \<and>
    known d' = known d \<union> (\<Union>i\<in>set js. set (sample_request_ids cid seq_len batch_size i)) \<and> bs d' = bs d \<and> capacity d' = capacity d"
  using assms(4,5,11-)
proof (induction js arbitrary: d)
  case Nil
  then show ?case by simp
next
  case (Cons i js)
  let ?ids = "sample_request_ids cid seq_len batch_size"
  have ids: "?ids i \<noteq> []" "distinct (?ids i)" "length prompts = length (?ids i)" "length lens = length (?ids i)" "\<forall>p\<in>set lens. 0 < p"
    using assms(6-8) sample_ids_length [of cid seq_len batch_size i] sample_ids_distinct [of seq_len batch_size cid i]
    by (auto simp: lens_def simp flip: length_greater_0_conv)
  have D: "2 \<le> D" by (simp add: D_def cell_decode_tokens_def EXTENDED_DECODE_TOKENS_def)
  have disjoint: "?ids i \<noteq> []" "set (?ids i) \<inter> known d = {}" using Cons.prems(7) ids(1) by simp_all
  obtain d1 where d1: "sample_decode_window E (?ids i) prompts lens D True chunks (sc_theory_bpt ctx) (bs d) d =
      (Inr (batch_readings (bs d) (sc_theory_bpt ctx) lens D), d1)"
    "ready D d1" "view d1 = []" "known d1 = known d \<union> set (?ids i)" "bs d1 = bs d" "capacity d1 = capacity d"
    using sample_batch [OF Cons.prems(1,2) D ids(1,2) disjoint(2) ids(3-5) assms(9,10) Cons.prems(4,5)] by blast
  have one: "cell_sample E ctx seq_len batch_size prompts chunks i d = (Inr (batch_readings (bs d) (sc_theory_bpt ctx) lens D), d1)"
    using d1(1) Cons.prems(3) by (simp add: cell_sample_def D_def lens_def cid_def)
  have "\<forall>j\<in>set js. set (?ids j) \<inter> known d1 = {}"
  proof
    fix j assume j: "j \<in> set js"
    then have "(seq_len, batch_size, j) \<noteq> (seq_len, batch_size, i)" using Cons.prems(6) by auto
    then have "set (?ids j) \<inter> set (?ids i) = {}" using assms(6,7) by (intro sample_ids_disjoint) auto
    then show "set (?ids j) \<inter> known d1 = {}" using Cons.prems(7) j by (auto simp: d1(4))
  qed
  with Cons.IH [OF d1(2,3)] Cons.prems(3-6) obtain d2 where
    "take_samples (cell_sample E ctx seq_len batch_size prompts chunks) js d1 =
      (Inr (replicate (length js) (batch_readings (bs d) (sc_theory_bpt ctx) lens D)), d2)" "ready D d2" "view d2 = []"
    "known d2 = known d1 \<union> (\<Union>i\<in>set js. set (?ids i))" "bs d2 = bs d" "capacity d2 = capacity d"
    by (auto simp: d1(5,6))
  then show ?case by (auto simp: one d1(4))
qed

text \<open>A cell on a fresh part of the identifier space, in closed form.\<close>

lemma cell_batch:
  fixes ctx
  defines "D \<equiv> cell_decode_tokens (sc_decode_tokens ctx)"
  assumes "ready D d" "view d = []" "0 < seq_len" "0 < batch_size" "int (length prompts) = batch_size" "0 < n"
    and "0 < sc_theory_bpt ctx" "sc_block_size ctx = bs d" "lockstep_blocks ctx seq_len batch_size \<le> capacity d" "0 < capacity d"
    and "0 < sc_max_num_batched_tokens ctx" "0 \<le> sc_baseline_bytes ctx"
    and "cell_request_ids (sc_campaign_id ctx) seq_len batch_size n \<inter> known d = {}"
  shows "\<exists>d'. kv_run_cell E ctx seq_len batch_size (int n) prompts d = (Inr (lockstep_cell ctx seq_len batch_size n), d') \<and>
    ready D d' \<and> view d' = [] \<and> known d' = known d \<union> cell_request_ids (sc_campaign_id ctx) seq_len batch_size n \<and>
    bs d' = bs d \<and> capacity d' = capacity d"
proof -
  have "0 \<le> batch_size * seq_len" using assms(4,5) by simp
  then have "(- batch_size * seq_len) div sc_max_num_batched_tokens ctx \<le> 0"
    using assms(12) by (simp add: div_nonpos_pos_le0)
  then obtain chunks where chunks: "prefill_chunk_count batch_size seq_len (sc_max_num_batched_tokens ctx) = Inr chunks" "0 \<le> chunks"
    using assms(12) by (simp add: prefill_chunk_count_def)
  have blocks: "batch_blocks (bs d) (replicate (nat batch_size) seq_len) (D - 1) \<le> capacity d"
    using assms(5,9,10) by (simp add: batch_replicate lockstep_blocks_def D_def add_diff_eq)
  have fresh: "\<forall>i\<in>set [0..<n]. set (sample_request_ids (sc_campaign_id ctx) seq_len batch_size i) \<inter> known d = {}"
  proof
    fix i assume "i \<in> set [0..<n]"
    then have "set (sample_request_ids (sc_campaign_id ctx) seq_len batch_size i) \<subseteq> cell_request_ids (sc_campaign_id ctx) seq_len batch_size n"
      unfolding cell_request_ids_def by (intro UN_upper) simp
    then show "set (sample_request_ids (sc_campaign_id ctx) seq_len batch_size i) \<inter> known d = {}" using assms(14) by blast
  qed
  obtain d' where d': "take_samples (cell_sample E ctx seq_len batch_size prompts chunks) [0..<n] d =
      (Inr (replicate n (batch_readings (bs d) (sc_theory_bpt ctx) (replicate (nat batch_size) seq_len) D)), d')"
    "ready D d'" "view d' = []" "known d' = known d \<union> (\<Union>i\<in>set [0..<n]. set (sample_request_ids (sc_campaign_id ctx) seq_len batch_size i))"
    "bs d' = bs d" "capacity d' = capacity d"
    using samples_batch [OF assms(2) [unfolded D_def] assms(3-6) chunks(2) assms(8,9) blocks [unfolded D_def] assms(11) _ fresh]
    by (auto simp: D_def)
  have "kv_run_cell E ctx seq_len batch_size (int n) prompts d = (Inr (lockstep_cell ctx seq_len batch_size n), d')"
    using assms(6,7) chunks(1) d'(1) cell_of_lockstep [OF assms(4,5,7,13)]
    by (simp add: kv_run_cell_def assms(9) D_def)
  then show ?thesis using d' by (auto simp: cell_request_ids_def atLeast0LessThan)
qed

end

section \<open>A fresh fake driver\<close>

lemma fresh_driver:
  assumes "FakeEngineDriver blocks bs F eos_after = Inr d"
  shows "fake_ready D d" "fake_view d = []" "fake_known d = {}" "fd_block_size d = bs" "fd_total_blocks d = blocks" "0 < bs" "0 < blocks" "0 < F"
  using assms by (auto simp: FakeEngineDriver_def FakeBlockPool_def fake_ready_def fake_view_def fake_known_def od_ok_def split: if_splits option.splits)

lemma fake_cell:
  assumes "FakeEngineDriver blocks (sc_block_size ctx) F eos_after = Inr d" "0 < seq_len" "0 < batch_size"
    "int (length prompts) = batch_size" "0 < n" "0 < sc_theory_bpt ctx" "lockstep_blocks ctx seq_len batch_size \<le> blocks"
    "0 < sc_max_num_batched_tokens ctx" "0 \<le> sc_baseline_bytes ctx"
  shows "\<exists>d'. kv_run_cell fake_engine ctx seq_len batch_size (int n) prompts d = (Inr (lockstep_cell ctx seq_len batch_size n), d')"
proof -
  note d = fresh_driver [OF assms(1)]
  show ?thesis
    using fake.cell_batch [OF d(1,2) assms(2-6)] assms(7-9) d(3-7) by auto
qed

section \<open>Properties\<close>

text \<open>
  C19: No unsound reading is reported, whatever the engine does. When a sample returns, its prefill reading
  and its decode reading both passed the gate with every request past its prefill: the tokens live fit the
  blocks used, the blocks exceed them by at most one per request and 64 slots, and every request has
  generated a token. The decode reading is not below the prefill reading, and the bytes of each are those
  of its blocks.
\<close>

theorem sample_window_sound:
  assumes "sample_decode_window E rids prompts lens decode_tokens ignore_eos chunks bpt bs d = (Inr r, d')"
  shows "sr_live_tokens_prefill r \<le> sr_used_blocks_prefill r * bs \<and>
    sr_used_blocks_prefill r * bs \<le> sr_live_tokens_prefill r + int (length rids) * bs + 64 \<and>
    sum_list lens + int (length rids) \<le> sr_live_tokens_prefill r \<and>
    sr_live_tokens_decode r \<le> sr_used_blocks_decode r * bs \<and>
    sr_used_blocks_decode r * bs \<le> sr_live_tokens_decode r + int (length rids) * bs + 64 \<and>
    sum_list lens + int (length rids) \<le> sr_live_tokens_decode r \<and>
    sr_used_blocks_prefill r \<le> sr_used_blocks_decode r \<and>
    sr_kv_bytes_prefill r = sr_used_blocks_prefill r * bs * bpt \<and> sr_kv_bytes_decode r = sr_used_blocks_decode r * bs * bpt"
  using sample_readings_sound [OF assms] by (simp add: sound_reading_def)

text \<open>The block size and the bytes per token of a cell on any engine.\<close>

lemma measured_range:
  assumes "kv_run_cell E ctx seq_len batch_size n_samples prompts d = (Inr c, d')"
  shows "real_of_int (sc_theory_bpt ctx) \<le> measured_bytes_per_token c \<and>
    measured_bytes_per_token c \<le> real_of_int (sc_theory_bpt ctx) *
      (1 + (real_of_int batch_size * real_of_int (sc_block_size ctx) + 64) / real_of_int (kc_total_tokens c))"
proof -
  note s = kv_run_cell_sound [OF assms]
  obtain rs where rs: "cell_of_samples ctx seq_len batch_size n_samples rs = Inr c"
    using assms by (auto simp: kv_run_cell_def split: if_splits sum.splits prod.splits)
  have pos: "0 < real_of_int (kc_total_tokens c)" "kc_kv_bytes_used_samples c \<noteq> []"
    using cell_of_samples_Inr [OF rs] by simp_all
  have "real_of_int (kc_total_tokens c * sc_theory_bpt ctx) \<le> p50_bytes c \<and>
      p50_bytes c \<le> real_of_int ((kc_total_tokens c + batch_size * sc_block_size ctx + 64) * sc_theory_bpt ctx)"
    by (rule p50_bracket [OF pos(2) s(5)])
  then show ?thesis using pos(1) by (simp add: measured_bytes_per_token_def field_simps)
qed

text \<open>
  C20: A measured cell never understates the cache: on any engine, the bytes per token of a cell lie between the theory and
  the theory plus the rounding the gate allows, one block per sequence and 64 slots, spread over the
  live tokens, of which there are more than the prompts have.
\<close>

theorem cell_measured_bounds:
  assumes "kv_run_cell E ctx seq_len batch_size n_samples prompts d = (Inr c, d')"
  shows "real_of_int (sc_theory_bpt ctx) \<le> measured_bytes_per_token c \<and>
    measured_bytes_per_token c \<le> real_of_int (sc_theory_bpt ctx) *
      (1 + (real_of_int batch_size * real_of_int (sc_block_size ctx) + 64) / real_of_int (kc_total_tokens c)) \<and>
    batch_size * (seq_len + 1) \<le> kc_total_tokens c \<and> kc_n_samples c = n_samples \<and>
    kc_seq_len c = seq_len \<and> kc_batch_size c = batch_size"
proof -
  obtain rs where rs: "cell_of_samples ctx seq_len batch_size n_samples rs = Inr c"
    using assms by (auto simp: kv_run_cell_def split: if_splits sum.splits prod.splits)
  show ?thesis using measured_range [OF assms] kv_run_cell_sound(4) [OF assms] cell_of_samples_Inr [OF rs] by simp
qed

text \<open>
  C21: The fake driver implements the lock-step contract, so a cell on a fresh fake engine is the abstract one: every sample
  holds the blocks of the prompt and the tokens decoded before the last step, rounded up per sequence,
  and the live tokens are the same in every sample.
\<close>

theorem fake_cell_refines:
  assumes "FakeEngineDriver blocks (sc_block_size ctx) F eos_after = Inr d" "0 < seq_len" "0 < batch_size"
    "int (length prompts) = batch_size" "0 < n" "0 < sc_theory_bpt ctx" "lockstep_blocks ctx seq_len batch_size \<le> blocks"
    "0 < sc_max_num_batched_tokens ctx" "0 \<le> sc_baseline_bytes ctx"
  shows "fst (kv_run_cell fake_engine ctx seq_len batch_size (int n) prompts d) = Inr (lockstep_cell ctx seq_len batch_size n)"
  using fake_cell [OF assms] by auto

definition ex_sweep :: sweep_context where
  "ex_sweep = \<lparr>sc_campaign_id = ''c'', sc_model_id = ''m'', sc_model_revision = [], sc_gpu = ''none'', sc_vllm_version = ''fake-0'',
     sc_theory_bpt = 100, sc_baseline_bytes = 5000, sc_block_size = 16, sc_decode_tokens = 4, sc_method = [],
     sc_max_num_batched_tokens = 8192\<rparr>"

definition ex_fake :: fake_driver where
  "ex_fake = \<lparr>fd_block_size = 16, fd_fixed_overhead_bytes = 5000, fd_eos_after = None, fd_total_blocks = 64,
     fd_used_blocks = 0, fd_requests = []\<rparr>"

lemma ex_fake_new: "FakeEngineDriver 64 (sc_block_size ex_sweep) 5000 None = Inr ex_fake"
  by (simp add: FakeEngineDriver_def FakeBlockPool_def ex_sweep_def ex_fake_def)

lemma ex_sweep_room: "lockstep_blocks ex_sweep 10 2 = 6"
  by (simp add: lockstep_blocks_def cell_decode_tokens_def EXTENDED_DECODE_TOKENS_def blocks_for_def ex_sweep_def)

lemma fake_cell_refines_witness:
  "\<exists>c. fst (kv_run_cell fake_engine ex_sweep 10 2 3 [''p'', ''p''] ex_fake) = Inr c \<and> kc_kv_bytes_used_samples c = [9600, 9600, 9600]"
proof -
  have "fst (kv_run_cell fake_engine ex_sweep 10 2 (int 3) [''p'', ''p''] ex_fake) = Inr (lockstep_cell ex_sweep 10 2 3)"
    by (rule fake_cell_refines [OF ex_fake_new]) (simp_all add: ex_sweep_room, simp_all add: ex_sweep_def)
  then show ?thesis by (simp add: lockstep_cell_def ex_sweep_room) (simp add: ex_sweep_def numeral_3_eq_3)
qed

lemma ex_sweep_cell:
  "\<exists>d'. kv_run_cell fake_engine ex_sweep 10 2 3 [''p'', ''p''] ex_fake = (Inr (lockstep_cell ex_sweep 10 2 3), d')"
proof -
  have "\<exists>d'. kv_run_cell fake_engine ex_sweep 10 2 (int 3) [''p'', ''p''] ex_fake = (Inr (lockstep_cell ex_sweep 10 2 3), d')"
    by (rule fake_cell [OF ex_fake_new]) (simp_all add: ex_sweep_room, simp_all add: ex_sweep_def)
  then show ?thesis by simp
qed

lemma cell_measured_bounds_witness:
  "\<exists>c. fst (kv_run_cell fake_engine ex_sweep 10 2 3 [''p'', ''p''] ex_fake) = Inr c \<and> 100 \<le> measured_bytes_per_token c"
proof -
  obtain d' where run: "kv_run_cell fake_engine ex_sweep 10 2 3 [''p'', ''p''] ex_fake = (Inr (lockstep_cell ex_sweep 10 2 3), d')"
    using ex_sweep_cell by blast
  have "sc_theory_bpt ex_sweep = 100" by (simp add: ex_sweep_def)
  with cell_measured_bounds [OF run] run show ?thesis by simp
qed

lemma sample_window_sound_witness:
  "\<exists>r. fst (sample_decode_window fake_engine [''a'', ''b''] [''p'', ''p''] [10, 20] 4 True 1 100 16 ex_fake) = Inr r \<and>
    32 \<le> sr_live_tokens_prefill r \<and> sr_used_blocks_prefill r * 16 \<le> sr_live_tokens_prefill r + 96"
proof -
  note d = fresh_driver [OF ex_fake_new]
  have bs: "fd_block_size ex_fake = 16" "fd_total_blocks ex_fake = 64" by (simp_all add: ex_fake_def)
  have room: "batch_blocks (fd_block_size ex_fake) [10, 20] (4 - 1) \<le> fd_total_blocks ex_fake"
    by (simp add: batch_blocks_def blocks_for_def ex_fake_def)
  obtain d' where run: "sample_decode_window fake_engine [''a'', ''b''] [''p'', ''p''] [10, 20] 4 True 1 100 16 ex_fake =
      (Inr (batch_readings 16 100 [10, 20] 4), d')"
    using fake.sample_batch [OF d(1,2), of 4 "[''a'', ''b'']" "[''p'', ''p'']" "[10, 20]" 1 100] room d(3) by (auto simp: bs)
  with sample_window_sound [OF run] show ?thesis by simp
qed

end
