(* ===== verification/KvFit.thy ===== *)
theory KvFit
  imports KvSchema
begin

text \<open>
  What the KV-cache study computes from its cells (\<open>fit_bytes_per_token\<close>, \<open>find_knee\<close>,
  \<open>validate_against_theory\<close> and \<open>check_dry_run_gate\<close> of \<open>bench/kv_scaling/measure.py\<close>): the least-squares line,
  the knee, and the two publication gates. The lemmas decompose the squared error of any line,
  which gives optimality of the fit, its exactness on linear data and the range of \<open>R^2\<close>.
\<close>

section \<open>Regression\<close>

definition squared_error :: "real list \<Rightarrow> real list \<Rightarrow> real \<Rightarrow> real \<Rightarrow> real" where
  "squared_error xs ys slope intercept = sum_list (map (\<lambda>(x, y). (y - (slope * x + intercept))\<^sup>2) (zip xs ys))"

definition fit_bytes_per_token :: "real list \<Rightarrow> real list \<Rightarrow> regression_fit result" where
  "fit_bytes_per_token xs ys =
     (if length xs \<noteq> length ys then Inl ValueError
      else if length xs < 2 then Inl ValueError
      else let n = length xs;
               mean_x = mean xs;
               mean_y = mean ys;
               sxx = sum_list (map (\<lambda>x. (x - mean_x)\<^sup>2) xs)
           in if sxx = 0 then Inl ValueError
              else let sxy = sum_list (map (\<lambda>(x, y). (x - mean_x) * (y - mean_y)) (zip xs ys));
                       slope = sxy / sxx;
                       intercept = mean_y - slope * mean_x;
                       sse = squared_error xs ys slope intercept;
                       sst = sum_list (map (\<lambda>y. (y - mean_y)\<^sup>2) ys);
                       r2 = (if 0 < sst then 1 - sse / sst else 0);
                       residual_se = (if 2 < n then sqrt (sse / (real n - 2)) else 0)
                   in RegressionFit \<lparr>rf_slope_bpt = slope, rf_intercept_bytes = intercept, rf_r2 = r2,
                        rf_residual_se = residual_se\<rparr>)"

section \<open>The knee\<close>

fun knee_scan :: "int \<Rightarrow> kv_cell list \<Rightarrow> knee_point result" where
  "knee_scan baseline_bytes [] = Inl ValueError"
| "knee_scan baseline_bytes (cell # cells) =
     (if real_of_int baseline_bytes + p50_bytes cell = 0 then Inl ZeroDivisionError
      else let share = p50_bytes cell / (real_of_int baseline_bytes + p50_bytes cell)
           in if 1 / 2 \<le> share
              then KneePoint \<lparr>kp_total_tokens = kc_total_tokens cell, kp_kv_share = share,
                     kp_batch_size = Some (kc_batch_size cell)\<rparr>
              else knee_scan baseline_bytes cells)"

definition find_knee :: "kv_cell list \<Rightarrow> int \<Rightarrow> knee_point result" where
  "find_knee cells baseline_bytes =
     (if baseline_bytes < 0 then Inl ValueError
      else let ordered = sort_key kc_total_tokens cells
           in if ordered = [] then Inl ValueError else knee_scan baseline_bytes ordered)"

section \<open>The gates\<close>

definition validate_against_theory :: "real \<Rightarrow> int \<Rightarrow> real \<Rightarrow> real result" where
  "validate_against_theory measured_bpt theory_bpt tol =
     (if theory_bpt \<le> 0 then Inl ValueError
      else if measured_bpt < 0 then Inl ValueError
      else if tol < 0 then Inl ValueError
      else let rel_err = \<bar>measured_bpt - real_of_int theory_bpt\<bar> / real_of_int theory_bpt
           in if tol < rel_err then Inl ValueError else Inr rel_err)"

definition DEFAULT_TOL :: real where
  "DEFAULT_TOL = 15 / 100"

definition DRY_RUN_MIN_R2 :: real where
  "DRY_RUN_MIN_R2 = 98 / 100"

definition check_dry_run_gate :: "regression_fit \<Rightarrow> int \<Rightarrow> int \<Rightarrow> int \<Rightarrow> unit result" where
  "check_dry_run_gate regression injected_bpt block_size min_seq_len =
     (if injected_bpt \<le> 0 then Inl ValueError
      else if min_seq_len = 0 then Inl ZeroDivisionError
      else let lo = real_of_int injected_bpt * (999 / 1000);
               hi = real_of_int injected_bpt * (1 + real_of_int block_size / real_of_int min_seq_len)
           in if \<not> (lo \<le> rf_slope_bpt regression \<and> rf_slope_bpt regression \<le> hi) then Inl ValueError
              else if rf_r2 regression < DRY_RUN_MIN_R2 then Inl ValueError
              else Inr ())"

section \<open>The squared error of a line\<close>

lemma sum_zip:
  "length xs = length ys \<Longrightarrow> sum_list (map (\<lambda>(x, y). f x y) (zip xs ys)) = (\<Sum>i<length xs. f (xs ! i) (ys ! i) :: real)"
  by (simp add: sum_list_sum_nth atLeast0LessThan)

lemma sum_nth: "sum_list (map f xs) = (\<Sum>i<length xs. f (xs ! i) :: real)"
  by (simp add: sum_list_sum_nth atLeast0LessThan)

lemma centred_sum: "xs \<noteq> [] \<Longrightarrow> (\<Sum>i<length xs. xs ! i - mean xs) = 0"
  by (simp add: sum_subtractf mean_def sum_list_sum_nth atLeast0LessThan)

abbreviation sxx_of :: "real list \<Rightarrow> real" where
  "sxx_of xs \<equiv> sum_list (map (\<lambda>x. (x - mean xs)\<^sup>2) xs)"

abbreviation sxy_of :: "real list \<Rightarrow> real list \<Rightarrow> real" where
  "sxy_of xs ys \<equiv> sum_list (map (\<lambda>(x, y). (x - mean xs) * (y - mean ys)) (zip xs ys))"

lemma expand_squares:
  fixes u v :: "nat \<Rightarrow> real"
  shows "(\<Sum>i<n. (v i - a * u i + c)\<^sup>2) = (\<Sum>i<n. (v i)\<^sup>2) - 2 * a * (\<Sum>i<n. u i * v i) + a\<^sup>2 * (\<Sum>i<n. (u i)\<^sup>2) +
    real n * c\<^sup>2 + 2 * c * (\<Sum>i<n. v i) - 2 * a * c * (\<Sum>i<n. u i)"
  by (induction n) (simp_all add: power2_eq_square algebra_simps)

lemma squared_error_split:
  assumes "length xs = length ys" "xs \<noteq> []"
  shows "squared_error xs ys a b =
    sxx_of ys - 2 * a * sxy_of xs ys + a\<^sup>2 * sxx_of xs + real (length xs) * (mean ys - a * mean xs - b)\<^sup>2"
proof -
  let ?u = "\<lambda>i. xs ! i - mean xs" and ?v = "\<lambda>i. ys ! i - mean ys" and ?c = "mean ys - a * mean xs - b"
  have ys: "ys \<noteq> []" using assms by auto
  have "(ys ! i - (a * xs ! i + b)) = (?v i - a * ?u i + ?c)" for i by (simp add: algebra_simps)
  then have "squared_error xs ys a b = (\<Sum>i<length xs. (?v i - a * ?u i + ?c)\<^sup>2)"
    unfolding squared_error_def sum_zip [OF assms(1)] by (simp only:)
  then show ?thesis
    using centred_sum [OF assms(2)] centred_sum [OF ys] assms(1) unfolding expand_squares by (simp add: sum_zip sum_nth)
qed

lemma sxx_nonneg: "0 \<le> sxx_of xs"
  by (intro sum_list_nonneg) auto

lemma sxx_pos: "x \<in> set xs \<Longrightarrow> y \<in> set xs \<Longrightarrow> x \<noteq> y \<Longrightarrow> 0 < sxx_of xs"
proof -
  assume xy: "x \<in> set xs" "y \<in> set xs" "x \<noteq> y"
  have "sxx_of xs \<noteq> 0"
  proof
    assume "sxx_of xs = 0"
    then have "\<forall>z\<in>set (map (\<lambda>x. (x - mean xs)\<^sup>2) xs). z = 0" by (subst (asm) sum_list_nonneg_eq_0_iff) auto
    then have "z = mean xs" if "z \<in> set xs" for z using that by simp
    then have "x = mean xs" "y = mean xs" using xy(1,2) by blast+
    then show False using xy(3) by simp
  qed
  then show ?thesis using sxx_nonneg [of xs] by linarith
qed

lemma squared_error_nonneg: "0 \<le> squared_error xs ys a b"
  unfolding squared_error_def by (intro sum_list_nonneg) auto

text \<open>The fitted line: every other line is worse by a sum of two squares.\<close>

lemma squared_error_fit:
  assumes "length xs = length ys" "xs \<noteq> []" "sxx_of xs \<noteq> 0"
  defines "slope \<equiv> sxy_of xs ys / sxx_of xs" and "intercept \<equiv> mean ys - sxy_of xs ys / sxx_of xs * mean xs"
  shows "squared_error xs ys a b = squared_error xs ys slope intercept +
      sxx_of xs * (a - slope)\<^sup>2 + real (length xs) * (mean ys - a * mean xs - b)\<^sup>2"
    and "squared_error xs ys slope intercept = sxx_of ys - slope\<^sup>2 * sxx_of xs"
proof -
  have sxy: "sxy_of xs ys = slope * sxx_of xs" using assms(3) by (simp add: slope_def)
  have line: "squared_error xs ys a b = sxx_of ys - 2 * a * (slope * sxx_of xs) + a\<^sup>2 * sxx_of xs +
      real (length xs) * (mean ys - a * mean xs - b)\<^sup>2" for a b
    using squared_error_split [OF assms(1,2), of a b] unfolding sxy .
  have zero: "mean ys - slope * mean xs - intercept = 0" by (simp add: intercept_def slope_def)
  show fit: "squared_error xs ys slope intercept = sxx_of ys - slope\<^sup>2 * sxx_of xs"
    using line [of slope intercept] unfolding zero by (simp add: power2_eq_square)
  show "squared_error xs ys a b = squared_error xs ys slope intercept +
      sxx_of xs * (a - slope)\<^sup>2 + real (length xs) * (mean ys - a * mean xs - b)\<^sup>2"
    unfolding fit using line [of a b] by (simp add: power2_eq_square algebra_simps)
qed

lemma fit_error_range:
  assumes "length xs = length ys" "xs \<noteq> []" "sxx_of xs \<noteq> 0"
  defines "e \<equiv> squared_error xs ys (sxy_of xs ys / sxx_of xs) (mean ys - sxy_of xs ys / sxx_of xs * mean xs)"
  shows "0 \<le> e" "e \<le> sxx_of ys"
proof -
  have "0 \<le> (sxy_of xs ys / sxx_of xs)\<^sup>2 * sxx_of xs" using sxx_nonneg [of xs] by simp
  then show "e \<le> sxx_of ys" unfolding e_def squared_error_fit(2) [OF assms(1-3)] by linarith
  show "0 \<le> e" unfolding e_def by (rule squared_error_nonneg)
qed

text \<open>The result of a fit, when there is one.\<close>

lemma fit_Inr:
  assumes "fit_bytes_per_token xs ys = Inr f"
  shows "length xs = length ys" "2 \<le> length xs" "sxx_of xs \<noteq> 0" "rf_slope_bpt f = sxy_of xs ys / sxx_of xs"
    "rf_intercept_bytes f = mean ys - sxy_of xs ys / sxx_of xs * mean xs"
    "rf_r2 f = (if 0 < sxx_of ys then 1 - squared_error xs ys (rf_slope_bpt f) (rf_intercept_bytes f) / sxx_of ys else 0)"
    "0 \<le> rf_slope_bpt f"
  using assms by (auto simp: fit_bytes_per_token_def RegressionFit_def Let_def split: if_splits)

lemma fit_succeeds:
  assumes "length xs = length ys" "2 \<le> length xs" "sxx_of xs \<noteq> 0" "0 \<le> sxy_of xs ys"
  shows "\<exists>f. fit_bytes_per_token xs ys = Inr f"
proof -
  let ?slope = "sxy_of xs ys / sxx_of xs" and ?int = "mean ys - sxy_of xs ys / sxx_of xs * mean xs"
  let ?sse = "squared_error xs ys ?slope ?int"
  let ?f = "\<lparr>rf_slope_bpt = ?slope, rf_intercept_bytes = ?int, rf_r2 = (if 0 < sxx_of ys then 1 - ?sse / sxx_of ys else 0),
    rf_residual_se = (if 2 < length xs then sqrt (?sse / (real (length xs) - 2)) else 0)\<rparr>"
  have ne: "xs \<noteq> []" using assms(2) by auto
  note sse = fit_error_range [OF assms(1) ne assms(3)]
  have "0 \<le> ?slope" using assms(4) sxx_nonneg [of xs] by simp
  moreover have "0 \<le> rf_r2 ?f \<and> rf_r2 ?f \<le> 1" using sse by (simp add: divide_le_eq_1)
  moreover have "0 \<le> rf_residual_se ?f" using sse(1) by simp
  ultimately have "RegressionFit ?f = Inr ?f" by (simp add: RegressionFit_def)
  moreover have "fit_bytes_per_token xs ys = RegressionFit ?f"
    using assms(1-3) by (simp add: fit_bytes_per_token_def Let_def)
  ultimately show ?thesis by auto
qed

text \<open>On points of a line that does not fall, the fit is that line.\<close>

lemma fit_linear:
  assumes "ys = map (\<lambda>x. a * x + b) xs" "2 \<le> length xs" "x \<in> set xs" "x' \<in> set xs" "x \<noteq> x'" "0 \<le> a"
  shows "\<exists>f. fit_bytes_per_token xs ys = Inr f \<and> rf_slope_bpt f = a \<and> rf_intercept_bytes f = b \<and> (0 < a \<longrightarrow> rf_r2 f = 1)"
proof -
  have len: "length xs = length ys" "xs \<noteq> []" using assms(1,2) by auto
  have n: "real (length xs) \<noteq> 0" using len(2) by simp
  have my: "mean ys = a * mean xs + b"
    using n by (simp add: mean_def assms(1) sum_list_addf sum_list_const_mult sum_list_triv add_divide_distrib)
  have sxx: "0 < sxx_of xs" using sxx_pos [OF assms(3-5)] .
  have "sxy_of xs ys = (\<Sum>i<length xs. a * (xs ! i - mean xs)\<^sup>2)"
    unfolding sum_zip [OF len(1)] my by (intro sum.cong) (auto simp: assms(1) power2_eq_square algebra_simps)
  then have sxy: "sxy_of xs ys = a * sxx_of xs" by (simp add: sum_nth sum_distrib_left)
  obtain f where f: "fit_bytes_per_token xs ys = Inr f"
    using fit_succeeds [OF len(1) assms(2)] sxx sxy assms(6) by auto
  have slope: "rf_slope_bpt f = a" "rf_intercept_bytes f = b" using fit_Inr [OF f] sxx sxy my by simp_all
  have "squared_error xs ys a b = 0"
    unfolding squared_error_def sum_zip [OF len(1)] by (intro sum.neutral) (auto simp: assms(1))
  moreover have "0 < sxx_of ys" if "0 < a"
    using sxx_pos [of "a * x + b" ys "a * x' + b"] assms(1,3-5) that by auto
  ultimately show ?thesis using f slope fit_Inr(6) [OF f] by auto
qed

section \<open>The first cell past the knee\<close>

lemma share_half:
  "0 < F \<Longrightarrow> 0 \<le> p \<Longrightarrow> (1 / 2 \<le> p / (F + p)) = (F \<le> (p :: real))"
  by (simp add: field_simps)

lemma knee_scan_sorted:
  assumes "0 < F" "\<forall>c\<in>set cells. 0 \<le> p50_bytes c \<and> 0 < kc_total_tokens c \<and> 0 < kc_batch_size c"
    and "sorted (map kc_total_tokens cells)"
  shows "(\<forall>c\<in>set cells. p50_bytes c < real_of_int F) \<and> knee_scan F cells = Inl ValueError \<or>
    (\<exists>c\<in>set cells. real_of_int F \<le> p50_bytes c \<and> (\<forall>c'\<in>set cells. real_of_int F \<le> p50_bytes c' \<longrightarrow> kc_total_tokens c \<le> kc_total_tokens c') \<and>
       knee_scan F cells = Inr \<lparr>kp_total_tokens = kc_total_tokens c,
         kp_kv_share = p50_bytes c / (real_of_int F + p50_bytes c), kp_batch_size = Some (kc_batch_size c)\<rparr>)"
  using assms(2,3)
proof (induction cells)
  case Nil
  then show ?case by simp
next
  case (Cons c cells)
  have c: "0 \<le> p50_bytes c" "0 < kc_total_tokens c" "0 < kc_batch_size c" using Cons.prems(1) by simp_all
  have pos: "0 < real_of_int F + p50_bytes c" using assms(1) c(1) by linarith
  show ?case
  proof (cases "real_of_int F \<le> p50_bytes c")
    case True
    then have "1 / 2 \<le> p50_bytes c / (real_of_int F + p50_bytes c)" using share_half [of "real_of_int F" "p50_bytes c"] assms(1) c(1) by simp
    moreover have "p50_bytes c / (real_of_int F + p50_bytes c) \<le> 1" using pos assms(1) by (simp add: divide_le_eq_1)
    ultimately have "knee_scan F (c # cells) = Inr \<lparr>kp_total_tokens = kc_total_tokens c,
         kp_kv_share = p50_bytes c / (real_of_int F + p50_bytes c), kp_batch_size = Some (kc_batch_size c)\<rparr>"
      using pos c by (simp add: KneePoint_def Let_def)
    moreover have "\<forall>c'\<in>set (c # cells). kc_total_tokens c \<le> kc_total_tokens c'" using Cons.prems(2) by auto
    ultimately show ?thesis using True by auto
  next
    case False
    then have "\<not> 1 / 2 \<le> p50_bytes c / (real_of_int F + p50_bytes c)" using share_half [of "real_of_int F" "p50_bytes c"] assms(1) c(1) by simp
    then have "knee_scan F (c # cells) = knee_scan F cells" using pos by (simp add: Let_def)
    then show ?thesis using False Cons.IH Cons.prems by auto
  qed
qed

lemma validate_Inr:
  "validate_against_theory m t tol = Inr e \<longleftrightarrow> 0 < t \<and> 0 \<le> m \<and> 0 \<le> tol \<and> e = \<bar>m - real_of_int t\<bar> / real_of_int t \<and> e \<le> tol"
  by (auto simp: validate_against_theory_def Let_def)

section \<open>Properties\<close>

text \<open>
  C26: The fit is the least-squares line. It exists exactly when there are at least two points, as many bytes as token
  counts, not all token counts equal and no falling trend; no line has a smaller squared error, and
  \<open>R^2\<close> is the share of the variance the line explains.
\<close>

theorem fit_least_squares:
  "(case fit_bytes_per_token xs ys of
      Inr f \<Rightarrow> length xs = length ys \<and> 2 \<le> length xs \<and> 0 < sxx_of xs \<and> 0 \<le> rf_slope_bpt f \<and>
        (\<forall>a b. squared_error xs ys (rf_slope_bpt f) (rf_intercept_bytes f) \<le> squared_error xs ys a b) \<and>
        0 \<le> rf_r2 f \<and> rf_r2 f \<le> 1 \<and>
        rf_r2 f * sxx_of ys = sxx_of ys - squared_error xs ys (rf_slope_bpt f) (rf_intercept_bytes f)
    | Inl e \<Rightarrow> length xs \<noteq> length ys \<or> length xs < 2 \<or> sxx_of xs = 0 \<or> sxy_of xs ys < 0)"
proof (cases "fit_bytes_per_token xs ys")
  case (Inl e)
  then have "\<not> (length xs = length ys \<and> 2 \<le> length xs \<and> sxx_of xs \<noteq> 0 \<and> 0 \<le> sxy_of xs ys)" using fit_succeeds by fastforce
  then show ?thesis using Inl by auto
next
  case (Inr f)
  note f = fit_Inr [OF Inr]
  let ?sse = "squared_error xs ys (rf_slope_bpt f) (rf_intercept_bytes f)"
  have ne: "xs \<noteq> []" using f(2) by auto
  have pos: "0 < sxx_of xs" using f(3) sxx_nonneg [of xs] by linarith
  have "?sse \<le> squared_error xs ys a b" for a b
    unfolding f(4,5) squared_error_fit(1) [OF f(1) ne f(3), of a b] using pos by (simp add: add_nonneg_nonneg)
  moreover have "0 \<le> ?sse" "?sse \<le> sxx_of ys"
    unfolding f(4,5) using fit_error_range [OF f(1) ne f(3)] .
  moreover have "sxx_of ys = 0" if "\<not> 0 < sxx_of ys" using that sxx_nonneg [of ys] by linarith
  ultimately show ?thesis using Inr f pos by (auto simp: divide_le_eq_1 left_diff_distrib)
qed

lemma fit_least_squares_witness:
  "\<exists>f. fit_bytes_per_token [1, 2, 4] [3, 5, 9] = Inr f \<and> rf_slope_bpt f = 2 \<and> rf_r2 f \<le> 1 \<and>
    (\<forall>a b. squared_error [1, 2, 4] [3, 5, 9] 2 (rf_intercept_bytes f) \<le> squared_error [1, 2, 4] [3, 5, 9] a b)"
proof -
  obtain f where f: "fit_bytes_per_token [1, 2, 4] [3, 5, 9] = Inr f" "rf_slope_bpt f = 2"
    using fit_linear [of "[3, 5, 9]" 2 1 "[1, 2, 4]" 1 2] by auto
  with fit_least_squares [of "[1, 2, 4]" "[3, 5, 9]"] show ?thesis by auto
qed

text \<open>
  The knee is the smallest measured point at which the cache takes half of the memory: for valid cells and a
  positive overhead, the knee is a cell whose median is at least the overhead, no cell with that
  property has fewer tokens, and only when there is none the search raises \<open>ValueError\<close>.
\<close>

theorem knee_first:
  assumes "0 < F" "\<forall>c\<in>set cells. 0 \<le> p50_bytes c \<and> 0 < kc_total_tokens c \<and> 0 < kc_batch_size c"
  shows "case find_knee cells F of
      Inr k \<Rightarrow> \<exists>c\<in>set cells. kp_total_tokens k = kc_total_tokens c \<and> kp_batch_size k = Some (kc_batch_size c) \<and>
        1 / 2 \<le> kp_kv_share k \<and> real_of_int F \<le> p50_bytes c \<and>
        (\<forall>c'\<in>set cells. real_of_int F \<le> p50_bytes c' \<longrightarrow> kc_total_tokens c \<le> kc_total_tokens c')
    | Inl e \<Rightarrow> e = ValueError \<and> (\<forall>c\<in>set cells. p50_bytes c < real_of_int F)"
proof -
  let ?o = "sort_key kc_total_tokens cells"
  have find: "find_knee cells F = (if cells = [] then Inl ValueError else knee_scan F ?o)"
    using assms(1) by (simp add: find_knee_def Let_def sort_eq_Nil_key)
  have "\<forall>c\<in>set ?o. 0 \<le> p50_bytes c \<and> 0 < kc_total_tokens c \<and> 0 < kc_batch_size c" "sorted (map kc_total_tokens ?o)"
    using assms(2) by simp_all
  from knee_scan_sorted [OF assms(1) this] show ?thesis
  proof (elim disjE conjE bexE)
    assume "\<forall>c\<in>set ?o. p50_bytes c < real_of_int F" "knee_scan F ?o = Inl ValueError"
    then show ?thesis by (simp add: find)
  next
    fix c
    assume c: "c \<in> set ?o" "real_of_int F \<le> p50_bytes c"
      "\<forall>c'\<in>set ?o. real_of_int F \<le> p50_bytes c' \<longrightarrow> kc_total_tokens c \<le> kc_total_tokens c'"
      "knee_scan F ?o = Inr \<lparr>kp_total_tokens = kc_total_tokens c,
         kp_kv_share = p50_bytes c / (real_of_int F + p50_bytes c), kp_batch_size = Some (kc_batch_size c)\<rparr>"
    have "1 / 2 \<le> p50_bytes c / (real_of_int F + p50_bytes c)"
      using share_half [of "real_of_int F" "p50_bytes c"] assms c(1,2) by auto
    moreover have "cells \<noteq> []" using c(1) by auto
    ultimately show ?thesis using c by (auto simp: find)
  qed
qed

definition ex_kv_cell :: "int \<Rightarrow> int \<Rightarrow> kv_cell" where
  "ex_kv_cell tokens bytes =
     \<lparr>kc_model_id = ''m'', kc_gpu = ''L40S'', kc_vllm_version = [], kc_seq_len = tokens, kc_batch_size = 1, kc_n_samples = 1,
      kc_kv_bytes_used_samples = [bytes], kc_kv_bytes_prefill_samples = None, kc_total_tokens = tokens,
      kc_baseline_bytes = 0, kc_method = []\<rparr>"

lemma ex_kv_cell_p50: "p50_bytes (ex_kv_cell tokens bytes) = real_of_int bytes"
  by (rule p50_constant [of _ 0]) (simp add: ex_kv_cell_def)

lemma knee_first_witness:
  "\<exists>k. find_knee [ex_kv_cell 8 800, ex_kv_cell 2 200, ex_kv_cell 4 400] 300 = Inr k \<and> kp_total_tokens k = 4"
proof -
  let ?cells = "[ex_kv_cell 8 800, ex_kv_cell 2 200, ex_kv_cell 4 400]"
  have tokens: "kc_total_tokens (ex_kv_cell t b) = t" "kc_batch_size (ex_kv_cell t b) = 1" for t b by (simp_all add: ex_kv_cell_def)
  have "\<forall>c\<in>set ?cells. 0 \<le> p50_bytes c \<and> 0 < kc_total_tokens c \<and> 0 < kc_batch_size c"
    by (simp add: ex_kv_cell_p50 tokens)
  from knee_first [OF _ this, of 300] show ?thesis
    by (cases "find_knee ?cells 300") (auto simp: ex_kv_cell_p50 tokens)
qed

end
