(* ===== verification/KvResults.thy ===== *)
theory KvResults
  imports KvTheory KvSampling PyJson
begin

text \<open>
  What the KV-cache study writes and reads (\<open>bench/kv_scaling/results.py\<close>) and how it prepares a run on
  a real engine: exact-length prompts over a tokenizer that is a parameter, the probe of the block
  pool, the verification of the engine's configuration with the fixed overhead, and the theory
  taken from the first configuration found (\<open>bench/kv_scaling/measure.py\<close>). Files are a dictionary
  from paths to contents; how a value is written is a codec, as in the cell runner.
\<close>

section \<open>Exact-length prompts\<close>

record tokenizer =
  tk_encode :: "string \<Rightarrow> nat list"
  tk_decode :: "nat list \<Rightarrow> string"

text \<open>\<open>while len(ids) < target: ids = ids + ids\<close>, which does not end on an empty list.\<close>

partial_function (option) tile_ids :: "nat list \<Rightarrow> int \<Rightarrow> nat list option" where
  "tile_ids ids target = (if int (length ids) < target then tile_ids (ids @ ids) target else Some ids)"

definition BASE_TEXT :: string where
  "BASE_TEXT = concat (replicate 64 ''The quick brown fox jumps over the lazy dog. '')"

definition exact_prompt :: "tokenizer \<Rightarrow> int \<Rightarrow> nat list \<Rightarrow> string result" where
  "exact_prompt T seq_len ids =
     (let true_ids = tk_encode T (tk_decode T ids)
      in if int (length true_ids) < seq_len then Inl ValueError
         else let prompt = tk_decode T (take (nat seq_len) true_ids)
              in if int (length (tk_encode T prompt)) \<noteq> seq_len then Inl ValueError else Inr prompt)"

definition build_exact_length_prompts :: "tokenizer \<Rightarrow> int \<Rightarrow> string result option" where
  "build_exact_length_prompts T seq_len =
     (if seq_len \<le> 0 then Some (Inl ValueError)
      else map_option (exact_prompt T seq_len) (tile_ids (tk_encode T BASE_TEXT) (seq_len + 64)))"

text \<open>Doubling ends: the length is enough after as many steps as it falls short.\<close>

lemma tile_ids_ends:
  "ids \<noteq> [] \<Longrightarrow> \<exists>ids'. tile_ids ids target = Some ids' \<and> target \<le> int (length ids')"
proof (induction "nat (target - int (length ids))" arbitrary: ids rule: less_induct)
  case less
  show ?case
  proof (cases "int (length ids) < target")
    case True
    then have "nat (target - int (length (ids @ ids))) < nat (target - int (length ids))" using less.prems by simp
    then have "\<exists>ids'. tile_ids (ids @ ids) target = Some ids' \<and> target \<le> int (length ids')"
      using less.hyps less.prems by blast
    then show ?thesis using True by (simp add: tile_ids.simps [of ids])
  next
    case False
    then show ?thesis by (simp add: tile_ids.simps [of ids])
  qed
qed

section \<open>Probing the engine\<close>

text \<open>
  A pool candidate: the value of \<open>num_gpu_blocks\<close> when it is an integer, and whether either of the two
  reader methods is callable; \<open>None\<close> for a path the engine does not have.
\<close>

record pool_candidate =
  pc_num_gpu_blocks :: "int option"
  pc_free_blocks :: bool
  pc_free_gpu_blocks :: bool

fun probe_block_pool :: "(string \<times> pool_candidate option) list \<Rightarrow> (int \<times> string \<times> string) result" where
  "probe_block_pool [] = Inl RuntimeError"
| "probe_block_pool ((path, None) # candidates) = probe_block_pool candidates"
| "probe_block_pool ((path, Some pool) # candidates) =
     (case pc_num_gpu_blocks pool of
        Some n \<Rightarrow>
          if 0 < n \<and> (pc_free_blocks pool \<or> pc_free_gpu_blocks pool)
          then Inr (n, path, if pc_free_blocks pool then ''get_num_free_blocks'' else ''get_num_free_gpu_blocks'')
          else probe_block_pool candidates
      | None \<Rightarrow> probe_block_pool candidates)"

text \<open>
  The values the engine reports for the two pinned settings, \<open>None\<close> when no path has them, and the
  bytes the device has allocated.
\<close>

definition verify_engine :: "int \<Rightarrow> int \<Rightarrow> int \<Rightarrow> int option \<Rightarrow> int option \<Rightarrow> int \<Rightarrow> (int \<times> int) result" where
  "verify_engine num_gpu_blocks block_size theory_bpt reported_block_size reported_max_batched allocated =
     (if (case reported_block_size of None \<Rightarrow> False | Some b \<Rightarrow> b \<noteq> block_size) then Inl ValueError
      else let max_batched = (case reported_max_batched of None \<Rightarrow> 8192 | Some m \<Rightarrow> m)
           in if max_batched \<noteq> 8192 then Inl ValueError
              else let fixed = allocated - num_gpu_blocks * block_size * theory_bpt
                   in if \<not> (0 < fixed \<and> fixed < allocated) then Inl ValueError
                      else Inr (fixed, max_batched))"

text \<open>The configuration file of the hub at a pinned revision; \<open>fetch\<close> is the request with the JSON it decodes to.\<close>

definition raw_config_url :: "string \<Rightarrow> string \<Rightarrow> string" where
  "raw_config_url model_id revision = ''https://huggingface.co/'' @ model_id @ ''/resolve/'' @ revision @ ''/config.json''"

definition raw_config_json :: "(string \<Rightarrow> json result) \<Rightarrow> string \<Rightarrow> string \<Rightarrow> (string \<times> json) list result" where
  "raw_config_json fetch model_id revision =
     rbind (fetch (raw_config_url model_id revision)) (\<lambda>data.
       case data of JObj kvs \<Rightarrow> Inr kvs | _ \<Rightarrow> Inl ValueError)"

text \<open>The first of the engine's configurations, else the one of the hub.\<close>

fun first_config :: "(string \<times> hf_config option) list \<Rightarrow> (string \<times> hf_config) option" where
  "first_config [] = None"
| "first_config ((path, Some cfg) # paths) = Some (path, cfg)"
| "first_config ((path, None) # paths) = first_config paths"

definition resolve_theory ::
  "(string \<times> hf_config option) list \<Rightarrow> hf_config result \<Rightarrow> string option \<Rightarrow> string \<Rightarrow> (hf_theory \<times> string) result" where
  "resolve_theory engine_configs hub_config runtime_dtype revision =
     rbind (case first_config engine_configs of
              Some (path, cfg) \<Rightarrow> Inr (cfg, ''engine:'' @ path)
            | None \<Rightarrow> rbind hub_config (\<lambda>cfg. Inr (cfg, ''hub:config.json''))) (\<lambda>(cfg, source).
       let (cfg1, source1) =
             (case (od_get cfg ''torch_dtype'', runtime_dtype) of
                (None, Some dtype) \<Rightarrow> (od_set ''torch_dtype'' (HfStr dtype) cfg, source @ ''+runtime-dtype'')
              | _ \<Rightarrow> (cfg, source))
       in rbind (config_from_hf_config cfg1 revision) (\<lambda>theory. Inr (theory, source1)))"

section \<open>Writing and reading results\<close>

type_synonym 't files = "(string, 't) odict"

datatype csv_value = VStr string | VInt int | VReal real

record summary_json =
  sj_campaign_id :: string
  sj_measured_date :: string
  sj_slope_bytes_per_token :: real
  sj_intercept_bytes :: real
  sj_r2 :: real
  sj_knee_total_tokens_by_batch :: "(string, int) odict"
  sj_theory_bytes_per_token :: int
  sj_model_revision :: string
  sj_notes :: string

record kv_preflight =
  kv_campaign_id :: string
  kv_model_id :: string
  kv_model_revision :: string
  kv_seq_lens :: "int list"
  kv_batch_sizes :: "int list"
  kv_n_samples :: int
  kv_n_cells :: int
  kv_est_wall_seconds :: real
  kv_usd_per_hour :: "real option"
  kv_est_cost_usd :: "real option"
  kv_approved :: bool
  kv_out_dir :: string

text \<open>\<open>CostPreflight.as_dict\<close>\<close>

definition json_opt_real :: "real option \<Rightarrow> json" where
  "json_opt_real v = (case v of None \<Rightarrow> JNull | Some x \<Rightarrow> JNum x)"

definition kv_preflight_dict :: "kv_preflight \<Rightarrow> json" where
  "kv_preflight_dict p =
     JObj [(''campaign_id'', JStr (kv_campaign_id p)), (''model_id'', JStr (kv_model_id p)),
       (''model_revision'', JStr (kv_model_revision p)), (''seq_lens'', JList (map (\<lambda>n. JNum (real_of_int n)) (kv_seq_lens p))),
       (''batch_sizes'', JList (map (\<lambda>n. JNum (real_of_int n)) (kv_batch_sizes p))),
       (''n_samples'', JNum (real_of_int (kv_n_samples p))), (''n_cells'', JNum (real_of_int (kv_n_cells p))),
       (''est_wall_seconds'', JNum (kv_est_wall_seconds p)), (''usd_per_hour'', json_opt_real (kv_usd_per_hour p)),
       (''est_cost_usd'', json_opt_real (kv_est_cost_usd p)), (''approved'', JBool (kv_approved p)),
       (''out_dir'', JStr (kv_out_dir p))]"

record 't kv_codec =
  kx_dump_cell :: "kv_cell \<Rightarrow> 't"
  kx_load_cell :: "'t \<Rightarrow> kv_cell option"
  kx_csv :: "string list \<Rightarrow> (string, csv_value) odict list \<Rightarrow> 't"
  kx_campaign :: "string \<Rightarrow> kv_campaign \<Rightarrow> 't"
  kx_summary :: "summary_json \<Rightarrow> 't"
  kx_preflight :: "kv_preflight \<Rightarrow> 't"

text \<open>Validating what was dumped gives the cell back.\<close>

definition kv_codec_ok :: "'t kv_codec \<Rightarrow> bool" where
  "kv_codec_ok X \<longleftrightarrow> (\<forall>c. KvScalingCell c = Inr c \<longrightarrow> kx_load_cell X (kx_dump_cell X c) = Some c)"

definition SCHEMA_VERSION :: string where
  "SCHEMA_VERSION = ''1.1''"

definition campaign_dir :: "string \<Rightarrow> string \<Rightarrow> string" where
  "campaign_dir results_root campaign_id = results_root @ ''/'' @ campaign_id"

definition sample_column :: "nat \<Rightarrow> string" where
  "sample_column i = ''sample_'' @ nat_str i"

definition csv_fields :: "kv_campaign \<Rightarrow> string list" where
  "csv_fields g =
     [''schema_version'', ''campaign_id'', ''model_revision'', ''model_id'', ''gpu'', ''vllm_version'', ''seq_len'', ''batch_size'',
      ''n_samples'', ''total_tokens'', ''baseline_bytes'', ''theory_bytes_per_token'', ''measured_bytes_per_token'', ''p50_bytes'',
      ''p95_bytes'', ''method''] @
     map sample_column [0..<Max (set (map (\<lambda>c. length (kc_kv_bytes_used_samples c)) (kg_cells g)))]"

definition csv_row :: "string \<Rightarrow> kv_campaign \<Rightarrow> kv_cell \<Rightarrow> (string, csv_value) odict" where
  "csv_row cid g c =
     [(''schema_version'', VStr SCHEMA_VERSION), (''campaign_id'', VStr cid), (''model_revision'', VStr (kg_model_revision g)),
      (''model_id'', VStr (kc_model_id c)), (''gpu'', VStr (kc_gpu c)), (''vllm_version'', VStr (kc_vllm_version c)),
      (''seq_len'', VInt (kc_seq_len c)), (''batch_size'', VInt (kc_batch_size c)), (''n_samples'', VInt (kc_n_samples c)),
      (''total_tokens'', VInt (kc_total_tokens c)), (''baseline_bytes'', VInt (kc_baseline_bytes c)),
      (''theory_bytes_per_token'', VInt (kg_theory_bytes_per_token g)),
      (''measured_bytes_per_token'', VReal (measured_bytes_per_token c)), (''p50_bytes'', VReal (p50_bytes c)),
      (''p95_bytes'', VReal (p95_bytes c)), (''method'', VStr (kc_method c))] @
     map (\<lambda>(i, sample). (sample_column i, VInt sample))
       (zip [0..<length (kc_kv_bytes_used_samples c)] (kc_kv_bytes_used_samples c))"

text \<open>\<open>csv.DictWriter.writerow\<close> raises \<open>ValueError\<close> on a key that is not a field.\<close>

definition csv_rows :: "string list \<Rightarrow> (string, csv_value) odict list \<Rightarrow> (string, csv_value) odict list result" where
  "csv_rows fieldnames rows = rmap (\<lambda>row. if set (od_keys row) \<subseteq> set fieldnames then Inr row else Inl ValueError) rows"

definition write_campaign :: "'t kv_codec \<Rightarrow> kv_campaign \<Rightarrow> string \<Rightarrow> string \<Rightarrow> 't files \<Rightarrow> 't files result" where
  "write_campaign X g results_root campaign_id files =
     (let cid = (if campaign_id \<noteq> [] then campaign_id else kg_campaign_id g);
          out_dir = campaign_dir results_root cid
      in rbind (csv_rows (csv_fields g) (map (csv_row cid g) (kg_cells g))) (\<lambda>rows.
           Inr (od_set (out_dir @ ''/cells.json'') (kx_campaign X SCHEMA_VERSION g)
                 (od_set (out_dir @ ''/cells.csv'') (kx_csv X (csv_fields g) rows) files))))"

definition summary_of :: "string \<Rightarrow> kv_campaign \<Rightarrow> summary_json" where
  "summary_of now g =
     \<lparr>sj_campaign_id = kg_campaign_id g, sj_measured_date = now,
      sj_slope_bytes_per_token = rf_slope_bpt (kg_regression g), sj_intercept_bytes = rf_intercept_bytes (kg_regression g),
      sj_r2 = rf_r2 (kg_regression g),
      sj_knee_total_tokens_by_batch =
        (case kp_batch_size (kg_knee g) of
           Some b \<Rightarrow> [(int_str b, kp_total_tokens (kg_knee g))]
         | None \<Rightarrow> [(''pooled'', kp_total_tokens (kg_knee g))]),
      sj_theory_bytes_per_token = kg_theory_bytes_per_token g, sj_model_revision = kg_model_revision g,
      sj_notes = ''KV-cache scaling study: per-cell p50 KV bytes (block-manager accounting) vs total tokens; baseline_bytes is F.''\<rparr>"

definition write_summary_json :: "'t kv_codec \<Rightarrow> string \<Rightarrow> string \<Rightarrow> kv_campaign \<Rightarrow> 't files \<Rightarrow> 't files" where
  "write_summary_json X now out_dir g files = od_set (out_dir @ ''/summary.json'') (kx_summary X (summary_of now g)) files"

definition write_preflight_json :: "'t kv_codec \<Rightarrow> string \<Rightarrow> kv_preflight \<Rightarrow> 't files \<Rightarrow> 't files" where
  "write_preflight_json X out_dir p files = od_set (out_dir @ ''/preflight.json'') (kx_preflight X p) files"

definition write_cell_json :: "'t kv_codec \<Rightarrow> string \<Rightarrow> kv_cell \<Rightarrow> 't files \<Rightarrow> 't files" where
  "write_cell_json X path c files = od_set path (kx_dump_cell X c) files"

definition read_cell_json :: "'t kv_codec \<Rightarrow> 't files \<Rightarrow> string \<Rightarrow> int \<Rightarrow> int \<Rightarrow> int \<Rightarrow> string \<Rightarrow> kv_cell option" where
  "read_cell_json X files path seq_len batch_size n_samples model_id =
     (case od_get files path of
        None \<Rightarrow> None
      | Some raw \<Rightarrow>
          (case kx_load_cell X raw of
             None \<Rightarrow> None
           | Some c \<Rightarrow>
               if kc_seq_len c \<noteq> seq_len \<or> kc_batch_size c \<noteq> batch_size \<or> kc_n_samples c \<noteq> n_samples \<or> kc_model_id c \<noteq> model_id
               then None else Some c))"

section \<open>What the files say\<close>

lemma rmap_Inr_all: "\<forall>x\<in>set xs. f x = Inr x \<Longrightarrow> rmap f xs = Inr xs"
  by (induction xs) auto

lemma csv_row_keys: "c \<in> set (kg_cells g) \<Longrightarrow> set (od_keys (csv_row cid g c)) \<subseteq> set (csv_fields g)"
proof -
  assume c: "c \<in> set (kg_cells g)"
  let ?n = "length (kc_kv_bytes_used_samples c)" and ?m = "Max (set (map (\<lambda>c. length (kc_kv_bytes_used_samples c)) (kg_cells g)))"
  have "?n \<le> ?m" using c by (intro Max_ge) auto
  have keys: "od_keys (map (\<lambda>(i, sample). (sample_column i, VInt sample)) (zip [0..<?n] (kc_kv_bytes_used_samples c))) =
      map sample_column (map fst (zip [0..<?n] (kc_kv_bytes_used_samples c)))" by (simp only: map_map comp_def case_prod_beta fst_conv)
  then have "set (od_keys (map (\<lambda>(i, sample). (sample_column i, VInt sample)) (zip [0..<?n] (kc_kv_bytes_used_samples c)))) =
      sample_column ` {0..<?n}" by (simp only: map_fst_zip length_upt set_map set_upt diff_zero)
  also have "\<dots> \<subseteq> sample_column ` {0..<?m}" using \<open>?n \<le> ?m\<close> by (intro image_mono) auto
  finally have "set (od_keys (map (\<lambda>(i, sample). (sample_column i, VInt sample)) (zip [0..<?n] (kc_kv_bytes_used_samples c)))) \<subseteq>
      set (map sample_column [0..<?m])" by (simp only: set_map set_upt)
  then show ?thesis unfolding csv_row_def csv_fields_def map_append set_append
    by (intro Un_mono) (simp_all only: list.map fst_conv order_refl)
qed

text \<open>The rows of a campaign always fit the header, so writing it never raises.\<close>

lemma write_campaign_total:
  "write_campaign X g results_root campaign_id files =
    (let cid = (if campaign_id \<noteq> [] then campaign_id else kg_campaign_id g); out_dir = campaign_dir results_root cid
     in Inr (od_set (out_dir @ ''/cells.json'') (kx_campaign X SCHEMA_VERSION g)
          (od_set (out_dir @ ''/cells.csv'') (kx_csv X (csv_fields g) (map (csv_row cid g) (kg_cells g))) files)))"
proof -
  have "csv_rows (csv_fields g) (map (csv_row cid g) (kg_cells g)) = Inr (map (csv_row cid g) (kg_cells g))" for cid
    unfolding csv_rows_def using csv_row_keys by (intro rmap_Inr_all) auto
  then show ?thesis by (simp add: write_campaign_def Let_def)
qed

lemma read_written:
  assumes "kv_codec_ok X" "KvScalingCell c = Inr c"
  shows "read_cell_json X (write_cell_json X path c files) path (kc_seq_len c) (kc_batch_size c) (kc_n_samples c) (kc_model_id c) = Some c"
  using assms by (simp add: read_cell_json_def write_cell_json_def kv_codec_ok_def)

lemma read_other: "path' \<noteq> path \<Longrightarrow>
  read_cell_json X (write_cell_json X path c files) path' s b n m = read_cell_json X files path' s b n m"
  by (simp add: read_cell_json_def write_cell_json_def)

end
