(* ===== verification/KvCampaign.thy ===== *)
theory KvCampaign
  imports KvFake KvFit KvResults
begin

text \<open>
  The campaigns of the KV-cache study (\<open>bench/kv_scaling/measure.py\<close> and the command line of
  \<open>bench/kv_scaling/__main__.py\<close>): the dry run over the fake engine, the sweep with its resume from cell files,
  the publication of a campaign behind its gates, and the spend gate in front of it. The engine
  that loading a model returns, the tokenizer, the hub and the file formats are parameters. The
  lemmas evaluate the dry run in closed form and show that a finished sweep is replayed from its files.
\<close>

section \<open>Cost preflight\<close>

definition build_kv_preflight ::
  "string \<Rightarrow> string \<Rightarrow> string \<Rightarrow> int list \<Rightarrow> int list \<Rightarrow> int \<Rightarrow> real \<Rightarrow> real option \<Rightarrow> string \<Rightarrow> bool \<Rightarrow> kv_preflight" where
  "build_kv_preflight campaign_id model_id model_revision seq_lens batch_sizes n_samples secs_per_cell usd_per_hour out_dir approved =
     (let n_cells = int (length seq_lens) * int (length batch_sizes);
          est_wall = real_of_int n_cells * secs_per_cell;
          est_cost = map_option (\<lambda>usd. est_wall / 3600 * usd) usd_per_hour
      in \<lparr>kv_campaign_id = campaign_id, kv_model_id = model_id, kv_model_revision = model_revision, kv_seq_lens = seq_lens,
          kv_batch_sizes = batch_sizes, kv_n_samples = n_samples, kv_n_cells = n_cells, kv_est_wall_seconds = est_wall,
          kv_usd_per_hour = usd_per_hour, kv_est_cost_usd = est_cost, kv_approved = approved, kv_out_dir = out_dir\<rparr>)"

definition kv_preflight_lines :: "kv_preflight \<Rightarrow> string list" where
  "kv_preflight_lines p =
     [''=== KV-scaling cost preflight ==='',
      ''campaign:      '' @ kv_campaign_id p,
      ''model:         '' @ kv_model_id p,
      ''revision:      '' @ kv_model_revision p,
      ''grid:          seq_lens='' @ int_list (kv_seq_lens p) @ '' batches='' @ int_list (kv_batch_sizes p),
      ''n_samples:     '' @ int_str (kv_n_samples p),
      ''pending cells: '' @ int_str (kv_n_cells p),
      ''est wall time: '' @ fixed_str 1 (kv_est_wall_seconds p / 60) @ '' min (rough)'',
      ''hourly rate:   '' @ (case kv_usd_per_hour p of Some usd \<Rightarrow> ''$'' @ fixed_str 2 usd @ ''/hr''
         | None \<Rightarrow> ''unknown (pass --usd-per-hour)''),
      ''est cost:      '' @ (case kv_est_cost_usd p of Some usd \<Rightarrow> ''$'' @ fixed_str 2 usd | None \<Rightarrow> ''unknown''),
      ''output dir:    '' @ kv_out_dir p,
      ''approved:      '' @ (if kv_approved p then ''True'' else ''False'')]"

section \<open>The dry run\<close>

definition grid_of :: "int list \<Rightarrow> int list \<Rightarrow> (int \<times> int) list" where
  "grid_of seq_lens batch_sizes = concat (map (\<lambda>s. map (\<lambda>b. (s, b)) batch_sizes) seq_lens)"

definition needed_blocks :: "int \<Rightarrow> int \<Rightarrow> (int \<times> int) list \<Rightarrow> int" where
  "needed_blocks block_size decode_tokens grid =
     Max (set (map (\<lambda>(s, b). b * blocks_for block_size (s + cell_decode_tokens decode_tokens)) grid))"

fun dry_cells :: "sweep_context \<Rightarrow> int \<Rightarrow> (int \<times> int) list \<Rightarrow> fake_driver \<Rightarrow> kv_cell list result \<times> fake_driver" where
  "dry_cells ctx n_samples [] d = (Inr [], d)"
| "dry_cells ctx n_samples ((s, b) # grid) d =
     (case kv_run_cell fake_engine ctx s b n_samples (replicate (nat b) (''fake-prompt-'' @ int_str s)) d of
        (Inl e, d1) \<Rightarrow> (Inl e, d1)
      | (Inr c, d1) \<Rightarrow>
          (case dry_cells ctx n_samples grid d1 of
             (Inl e, d2) \<Rightarrow> (Inl e, d2)
           | (Inr cs, d2) \<Rightarrow> (Inr (c # cs), d2)))"

definition fit_cells :: "kv_cell list \<Rightarrow> regression_fit result" where
  "fit_cells cells = fit_bytes_per_token (map (\<lambda>c. real_of_int (kc_total_tokens c)) cells) (map p50_bytes cells)"

definition dry_campaign :: "string \<Rightarrow> int \<Rightarrow> int \<Rightarrow> int \<Rightarrow> int \<Rightarrow> kv_cell list \<Rightarrow> kv_campaign result" where
  "dry_campaign campaign_id theory_bpt block_size min_seq_len fixed_overhead_bytes cells =
     rbind (fit_cells cells) (\<lambda>regression.
     rbind (check_dry_run_gate regression theory_bpt block_size min_seq_len) (\<lambda>_.
     rbind (find_knee cells fixed_overhead_bytes) (\<lambda>knee.
       KvScalingCampaign \<lparr>kg_campaign_id = campaign_id, kg_model_revision = ''fake'', kg_cells = cells,
         kg_theory_bytes_per_token = theory_bpt, kg_regression = regression, kg_knee = knee\<rparr>)))"

record dry_args =
  da_campaign_id :: string
  da_out_dir :: string
  da_seq_lens :: "int list option"
  da_batch_sizes :: "int list option"
  da_n_samples :: int
  da_theory_bpt :: int
  da_block_size :: int
  da_decode_tokens :: int
  da_total_blocks :: int
  da_fixed_overhead_bytes :: int

definition default_dry_args :: dry_args where
  "default_dry_args =
     \<lparr>da_campaign_id = ''kv-scaling-dry-run'', da_out_dir = ''bench/results/kv_scaling'', da_seq_lens = None,
      da_batch_sizes = None, da_n_samples = 5, da_theory_bpt = 12288, da_block_size = 16, da_decode_tokens = 4,
      da_total_blocks = 2 ^ 15, da_fixed_overhead_bytes = 2097152\<rparr>"

text \<open>\<open>xs or default\<close>\<close>

fun or_default :: "'a list option \<Rightarrow> 'a list \<Rightarrow> 'a list" where
  "or_default (Some (x # xs)) ys = x # xs"
| "or_default _ ys = ys"

definition dry_context :: "dry_args \<Rightarrow> sweep_context" where
  "dry_context a =
     \<lparr>sc_campaign_id = da_campaign_id a, sc_model_id = ''dry-run/fake-block-manager'', sc_model_revision = ''fake'',
      sc_gpu = ''none (fake)'', sc_vllm_version = ''fake-0'', sc_theory_bpt = da_theory_bpt a,
      sc_baseline_bytes = da_fixed_overhead_bytes a, sc_block_size = da_block_size a, sc_decode_tokens = da_decode_tokens a,
      sc_method = ''fake block-manager dry run (rung 0), manual step loop, max_tokens='' @ int_str (da_decode_tokens a) @
        '', ignore_eos=True, block_size='' @ int_str (da_block_size a),
      sc_max_num_batched_tokens = 8192\<rparr>"

definition run_dry_run_campaign :: "'t kv_codec \<Rightarrow> string \<Rightarrow> dry_args \<Rightarrow> 't files \<Rightarrow> string result \<times> 't files" where
  "run_dry_run_campaign X now a files =
     (let seq_lens = or_default (da_seq_lens a) [512, 2048, 8192];
          batch_sizes = or_default (da_batch_sizes a) [1, 4, 16];
          grid = grid_of seq_lens batch_sizes
      in if length seq_lens * length batch_sizes < 2 then (Inl ValueError, files)
         else if da_block_size a = 0 then (Inl ZeroDivisionError, files)
         else case FakeEngineDriver (max (da_total_blocks a) (needed_blocks (da_block_size a) (da_decode_tokens a) grid + 64))
                (da_block_size a) (da_fixed_overhead_bytes a) None of
           Inl e \<Rightarrow> (Inl e, files)
         | Inr driver \<Rightarrow>
             (case rbind (fst (dry_cells (dry_context a) (da_n_samples a) grid driver)) (\<lambda>cells.
                rbind (dry_campaign (da_campaign_id a) (da_theory_bpt a) (da_block_size a) (Min (set seq_lens))
                  (da_fixed_overhead_bytes a) cells) (\<lambda>campaign.
                rbind (write_campaign X campaign (da_out_dir a) (da_campaign_id a) files) (\<lambda>files1.
                  Inr (campaign_dir (da_out_dir a) (da_campaign_id a), campaign, files1)))) of
                Inl e \<Rightarrow> (Inl e, files)
              | Inr (out, campaign, files1) \<Rightarrow> (Inr out, write_summary_json X now out campaign files1)))"

section \<open>The sweep\<close>

definition cell_path :: "string \<Rightarrow> int \<Rightarrow> int \<Rightarrow> string" where
  "cell_path campaign_out s b = campaign_out @ ''/cell_s'' @ int_str s @ ''_b'' @ int_str b @ ''.json''"

text \<open>A cell that has no valid file is measured and written at once; \<open>None\<close> when building the prompt does not return.\<close>

definition sweep_cell ::
  "'t kv_codec \<Rightarrow> tokenizer \<Rightarrow> 'd engine_driver \<Rightarrow> sweep_context \<Rightarrow> string \<Rightarrow> int \<Rightarrow> int \<Rightarrow> int \<Rightarrow> 't files \<times> 'd \<Rightarrow>
   (kv_cell result \<times> 't files \<times> 'd) option" where
  "sweep_cell X T E ctx campaign_out n_samples s b st =
     (case read_cell_json X (fst st) (cell_path campaign_out s b) s b n_samples (sc_model_id ctx) of
        Some c \<Rightarrow> Some (Inr c, st)
      | None \<Rightarrow>
          (case build_exact_length_prompts T s of
             None \<Rightarrow> None
           | Some (Inl e) \<Rightarrow> Some (Inl e, st)
           | Some (Inr prompt) \<Rightarrow>
               (case kv_run_cell E ctx s b n_samples (replicate (nat b) prompt) (snd st) of
                  (Inl e, d1) \<Rightarrow> Some (Inl e, fst st, d1)
                | (Inr c, d1) \<Rightarrow> Some (Inr c, write_cell_json X (cell_path campaign_out s b) c (fst st), d1))))"

fun sweep_grid ::
  "'t kv_codec \<Rightarrow> tokenizer \<Rightarrow> 'd engine_driver \<Rightarrow> sweep_context \<Rightarrow> string \<Rightarrow> int \<Rightarrow> (int \<times> int) list \<Rightarrow> 't files \<times> 'd \<Rightarrow>
   (kv_cell list result \<times> 't files \<times> 'd) option" where
  "sweep_grid X T E ctx campaign_out n_samples [] st = Some (Inr [], st)"
| "sweep_grid X T E ctx campaign_out n_samples ((s, b) # grid) st =
     (case sweep_cell X T E ctx campaign_out n_samples s b st of
        None \<Rightarrow> None
      | Some (Inl e, st1) \<Rightarrow> Some (Inl e, st1)
      | Some (Inr c, st1) \<Rightarrow>
          (case sweep_grid X T E ctx campaign_out n_samples grid st1 of
             None \<Rightarrow> None
           | Some (Inl e, st2) \<Rightarrow> Some (Inl e, st2)
           | Some (Inr cs, st2) \<Rightarrow> Some (Inr (c # cs), st2)))"

definition published_campaign :: "string \<Rightarrow> hf_theory \<Rightarrow> int \<Rightarrow> kv_cell list \<Rightarrow> kv_campaign result" where
  "published_campaign campaign_id thy fixed_overhead cells =
     rbind (fit_cells cells) (\<lambda>regression.
     rbind (validate_against_theory (rf_slope_bpt regression) (ht_bytes_per_token thy) DEFAULT_TOL) (\<lambda>_.
     rbind (find_knee cells fixed_overhead) (\<lambda>knee.
       KvScalingCampaign \<lparr>kg_campaign_id = campaign_id, kg_model_revision = ht_revision thy, kg_cells = cells,
         kg_theory_bytes_per_token = ht_bytes_per_token thy, kg_regression = regression, kg_knee = knee\<rparr>)))"

definition finish_campaign_artifacts ::
  "'t kv_codec \<Rightarrow> string \<Rightarrow> kv_cell list \<Rightarrow> string \<Rightarrow> hf_theory \<Rightarrow> int \<Rightarrow> string \<Rightarrow> string \<Rightarrow> 't files \<Rightarrow> unit result \<times> 't files" where
  "finish_campaign_artifacts X now cells campaign_id thy fixed_overhead out_dir campaign_out files =
     (if 2 \<le> length cells
      then case rbind (published_campaign campaign_id thy fixed_overhead cells) (\<lambda>g.
                  rbind (write_campaign X g out_dir campaign_id files) (\<lambda>files1. Inr (g, files1))) of
             Inl e \<Rightarrow> (Inl e, files)
           | Inr (g, files1) \<Rightarrow> (Inr (), write_summary_json X now campaign_out g files1)
      else (Inr (), files))"

text \<open>What the program passes to the vLLM constructor, and what it reads off the loaded model.\<close>

record llm_kwargs =
  lk_model :: string
  lk_revision :: string
  lk_gpu_memory_utilization :: real
  lk_max_model_len :: int
  lk_max_num_batched_tokens :: int
  lk_block_size :: int
  lk_enforce_eager :: bool
  lk_seed :: int
  lk_enable_prefix_caching :: bool

record 'e llm =
  lm_engine :: "'e vllm_engine"
  lm_state :: 'e
  lm_version :: string
  lm_gpu :: string
  lm_tokenizer :: tokenizer
  lm_configs :: "(string \<times> hf_config option) list"
  lm_hub_config :: "hf_config result"
  lm_runtime_dtype :: "string option"
  lm_pools :: "(string \<times> pool_candidate option) list"
  lm_block_size :: "int option"
  lm_max_batched :: "int option"
  lm_allocated :: int

record sweep_args =
  sa_model_id :: string
  sa_revision :: string
  sa_seq_lens :: "int list"
  sa_batch_sizes :: "int list"
  sa_n_samples :: int
  sa_campaign_id :: string
  sa_out_dir :: string
  sa_gpu_memory_utilization :: real
  sa_max_model_len :: int
  sa_block_size :: int
  sa_enforce_eager :: bool
  sa_decode_tokens :: int
  sa_seed :: int
  sa_approve_cost :: bool
  sa_dry_run :: bool
  sa_usd_per_hour :: "real option"
  sa_secs_per_cell :: real

definition kwargs_of :: "sweep_args \<Rightarrow> llm_kwargs" where
  "kwargs_of a =
     \<lparr>lk_model = sa_model_id a, lk_revision = sa_revision a, lk_gpu_memory_utilization = sa_gpu_memory_utilization a,
      lk_max_model_len = sa_max_model_len a, lk_max_num_batched_tokens = 8192, lk_block_size = sa_block_size a,
      lk_enforce_eager = sa_enforce_eager a, lk_seed = sa_seed a, lk_enable_prefix_caching = False\<rparr>"

definition vllm_context :: "sweep_args \<Rightarrow> 'e llm \<Rightarrow> hf_theory \<Rightarrow> int \<Rightarrow> int \<Rightarrow> sweep_context" where
  "vllm_context a m thy fixed_overhead max_batched =
     \<lparr>sc_campaign_id = sa_campaign_id a, sc_model_id = sa_model_id a, sc_model_revision = ht_revision thy, sc_gpu = lm_gpu m,
      sc_vllm_version = lm_version m, sc_theory_bpt = ht_bytes_per_token thy, sc_baseline_bytes = fixed_overhead,
      sc_block_size = sa_block_size a, sc_decode_tokens = sa_decode_tokens a,
      sc_method = ''vllm-'' @ lm_version m @ '' offline engine, manual step loop, block-manager accounting, max_tokens='' @
        int_str (sa_decode_tokens a) @ '', ignore_eos=True, enforce_eager='' @ (if sa_enforce_eager a then ''True'' else ''False''),
      sc_max_num_batched_tokens = max_batched\<rparr>"

text \<open>Everything up to the sweep: theory, block pool, verified engine and overhead.\<close>

definition prepare_sweep :: "sweep_args \<Rightarrow> 'e llm \<Rightarrow> (hf_theory \<times> sweep_context \<times> int) result" where
  "prepare_sweep a m =
     rbind (resolve_theory (lm_configs m) (lm_hub_config m) (lm_runtime_dtype m) (sa_revision a)) (\<lambda>(thy, source).
     rbind (probe_block_pool (lm_pools m)) (\<lambda>(num_gpu_blocks, path, reader).
     rbind (verify_engine num_gpu_blocks (sa_block_size a) (ht_bytes_per_token thy) (lm_block_size m) (lm_max_batched m)
              (lm_allocated m)) (\<lambda>(fixed_overhead, max_batched).
       Inr (thy, vllm_context a m thy fixed_overhead max_batched, fixed_overhead))))"

definition run_vllm_sweep_impl ::
  "'t kv_codec \<Rightarrow> string \<Rightarrow> (llm_kwargs \<Rightarrow> 'e llm result) \<Rightarrow> sweep_args \<Rightarrow> 't files \<Rightarrow> (string result \<times> 't files) option" where
  "run_vllm_sweep_impl X now load a files =
     (case rbind (load (kwargs_of a)) (\<lambda>m. rbind (prepare_sweep a m) (\<lambda>p. Inr (m, p))) of
        Inl e \<Rightarrow> Some (Inl e, files)
      | Inr (m, thy, ctx, fixed_overhead) \<Rightarrow>
          (let campaign_out = campaign_dir (sa_out_dir a) (sa_campaign_id a)
           in case sweep_grid X (lm_tokenizer m) (vllm_engine_driver (lm_engine m)) ctx campaign_out (sa_n_samples a)
                    (grid_of (sa_seq_lens a) (sa_batch_sizes a)) (files, vllm_driver_init (lm_state m)) of
                None \<Rightarrow> None
              | Some (Inl e, files1, d) \<Rightarrow> Some (Inl e, files1)
              | Some (Inr cells, files1, d) \<Rightarrow>
                  (case finish_campaign_artifacts X now cells (sa_campaign_id a) thy fixed_overhead (sa_out_dir a) campaign_out files1 of
                     (Inl e, files2) \<Rightarrow> Some (Inl e, files2)
                   | (Inr _, files2) \<Rightarrow> Some (Inr campaign_out, files2))))"

text \<open>\<open>nvidia-smi -L\<close>: its return code and output, \<open>None\<close> when it could not be run.\<close>

definition cuda_available :: "(int \<times> string) option \<Rightarrow> bool" where
  "cuda_available smi = (case smi of None \<Rightarrow> False | Some (returncode, stdout) \<Rightarrow> returncode = 0 \<and> py_contains ''GPU'' stdout)"

definition dry_args_of :: "sweep_args \<Rightarrow> dry_args" where
  "dry_args_of a =
     default_dry_args\<lparr>da_campaign_id := sa_campaign_id a, da_out_dir := sa_out_dir a, da_seq_lens := Some (sa_seq_lens a),
       da_batch_sizes := Some (sa_batch_sizes a), da_n_samples := sa_n_samples a, da_block_size := sa_block_size a,
       da_decode_tokens := sa_decode_tokens a\<rparr>"

definition run_vllm_sweep ::
  "'t kv_codec \<Rightarrow> string \<Rightarrow> (llm_kwargs \<Rightarrow> 'e llm result) \<Rightarrow> (int \<times> string) option \<Rightarrow> (string, string) odict \<Rightarrow> sweep_args \<Rightarrow>
   't files \<Rightarrow> (string result \<times> 't files) option" where
  "run_vllm_sweep X now load smi env a files =
     (if sa_dry_run a then Some (run_dry_run_campaign X now (dry_args_of a) files)
      else let approved = (sa_approve_cost a \<or> od_get env ''APPROVE_GPU_SPEND'' = Some ''yes'');
               campaign_out = campaign_dir (sa_out_dir a) (sa_campaign_id a);
               preflight = build_kv_preflight (sa_campaign_id a) (sa_model_id a) (sa_revision a) (sa_seq_lens a)
                 (sa_batch_sizes a) (sa_n_samples a) (sa_secs_per_cell a) (sa_usd_per_hour a) campaign_out approved;
               files1 = write_preflight_json X campaign_out preflight files
           in if 1 < kv_n_cells preflight \<and> \<not> approved then Some (Inl RuntimeError, files1)
              else if \<not> cuda_available smi then Some (Inl RuntimeError, files1)
              else run_vllm_sweep_impl X now load a files1)"

section \<open>The command line\<close>

text \<open>Every rejection is an \<open>ArgumentTypeError\<close>, on which the parser exits; \<open>None\<close> stands for it.\<close>

definition parse_int_list :: "string \<Rightarrow> int list option" where
  "parse_int_list raw =
     (case rmap (\<lambda>part. parse_int (py_strip part)) (filter (\<lambda>part. py_strip part \<noteq> []) (split_char (CHR '','') raw)) of
        Inl e \<Rightarrow> None
      | Inr values \<Rightarrow> if values = [] then None else if list_ex (\<lambda>v. v \<le> 0) values then None else Some values)"

text \<open>
  The exit code: refusals are 2, failed gates 1; any other exception leaves the program. \<open>None\<close> when it
  does not return.
\<close>

definition kv_main ::
  "'t kv_codec \<Rightarrow> string \<Rightarrow> (llm_kwargs \<Rightarrow> 'e llm result) \<Rightarrow> (int \<times> string) option \<Rightarrow> (string, string) odict \<Rightarrow> sweep_args \<Rightarrow>
   't files \<Rightarrow> (int result \<times> 't files) option" where
  "kv_main X now load smi env a files =
     map_option (\<lambda>(res, files1).
       (case res of
          Inr _ \<Rightarrow> Inr 0
        | Inl RuntimeError \<Rightarrow> Inr 2
        | Inl ValueError \<Rightarrow> Inr 1
        | Inl e \<Rightarrow> Inl e, files1)) (run_vllm_sweep X now load smi env a files)"

section \<open>The dry run in closed form\<close>

lemma cell_ids_disjoint:
  assumes "0 \<le> s" "0 \<le> s'" "0 \<le> b" "0 \<le> b'" "(s, b) \<noteq> (s', b')"
  shows "cell_request_ids cid s b n \<inter> cell_request_ids cid s' b' n = {}"
proof -
  have "set (sample_request_ids cid s b i) \<inter> set (sample_request_ids cid s' b' j) = {}" for i j
    using assms by (intro sample_ids_disjoint) auto
  then show ?thesis unfolding cell_request_ids_def by blast
qed

lemma dry_cells_lockstep:
  assumes "fake_ready D d" "fake_view d = []" "fd_block_size d = sc_block_size ctx" "0 < fd_total_blocks d"
    and "distinct grid" "\<forall>(s, b)\<in>set grid. 0 < s \<and> 0 < b \<and> lockstep_blocks ctx s b \<le> fd_total_blocks d \<and>
      cell_request_ids (sc_campaign_id ctx) s b n \<inter> fake_known d = {}"
    and "0 < n" "0 < sc_theory_bpt ctx" "0 < sc_max_num_batched_tokens ctx" "0 \<le> sc_baseline_bytes ctx"
  shows "fst (dry_cells ctx (int n) grid d) = Inr (map (\<lambda>(s, b). lockstep_cell ctx s b n) grid)"
  using assms(1-6)
proof (induction grid arbitrary: d)
  case Nil
  then show ?case by simp
next
  case (Cons sb grid)
  obtain s b where sb: "sb = (s, b)" by force
  let ?prompts = "replicate (nat b) (''fake-prompt-'' @ int_str s)"
  have c: "0 < s" "0 < b" "lockstep_blocks ctx s b \<le> fd_total_blocks d" "cell_request_ids (sc_campaign_id ctx) s b n \<inter> fake_known d = {}"
    using Cons.prems(6) by (auto simp: sb)
  have prompts: "int (length ?prompts) = b" using c(2) by simp
  obtain d1 where d1: "kv_run_cell fake_engine ctx s b (int n) ?prompts d = (Inr (lockstep_cell ctx s b n), d1)"
    "fake_ready (cell_decode_tokens (sc_decode_tokens ctx)) d1" "fake_view d1 = []"
    "fake_known d1 = fake_known d \<union> cell_request_ids (sc_campaign_id ctx) s b n" "fd_block_size d1 = fd_block_size d"
    "fd_total_blocks d1 = fd_total_blocks d"
    using fake.cell_batch [OF fake.idle [OF Cons.prems(1,2)] Cons.prems(2) c(1,2) prompts assms(7,8) Cons.prems(3) [symmetric] c(3)
        Cons.prems(4) assms(9,10) c(4)] by blast
  have rest: "\<forall>(s', b')\<in>set grid. 0 < s' \<and> 0 < b' \<and> lockstep_blocks ctx s' b' \<le> fd_total_blocks d1 \<and>
      cell_request_ids (sc_campaign_id ctx) s' b' n \<inter> fake_known d1 = {}"
  proof (rule ballI, clarsimp, intro conjI)
    fix s' b' assume g: "(s', b') \<in> set grid"
    then have old: "0 < s'" "0 < b'" "lockstep_blocks ctx s' b' \<le> fd_total_blocks d"
      "cell_request_ids (sc_campaign_id ctx) s' b' n \<inter> fake_known d = {}" using Cons.prems(6) by auto
    have "(s', b') \<noteq> (s, b)" using Cons.prems(5) g by (auto simp: sb)
    then have "cell_request_ids (sc_campaign_id ctx) s' b' n \<inter> cell_request_ids (sc_campaign_id ctx) s b n = {}"
      using old c by (intro cell_ids_disjoint) auto
    then show "0 < s'" "0 < b'" "lockstep_blocks ctx s' b' \<le> fd_total_blocks d1"
      "cell_request_ids (sc_campaign_id ctx) s' b' n \<inter> fake_known d1 = {}"
      using old by (simp_all add: d1(4,6) Int_Un_distrib)
  qed
  have "fst (dry_cells ctx (int n) grid d1) = Inr (map (\<lambda>(s, b). lockstep_cell ctx s b n) grid)"
    using Cons.prems(3-5) rest by (intro Cons.IH [OF fake.idle [OF d1(2,3)] d1(3)]) (auto simp: d1(5,6))
  then obtain d2 where "dry_cells ctx (int n) grid d1 = (Inr (map (\<lambda>(s, b). lockstep_cell ctx s b n) grid), d2)"
    by (metis prod.collapse)
  then show ?case unfolding sb dry_cells.simps d1(1) by simp
qed

lemma grid_of_set: "set (grid_of seq_lens batch_sizes) = set seq_lens \<times> set batch_sizes"
  by (auto simp: grid_of_def)

lemma grid_of_distinct: "distinct seq_lens \<Longrightarrow> distinct batch_sizes \<Longrightarrow> distinct (grid_of seq_lens batch_sizes)"
  by (induction seq_lens) (auto simp: grid_of_def distinct_map inj_on_def)

lemma grid_needed:
  assumes "(s, b) \<in> set grid" "0 < b" "0 < sc_block_size ctx"
  shows "lockstep_blocks ctx s b \<le> needed_blocks (sc_block_size ctx) (sc_decode_tokens ctx) grid"
proof -
  have "lockstep_blocks ctx s b \<le> b * blocks_for (sc_block_size ctx) (s + cell_decode_tokens (sc_decode_tokens ctx))"
    unfolding lockstep_blocks_def using assms(2) by (intro mult_left_mono blocks_for_mono [OF assms(3)]) auto
  also have "\<dots> \<le> needed_blocks (sc_block_size ctx) (sc_decode_tokens ctx) grid"
    unfolding needed_blocks_def using assms(1) by (intro Max_ge) force+
  finally show ?thesis .
qed

definition dry_grid_cells :: "dry_args \<Rightarrow> kv_cell list" where
  "dry_grid_cells a =
     map (\<lambda>(s, b). lockstep_cell (dry_context a) s b (nat (da_n_samples a)))
       (grid_of (or_default (da_seq_lens a) [512, 2048, 8192]) (or_default (da_batch_sizes a) [1, 4, 16]))"

definition dry_publish :: "'t kv_codec \<Rightarrow> string \<Rightarrow> dry_args \<Rightarrow> 't files \<Rightarrow> kv_campaign result \<Rightarrow> string result \<times> 't files" where
  "dry_publish X now a files r =
     (case r of
        Inl e \<Rightarrow> (Inl e, files)
      | Inr g \<Rightarrow>
          (case write_campaign X g (da_out_dir a) (da_campaign_id a) files of
             Inl e \<Rightarrow> (Inl e, files)
           | Inr files1 \<Rightarrow>
               (let out = campaign_dir (da_out_dir a) (da_campaign_id a) in (Inr out, write_summary_json X now out g files1))))"

lemma dry_run_closed:
  fixes a
  defines "seqs \<equiv> or_default (da_seq_lens a) [512, 2048, 8192]" and "bats \<equiv> or_default (da_batch_sizes a) [1, 4, 16]"
  assumes "distinct seqs" "distinct bats" "\<forall>s\<in>set seqs. 0 < s" "\<forall>b\<in>set bats. 0 < b" "2 \<le> length seqs * length bats"
    and "0 < da_n_samples a" "0 < da_theory_bpt a" "0 < da_block_size a" "0 < da_fixed_overhead_bytes a" "0 < da_total_blocks a"
  shows "run_dry_run_campaign X now a files =
    dry_publish X now a files (dry_campaign (da_campaign_id a) (da_theory_bpt a) (da_block_size a) (Min (set seqs))
      (da_fixed_overhead_bytes a) (dry_grid_cells a))"
proof -
  let ?ctx = "dry_context a" and ?grid = "grid_of seqs bats"
  let ?blocks = "max (da_total_blocks a) (needed_blocks (da_block_size a) (da_decode_tokens a) ?grid + 64)"
  have ctx: "sc_block_size ?ctx = da_block_size a" "sc_decode_tokens ?ctx = da_decode_tokens a" "sc_theory_bpt ?ctx = da_theory_bpt a"
    "sc_max_num_batched_tokens ?ctx = 8192" "sc_baseline_bytes ?ctx = da_fixed_overhead_bytes a"
    by (simp_all add: dry_context_def)
  obtain d where d: "FakeEngineDriver ?blocks (da_block_size a) (da_fixed_overhead_bytes a) None = Inr d"
    using assms(10-12) by (simp add: FakeEngineDriver_def FakeBlockPool_def)
  note new = fresh_driver [OF d]
  obtain n where n: "da_n_samples a = int n" "0 < n" using assms(8) zero_less_imp_eq_int by blast
  have grid: "\<forall>(s, b)\<in>set ?grid. 0 < s \<and> 0 < b \<and> lockstep_blocks ?ctx s b \<le> fd_total_blocks d \<and>
      cell_request_ids (sc_campaign_id ?ctx) s b n \<inter> fake_known d = {}"
  proof (rule ballI, clarsimp, intro conjI)
    fix s b assume g: "(s, b) \<in> set ?grid"
    then show pos: "0 < s" "0 < b" using assms(5,6) by (auto simp: grid_of_set)
    have "lockstep_blocks ?ctx s b \<le> needed_blocks (da_block_size a) (da_decode_tokens a) ?grid"
      using grid_needed [OF g pos(2), of ?ctx] assms(10) by (simp add: ctx)
    then show "lockstep_blocks ?ctx s b \<le> fd_total_blocks d" by (simp add: new(5))
    show "cell_request_ids (sc_campaign_id ?ctx) s b n \<inter> fake_known d = {}" by (simp add: new(3))
  qed
  have cells: "fst (dry_cells ?ctx (da_n_samples a) ?grid d) = Inr (dry_grid_cells a)"
    unfolding n(1) dry_grid_cells_def nat_int seqs_def [symmetric] bats_def [symmetric]
    using new assms(9,11) n(2) ctx
    by (intro dry_cells_lockstep [OF new(1,2) _ _ grid_of_distinct [OF assms(3,4)] grid]) simp_all
  show ?thesis
    unfolding run_dry_run_campaign_def Let_def seqs_def [symmetric] bats_def [symmetric]
    using assms(7,10) by (simp add: d cells dry_publish_def Let_def split: sum.split)
qed

section \<open>The default dry run\<close>

definition default_tokens :: "real list" where
  "default_tokens = [541, 2164, 8656, 2077, 8308, 33232, 8221, 32884, 131536]"

definition default_bytes :: "real list" where
  "default_bytes = map (\<lambda>slots. 12288 * slots) [544, 2176, 8704, 2080, 8320, 33280, 8224, 32896, 131584]"

lemma default_means: "mean default_tokens = 25291" "mean default_bytes = 12288 * 25312"
  by (simp_all add: mean_def default_tokens_def default_bytes_def)

lemma default_sums:
  "sxx_of default_tokens = 13951553994" "sxy_of default_tokens default_bytes = 12288 * 13955651136"
  "sxx_of default_bytes = 12288\<^sup>2 * 13959751680"
  unfolding default_means by (simp_all add: default_tokens_def default_bytes_def power2_eq_square)

lemma default_fit:
  "\<exists>f. fit_bytes_per_token default_tokens default_bytes = Inr f \<and> rf_slope_bpt f = 12288 * 13955651136 / 13951553994 \<and>
     999 / 1000 \<le> rf_r2 f"
proof -
  have len: "length default_tokens = length default_bytes" "2 \<le> length default_tokens" "default_tokens \<noteq> []"
    by (simp_all add: default_tokens_def default_bytes_def)
  have "sxx_of default_tokens \<noteq> 0" "0 \<le> sxy_of default_tokens default_bytes" unfolding default_sums by simp_all
  then obtain f where f: "fit_bytes_per_token default_tokens default_bytes = Inr f"
    using fit_succeeds [OF len(1,2)] by blast
  have slope: "rf_slope_bpt f = 12288 * 13955651136 / 13951553994" using fit_Inr(4) [OF f] unfolding default_sums by simp
  have "squared_error default_tokens default_bytes (rf_slope_bpt f) (rf_intercept_bytes f) =
      12288\<^sup>2 * 13959751680 - (12288 * 13955651136 / 13951553994)\<^sup>2 * 13951553994"
    using squared_error_fit(2) [OF len(1,3) fit_Inr(3) [OF f]] unfolding fit_Inr(4,5) [OF f] default_sums .
  then have "999 / 1000 \<le> rf_r2 f"
    unfolding fit_Inr(6) [OF f] default_sums by (simp add: power2_eq_square)
  with f slope show ?thesis by blast
qed

lemma blocks_for_16: "blocks_for 16 541 = 34" "blocks_for 16 2077 = 130" "blocks_for 16 8221 = 514"
  by (simp_all add: blocks_for_def)

lemma lockstep_p50: "0 < n \<Longrightarrow> p50_bytes (lockstep_cell ctx s b n) = real_of_int (lockstep_blocks ctx s b * sc_block_size ctx * sc_theory_bpt ctx)"
  by (rule p50_constant [of _ "n - 1"]) (simp add: lockstep_cell_def)

lemma default_grid: "dry_grid_cells default_dry_args = map (\<lambda>(s, b). lockstep_cell (dry_context default_dry_args) s b 5)
    [(512, 1), (512, 4), (512, 16), (2048, 1), (2048, 4), (2048, 16), (8192, 1), (8192, 4), (8192, 16)]"
  by (simp add: dry_grid_cells_def default_dry_args_def grid_of_def)

lemma default_cells:
  "map (\<lambda>c. real_of_int (kc_total_tokens c)) (dry_grid_cells default_dry_args) = default_tokens"
  "map p50_bytes (dry_grid_cells default_dry_args) = default_bytes"
proof -
  have ctx: "sc_block_size (dry_context default_dry_args) = 16" "sc_theory_bpt (dry_context default_dry_args) = 12288"
    "cell_decode_tokens (sc_decode_tokens (dry_context default_dry_args)) = 30"
    by (simp_all add: dry_context_def default_dry_args_def cell_decode_tokens_def EXTENDED_DECODE_TOKENS_def)
  show "map (\<lambda>c. real_of_int (kc_total_tokens c)) (dry_grid_cells default_dry_args) = default_tokens"
    unfolding default_grid by (simp add: lockstep_cell_def ctx default_tokens_def)
  show "map p50_bytes (dry_grid_cells default_dry_args) = default_bytes"
    unfolding default_grid by (simp add: lockstep_p50 lockstep_blocks_def ctx blocks_for_16 default_bytes_def)
qed

lemma knee_exists:
  assumes "0 < F" "\<forall>c\<in>set cells. real_of_int F \<le> p50_bytes c \<and> 0 < kc_total_tokens c \<and> 0 < kc_batch_size c" "cells \<noteq> []"
  shows "\<exists>k c. find_knee cells F = Inr k \<and> c \<in> set cells \<and> kp_total_tokens k = kc_total_tokens c \<and>
    (\<forall>c'\<in>set cells. kc_total_tokens c \<le> kc_total_tokens c')"
proof -
  let ?o = "sort_key kc_total_tokens cells"
  have find: "find_knee cells F = knee_scan F ?o" using assms(1,3) by (simp add: find_knee_def Let_def sort_eq_Nil_key)
  have ok: "\<forall>c\<in>set ?o. 0 \<le> p50_bytes c \<and> 0 < kc_total_tokens c \<and> 0 < kc_batch_size c" using assms(1,2) by fastforce
  obtain a where "a \<in> set cells" using assms(3) by (cases cells) auto
  then have "real_of_int F \<le> p50_bytes a" "a \<in> set ?o" using assms(2) by simp_all
  then have "\<not> (\<forall>c\<in>set ?o. p50_bytes c < real_of_int F)" by force
  then show ?thesis using knee_scan_sorted [OF assms(1) ok] assms(2) by (auto simp: find)
qed

lemma default_campaign:
  "\<exists>g. dry_campaign (da_campaign_id default_dry_args) 12288 16 512 2097152 (dry_grid_cells default_dry_args) = Inr g \<and>
     kg_cells g = dry_grid_cells default_dry_args \<and> rf_slope_bpt (kg_regression g) = 12288 * 13955651136 / 13951553994 \<and>
     999 / 1000 \<le> rf_r2 (kg_regression g) \<and> kp_total_tokens (kg_knee g) = 541"
proof -
  let ?cells = "dry_grid_cells default_dry_args"
  obtain f where f: "fit_cells ?cells = Inr f" "rf_slope_bpt f = 12288 * 13955651136 / 13951553994" "999 / 1000 \<le> rf_r2 f"
    using default_fit unfolding fit_cells_def default_cells by blast
  have gate: "check_dry_run_gate f 12288 16 512 = Inr ()"
    using f(2,3) by (simp add: check_dry_run_gate_def DRY_RUN_MIN_R2_def Let_def)
  have ne: "?cells \<noteq> []" by (simp add: default_grid)
  have tokens: "set (map (\<lambda>c. real_of_int (kc_total_tokens c)) ?cells) = set default_tokens" unfolding default_cells ..
  have bytes: "p50_bytes c \<in> set default_bytes" "real_of_int (kc_total_tokens c) \<in> set default_tokens" if "c \<in> set ?cells" for c
    using that imageI [of c "set ?cells" p50_bytes] imageI [of c "set ?cells" "\<lambda>c. real_of_int (kc_total_tokens c)"]
    unfolding set_map [symmetric] default_cells by simp_all
  have batch: "0 < kc_batch_size c" if "c \<in> set ?cells" for c using that by (auto simp: default_grid lockstep_cell_def)
  have big: "real_of_int 2097152 \<le> p50_bytes c \<and> 0 < kc_total_tokens c \<and> 0 < kc_batch_size c" if c: "c \<in> set ?cells" for c
    using bytes [OF c] batch [OF c] by (auto simp: default_bytes_def default_tokens_def)
  then obtain k c where k: "find_knee ?cells 2097152 = Inr k" "c \<in> set ?cells" "kp_total_tokens k = kc_total_tokens c"
    "\<forall>c'\<in>set ?cells. kc_total_tokens c \<le> kc_total_tokens c'"
    using knee_exists [of 2097152 ?cells, OF _ ballI ne] by (auto simp del: of_int_numeral)
  have "541 \<in> set default_tokens" by (simp add: default_tokens_def)
  then obtain c' where c': "c' \<in> set ?cells" "real_of_int (kc_total_tokens c') = 541" unfolding default_cells(1) [symmetric] by auto
  have "real_of_int (kc_total_tokens c) \<le> 541" using k(4) c' by fastforce
  moreover have "541 \<le> real_of_int (kc_total_tokens c)" using bytes(2) [OF k(2)] by (auto simp: default_tokens_def)
  ultimately have "kc_total_tokens c = 541" by linarith
  then show ?thesis using f gate k ne by (simp add: dry_campaign_def KvScalingCampaign_def)
qed

text \<open>
  The gate also rejects runs in which nothing went wrong: on the grid of prompts of 4 and 19 tokens both cells
  round up to the same blocks, so the recovered slope is 0 and the dry run fails.
\<close>

definition rounding_args :: dry_args where
  "rounding_args = default_dry_args\<lparr>da_seq_lens := Some [4, 19], da_batch_sizes := Some [1]\<rparr>"

lemma rounding_cells:
  "map (\<lambda>c. real_of_int (kc_total_tokens c)) (dry_grid_cells rounding_args) = [33, 48]"
  "map p50_bytes (dry_grid_cells rounding_args) = [48 * 12288, 48 * 12288]"
proof -
  have ctx: "sc_block_size (dry_context rounding_args) = 16" "sc_theory_bpt (dry_context rounding_args) = 12288"
    "cell_decode_tokens (sc_decode_tokens (dry_context rounding_args)) = 30"
    by (simp_all add: dry_context_def rounding_args_def default_dry_args_def cell_decode_tokens_def EXTENDED_DECODE_TOKENS_def)
  have grid: "dry_grid_cells rounding_args = map (\<lambda>(s, b). lockstep_cell (dry_context rounding_args) s b 5) [(4, 1), (19, 1)]"
    by (simp add: dry_grid_cells_def rounding_args_def default_dry_args_def grid_of_def)
  have "blocks_for 16 33 = 3" "blocks_for 16 48 = 3" by (simp_all add: blocks_for_def)
  then show "map (\<lambda>c. real_of_int (kc_total_tokens c)) (dry_grid_cells rounding_args) = [33, 48]"
    "map p50_bytes (dry_grid_cells rounding_args) = [48 * 12288, 48 * 12288]"
    unfolding grid by (simp_all add: lockstep_p50 lockstep_blocks_def ctx) (simp_all add: lockstep_cell_def ctx)
qed

lemma dry_run_rejects_rounding: "run_dry_run_campaign X now rounding_args files = (Inl ValueError, files)"
proof -
  obtain f where f: "fit_cells (dry_grid_cells rounding_args) = Inr f" "rf_slope_bpt f = 0"
    using fit_linear [of "[48 * 12288, 48 * 12288]" 0 "48 * 12288" "[33, 48]" 33 48] unfolding fit_cells_def rounding_cells by auto
  then have "dry_campaign (da_campaign_id rounding_args) 12288 16 4 2097152 (dry_grid_cells rounding_args) = Inl ValueError"
    by (simp add: dry_campaign_def check_dry_run_gate_def Let_def)
  then show ?thesis
    using dry_run_closed [of rounding_args X now files] by (simp add: rounding_args_def default_dry_args_def dry_publish_def)
qed

section \<open>Resuming a sweep\<close>

lemma int_str_mark: "CHR ''_'' \<notin> set (int_str i)"
  using int_str_chars [of "CHR ''_''" i] by (auto simp: is_digit_def)

lemma cell_path_inj: "cell_path out s b = cell_path out s' b' \<longleftrightarrow> s = s' \<and> b = b'"
proof
  assume "cell_path out s b = cell_path out s' b'"
  then have "int_str s @ CHR ''_'' # ''b'' @ int_str b @ ''.json'' = int_str s' @ CHR ''_'' # ''b'' @ int_str b' @ ''.json''"
    by (simp add: cell_path_def)
  then have "int_str s = int_str s'" "''b'' @ int_str b @ ''.json'' = ''b'' @ int_str b' @ ''.json''"
    unfolding until_mark [OF int_str_mark int_str_mark] by blast+
  then show "s = s' \<and> b = b'" by simp
qed simp

text \<open>A measured cell is readable under its own grid point.\<close>

lemma kv_run_cell_valid:
  assumes "kv_run_cell E ctx s b n prompts d = (Inr c, d')"
  shows "KvScalingCell c = Inr c" "kc_seq_len c = s" "kc_batch_size c = b" "kc_n_samples c = n" "kc_model_id c = sc_model_id ctx"
proof -
  obtain rs where rs: "cell_of_samples ctx s b n rs = Inr c"
    using assms by (auto simp: kv_run_cell_def split: if_splits sum.splits prod.splits)
  then have "\<exists>c0. KvScalingCell c0 = Inr c" by (auto simp: cell_of_samples_def Let_def split: if_splits)
  then show "KvScalingCell c = Inr c" using KvScalingCell_Inr by blast
  show "kc_seq_len c = s" "kc_batch_size c = b" "kc_n_samples c = n" "kc_model_id c = sc_model_id ctx"
    using cell_of_samples_Inr [OF rs] by simp_all
qed

abbreviation stored_cell :: "'t kv_codec \<Rightarrow> string \<Rightarrow> int \<Rightarrow> string \<Rightarrow> 't files \<Rightarrow> int \<times> int \<Rightarrow> kv_cell option" where
  "stored_cell X out n model files sb \<equiv> read_cell_json X files (cell_path out (fst sb) (snd sb)) (fst sb) (snd sb) n model"

lemma sweep_cell_stores:
  assumes "kv_codec_ok X" "sweep_cell X T E ctx out n s b (files, d) = Some (Inr c, files', d')"
  shows "stored_cell X out n (sc_model_id ctx) files' (s, b) = Some c"
    "stored_cell X out n (sc_model_id ctx) files sb = Some c' \<Longrightarrow> stored_cell X out n (sc_model_id ctx) files' sb = Some c'"
proof -
  consider (read) "stored_cell X out n (sc_model_id ctx) files (s, b) = Some c" "files' = files"
    | (run) prompts where "stored_cell X out n (sc_model_id ctx) files (s, b) = None" "kv_run_cell E ctx s b n prompts d = (Inr c, d')"
        "files' = write_cell_json X (cell_path out s b) c files"
    using assms(2) by (auto simp: sweep_cell_def split: option.splits sum.splits prod.splits)
  note cases = this
  show "stored_cell X out n (sc_model_id ctx) files' (s, b) = Some c"
    using cases by cases (use read_written [OF assms(1)] kv_run_cell_valid in fastforce)+
  show "stored_cell X out n (sc_model_id ctx) files' sb = Some c'" if old: "stored_cell X out n (sc_model_id ctx) files sb = Some c'"
    using cases
  proof cases
    case read
    then show ?thesis using old by simp
  next
    case run
    then have "\<not> (fst sb = s \<and> snd sb = b)" using old by auto
    then have "cell_path out (fst sb) (snd sb) \<noteq> cell_path out s b" unfolding cell_path_inj .
    then show ?thesis using old run(3) by (simp add: read_other)
  qed
qed

lemma sweep_grid_stores:
  assumes "kv_codec_ok X" "sweep_grid X T E ctx out n grid (files, d) = Some (Inr cs, files', d')"
  shows "map (stored_cell X out n (sc_model_id ctx) files') grid = map Some cs \<and>
    (\<forall>sb c. stored_cell X out n (sc_model_id ctx) files sb = Some c \<longrightarrow> stored_cell X out n (sc_model_id ctx) files' sb = Some c)"
  using assms(2)
proof (induction grid arbitrary: files d cs)
  case Nil
  then show ?case by simp
next
  case (Cons sb grid)
  obtain s b where sb: "sb = (s, b)" by force
  obtain c files1 d1 cs1 where one: "sweep_cell X T E ctx out n s b (files, d) = Some (Inr c, files1, d1)"
    and rest: "sweep_grid X T E ctx out n grid (files1, d1) = Some (Inr cs1, files', d')" and cs: "cs = c # cs1"
    using Cons.prems by (auto simp: sb split: option.splits sum.splits prod.splits)
  have IH: "map (stored_cell X out n (sc_model_id ctx) files') grid = map Some cs1"
    "stored_cell X out n (sc_model_id ctx) files1 sb = Some c \<Longrightarrow> stored_cell X out n (sc_model_id ctx) files' sb = Some c" for sb c
    using Cons.IH [OF rest] by blast+
  have "stored_cell X out n (sc_model_id ctx) files' (s, b) = Some c" by (rule IH(2) [OF sweep_cell_stores(1) [OF assms(1) one]])
  then have "map (stored_cell X out n (sc_model_id ctx) files') (sb # grid) = map Some cs"
    unfolding cs sb list.map IH(1) by (simp only:)
  then show ?case using IH(2) sweep_cell_stores(2) [OF assms(1) one] by blast
qed

lemma sweep_grid_replay:
  "map (stored_cell X out n (sc_model_id ctx) files) grid = map Some cs \<Longrightarrow>
     sweep_grid X T E ctx out n grid (files, d) = Some (Inr cs, files, d)"
proof (induction grid arbitrary: cs)
  case Nil
  then show ?case by simp
next
  case (Cons sb grid)
  then obtain c cs1 where cs: "cs = c # cs1" "stored_cell X out n (sc_model_id ctx) files sb = Some c"
    "map (stored_cell X out n (sc_model_id ctx) files) grid = map Some cs1" by (cases cs) auto
  then show ?case using Cons.IH [OF cs(3)] by (cases sb) (simp add: sweep_cell_def)
qed

lemma finish_gated:
  assumes "finish_campaign_artifacts X now cells cid thy F out_dir campaign_out files = (res, files')" "files' \<noteq> files"
  obtains f and g :: kv_campaign where "fit_cells cells = Inr f" "validate_against_theory (rf_slope_bpt f) (ht_bytes_per_token thy) DEFAULT_TOL =
      Inr (\<bar>rf_slope_bpt f - real_of_int (ht_bytes_per_token thy)\<bar> / real_of_int (ht_bytes_per_token thy))"
    "find_knee cells F = Inr (kg_knee g)" "kg_regression g = f" "kg_cells g = cells" "res = Inr ()"
proof -
  obtain g files1 where g: "published_campaign cid thy F cells = Inr g" and res: "res = Inr ()"
    using assms by (auto simp: finish_campaign_artifacts_def rbind_eq_Inr split: if_splits sum.splits)
  then obtain f e k where "fit_cells cells = Inr f" "validate_against_theory (rf_slope_bpt f) (ht_bytes_per_token thy) DEFAULT_TOL = Inr e"
    "find_knee cells F = Inr k" and built: "KvScalingCampaign \<lparr>kg_campaign_id = cid, kg_model_revision = ht_revision thy, kg_cells = cells,
      kg_theory_bytes_per_token = ht_bytes_per_token thy, kg_regression = f, kg_knee = k\<rparr> = Inr g"
    by (auto simp: published_campaign_def rbind_eq_Inr)
  moreover have "kg_knee g = k" "kg_regression g = f" "kg_cells g = cells" using built by (auto simp: KvScalingCampaign_def split: if_splits)
  ultimately show thesis using res by (intro that [of f g]) (auto simp: validate_Inr)
qed

section \<open>Properties\<close>

text \<open>
  C22: The dry run refines the abstract campaign. On any grid of distinct positive lengths and batch sizes the fake engine never
  runs out of blocks and never stops the sampler, so the outcome is that of publishing the cells of
  the lock-step contract: only the regression gate and the knee can fail.
\<close>

theorem dry_run_refines:
  assumes "distinct (or_default (da_seq_lens a) [512, 2048, 8192])" "distinct (or_default (da_batch_sizes a) [1, 4, 16])"
    and "\<forall>s\<in>set (or_default (da_seq_lens a) [512, 2048, 8192]). 0 < s" "\<forall>b\<in>set (or_default (da_batch_sizes a) [1, 4, 16]). 0 < b"
    and "2 \<le> length (or_default (da_seq_lens a) [512, 2048, 8192]) * length (or_default (da_batch_sizes a) [1, 4, 16])"
    and "0 < da_n_samples a" "0 < da_theory_bpt a" "0 < da_block_size a" "0 < da_fixed_overhead_bytes a" "0 < da_total_blocks a"
  shows "run_dry_run_campaign X now a files =
    dry_publish X now a files (dry_campaign (da_campaign_id a) (da_theory_bpt a) (da_block_size a)
      (Min (set (or_default (da_seq_lens a) [512, 2048, 8192]))) (da_fixed_overhead_bytes a) (dry_grid_cells a))"
  by (rule dry_run_closed [OF assms])

lemma dry_run_refines_witness:
  "\<forall>(X :: nat kv_codec) now files. run_dry_run_campaign X now rounding_args files =
    dry_publish X now rounding_args files (dry_campaign ''kv-scaling-dry-run'' 12288 16 4 2097152 (dry_grid_cells rounding_args))"
proof (intro allI)
  fix X :: "nat kv_codec" and now files
  show "run_dry_run_campaign X now rounding_args files =
    dry_publish X now rounding_args files (dry_campaign ''kv-scaling-dry-run'' 12288 16 4 2097152 (dry_grid_cells rounding_args))"
    using dry_run_refines [of rounding_args X now files] by (simp add: rounding_args_def default_dry_args_def)
qed

text \<open>
  The default dry run passes its own gate, for every file format and clock: nine cells are measured on the fake
  engine, the regression recovers the injected 12288 bytes per token within a thousandth (and never
  below it) with an \<open>R^2\<close> of at least 0.999, the knee is the smallest cell, and the campaign is written.
\<close>

theorem default_dry_run_passes:
  "\<exists>g files'. run_dry_run_campaign X now default_dry_args files =
      (Inr (campaign_dir (da_out_dir default_dry_args) (da_campaign_id default_dry_args)), files') \<and>
    od_get files' (campaign_dir (da_out_dir default_dry_args) (da_campaign_id default_dry_args) @ ''/cells.json'') =
      Some (kx_campaign X SCHEMA_VERSION g) \<and>
    length (kg_cells g) = 9 \<and> 12288 \<le> rf_slope_bpt (kg_regression g) \<and> rf_slope_bpt (kg_regression g) \<le> 12288 * (1 + 1 / 1000) \<and>
    999 / 1000 \<le> rf_r2 (kg_regression g) \<and> kp_total_tokens (kg_knee g) = 541"
proof -
  obtain g where g: "dry_campaign (da_campaign_id default_dry_args) 12288 16 512 2097152 (dry_grid_cells default_dry_args) = Inr g"
     "kg_cells g = dry_grid_cells default_dry_args" "rf_slope_bpt (kg_regression g) = 12288 * 13955651136 / 13951553994"
     "999 / 1000 \<le> rf_r2 (kg_regression g)" "kp_total_tokens (kg_knee g) = 541"
    using default_campaign by blast
  have "length (kg_cells g) = 9" by (simp add: g(2) default_grid)
  moreover have "run_dry_run_campaign X now default_dry_args files = dry_publish X now default_dry_args files (Inr g)"
    using dry_run_closed [of default_dry_args X now files] g(1) by (simp add: default_dry_args_def)
  ultimately show ?thesis
    using g(3-5) by (intro exI [of _ g]) (simp add: dry_publish_def write_campaign_total write_summary_json_def Let_def default_dry_args_def campaign_dir_def)
qed

text \<open>
  C23: A sweep resumes where it stopped. When a sweep over a grid returned its cells, every one of them can be read back from
  its file, so sweeping the same grid again, with any engine, tokenizer and engine state, returns the
  same cells without a step of the engine and without touching a file; and a file that was valid
  before the sweep is never replaced.
\<close>

theorem sweep_replays:
  assumes "kv_codec_ok X" "sweep_grid X T E ctx out n grid (files, d) = Some (Inr cs, files', d')" "sc_model_id ctx2 = sc_model_id ctx"
  shows "sweep_grid X T2 E2 ctx2 out n grid (files', d2) = Some (Inr cs, files', d2) \<and>
    (\<forall>s b c. read_cell_json X files (cell_path out s b) s b n (sc_model_id ctx) = Some c \<longrightarrow>
       read_cell_json X files' (cell_path out s b) s b n (sc_model_id ctx) = Some c)"
proof -
  note stores = sweep_grid_stores [OF assms(1,2)]
  then have "map (stored_cell X out n (sc_model_id ctx2) files') grid = map Some cs" unfolding assms(3) by blast
  then have "sweep_grid X T2 E2 ctx2 out n grid (files', d2) = Some (Inr cs, files', d2)" by (rule sweep_grid_replay)
  moreover have "read_cell_json X files' (cell_path out s b) s b n (sc_model_id ctx) = Some c"
    if "read_cell_json X files (cell_path out s b) s b n (sc_model_id ctx) = Some c" for s b c
    using conjunct2 [OF stores, rule_format, of "(s, b)" c] that by simp
  ultimately show ?thesis by blast
qed

text \<open>A codec that keeps the cells themselves, and a tokenizer whose tokens are characters.\<close>

definition cell_codec :: "kv_cell option kv_codec" where
  "cell_codec = \<lparr>kx_dump_cell = Some, kx_load_cell = (\<lambda>t. t), kx_csv = (\<lambda>fs rows. None), kx_campaign = (\<lambda>v g. None),
     kx_summary = (\<lambda>s. None), kx_preflight = (\<lambda>p. None)\<rparr>"

lemma cell_codec_ok: "kv_codec_ok cell_codec"
  by (simp add: kv_codec_ok_def cell_codec_def)

definition char_tokenizer :: tokenizer where
  "char_tokenizer = \<lparr>tk_encode = map of_char, tk_decode = map char_of\<rparr>"

lemma char_tokenizer_prompt: "0 < s \<Longrightarrow> \<exists>p. build_exact_length_prompts char_tokenizer s = Some (Inr p)"
proof -
  assume s: "0 < s"
  have "concat (replicate 64 ''The quick brown fox jumps over the lazy dog. '') \<noteq> []" by simp
  then have "tk_encode char_tokenizer BASE_TEXT \<noteq> []" by (simp add: char_tokenizer_def BASE_TEXT_def)
  then obtain ids where ids: "tile_ids (tk_encode char_tokenizer BASE_TEXT) (s + 64) = Some ids" "s + 64 \<le> int (length ids)"
    using tile_ids_ends by blast
  then have "\<exists>p. exact_prompt char_tokenizer s ids = Inr p" using s by (simp add: exact_prompt_def char_tokenizer_def Let_def)
  then show ?thesis using s ids(1) by (auto simp: build_exact_length_prompts_def)
qed

lemma sweep_replays_witness:
  "\<exists>cs files. sweep_grid cell_codec char_tokenizer fake_engine ex_sweep ''out'' 3 [(10, 2)] (files, ex_fake) = Some (Inr cs, files, ex_fake) \<and>
     length cs = 1"
proof -
  obtain p where p: "build_exact_length_prompts char_tokenizer 10 = Some (Inr p)" using char_tokenizer_prompt [of 10] by auto
  have two: "replicate 2 p = [p, p]" by (simp add: numeral_2_eq_2)
  have "\<exists>d. kv_run_cell fake_engine ex_sweep 10 2 (int 3) [p, p] ex_fake = (Inr (lockstep_cell ex_sweep 10 2 3), d)"
    by (rule fake_cell [OF ex_fake_new]) (simp_all add: ex_sweep_room, simp_all add: ex_sweep_def)
  then obtain d where cell: "kv_run_cell fake_engine ex_sweep 10 2 3 [p, p] ex_fake = (Inr (lockstep_cell ex_sweep 10 2 3), d)" by auto
  have "read_cell_json cell_codec [] (cell_path ''out'' 10 2) 10 2 3 (sc_model_id ex_sweep) = None" by (simp add: read_cell_json_def)
  then have "sweep_grid cell_codec char_tokenizer fake_engine ex_sweep ''out'' 3 [(10, 2)] ([], ex_fake) =
      Some (Inr [lockstep_cell ex_sweep 10 2 3], write_cell_json cell_codec (cell_path ''out'' 10 2) (lockstep_cell ex_sweep 10 2 3) [], d)"
    by (simp add: sweep_cell_def p two cell)
  from sweep_replays [OF cell_codec_ok this refl] show ?thesis by fastforce
qed

text \<open>
  Nothing is published that the theory cannot explain: when finishing a sweep changed a file, the campaign has a least-squares
  fit whose slope is within 15 percent of the theory and a knee, and it succeeded; a smoke run of
  one cell publishes nothing.
\<close>

theorem publication_gated:
  assumes "finish_campaign_artifacts X now cells cid thy F out_dir campaign_out files = (res, files')" "files' \<noteq> files"
  shows "res = Inr () \<and> 2 \<le> length cells \<and> (\<exists>f k. fit_cells cells = Inr f \<and> find_knee cells F = Inr k \<and>
    \<bar>rf_slope_bpt f - real_of_int (ht_bytes_per_token thy)\<bar> \<le> 15 / 100 * real_of_int (ht_bytes_per_token thy))"
proof (rule finish_gated [OF assms])
  fix f and g :: kv_campaign
  assume f: "fit_cells cells = Inr f" "find_knee cells F = Inr (kg_knee g)" "res = Inr ()"
    and "validate_against_theory (rf_slope_bpt f) (ht_bytes_per_token thy) DEFAULT_TOL =
      Inr (\<bar>rf_slope_bpt f - real_of_int (ht_bytes_per_token thy)\<bar> / real_of_int (ht_bytes_per_token thy))"
  then have "0 < ht_bytes_per_token thy"
    "\<bar>rf_slope_bpt f - real_of_int (ht_bytes_per_token thy)\<bar> / real_of_int (ht_bytes_per_token thy) \<le> 15 / 100"
    by (simp_all add: validate_Inr DEFAULT_TOL_def)
  then have "\<bar>rf_slope_bpt f - real_of_int (ht_bytes_per_token thy)\<bar> \<le> 15 / 100 * real_of_int (ht_bytes_per_token thy)"
    by (simp add: divide_le_eq)
  moreover have "2 \<le> length cells" using fit_Inr(2) [OF f(1) [unfolded fit_cells_def]] by simp
  ultimately show ?thesis using f by blast
qed

definition ex_theory :: hf_theory where
  "ex_theory = \<lparr>ht_n_layers = 1, ht_n_kv_heads = 1, ht_head_dim = 25, ht_bytes_per_element = 2, ht_bytes_per_token = 100, ht_revision = ''r''\<rparr>"

lemma ex_published:
  "\<exists>g. published_campaign ''c'' ex_theory 300 [ex_kv_cell 2 200, ex_kv_cell 4 400, ex_kv_cell 8 800] = Inr g"
proof -
  let ?cells = "[ex_kv_cell 2 200, ex_kv_cell 4 400, ex_kv_cell 8 800]"
  have tokens: "kc_total_tokens (ex_kv_cell t b) = t" "kc_batch_size (ex_kv_cell t b) = 1" for t b by (simp_all add: ex_kv_cell_def)
  obtain f where f: "fit_cells ?cells = Inr f" "rf_slope_bpt f = 100"
    using fit_linear [of "[200, 400, 800]" 100 0 "[2, 4, 8]" 2 4] by (auto simp: fit_cells_def tokens ex_kv_cell_p50)
  have "\<forall>c\<in>set (sort_key kc_total_tokens ?cells). 0 \<le> p50_bytes c \<and> 0 < kc_total_tokens c \<and> 0 < kc_batch_size c"
    by (simp add: tokens ex_kv_cell_p50)
  from knee_scan_sorted [of 300, OF _ this] have "\<exists>k. find_knee ?cells 300 = Inr k"
    by (auto simp: find_knee_def Let_def sort_eq_Nil_key tokens ex_kv_cell_p50)
  then show ?thesis using f
    by (auto simp: published_campaign_def validate_against_theory_def DEFAULT_TOL_def ex_theory_def KvScalingCampaign_def)
qed

lemma publication_gated_witness:
  "\<exists>f. fit_cells [ex_kv_cell 2 200, ex_kv_cell 4 400, ex_kv_cell 8 800] = Inr f \<and> \<bar>rf_slope_bpt f - 100\<bar> \<le> 15"
proof -
  let ?cells = "[ex_kv_cell 2 200, ex_kv_cell 4 400, ex_kv_cell 8 800]"
  obtain g where g: "published_campaign ''c'' ex_theory 300 ?cells = Inr g" using ex_published by blast
  obtain res files where "finish_campaign_artifacts cell_codec [] ?cells ''c'' ex_theory 300 ''o'' ''o/c'' [] = (res, files)" "files \<noteq> []"
    by (simp add: finish_campaign_artifacts_def g write_campaign_total Let_def write_summary_json_def od_set.simps)
  from publication_gated [OF this] show ?thesis by (auto simp: ex_theory_def)
qed

text \<open>
  The spend gate of the sweep: when a multi-cell sweep on a real engine starts, which any outcome other than a refusal
  needs, it was approved on the command line or in the environment and a GPU is visible; without
  approval only the preflight record is written.
\<close>

theorem kv_spend_gated:
  assumes "run_vllm_sweep X now load smi env a files = Some (res, files')" "\<not> sa_dry_run a" "1 < length (sa_seq_lens a) * length (sa_batch_sizes a)"
  shows "(sa_approve_cost a \<or> od_get env ''APPROVE_GPU_SPEND'' = Some ''yes'') \<and> cuda_available smi \<or>
    res = Inl RuntimeError \<and> (\<exists>p. files' = write_preflight_json X (campaign_dir (sa_out_dir a) (sa_campaign_id a)) p files)"
proof -
  have "1 < int (length (sa_seq_lens a)) * int (length (sa_batch_sizes a))" using assms(3) by (metis of_nat_1 of_nat_less_iff of_nat_mult)
  then show ?thesis using assms(1,2) by (auto simp: run_vllm_sweep_def Let_def build_kv_preflight_def split: if_splits)
qed

definition ex_sweep_args :: sweep_args where
  "ex_sweep_args = \<lparr>sa_model_id = ''m'', sa_revision = ''r'', sa_seq_lens = [1, 2], sa_batch_sizes = [1], sa_n_samples = 1, sa_campaign_id = ''c'',
     sa_out_dir = ''o'', sa_gpu_memory_utilization = 9 / 10, sa_max_model_len = 32768, sa_block_size = 16, sa_enforce_eager = True,
     sa_decode_tokens = 4, sa_seed = 0, sa_approve_cost = False, sa_dry_run = False, sa_usd_per_hour = None, sa_secs_per_cell = 120\<rparr>"

lemma kv_spend_gated_witness:
  "\<exists>files'. run_vllm_sweep cell_codec [] (\<lambda>k. Inl RuntimeError :: unit llm result) None [] ex_sweep_args [] = Some (Inl RuntimeError, files')"
proof -
  obtain res files' where run: "run_vllm_sweep cell_codec [] (\<lambda>k. Inl RuntimeError :: unit llm result) None [] ex_sweep_args [] = Some (res, files')"
    by (auto simp: run_vllm_sweep_def ex_sweep_args_def Let_def build_kv_preflight_def)
  from kv_spend_gated [OF this] run show ?thesis by (auto simp: ex_sweep_args_def cuda_available_def)
qed

end
