(* ===== verification/DisaggProxy.thy ===== *)
theory DisaggProxy
  imports PyText PyJson
begin

text \<open>
  \<open>scripts/disagg_proxy.py\<close>: the front door of a prefill and a decode pool. A completion request is sent
  twice, capped to one token to the prefill pool and then, with the handle of the computed cache, to
  the decode pool. \<open>httpx\<close> is a record of functions on a world \<open>'w\<close>: one exchange gives a response or the text of the
  \<open>HTTPError\<close> it raised; a stream gives its chunks and, if it broke, that text. A body that parses as JSON but is not an
  object is outside the model (the code annotates \<open>dict[str, Any]\<close>); logging is left out, except that
  the comparison with the sentinel returns what it found.
\<close>

section \<open>Upstreams, requests and responses\<close>

record http_call =
  hc_method :: string
  hc_url :: string
  hc_json :: "json option"
  hc_content :: string
  hc_headers :: "(string, string) odict"
  hc_timeout :: real

record upstream_response =
  ur_status_code :: int
  ur_content :: string
  ur_content_type :: "string option"

record upstream_stream =
  us_status_code :: int
  us_chunks :: "string list"
  us_broken :: "string option"

record 'w http_client =
  hx_send :: "http_call \<Rightarrow> 'w \<Rightarrow> (string + upstream_response) \<times> 'w"
  hx_stream :: "http_call \<Rightarrow> 'w \<Rightarrow> (string + upstream_stream) \<times> 'w"

text \<open>
  The request the handler sees: two headers, the body, and the object it parses to, or the
  \<open>ValueError\<close> of \<open>request.json()\<close>. \<open>uuid4().hex\<close> is drawn by the environment.
\<close>

record proxy_request =
  pq_request_id :: "string option"
  pq_authorization :: "string option"
  pq_body :: string
  pq_json :: "(string, json) odict result"
  pq_uuid_hex :: string

datatype proxy_body =
    Content string
  | JsonBody json
  | Relayed "string list" "string option"

record proxy_response =
  px_status_code :: int
  px_media_type :: "string option"
  px_headers :: "(string, string) odict"
  px_body :: proxy_body

datatype proxy_error = HTTPError string | Raised py_error

section \<open>Configuration\<close>

definition REQUEST_ID_HEADER :: string where
  "REQUEST_ID_HEADER = ''X-Request-Id''"

definition DEFAULT_PREFILL_TIMEOUT_S :: real where "DEFAULT_PREFILL_TIMEOUT_S = 120"
definition DEFAULT_DECODE_TIMEOUT_S :: real where "DEFAULT_DECODE_TIMEOUT_S = 300"
definition HEALTH_TIMEOUT_S :: real where "HEALTH_TIMEOUT_S = 5"
definition METRICS_TIMEOUT_S :: real where "METRICS_TIMEOUT_S = 10"

record proxy_args =
  pg_host :: string
  pg_port :: int
  pg_prefiller_host :: string
  pg_prefiller_port :: int
  pg_decoder_host :: string
  pg_decoder_port :: int
  pg_served_model_name :: string
  pg_assert_first_token_matches :: string

text \<open>The arguments of an empty command line.\<close>

definition default_proxy_args :: proxy_args where
  "default_proxy_args =
     \<lparr>pg_host = ''0.0.0.0'', pg_port = 9100, pg_prefiller_host = ''vllm-disagg-prefill'', pg_prefiller_port = 8100,
      pg_decoder_host = ''vllm-disagg-decode'', pg_decoder_port = 8200, pg_served_model_name = ''goodputlab-model'',
      pg_assert_first_token_matches = ''''\<rparr>"

definition prefill_url :: "proxy_args \<Rightarrow> string" where
  "prefill_url g = ''http://'' @ pg_prefiller_host g @ '':'' @ int_str (pg_prefiller_port g)"

definition decode_url :: "proxy_args \<Rightarrow> string" where
  "decode_url g = ''http://'' @ pg_decoder_host g @ '':'' @ int_str (pg_decoder_port g)"

text \<open>What the lifespan puts into \<open>app.state\<close>.\<close>

record proxy_app =
  pa_prefill_url :: string
  pa_decode_url :: string
  pa_served_model_name :: string
  pa_assert_first_token :: string

definition build_app :: "proxy_args \<Rightarrow> proxy_app" where
  "build_app g =
     \<lparr>pa_prefill_url = prefill_url g, pa_decode_url = decode_url g, pa_served_model_name = pg_served_model_name g,
      pa_assert_first_token = pg_assert_first_token_matches g\<rparr>"

section \<open>Helpers\<close>

definition request_id :: "proxy_request \<Rightarrow> string" where
  "request_id q =
     (case pq_request_id q of
        Some i \<Rightarrow> if i \<noteq> [] then i else ''gl-'' @ pq_uuid_hex q
      | None \<Rightarrow> ''gl-'' @ pq_uuid_hex q)"

text \<open>A call with a JSON body and the headers every stage sends.\<close>

definition json_call :: "string \<Rightarrow> (string, json) odict \<Rightarrow> string \<Rightarrow> real \<Rightarrow> http_call" where
  "json_call url body rid t =
     \<lparr>hc_method = ''POST'', hc_url = url, hc_json = Some (JObj body), hc_content = [],
      hc_headers = [(REQUEST_ID_HEADER, rid)], hc_timeout = t\<rparr>"

definition get_call :: "string \<Rightarrow> real \<Rightarrow> http_call" where
  "get_call url t =
     \<lparr>hc_method = ''GET'', hc_url = url, hc_json = None, hc_content = [], hc_headers = [], hc_timeout = t\<rparr>"

text \<open>A response relayed with its status, body and media type.\<close>

definition relayed :: "upstream_response \<Rightarrow> string \<Rightarrow> proxy_response" where
  "relayed r rid =
     \<lparr>px_status_code = ur_status_code r, px_media_type = ur_content_type r,
      px_headers = [(REQUEST_ID_HEADER, rid)], px_body = Content (ur_content r)\<rparr>"

definition forward :: "'w http_client \<Rightarrow> proxy_request \<Rightarrow> string \<Rightarrow> string \<Rightarrow> string \<Rightarrow> real \<Rightarrow> 'w \<Rightarrow>
    (proxy_error + proxy_response) \<times> 'w" where
  "forward X q upstream_url path rid t w =
     (let fwd = (case pq_authorization q of
                   Some a \<Rightarrow> if a \<noteq> [] then od_set ''authorization'' a [(REQUEST_ID_HEADER, rid)]
                             else [(REQUEST_ID_HEADER, rid)]
                 | None \<Rightarrow> [(REQUEST_ID_HEADER, rid)]);
          c = \<lparr>hc_method = ''POST'', hc_url = upstream_url @ path, hc_json = None, hc_content = pq_body q,
               hc_headers = fwd, hc_timeout = t\<rparr>
      in case hx_send X c w of
           (Inl e, w') \<Rightarrow> (Inl (HTTPError e), w')
         | (Inr r, w') \<Rightarrow> (Inr (relayed r rid), w'))"

definition prefill_kv_params :: json where
  "prefill_kv_params =
     JObj [(''do_remote_decode'', JBool True), (''do_remote_prefill'', JBool False), (''remote_engine_id'', JNull),
           (''remote_block_ids'', JNull), (''remote_host'', JNull), (''remote_port'', JNull)]"

definition prefill_body :: "(string, json) odict \<Rightarrow> (string, json) odict" where
  "prefill_body body =
     (let b1 = od_set ''max_tokens'' (JNum 1) body;
          b2 = (if od_get b1 ''max_completion_tokens'' \<noteq> None then od_set ''max_completion_tokens'' (JNum 1) b1 else b1);
          b3 = od_set ''stream'' (JBool False) b2;
          b4 = od_del ''stream_options'' b3
      in od_set ''kv_transfer_params'' prefill_kv_params b4)"

text \<open>
  \<open>prefill_resp.json().get("kv_transfer_params")\<close>, with the \<open>ValueError\<close> of a body that is no JSON caught.
\<close>

definition kv_handle :: "json_parser \<Rightarrow> string \<Rightarrow> json result" where
  "kv_handle J content = (case J content of None \<Rightarrow> Inr JNull | Some v \<Rightarrow> jget v ''kv_transfer_params'')"

definition decode_body :: "json_parser \<Rightarrow> (string, json) odict \<Rightarrow> string \<Rightarrow> (string, json) odict result" where
  "decode_body J body prefill_content =
     rbind (kv_handle J prefill_content) (\<lambda>kv.
       Inr (if truthy kv then od_set ''kv_transfer_params'' kv body else body))"

section \<open>The first-token sentinel\<close>

datatype sentinel_check =
    SentinelOff
  | SentinelNoChoices
  | SentinelMatch
  | SentinelMismatch
  | SentinelNoToken
  | SentinelUnparsed

definition first_token :: "json \<Rightarrow> string \<Rightarrow> json result" where
  "first_token choice path =
     (if py_contains ''/chat/completions'' path
      then rbind (jget_or choice ''message'' (JObj [])) (\<lambda>m.
           rbind (jget_or m ''content'' (JStr [])) (\<lambda>c. Inr (jor c (JStr []))))
      else rbind (jget_or choice ''text'' (JStr [])) (\<lambda>t. Inr (jor t (JStr []))))"

text \<open>\<open>startswith\<close> exists only on strings.\<close>

definition compare_token :: "string \<Rightarrow> json \<Rightarrow> sentinel_check result" where
  "compare_token expected tok =
     (if \<not> truthy tok then Inr SentinelNoToken
      else case tok of
             JStr s \<Rightarrow> Inr (if py_startswith s expected then SentinelMatch else SentinelMismatch)
           | _ \<Rightarrow> Inl AttributeError)"

definition parse_sentinel :: "json_parser \<Rightarrow> string \<Rightarrow> string \<Rightarrow> string \<Rightarrow> sentinel_check result" where
  "parse_sentinel J expected content path =
     (case J content of
        None \<Rightarrow> Inl ValueError
      | Some payload \<Rightarrow>
          rbind (jget payload ''choices'') (\<lambda>cs.
            if \<not> truthy (jor cs (JList [])) then Inr SentinelNoChoices
            else rbind (jfirst cs) (\<lambda>choice. rbind (first_token choice path) (compare_token expected))))"

definition maybe_assert_first_token :: "json_parser \<Rightarrow> string \<Rightarrow> string \<Rightarrow> string \<Rightarrow> sentinel_check result" where
  "maybe_assert_first_token J expected content path =
     (if expected = [] then Inr SentinelOff
      else case parse_sentinel J expected content path of
             Inl e \<Rightarrow> if e \<in> {ValueError, KeyError, IndexError} then Inr SentinelUnparsed else Inl e
           | Inr s \<Rightarrow> Inr s)"

section \<open>The two stages\<close>

definition run_decode :: "json_parser \<Rightarrow> 'w http_client \<Rightarrow> proxy_app \<Rightarrow> string \<Rightarrow> (string, json) odict \<Rightarrow>
    upstream_response \<Rightarrow> string \<Rightarrow> 'w \<Rightarrow> (proxy_error + proxy_response) \<times> 'w" where
  "run_decode J X a path body prefill_resp rid w =
     (case decode_body J body (ur_content prefill_resp) of
        Inl e \<Rightarrow> (Inl (Raised e), w)
      | Inr db \<Rightarrow>
          let call = json_call (pa_decode_url a @ path) db rid DEFAULT_DECODE_TIMEOUT_S
          in if truthy (case od_get body ''stream'' of None \<Rightarrow> JNull | Some v \<Rightarrow> v)
             then case hx_stream X call w of
                    (r, w') \<Rightarrow>
                      (Inr \<lparr>px_status_code = 200, px_media_type = Some ''text/event-stream'',
                            px_headers = [(REQUEST_ID_HEADER, rid)],
                            px_body = (case r of Inl e \<Rightarrow> Relayed [] (Some e) | Inr s \<Rightarrow> Relayed (us_chunks s) (us_broken s))\<rparr>, w')
             else case hx_send X call w of
                    (Inl e, w') \<Rightarrow> (Inl (HTTPError e), w')
                  | (Inr r, w') \<Rightarrow>
                      (case maybe_assert_first_token J (pa_assert_first_token a) (ur_content r) path of
                         Inl e \<Rightarrow> (Inl (Raised e), w')
                       | Inr _ \<Rightarrow> (Inr (relayed r rid), w')))"

definition chat_completions :: "json_parser \<Rightarrow> 'w http_client \<Rightarrow> proxy_app \<Rightarrow> proxy_request \<Rightarrow> 'w \<Rightarrow>
    (proxy_error + proxy_response) \<times> 'w" where
  "chat_completions J X a q w =
     (let rid = request_id q
      in case pq_json q of
           Inl e \<Rightarrow> (Inl (Raised e), w)
         | Inr body \<Rightarrow>
             (case hx_send X (json_call (pa_prefill_url a @ ''/v1/chat/completions'') (prefill_body body) rid
                                DEFAULT_PREFILL_TIMEOUT_S) w of
                (Inl e, w') \<Rightarrow> (Inl (HTTPError e), w')
              | (Inr r, w') \<Rightarrow>
                  if ur_status_code r \<ge> 400 then (Inr (relayed r rid), w')
                  else run_decode J X a ''/v1/chat/completions'' body r rid w'))"

definition completions :: "json_parser \<Rightarrow> 'w http_client \<Rightarrow> proxy_app \<Rightarrow> proxy_request \<Rightarrow> 'w \<Rightarrow>
    (proxy_error + proxy_response) \<times> 'w" where
  "completions J X a q w =
     (let rid = request_id q
      in case pq_json q of
           Inl e \<Rightarrow> (Inl (Raised e), w)
         | Inr body \<Rightarrow>
             (case hx_send X (json_call (pa_prefill_url a @ ''/v1/completions'') (prefill_body body) rid
                                DEFAULT_PREFILL_TIMEOUT_S) w of
                (Inl e, w') \<Rightarrow> (Inl (HTTPError e), w')
              | (Inr r, w') \<Rightarrow>
                  if ur_status_code r \<ge> 400 then (Inr (relayed r rid), w')
                  else run_decode J X a ''/v1/completions'' body r rid w'))"

section \<open>Models, health and metrics\<close>

definition json_response :: "int \<Rightarrow> json \<Rightarrow> proxy_response" where
  "json_response status v =
     \<lparr>px_status_code = status, px_media_type = Some ''application/json'', px_headers = [], px_body = JsonBody v\<rparr>"

definition proxy_models :: "json_parser \<Rightarrow> 'w http_client \<Rightarrow> proxy_app \<Rightarrow> 'w \<Rightarrow> (proxy_error + proxy_response) \<times> 'w" where
  "proxy_models J X a w =
     (case hx_send X (get_call (pa_decode_url a @ ''/v1/models'') HEALTH_TIMEOUT_S) w of
        (Inl e, w') \<Rightarrow>
          (Inr (json_response 502 (JObj [(''error'', JStr ''upstream_unavailable''), (''pool'', JStr ''decode''),
                                         (''detail'', JStr e)])), w')
      | (Inr r, w') \<Rightarrow>
          if ur_status_code r \<ge> 400
          then (Inr (json_response 502 (JObj [(''error'', JStr ''upstream_error''), (''pool'', JStr ''decode''),
                                              (''status'', JNum (real_of_int (ur_status_code r)))])), w')
          else (case J (ur_content r) of
                  None \<Rightarrow> Inl (Raised ValueError)
                | Some v \<Rightarrow> Inr (json_response 200 v), w'))"

definition check_health :: "'w http_client \<Rightarrow> string \<Rightarrow> 'w \<Rightarrow> (string \<times> int) \<times> 'w" where
  "check_health X url w =
     (case hx_send X (get_call (url @ ''/health'') HEALTH_TIMEOUT_S) w of
        (Inl e, w') \<Rightarrow> ((url, 0), w')
      | (Inr r, w') \<Rightarrow> ((url, ur_status_code r), w'))"

definition proxy_health :: "'w http_client \<Rightarrow> proxy_app \<Rightarrow> 'w \<Rightarrow> proxy_response \<times> 'w" where
  "proxy_health X a w =
     (let (p, w1) = check_health X (pa_prefill_url a) w;
          (d, w2) = check_health X (pa_decode_url a) w1;
          statuses = fold (\<lambda>(url, code). od_set url (JNum (real_of_int code))) [p, d] [];
          all_ok = list_all (\<lambda>(_, code). code = 200) [p, d]
      in (json_response (if all_ok then 200 else 503)
            (JObj [(''status'', JStr (if all_ok then ''ok'' else ''degraded'')), (''upstreams'', JObj statuses),
                   (''served_model_name'', JStr (pa_served_model_name a))]), w2))"

definition nl :: string where "nl = [CHR 0x0A]"

definition fetch_metrics :: "'w http_client \<Rightarrow> string \<Rightarrow> string \<Rightarrow> 'w \<Rightarrow> string \<times> 'w" where
  "fetch_metrics X url label w =
     (case hx_send X (get_call (url @ ''/metrics'') METRICS_TIMEOUT_S) w of
        (Inl e, w') \<Rightarrow> (''# ['' @ label @ ''] upstream error: '' @ e @ nl, w')
      | (Inr r, w') \<Rightarrow>
          (if ur_status_code r \<noteq> 200
           then ''# ['' @ label @ ''] upstream error status='' @ int_str (ur_status_code r) @ nl
           else ''# === ['' @ label @ ''] ==='' @ nl @ ur_content r, w'))"

definition proxy_metrics :: "'w http_client \<Rightarrow> proxy_app \<Rightarrow> 'w \<Rightarrow> proxy_response \<times> 'w" where
  "proxy_metrics X a w =
     (let (p, w1) = fetch_metrics X (pa_prefill_url a) ''prefill'' w;
          (d, w2) = fetch_metrics X (pa_decode_url a) ''decode'' w1
      in (\<lparr>px_status_code = 200, px_media_type = Some ''text/plain; version=0.0.4'', px_headers = [],
           px_body = Content (p @ nl @ d)\<rparr>, w2))"

definition root_response :: proxy_response where
  "root_response =
     json_response 200 (JObj [(''service'', JStr ''goodputlab-disagg-proxy''),
       (''endpoints'', JList [JStr ''/v1/chat/completions'', JStr ''/v1/completions'', JStr ''/v1/models'',
                              JStr ''/health'', JStr ''/metrics''])])"

section \<open>The bodies of the two stages\<close>

lemma kv_key_ne [simp]:
  "''kv_transfer_params'' \<noteq> ''max_tokens''" "''kv_transfer_params'' \<noteq> ''stream''"
  by simp_all

lemma prefill_body_get:
  "od_get (prefill_body body) k =
     (if k = ''kv_transfer_params'' then Some prefill_kv_params
      else if k = ''stream_options'' then None
      else if k = ''stream'' then Some (JBool False)
      else if k = ''max_tokens'' then Some (JNum 1)
      else if k = ''max_completion_tokens'' then (case od_get body k of None \<Rightarrow> None | Some _ \<Rightarrow> Some (JNum 1))
      else od_get body k)"
  by (simp add: prefill_body_def Let_def split: option.splits)

lemma decode_body_get:
  assumes "decode_body J body content = Inr db"
  shows "\<exists>kv. kv_handle J content = Inr kv
    \<and> od_get db ''kv_transfer_params'' = (if truthy kv then Some kv else od_get body ''kv_transfer_params'')
    \<and> (\<forall>k. k \<noteq> ''kv_transfer_params'' \<longrightarrow> od_get db k = od_get body k)"
  using assms by (auto simp: decode_body_def rbind_eq_Inr)

section \<open>The order of the calls\<close>

text \<open>What both endpoints do, over the path; and a client that records the calls made through it.\<close>

definition two_stage :: "json_parser \<Rightarrow> 'w http_client \<Rightarrow> proxy_app \<Rightarrow> string \<Rightarrow> proxy_request \<Rightarrow> 'w \<Rightarrow>
    (proxy_error + proxy_response) \<times> 'w" where
  "two_stage J X a path q w =
     (case pq_json q of
        Inl e \<Rightarrow> (Inl (Raised e), w)
      | Inr body \<Rightarrow>
          (case hx_send X (json_call (pa_prefill_url a @ path) (prefill_body body) (request_id q)
                             DEFAULT_PREFILL_TIMEOUT_S) w of
             (Inl e, w') \<Rightarrow> (Inl (HTTPError e), w')
           | (Inr r, w') \<Rightarrow>
               if ur_status_code r \<ge> 400 then (Inr (relayed r (request_id q)), w')
               else run_decode J X a path body r (request_id q) w'))"

lemma endpoints_two_stage:
  "chat_completions J X a q w = two_stage J X a ''/v1/chat/completions'' q w"
  "completions J X a q w = two_stage J X a ''/v1/completions'' q w"
  unfolding chat_completions_def completions_def two_stage_def Let_def by (rule refl)+

definition logged :: "'w http_client \<Rightarrow> (http_call list \<times> 'w) http_client" where
  "logged X =
     \<lparr>hx_send = (\<lambda>c (calls, w). case hx_send X c w of (r, w') \<Rightarrow> (r, (calls @ [c], w'))),
      hx_stream = (\<lambda>c (calls, w). case hx_stream X c w of (r, w') \<Rightarrow> (r, (calls @ [c], w')))\<rparr>"

lemma logged_send: "hx_send (logged X) c (calls, w) = (fst (hx_send X c w), (calls @ [c], snd (hx_send X c w)))"
  by (simp add: logged_def split: prod.split)

lemma logged_stream: "hx_stream (logged X) c (calls, w) = (fst (hx_stream X c w), (calls @ [c], snd (hx_stream X c w)))"
  by (simp add: logged_def split: prod.split)

lemma run_decode_logged:
  "fst (snd (run_decode J (logged X) a path body u rid (calls, w))) =
     (case decode_body J body (ur_content u) of
        Inl e \<Rightarrow> calls
      | Inr db \<Rightarrow> calls @ [json_call (pa_decode_url a @ path) db rid DEFAULT_DECODE_TIMEOUT_S])"
  unfolding run_decode_def Let_def
  by (simp add: logged_send logged_stream split: sum.split cong: if_cong)

lemma two_stage_logged:
  assumes "pq_json q = Inr body"
    and "p = json_call (pa_prefill_url a @ path) (prefill_body body) (request_id q) DEFAULT_PREFILL_TIMEOUT_S"
    and "two_stage J (logged X) a path q ([], w) = (r, (calls, w'))"
  shows "(case fst (hx_send X p w) of
      Inl e \<Rightarrow> r = Inl (HTTPError e) \<and> calls = [p]
    | Inr u \<Rightarrow>
        if 400 \<le> ur_status_code u then r = Inr (relayed u (request_id q)) \<and> calls = [p]
        else case decode_body J body (ur_content u) of
               Inl e \<Rightarrow> r = Inl (Raised e) \<and> calls = [p]
             | Inr db \<Rightarrow> calls = [p, json_call (pa_decode_url a @ path) db (request_id q) DEFAULT_DECODE_TIMEOUT_S])"
proof (cases "fst (hx_send X p w)")
  case (Inl e)
  then show ?thesis using assms by (simp add: two_stage_def logged_send)
next
  case (Inr u)
  show ?thesis
  proof (cases "400 \<le> ur_status_code u")
    case True
    then show ?thesis using assms Inr by (simp add: two_stage_def logged_send)
  next
    case False
    with assms Inr have
      run: "run_decode J (logged X) a path body u (request_id q) ([p], snd (hx_send X p w)) = (r, (calls, w'))"
      by (simp add: two_stage_def logged_send)
    then have c: "calls = (case decode_body J body (ur_content u) of Inl e \<Rightarrow> [p]
        | Inr db \<Rightarrow> [p] @ [json_call (pa_decode_url a @ path) db (request_id q) DEFAULT_DECODE_TIMEOUT_S])"
      using run_decode_logged [of J X a path body u "request_id q" "[p]" "snd (hx_send X p w)"] by simp
    show ?thesis
    proof (cases "decode_body J body (ur_content u)")
      case (Inl e)
      then have "r = Inl (Raised e)" using run by (simp add: run_decode_def)
      then show ?thesis using Inr False Inl c by simp
    next
      case db: (Inr db)
      then show ?thesis using Inr False c by simp
    qed
  qed
qed

text \<open>
  C35: On both endpoints the capped request goes to the prefill pool first. Its failure is the answer,
  with its own status, and the decode pool is not called; otherwise the decode pool gets the client's
  body once, every field as the client sent it, with the cache handle of the prefill answer put in
  whenever that answer carries one.
\<close>

theorem proxy_stages_in_order:
  assumes "pq_json q = Inr body"
    and "p = json_call (pa_prefill_url a @ path) (prefill_body body) (request_id q) DEFAULT_PREFILL_TIMEOUT_S"
    and "path = ''/v1/chat/completions'' \<and> chat_completions J (logged X) a q ([], w) = (r, (calls, w'))
       \<or> path = ''/v1/completions'' \<and> completions J (logged X) a q ([], w) = (r, (calls, w'))"
  shows "(case fst (hx_send X p w) of
      Inl e \<Rightarrow> calls = [p] \<and> r = Inl (HTTPError e)
    | Inr u \<Rightarrow>
        if 400 \<le> ur_status_code u then calls = [p] \<and> r = Inr (relayed u (request_id q))
        else case kv_handle J (ur_content u) of
               Inl e \<Rightarrow> calls = [p] \<and> r = Inl (Raised e)
             | Inr kv \<Rightarrow>
                 \<exists>db. calls = [p, json_call (pa_decode_url a @ path) db (request_id q) DEFAULT_DECODE_TIMEOUT_S]
                   \<and> od_get db ''kv_transfer_params''
                       = (if truthy kv then Some kv else od_get body ''kv_transfer_params'')
                   \<and> (\<forall>k. k \<noteq> ''kv_transfer_params'' \<longrightarrow> od_get db k = od_get body k))"
proof -
  have "two_stage J (logged X) a path q ([], w) = (r, (calls, w'))"
    using assms(3) by (auto simp: endpoints_two_stage)
  note stages = two_stage_logged [OF assms(1,2) this]
  show ?thesis
  proof (cases "fst (hx_send X p w)")
    case (Inl e)
    then show ?thesis using stages by simp
  next
    case (Inr u)
    show ?thesis
    proof (cases "400 \<le> ur_status_code u")
      case True
      then show ?thesis using stages Inr by simp
    next
      case False
      then show ?thesis using stages Inr
        by (cases "kv_handle J (ur_content u)") (auto simp: decode_body_def)
    qed
  qed
qed

definition ex_parser :: json_parser where
  "ex_parser s =
     (if s = ''prefilled'' then Some (JObj [(''kv_transfer_params'', JObj [(''remote_engine_id'', JStr ''e1'')])])
      else if s = ''hello'' then Some (JObj [(''choices'', JList [JObj [(''message'', JObj [(''content'', JStr ''Hello'')])]])])
      else if s = ''empty'' then Some (JObj [(''choices'', JList [JObj [(''message'', JNull)]])])
      else None)"

text \<open>A prefill pool that answers with a handle, and a decode pool that answers with \<open>out\<close>.\<close>

definition ex_client :: "string \<Rightarrow> unit http_client" where
  "ex_client out =
     \<lparr>hx_send = (\<lambda>c w. (Inr \<lparr>ur_status_code = 200,
        ur_content = (if hc_timeout c = DEFAULT_PREFILL_TIMEOUT_S then ''prefilled'' else out),
        ur_content_type = None\<rparr>, w)),
      hx_stream = (\<lambda>c w. (Inr \<lparr>us_status_code = 503, us_chunks = [''overloaded''], us_broken = None\<rparr>, w))\<rparr>"

definition ex_request :: "bool \<Rightarrow> proxy_request" where
  "ex_request streaming =
     \<lparr>pq_request_id = Some ''r1'', pq_authorization = None, pq_body = ''b'',
      pq_json = Inr [(''max_tokens'', JNum 32), (''stream'', JBool streaming)], pq_uuid_hex = ''00''\<rparr>"

lemmas ex_proxy = ex_parser_def ex_client_def ex_request_def request_id_def json_call_def relayed_def
  prefill_body_def prefill_kv_params_def decode_body_def kv_handle_def jget_or_def first_token_def compare_token_def
  parse_sentinel_def maybe_assert_first_token_def run_decode_def chat_completions_def completions_def jor_def
  DEFAULT_PREFILL_TIMEOUT_S_def DEFAULT_DECODE_TIMEOUT_S_def py_startswith_def

theorem proxy_stages_in_order_witness:
  "\<exists>db. fst (snd (chat_completions ex_parser (logged (ex_client ''hello'')) (build_app default_proxy_args) (ex_request False) ([], ())))
     = [json_call (prefill_url default_proxy_args @ ''/v1/chat/completions'') (prefill_body [(''max_tokens'', JNum 32), (''stream'', JBool False)])
          ''r1'' DEFAULT_PREFILL_TIMEOUT_S,
        json_call (decode_url default_proxy_args @ ''/v1/chat/completions'') db ''r1'' DEFAULT_DECODE_TIMEOUT_S]
     \<and> od_get db ''kv_transfer_params'' = Some (JObj [(''remote_engine_id'', JStr ''e1'')])
     \<and> od_get db ''max_tokens'' = Some (JNum 32)"
proof -
  let ?q = "ex_request False" and ?a = "build_app default_proxy_args" and ?X = "ex_client ''hello''"
  let ?body = "[(''max_tokens'', JNum 32), (''stream'', JBool False)]" and ?path = "''/v1/chat/completions''"
  let ?p = "json_call (pa_prefill_url ?a @ ?path) (prefill_body ?body) (request_id ?q) DEFAULT_PREFILL_TIMEOUT_S"
  obtain r calls w' where run: "chat_completions ex_parser (logged ?X) ?a ?q ([], ()) = (r, (calls, w'))"
    by (metis prod.exhaust)
  have j: "pq_json ?q = Inr ?body" by (simp add: ex_request_def)
  have s: "fst (hx_send ?X ?p ()) = Inr \<lparr>ur_status_code = 200, ur_content = ''prefilled'', ur_content_type = None\<rparr>"
    unfolding ex_client_def json_call_def by simp
  have k: "kv_handle ex_parser ''prefilled'' = Inr (JObj [(''remote_engine_id'', JStr ''e1'')])"
    by (simp add: kv_handle_def ex_parser_def)
  have i: "request_id ?q = ''r1''" by (simp add: request_id_def ex_request_def)
  have "\<exists>db. calls = [?p, json_call (pa_decode_url ?a @ ?path) db (request_id ?q) DEFAULT_DECODE_TIMEOUT_S]
      \<and> od_get db ''kv_transfer_params'' = Some (JObj [(''remote_engine_id'', JStr ''e1'')])
      \<and> (\<forall>k. k \<noteq> ''kv_transfer_params'' \<longrightarrow> od_get db k = od_get ?body k)"
    using proxy_stages_in_order [OF j refl, where a = ?a and path = ?path and J = ex_parser and X = ?X and w = "()"] run s k by simp
  then show ?thesis using run i by (auto simp: build_app_def)
qed

section \<open>Health and models are honest\<close>

lemma check_health_ok:
  "snd (fst (check_health X url w)) = 200 \<longleftrightarrow>
     (\<exists>u. fst (hx_send X (get_call (url @ ''/health'') HEALTH_TIMEOUT_S) w) = Inr u \<and> ur_status_code u = 200)"
  by (auto simp: check_health_def split: prod.split sum.split)

lemma check_health_world:
  "snd (check_health X url w) = snd (hx_send X (get_call (url @ ''/health'') HEALTH_TIMEOUT_S) w)"
  by (auto simp: check_health_def split: prod.split sum.split)

text \<open>
  The proxy reports itself healthy exactly when both pools answered 200 and with 503 otherwise, and
  it answers a model list with 200 exactly when the decode pool gave a list without an error status.
\<close>

theorem proxy_probes_honest:
  "px_status_code (fst (proxy_health X a w)) =
     (if \<exists>u v. fst (hx_send X (get_call (pa_prefill_url a @ ''/health'') HEALTH_TIMEOUT_S) w) = Inr u
          \<and> fst (hx_send X (get_call (pa_decode_url a @ ''/health'') HEALTH_TIMEOUT_S)
                   (snd (hx_send X (get_call (pa_prefill_url a @ ''/health'') HEALTH_TIMEOUT_S) w))) = Inr v
          \<and> ur_status_code u = 200 \<and> ur_status_code v = 200
      then 200 else 503)
   \<and> (fst (proxy_models J X a w) = Inr resp \<and> px_status_code resp = 200 \<longleftrightarrow>
       (\<exists>u v. fst (hx_send X (get_call (pa_decode_url a @ ''/v1/models'') HEALTH_TIMEOUT_S) w) = Inr u
          \<and> ur_status_code u < 400 \<and> J (ur_content u) = Some v \<and> resp = json_response 200 v))"
proof
  let ?p = "check_health X (pa_prefill_url a) w"
  let ?d = "check_health X (pa_decode_url a) (snd ?p)"
  have "px_status_code (fst (proxy_health X a w)) = (if snd (fst ?p) = 200 \<and> snd (fst ?d) = 200 then 200 else 503)"
    by (auto simp: proxy_health_def json_response_def split: prod.split)
  then show "px_status_code (fst (proxy_health X a w)) =
     (if \<exists>u v. fst (hx_send X (get_call (pa_prefill_url a @ ''/health'') HEALTH_TIMEOUT_S) w) = Inr u
          \<and> fst (hx_send X (get_call (pa_decode_url a @ ''/health'') HEALTH_TIMEOUT_S)
                   (snd (hx_send X (get_call (pa_prefill_url a @ ''/health'') HEALTH_TIMEOUT_S) w))) = Inr v
          \<and> ur_status_code u = 200 \<and> ur_status_code v = 200
      then 200 else 503)"
    unfolding check_health_ok check_health_world by (rule trans) (rule if_cong, blast+)
next
  show "fst (proxy_models J X a w) = Inr resp \<and> px_status_code resp = 200 \<longleftrightarrow>
       (\<exists>u v. fst (hx_send X (get_call (pa_decode_url a @ ''/v1/models'') HEALTH_TIMEOUT_S) w) = Inr u
          \<and> ur_status_code u < 400 \<and> J (ur_content u) = Some v \<and> resp = json_response 200 v)"
    by (auto simp: proxy_models_def json_response_def split: prod.split sum.split option.split)
qed

section \<open>The sentinel only watches\<close>

text \<open>
  Switching the sentinel off never changes an answer that was given: it can only turn an exception into
  the decode pool's answer. The exceptions it does let through are those of Python's dynamic types.
\<close>

lemma maybe_assert_off [simp]: "maybe_assert_first_token J [] content path = Inr SentinelOff"
  by (simp add: maybe_assert_first_token_def)

lemma run_decode_sentinel:
  "fst (run_decode J X a path body u rid w) = Inr r \<Longrightarrow>
   run_decode J X (a\<lparr>pa_assert_first_token := []\<rparr>) path body u rid w = run_decode J X a path body u rid w"
  by (auto simp: run_decode_def Let_def split: sum.splits prod.splits if_splits)

lemma sentinel_transparent:
  "fst (two_stage J X a path q w) = Inr r \<Longrightarrow>
   two_stage J X (a\<lparr>pa_assert_first_token := []\<rparr>) path q w = two_stage J X a path q w"
  by (auto simp: two_stage_def run_decode_sentinel split: sum.splits prod.splits if_splits)

lemma sentinel_well_formed:
  "J content = Some (JObj kvs) \<Longrightarrow> od_get kvs ''choices'' = Some (JList (JObj c # cs)) \<Longrightarrow>
   od_get c ''message'' = Some (JObj m) \<Longrightarrow> od_get m ''content'' \<in> {None, Some JNull} \<union> range (Some \<circ> JStr) \<Longrightarrow>
   \<exists>s. maybe_assert_first_token J expected content ''/v1/chat/completions'' = Inr s"
  by (auto simp: maybe_assert_first_token_def parse_sentinel_def first_token_def compare_token_def jget_or_def jor_def)

text \<open>A choice whose message is null, which the docstring promises to skip, raises.\<close>

lemma sentinel_null_message:
  "fst (chat_completions ex_parser (ex_client ''empty'') (build_app (default_proxy_args\<lparr>pg_assert_first_token_matches := ''H''\<rparr>))
          (ex_request False) ()) = Inl (Raised AttributeError)"
  unfolding ex_proxy build_app_def default_proxy_args_def by simp

text \<open>A streaming client sees 200, whatever status the decode pool answered with.\<close>

lemma stream_status_lost:
  "fst (chat_completions ex_parser (ex_client ''hello'') (build_app default_proxy_args) (ex_request True) ()) =
     Inr \<lparr>px_status_code = 200, px_media_type = Some ''text/event-stream'', px_headers = [(REQUEST_ID_HEADER, ''r1'')],
          px_body = Relayed [''overloaded''] None\<rparr>"
  unfolding ex_proxy build_app_def default_proxy_args_def by simp

end
