(* ===== verification/SpecDecoding.thy ===== *)
theory SpecDecoding
  imports PyText PyRandom
begin

text \<open>
  \<open>spec/eagle.py\<close>: the draft-and-verify simulator with its automatic switch. A decoder keeps a reference
  to the policy object it was built with and switches \<open>enabled\<close> on that object, so the policy is a
  part of the state of its own: two decoders over one policy share it. The lemmas describe
  a run by the rounds it made: the window is the last bins, the totals are sums, and the decoder
  switches itself off exactly at the first full window whose mean is below the threshold.
\<close>

section \<open>Data\<close>

datatype proposer = Eagle3 | Eagle2 | Medusa

record draft_proposal =
  dp_draft_tokens :: "string list"
  dp_proposer :: proposer

record verify_outcome =
  vo_accepted_tokens :: "string list"
  vo_proposed :: int
  vo_accepted :: int

definition VerifyOutcome :: "string list \<Rightarrow> int \<Rightarrow> int \<Rightarrow> verify_outcome result" where
  "VerifyOutcome tokens proposed accepted =
     (if 0 \<le> proposed \<and> 0 \<le> accepted
      then Inr \<lparr>vo_accepted_tokens = tokens, vo_proposed = proposed, vo_accepted = accepted\<rparr> else Inl ValueError)"

definition acceptance_rate :: "verify_outcome \<Rightarrow> real" where
  "acceptance_rate v = (if vo_proposed v = 0 then 0 else real_of_int (vo_accepted v) / real_of_int (vo_proposed v))"

datatype spec_topology = SpecColocated | SpecChunked | SpecDisagg | SpecDisaggTier

record spec_policy =
  sp_enabled :: bool
  sp_min_acceptance_rate :: real
  sp_min_window :: int
  sp_topology :: spec_topology

definition SpecPolicy :: "bool \<Rightarrow> real \<Rightarrow> int \<Rightarrow> spec_topology \<Rightarrow> spec_policy result" where
  "SpecPolicy enabled rate window topology =
     (if 0 \<le> rate \<and> rate \<le> 1 \<and> 0 < window
      then Inr \<lparr>sp_enabled = enabled, sp_min_acceptance_rate = rate, sp_min_window = window, sp_topology = topology\<rparr>
      else Inl ValueError)"

definition default_spec_policy :: spec_policy where
  "default_spec_policy =
     \<lparr>sp_enabled = True, sp_min_acceptance_rate = 2 / 5, sp_min_window = 20, sp_topology = SpecColocated\<rparr>"

definition is_topology_compatible :: "spec_policy \<Rightarrow> bool" where
  "is_topology_compatible p = (sp_topology p = SpecColocated \<or> sp_topology p = SpecChunked)"

section \<open>The decoder\<close>

record 'g spec_decoder =
  sd_target_rate :: real
  sd_rng :: 'g
  sd_window :: "int list"
  sd_maxlen :: nat
  sd_total_proposed :: int
  sd_total_accepted :: int

definition SpecDecoder :: "'g rng \<Rightarrow> spec_policy option \<Rightarrow> real \<Rightarrow> int \<Rightarrow> spec_policy \<times> 'g spec_decoder" where
  "SpecDecoder R policy rate seed =
     (let p = (case policy of None \<Rightarrow> default_spec_policy | Some p \<Rightarrow> p)
      in (if is_topology_compatible p then p else p\<lparr>sp_enabled := False\<rparr>,
          \<lparr>sd_target_rate = rate, sd_rng = rng_seed R seed, sd_window = [], sd_maxlen = nat (sp_min_window p),
           sd_total_proposed = 0, sd_total_accepted = 0\<rparr>))"

definition spec_enable :: "spec_policy \<Rightarrow> spec_policy" where
  "spec_enable p = p\<lparr>sp_enabled := True\<rparr>"

definition spec_disable :: "spec_policy \<Rightarrow> spec_policy" where
  "spec_disable p = p\<lparr>sp_enabled := False\<rparr>"

definition mean_window :: "int list \<Rightarrow> real" where
  "mean_window xs = (if xs = [] then 0 else real_of_int (sum_list xs) / real (length xs))"

definition observed_acceptance_rate :: "'g spec_decoder \<Rightarrow> real" where
  "observed_acceptance_rate d = mean_window (sd_window d)"

text \<open>\<open>deque.append\<close> with a \<open>maxlen\<close>: the oldest entries go.\<close>

definition last_n :: "nat \<Rightarrow> 'a list \<Rightarrow> 'a list" where
  "last_n n xs = drop (length xs - n) xs"

fun draft_loop :: "'g rng \<Rightarrow> real \<Rightarrow> nat list \<Rightarrow> 'g \<Rightarrow> string list \<times> 'g" where
  "draft_loop R rate [] g = ([], g)"
| "draft_loop R rate (i # js) g =
     (case rng_unit R g of
        (u, g1) \<Rightarrow> case draft_loop R rate js g1 of
          (acc, g2) \<Rightarrow> (if u < rate then (''draft-'' @ nat_str i) # acc else acc, g2))"

definition round_rate :: "int \<Rightarrow> int \<Rightarrow> real" where
  "round_rate accepted n = (if 0 < n then real_of_int accepted / real_of_int n else 0)"

definition rate_bin :: "spec_policy \<Rightarrow> real \<Rightarrow> int" where
  "rate_bin p r = (if r \<ge> sp_min_acceptance_rate p then 1 else 0)"

text \<open>
  The outcome is \<open>None\<close> when the decoder is disabled. The record of the outcome is built last: its
  \<open>ValueError\<close> (a negative draft length) leaves a decoder that has already counted the round.
\<close>

definition propose_and_verify :: "'g rng \<Rightarrow> int \<Rightarrow> spec_policy \<times> 'g spec_decoder \<Rightarrow>
    verify_outcome option result \<times> spec_policy \<times> 'g spec_decoder" where
  "propose_and_verify R n_draft s =
     (let (p, d) = s
      in if \<not> sp_enabled p then (Inr None, p, d)
      else
        let (accepted, g) = draft_loop R (sd_target_rate d) [0..<nat n_draft] (sd_rng d);
            k = int (length accepted);
            d' = d\<lparr>sd_rng := g,
                   sd_window := last_n (sd_maxlen d) (sd_window d @ [rate_bin p (round_rate k n_draft)]),
                   sd_total_proposed := sd_total_proposed d + n_draft,
                   sd_total_accepted := sd_total_accepted d + k\<rparr>;
            p' = (if int (length (sd_window d')) \<ge> sp_min_window p
                     \<and> observed_acceptance_rate d' < sp_min_acceptance_rate p
                  then spec_disable p else p)
        in (rbind (VerifyOutcome accepted n_draft k) (\<lambda>v. Inr (Some v)), p', d'))"

section \<open>One round\<close>

lemma last_n_length [simp]: "length (last_n n xs) = min n (length xs)"
  by (simp add: last_n_def)

lemma last_n_snoc: "last_n n (last_n n xs @ [x]) = last_n n (xs @ [x])"
  by (cases "length xs \<le> n") (auto simp: last_n_def Suc_diff_le not_le)

lemma draft_loop_length: "length (fst (draft_loop R rate js g)) \<le> length js"
proof (induction js arbitrary: g)
  case (Cons i js)
  obtain u g1 where u: "rng_unit R g = (u, g1)" by force
  obtain acc g2 where "draft_loop R rate js g1 = (acc, g2)" by force
  then show ?case using Cons.IH [of g1] by (simp add: u)
qed simp

lemma propose_disabled: "\<not> sp_enabled p \<Longrightarrow> propose_and_verify R n (p, d) = (Inr None, p, d)"
  by (simp add: propose_and_verify_def)

lemma propose_enabled:
  assumes "sp_enabled p" and "0 \<le> n"
  shows "\<exists>v p' d'. propose_and_verify R n (p, d) = (Inr (Some v), p', d')
    \<and> vo_proposed v = n \<and> 0 \<le> vo_accepted v \<and> vo_accepted v \<le> n \<and> vo_accepted v = int (length (vo_accepted_tokens v))
    \<and> sd_window d' = last_n (sd_maxlen d) (sd_window d @ [rate_bin p (round_rate (vo_accepted v) n)])
    \<and> sd_total_proposed d' = sd_total_proposed d + n
    \<and> sd_total_accepted d' = sd_total_accepted d + vo_accepted v
    \<and> sd_maxlen d' = sd_maxlen d
    \<and> p' = p\<lparr>sp_enabled := \<not> (int (length (sd_window d')) \<ge> sp_min_window p
                 \<and> mean_window (sd_window d') < sp_min_acceptance_rate p)\<rparr>"
proof -
  obtain acc g where loop: "draft_loop R (sd_target_rate d) [0..<nat n] (sd_rng d) = (acc, g)" by force
  have "length acc \<le> nat n"
    using draft_loop_length [of R "sd_target_rate d" "[0..<nat n]" "sd_rng d"] loop by simp
  then have le: "int (length acc) \<le> n" using assms(2) by simp
  show ?thesis
    using assms le
    by (auto simp: propose_and_verify_def loop VerifyOutcome_def Let_def spec_disable_def observed_acceptance_rate_def)
qed

section \<open>Runs\<close>

fun spec_run :: "'g rng \<Rightarrow> int list \<Rightarrow> spec_policy \<times> 'g spec_decoder \<Rightarrow>
    verify_outcome option result list \<times> spec_policy \<times> 'g spec_decoder" where
  "spec_run R [] s = ([], s)"
| "spec_run R (n # ns) s =
     (case propose_and_verify R n s of
        (r, s1) \<Rightarrow> case spec_run R ns s1 of (rs, s2) \<Rightarrow> (r # rs, s2))"

definition good_bin :: "spec_policy \<Rightarrow> verify_outcome \<Rightarrow> int" where
  "good_bin p v = rate_bin p (round_rate (vo_accepted v) (vo_proposed v))"

text \<open>A window that switches the decoder off.\<close>

definition low_window :: "spec_policy \<Rightarrow> int list \<Rightarrow> bool" where
  "low_window p bins \<longleftrightarrow>
     sp_min_window p \<le> int (length bins) \<and> mean_window (last_n (nat (sp_min_window p)) bins) < sp_min_acceptance_rate p"

lemma spec_run_snoc:
  "spec_run R (ns @ [n]) s =
     (case spec_run R ns s of (rs, s1) \<Rightarrow> case propose_and_verify R n s1 of (r, s2) \<Rightarrow> (rs @ [r], s2))"
  by (induction ns arbitrary: s) (auto split: prod.splits)

definition run_ok :: "spec_policy \<Rightarrow> int list \<Rightarrow> verify_outcome list \<Rightarrow> verify_outcome option result list \<Rightarrow>
    spec_policy \<times> 'g spec_decoder \<Rightarrow> bool" where
  "run_ok p0 ns vs outs s \<longleftrightarrow>
     (let (p, d) = s; bins = map (good_bin p0) vs
      in outs = map (\<lambda>v. Inr (Some v)) vs @ replicate (length ns - length vs) (Inr None)
       \<and> map vo_proposed vs = take (length vs) ns \<and> length vs \<le> length ns
       \<and> list_all (\<lambda>v. 0 \<le> vo_accepted v \<and> vo_accepted v \<le> vo_proposed v) vs
       \<and> p = p0\<lparr>sp_enabled := \<not> low_window p0 bins\<rparr>
       \<and> (low_window p0 bins \<or> length vs = length ns)
       \<and> (\<forall>j<length vs. \<not> low_window p0 (take j bins))
       \<and> sd_maxlen d = nat (sp_min_window p0)
       \<and> sd_window d = last_n (nat (sp_min_window p0)) bins
       \<and> sd_total_proposed d = sum_list (map vo_proposed vs)
       \<and> sd_total_accepted d = sum_list (map vo_accepted vs))"

lemma rate_bin_enabled [simp]: "rate_bin (p\<lparr>sp_enabled := b\<rparr>) = rate_bin p"
  by (simp add: rate_bin_def fun_eq_iff)

lemma run_ok_start:
  "sp_enabled p \<Longrightarrow> 0 < sp_min_window p \<Longrightarrow> sd_window d = [] \<Longrightarrow> sd_maxlen d = nat (sp_min_window p) \<Longrightarrow>
   sd_total_proposed d = 0 \<Longrightarrow> sd_total_accepted d = 0 \<Longrightarrow> run_ok p [] [] [] (p, d)"
  by (simp add: run_ok_def low_window_def last_n_def)

lemma run_ok_step:
  assumes ok: "run_ok p0 ns vs outs (p, d)" and n: "0 \<le> n"
    and step: "propose_and_verify R n (p, d) = (r, p', d')"
  shows "\<exists>vs'. run_ok p0 (ns @ [n]) vs' (outs @ [r]) (p', d')"
proof (cases "sp_enabled p")
  case False
  then have "r = Inr None" "p' = p" "d' = d" using step by (auto simp: propose_disabled)
  moreover have "low_window p0 (map (good_bin p0) vs)" using False ok by (simp add: run_ok_def Let_def)
  ultimately have "run_ok p0 (ns @ [n]) vs (outs @ [r]) (p', d')"
    using ok by (simp add: run_ok_def Let_def Suc_diff_le replicate_append_same)
  then show ?thesis by blast
next
  case True
  let ?bins = "map (good_bin p0) vs" and ?w = "nat (sp_min_window p0)"
  have p: "p = p0\<lparr>sp_enabled := True\<rparr>" and low: "\<not> low_window p0 ?bins" and len: "length vs = length ns"
    using ok True by (simp_all add: run_ok_def Let_def)
  obtain v where v: "r = Inr (Some v)" "vo_proposed v = n" "0 \<le> vo_accepted v" "vo_accepted v \<le> n"
      "sd_window d' = last_n (sd_maxlen d) (sd_window d @ [rate_bin p (round_rate (vo_accepted v) n)])"
      "sd_total_proposed d' = sd_total_proposed d + n" "sd_total_accepted d' = sd_total_accepted d + vo_accepted v"
      "sd_maxlen d' = sd_maxlen d"
      "p' = p\<lparr>sp_enabled := \<not> (int (length (sd_window d')) \<ge> sp_min_window p
                 \<and> mean_window (sd_window d') < sp_min_acceptance_rate p)\<rparr>"
    using propose_enabled [OF True n, of R d] step by auto
  have win: "sd_window d' = last_n ?w (?bins @ [good_bin p0 v])"
    using ok v(2,5) by (simp add: run_ok_def Let_def p good_bin_def last_n_snoc)
  have p': "p' = p0\<lparr>sp_enabled := \<not> low_window p0 (?bins @ [good_bin p0 v])\<rparr>"
    unfolding v(9) low_window_def win by (simp add: p) (rule arg_cong [where f = "\<lambda>b. p0\<lparr>sp_enabled := b\<rparr>"], auto simp: min_def)
  have "run_ok p0 (ns @ [n]) (vs @ [v]) (outs @ [r]) (p', d')"
    using ok low len v(1-4,6-8) win p' by (auto simp: run_ok_def Let_def less_Suc_eq)
  then show ?thesis by blast
qed

lemma spec_run_ok:
  "run_ok p0 [] [] [] s \<Longrightarrow> list_all (\<lambda>n. 0 \<le> n) ns \<Longrightarrow> spec_run R ns s = (outs, s') \<Longrightarrow>
   \<exists>vs. run_ok p0 ns vs outs s'"
proof (induction ns arbitrary: outs s' rule: rev_induct)
  case Nil
  then show ?case by auto
next
  case (snoc n ns)
  obtain outs1 p1 d1 where run: "spec_run R ns s = (outs1, p1, d1)" by (metis prod.exhaust)
  obtain r p2 d2 where step: "propose_and_verify R n (p1, d1) = (r, p2, d2)" by (metis prod.exhaust)
  obtain vs where "run_ok p0 ns vs outs1 (p1, d1)" using snoc run by auto
  then show ?case using run_ok_step [of p0 ns vs outs1 p1 d1 n R r p2 d2] step snoc.prems run
    by (auto simp: spec_run_snoc)
qed

text \<open>
  C36: From a fresh decoder on a compatible topology the rounds made form a prefix of the calls, each
  with at most as many accepted as proposed tokens, and the rest return nothing. The totals are their
  sums, the window holds the bins of the last rounds, and the decoder switched itself
  off after the first round at which a full window was below the threshold, if there was one.
\<close>

theorem spec_runs_until_low:
  assumes "SpecDecoder R (Some p0) rate seed = (p1, d1)" and "is_topology_compatible p0"
    and "sp_enabled p0" and "0 < sp_min_window p0" and "list_all (\<lambda>n. 0 \<le> n) ns"
    and "spec_run R ns (p1, d1) = (outs, p, d)"
  shows "\<exists>vs bins. bins = map (good_bin p0) vs
      \<and> outs = map (\<lambda>v. Inr (Some v)) vs @ replicate (length ns - length vs) (Inr None)
      \<and> map vo_proposed vs = take (length vs) ns
      \<and> list_all (\<lambda>v. 0 \<le> vo_accepted v \<and> vo_accepted v \<le> vo_proposed v) vs
      \<and> sd_total_proposed d = sum_list (map vo_proposed vs) \<and> sd_total_accepted d = sum_list (map vo_accepted vs)
      \<and> sd_window d = last_n (nat (sp_min_window p0)) bins
      \<and> (sp_enabled p \<longleftrightarrow> \<not> low_window p0 bins)
      \<and> (low_window p0 bins \<or> length vs = length ns)
      \<and> (\<forall>j<length vs. \<not> low_window p0 (take j bins))"
proof -
  have "run_ok p0 [] [] [] (p1, d1)"
    using assms(1-4) by (auto simp: SpecDecoder_def Let_def intro!: run_ok_start)
  then obtain vs where "run_ok p0 ns vs outs (p, d)"
    using spec_run_ok [of p0 "(p1, d1)" ns R outs "(p, d)"] assms(5,6) by blast
  then show ?thesis
    by (intro exI [of _ vs] exI [of _ "map (good_bin p0) vs"]) (simp add: run_ok_def Let_def)
qed

text \<open>A generator that replays a given list of unit draws.\<close>

definition replay_rng :: "real list \<Rightarrow> real list rng" where
  "replay_rng us =
     \<lparr>rng_seed = (\<lambda>_. us), rng_below = (\<lambda>n g. (0, g)), rng_unit = (\<lambda>g. case g of [] \<Rightarrow> (0, []) | u # g' \<Rightarrow> (u, g'))\<rparr>"

definition ex_spec_policy :: spec_policy where
  "ex_spec_policy = \<lparr>sp_enabled = True, sp_min_acceptance_rate = 2 / 5, sp_min_window = 3, sp_topology = SpecColocated\<rparr>"

text \<open>Rounds that accept all of five, then one of five twice: 7 of 15 tokens.\<close>

definition ex_draws :: "real list" where
  "ex_draws = [0, 0, 0, 0, 0, 0, 1 / 2, 1 / 2, 1 / 2, 1 / 2, 0, 1 / 2, 1 / 2, 1 / 2, 1 / 2]"

lemma ex_spec_run:
  "spec_run (replay_rng ex_draws) [5, 5, 5, 5] (SpecDecoder (replay_rng ex_draws) (Some ex_spec_policy) (1 / 4) 42) =
     ([Inr (Some \<lparr>vo_accepted_tokens = [''draft-0'', ''draft-1'', ''draft-2'', ''draft-3'', ''draft-4''], vo_proposed = 5, vo_accepted = 5\<rparr>),
       Inr (Some \<lparr>vo_accepted_tokens = [''draft-0''], vo_proposed = 5, vo_accepted = 1\<rparr>),
       Inr (Some \<lparr>vo_accepted_tokens = [''draft-0''], vo_proposed = 5, vo_accepted = 1\<rparr>), Inr None],
      ex_spec_policy\<lparr>sp_enabled := False\<rparr>,
      \<lparr>sd_target_rate = 1 / 4, sd_rng = [], sd_window = [1, 0, 0], sd_maxlen = 3, sd_total_proposed = 15, sd_total_accepted = 7\<rparr>)"
proof -
  have five: "[0..<5] = [0, 1, 2, 3, 4 :: nat]" by (simp add: upt_rec)
  have digits: "nat_str 0 = ''0''" "nat_str 1 = ''1''" "nat_str (Suc 0) = ''1''" "nat_str 2 = ''2''" "nat_str 3 = ''3''" "nat_str 4 = ''4''"
    by (code_simp)+
  let ?R = "replay_rng ex_draws" and ?p = ex_spec_policy
  let ?d = "\<lambda>us w n k. \<lparr>sd_target_rate = 1 / 4 :: real, sd_rng = us, sd_window = w, sd_maxlen = 3, sd_total_proposed = n, sd_total_accepted = k\<rparr>"
  note eval = propose_and_verify_def replay_rng_def ex_spec_policy_def five digits last_n_def rate_bin_def round_rate_def
    VerifyOutcome_def observed_acceptance_rate_def mean_window_def spec_disable_def
  have start: "SpecDecoder ?R (Some ?p) (1 / 4) 42 = (?p, ?d ex_draws [] 0 0)"
    by (simp add: SpecDecoder_def replay_rng_def ex_spec_policy_def is_topology_compatible_def)
  have r1: "propose_and_verify ?R 5 (?p, ?d ex_draws [] 0 0) =
      (Inr (Some \<lparr>vo_accepted_tokens = [''draft-0'', ''draft-1'', ''draft-2'', ''draft-3'', ''draft-4''], vo_proposed = 5, vo_accepted = 5\<rparr>),
       ?p, ?d (drop 5 ex_draws) [1] 5 5)"
    by (simp add: eval ex_draws_def)
  have r2: "propose_and_verify ?R 5 (?p, ?d (drop 5 ex_draws) [1] 5 5) =
      (Inr (Some \<lparr>vo_accepted_tokens = [''draft-0''], vo_proposed = 5, vo_accepted = 1\<rparr>), ?p, ?d (drop 10 ex_draws) [1, 0] 10 6)"
    by (simp add: eval ex_draws_def)
  have r3: "propose_and_verify ?R 5 (?p, ?d (drop 10 ex_draws) [1, 0] 10 6) =
      (Inr (Some \<lparr>vo_accepted_tokens = [''draft-0''], vo_proposed = 5, vo_accepted = 1\<rparr>),
       ?p\<lparr>sp_enabled := False\<rparr>, ?d [] [1, 0, 0] 15 7)"
    by (simp add: eval ex_draws_def)
  have r4: "propose_and_verify ?R 5 (?p\<lparr>sp_enabled := False\<rparr>, ?d [] [1, 0, 0] 15 7) =
      (Inr None, ?p\<lparr>sp_enabled := False\<rparr>, ?d [] [1, 0, 0] 15 7)"
    by (rule propose_disabled) (simp add: ex_spec_policy_def)
  show ?thesis by (simp add: start r1 r2 r3 r4)
qed

theorem spec_runs_until_low_witness:
  "\<exists>vs. fst (spec_run (replay_rng ex_draws) [5, 5, 5, 5] (SpecDecoder (replay_rng ex_draws) (Some ex_spec_policy) (1 / 4) 42))
        = map (\<lambda>v. Inr (Some v)) vs @ replicate (4 - length vs) (Inr None)
     \<and> sum_list (map vo_accepted vs) = 7 \<and> low_window ex_spec_policy (map (good_bin ex_spec_policy) vs)"
proof -
  obtain p1 d1 where mk: "SpecDecoder (replay_rng ex_draws) (Some ex_spec_policy) (1 / 4) 42 = (p1, d1)" by force
  have comp: "is_topology_compatible ex_spec_policy" "sp_enabled ex_spec_policy" "0 < sp_min_window ex_spec_policy"
    by (simp_all add: ex_spec_policy_def is_topology_compatible_def)
  have ns: "list_all (\<lambda>n. 0 \<le> n) [5, 5, 5, 5 :: int]" by simp
  obtain outs p d where run: "spec_run (replay_rng ex_draws) [5, 5, 5, 5] (p1, d1) = (outs, p, d)"
    and off: "\<not> sp_enabled p" and acc: "sd_total_accepted d = 7"
    using ex_spec_run [unfolded mk] by (simp add: ex_spec_policy_def)
  obtain vs where "outs = map (\<lambda>v. Inr (Some v)) vs @ replicate (length [5, 5, 5, 5 :: int] - length vs) (Inr None)"
    and "sd_total_accepted d = sum_list (map vo_accepted vs)"
    and "sp_enabled p \<longleftrightarrow> \<not> low_window ex_spec_policy (map (good_bin ex_spec_policy) vs)"
    using spec_runs_until_low [OF mk comp ns run] by blast
  then show ?thesis unfolding mk run using off acc by (intro exI [of _ vs]) simp
qed

text \<open>
  In this run 7 of 15 tokens were accepted, which is above the threshold of 2/5: the window holds whether a round
  reached the threshold, not its rate, and one round of three did.
\<close>

lemma disabled_above_threshold:
  "let (p, d) = snd (spec_run (replay_rng ex_draws) [5, 5, 5, 5] (SpecDecoder (replay_rng ex_draws) (Some ex_spec_policy) (1 / 4) 42))
   in \<not> sp_enabled p \<and> sp_min_acceptance_rate p < real_of_int (sd_total_accepted d) / real_of_int (sd_total_proposed d)"
  unfolding ex_spec_run by (simp add: ex_spec_policy_def)

text \<open>\<open>enable\<close> does not ask for the topology again, so a decoder on a disaggregated pool then proposes.\<close>

lemma enable_skips_topology_gate:
  assumes "\<not> is_topology_compatible p0" and "0 \<le> n"
  shows "propose_and_verify R n (SpecDecoder R (Some p0) rate seed) = (Inr None, SpecDecoder R (Some p0) rate seed)
    \<and> (\<exists>v. fst (propose_and_verify R n (apfst spec_enable (SpecDecoder R (Some p0) rate seed))) = Inr (Some v))"
proof -
  obtain p d where mk: "SpecDecoder R (Some p0) rate seed = (p, d)" by force
  have "\<not> sp_enabled p" using mk assms(1) by (auto simp: SpecDecoder_def Let_def)
  moreover have "sp_enabled (spec_enable p)" by (simp add: spec_enable_def)
  ultimately show ?thesis
    using propose_enabled [of "spec_enable p" n R d] assms(2) by (auto simp: mk propose_disabled)
qed

text \<open>Two decoders over one policy: when one switches off, the other proposes no more.\<close>

lemma shared_policy:
  "propose_and_verify R n (p, d) = (r, p', d') \<Longrightarrow> \<not> sp_enabled p' \<Longrightarrow> propose_and_verify R m (p', e) = (Inr None, p', e)"
  by (simp add: propose_disabled)

end
