(* ===== verification/LiveBench.thy ===== *)
theory LiveBench
  imports Orchestrator "HOL-Library.Sublist"
begin

text \<open>
  The two harnesses over a live server: \<open>scripts/real_bench.py\<close> (one report per topology from a vLLM endpoint) and
  \<open>bench/ollama_smoke.py\<close> (one report from a local model). The wall clock, the readiness request, the
  replay of a trace and sleeping act on a world \<open>'w\<close>; a report is rendered by a function \<open>dump\<close>. The polling loops
  have no bound of their own, so they are partial functions that return \<open>None\<close> when the clock never
  passes the deadline. For the Poisson arrivals used here the schedule is the request list in order.
\<close>

record 'w live_world =
  lv_time :: "'w \<Rightarrow> real \<times> 'w"
  lv_get :: "string \<Rightarrow> 'w \<Rightarrow> int option \<times> 'w"
  lv_sleep :: "real \<Rightarrow> 'w \<Rightarrow> 'w"
  lv_fire :: "trace \<Rightarrow> (request_spec \<times> string option) list \<Rightarrow> 'w \<Rightarrow> request_telemetry list result \<times> 'w"

section \<open>Waiting for the server\<close>

text \<open>\<open>lv_get\<close> gives no status when the request raised \<open>httpx.HTTPError\<close> or \<open>OSError\<close>, which are caught.\<close>

partial_function (option) wait_loop :: "'w live_world \<Rightarrow> string \<Rightarrow> real \<Rightarrow> real \<Rightarrow> 'w \<Rightarrow> (bool \<times> 'w) option" where
  "wait_loop W url gap deadline w =
     (if fst (lv_time W w) < deadline
      then (if fst (lv_get W url (snd (lv_time W w))) = Some 200
            then Some (True, snd (lv_get W url (snd (lv_time W w))))
            else wait_loop W url gap deadline (lv_sleep W gap (snd (lv_get W url (snd (lv_time W w))))))
      else Some (False, snd (lv_time W w)))"

text \<open>\<open>s.rsplit("/v1", 1)[0]\<close>\<close>

fun before_last_rev :: "string \<Rightarrow> string \<Rightarrow> string option" where
  "before_last_rev sep [] = None"
| "before_last_rev sep (c # cs) =
     (if take (length sep) (c # cs) = sep then Some (drop (length sep) (c # cs)) else before_last_rev sep cs)"

definition before_last :: "string \<Rightarrow> string \<Rightarrow> string" where
  "before_last sep s = (case before_last_rev (rev sep) (rev s) of None \<Rightarrow> s | Some r \<Rightarrow> rev r)"

definition wait_for_vllm :: "'w live_world \<Rightarrow> string \<Rightarrow> 'w \<Rightarrow> (bool \<times> 'w) option" where
  "wait_for_vllm W base_url w =
     (case lv_time W w of (t, w1) \<Rightarrow> wait_loop W (rstrip_slash base_url @ ''/models'') 2 (t + 180) w1)"

definition wait_for_ollama :: "'w live_world \<Rightarrow> string \<Rightarrow> 'w \<Rightarrow> (bool \<times> 'w) option" where
  "wait_for_ollama W base_url w =
     (case lv_time W w of
        (t, w1) \<Rightarrow> wait_loop W (before_last ''/v1'' (rstrip_slash base_url) @ ''/api/tags'') 1 (t + 60) w1)"

section \<open>The traces\<close>

definition smoke_text :: string where
  "smoke_text = ''Summarize the role of a control plane in a disaggregated LLM serving stack in two sentences. ''"

text \<open>A negative target cuts from the end; the request is then refused by its own validation.\<close>

definition smoke_prompt :: "int \<Rightarrow> string" where
  "smoke_prompt prompt_tokens =
     (let s = concat (replicate (nat (max 1 (prompt_tokens div 16))) smoke_text)
      in if 0 \<le> prompt_tokens then take (nat (prompt_tokens * 4)) s
         else take (length s - nat (- prompt_tokens * 4)) s)"

definition smoke_request :: "string \<Rightarrow> int \<Rightarrow> int \<Rightarrow> nat \<Rightarrow> request_spec result" where
  "smoke_request tag prompt_tokens output_tokens i =
     RequestSpec (tag @ zero_pad 4 (nat_str i)) INTERACTIVE CHAT prompt_tokens output_tokens (smoke_prompt prompt_tokens)"

definition real_trace :: "int \<Rightarrow> real \<Rightarrow> int \<Rightarrow> trace result" where
  "real_trace n rate prompt_tokens =
     rbind (ArrivalConfig Poisson rate 42 None None) (\<lambda>arrival.
     rbind (rmap (smoke_request ''r'' prompt_tokens 24) [0..<nat n]) (\<lambda>reqs. Trace CHAT 42 15 arrival reqs))"

definition ollama_trace :: "int \<Rightarrow> real \<Rightarrow> int \<Rightarrow> int \<Rightarrow> int \<Rightarrow> trace result" where
  "ollama_trace n rate prompt_tokens output_tokens seed =
     (if rate = 0 then Inl ZeroDivisionError
      else rbind (ArrivalConfig Poisson rate seed None None) (\<lambda>arrival.
           rbind (rmap (smoke_request ''ollama-'' prompt_tokens output_tokens) [0..<nat n]) (\<lambda>reqs.
             Trace CHAT seed (real_of_int n / rate) arrival reqs)))"

section \<open>One topology\<close>

definition live_pool :: "pool \<Rightarrow> int \<Rightarrow> pool_state" where
  "live_pool p capacity = \<lparr>ps_pool = p, ps_queue_depth = 0, ps_capacity = capacity, ps_healthy = True\<rparr>"

text \<open>Both branches on the topology return the same router.\<close>

definition real_router :: "topology \<Rightarrow> router" where
  "real_router t =
     (let r = register_pool (register_pool (register_pool (Router None 1024 None None) (live_pool PREFILL 64))
                (live_pool DECODE 64)) (live_pool COLOCATED 128)
      in if t = TOPO_DISAGG \<or> t = TOPO_DISAGG_TIER then r else r)"

text \<open>The report both harnesses build from the summary.\<close>

definition live_report :: "topology \<Rightarrow> string list \<Rightarrow> request_telemetry list \<Rightarrow> topology_report result" where
  "live_report t notes telemetries =
     (let s = summary telemetries in
      TopologyReport
        \<lparr>tr_topology = t, tr_n_requests = py_int (rs_n_requests s), tr_success_rate = rs_success_rate s,
         tr_mean_ttft_ms = rs_mean_ttft_ms s, tr_p95_ttft_ms = rs_p95_ttft_ms s, tr_mean_itl_ms = rs_mean_itl_ms s,
         tr_cache_hit_rate = rs_cache_hit_rate s, tr_reconcile_passes = (95 / 100 \<le> rs_success_rate s),
         tr_notes = notes\<rparr>)"

definition run_one :: "digest \<Rightarrow> 'w live_world \<Rightarrow> topology \<Rightarrow> string \<Rightarrow> string \<Rightarrow> 'w \<Rightarrow> topology_report result \<times> 'w" where
  "run_one sha W t base_url model w =
     (case real_trace 30 4 64 of
        Inl e \<Rightarrow> (Inl e, w)
      | Inr tr \<Rightarrow>
          (case lv_fire W tr (map (\<lambda>(spec, p). (spec, Some p)) (fst (assign_pools sha (real_router t) (tr_requests tr)))) w of
             (Inl e, w') \<Rightarrow> (Inl e, w')
           | (Inr telemetries, w') \<Rightarrow>
               (live_report t [''real-vllm'', ''base_url='' @ base_url, ''model='' @ model] telemetries, w')))"

section \<open>The campaign\<close>

record live_summary_file =
  ls_n_topologies :: int
  ls_base_url :: string
  ls_model :: string
  ls_all_reconcile :: bool
  ls_topologies :: "string list"

record ollama_summary_file =
  ou_n_reports :: int
  ou_host :: string
  ou_base_url :: string
  ou_model :: string
  ou_all_reconcile :: bool

datatype live_file =
    ReportFile topology_report
  | LiveSummary live_summary_file
  | OllamaSummary ollama_summary_file

text \<open>The loop over the topologies: whatever \<open>run_one\<close> raises is printed and the topology skipped.\<close>

fun real_topologies :: "digest \<Rightarrow> 'w live_world \<Rightarrow> string \<Rightarrow> string \<Rightarrow> topology list \<Rightarrow>
    topology_report list \<times> (string, live_file) odict \<times> 'w \<Rightarrow> topology_report list \<times> (string, live_file) odict \<times> 'w" where
  "real_topologies sha W base_url model [] s = s"
| "real_topologies sha W base_url model (t # ts) (reports, files, w) =
     real_topologies sha W base_url model ts
       (case run_one sha W t base_url model w of
          (Inl e, w') \<Rightarrow> (reports, files, w')
        | (Inr r, w') \<Rightarrow> (reports @ [r], od_set (topology_value t @ ''.json'') (ReportFile r) files, w'))"

definition real_summary :: "string \<Rightarrow> string \<Rightarrow> topology_report list \<Rightarrow> live_summary_file" where
  "real_summary base_url model reports =
     \<lparr>ls_n_topologies = int (length reports), ls_base_url = base_url, ls_model = model,
      ls_all_reconcile = list_all tr_reconcile_passes reports,
      ls_topologies = map (\<lambda>r. topology_value (tr_topology r)) reports\<rparr>"

definition real_bench_main :: "digest \<Rightarrow> 'w live_world \<Rightarrow> string \<Rightarrow> string \<Rightarrow> (string, live_file) odict \<times> 'w \<Rightarrow>
    (int \<times> (string, live_file) odict \<times> 'w) option" where
  "real_bench_main sha W base_url model s =
     (case s of (files, w) \<Rightarrow>
        case wait_for_vllm W base_url w of
          None \<Rightarrow> None
        | Some (up, w1) \<Rightarrow>
            if \<not> up then Some (1, files, w1)
            else case real_topologies sha W base_url model all_topologies ([], files, w1) of
                   (reports, files1, w2) \<Rightarrow>
                     Some (if reports \<noteq> [] then 0 else 2,
                           od_set ''summary.json'' (LiveSummary (real_summary base_url model reports)) files1, w2))"

section \<open>The smoke run\<close>

record ollama_args =
  og_base_url :: string
  og_model :: string
  og_n :: int
  og_rate :: real
  og_prompt_tokens :: int
  og_output_tokens :: int
  og_seed :: int

definition default_ollama_args :: ollama_args where
  "default_ollama_args =
     \<lparr>og_base_url = ''http://localhost:11434/v1'', og_model = ''qwen3:8b'', og_n = 12, og_rate = 3 / 2,
      og_prompt_tokens = 48, og_output_tokens = 24, og_seed = 42\<rparr>"

text \<open>\<open>model.replace("/", "_").replace(":", "_")\<close>\<close>

definition safe_model :: "string \<Rightarrow> string" where
  "safe_model m = map (\<lambda>c. if c = CHR ''/'' \<or> c = CHR '':'' then CHR ''_'' else c) m"

definition ollama_notes :: "ollama_args \<Rightarrow> string \<Rightarrow> string list" where
  "ollama_notes g sysname =
     [''ollama'', ''model='' @ og_model g, ''base_url='' @ og_base_url g, ''host=local-m1-max'',
      ''platform='' @ sysname, ''n='' @ int_str (og_n g)]"

definition ollama_summary :: "ollama_args \<Rightarrow> topology_report \<Rightarrow> ollama_summary_file" where
  "ollama_summary g r =
     \<lparr>ou_n_reports = 1, ou_host = ''local-m1-max'', ou_base_url = og_base_url g, ou_model = og_model g,
      ou_all_reconcile = tr_reconcile_passes r\<rparr>"

definition ollama_run :: "'w live_world \<Rightarrow> string \<Rightarrow> ollama_args \<Rightarrow> (string, live_file) odict \<times> 'w \<Rightarrow>
    (int result \<times> (string, live_file) odict \<times> 'w) option" where
  "ollama_run W sysname g s =
     (case s of (files, w) \<Rightarrow>
        case wait_for_ollama W (og_base_url g) w of
          None \<Rightarrow> None
        | Some (up, w1) \<Rightarrow>
            if \<not> up then Some (Inr 1, files, w1)
            else case ollama_trace (og_n g) (og_rate g) (og_prompt_tokens g) (og_output_tokens g) (og_seed g) of
                   Inl e \<Rightarrow> Some (Inl e, files, w1)
                 | Inr tr \<Rightarrow>
                     (case lv_fire W tr (map (\<lambda>spec. (spec, None)) (tr_requests tr)) w1 of
                        (Inl e, w2) \<Rightarrow> Some (Inl e, files, w2)
                      | (Inr telemetries, w2) \<Rightarrow>
                          (case live_report TOPO_COLOCATED (ollama_notes g sysname) telemetries of
                             Inl e \<Rightarrow> Some (Inl e, files, w2)
                           | Inr r \<Rightarrow>
                               Some (Inr (if tr_reconcile_passes r then 0 else 2),
                                     od_set ''summary.json'' (OllamaSummary (ollama_summary g r))
                                       (od_set (safe_model (og_model g) @ ''.json'') (ReportFile r) files), w2))))"

section \<open>Waiting ends\<close>




section \<open>What a campaign leaves behind\<close>

definition report_path :: "topology \<Rightarrow> string" where
  "report_path t = topology_value t @ ''.json''"

lemma report_path_inj [simp]: "report_path t = report_path u \<longleftrightarrow> t = u"
  by (cases t; cases u) (simp_all add: report_path_def)

lemma report_path_summary [simp]: "report_path t \<noteq> ''summary.json''"
  by (cases t) (simp_all add: report_path_def)






text \<open>A server that is up at once, and a replay with a fixed outcome.\<close>

definition ex_live :: "request_telemetry list result \<Rightarrow> real live_world" where
  "ex_live res =
     \<lparr>lv_time = (\<lambda>w. (w, w + 1)), lv_get = (\<lambda>u w. (Some 200, w)), lv_sleep = (\<lambda>g w. w + g), lv_fire = (\<lambda>tr l w. (res, w))\<rparr>"



lemma wait_up: "wait_for_vllm (ex_live res) url w = Some (True, w + 2)"
  by (simp add: wait_for_vllm_def ex_live_def wait_loop.simps)

lemma run_one_failing: "\<exists>e. run_one sha (ex_live (Inl RuntimeError)) t url model w = (Inl e, w)"
  by (cases "real_trace 30 4 64") (simp_all add: run_one_def ex_live_def)

lemma real_topologies_failing:
  "real_topologies sha (ex_live (Inl RuntimeError)) url model ts (reports, files, w) = (reports, files, w)"
proof (induction ts)
  case (Cons t ts)
  obtain e where "run_one sha (ex_live (Inl RuntimeError)) t url model w = (Inl e, w)" using run_one_failing by blast
  then show ?case using Cons by simp
qed simp

text \<open>A campaign in which every topology failed exits with 2 and still writes that all of them reconcile.\<close>

lemma failed_campaign_reconciles:
  "real_bench_main sha (ex_live (Inl RuntimeError)) url model ([], w) =
     Some (2, [(''summary.json'', LiveSummary \<lparr>ls_n_topologies = 0, ls_base_url = url, ls_model = model,
                                              ls_all_reconcile = True, ls_topologies = []\<rparr>)], w + 2)"
  by (simp add: real_bench_main_def wait_up real_topologies_failing real_summary_def)

text \<open>The colocated pool is registered for the disaggregated topologies too.\<close>

lemma colocated_always_registered: "map fst (rt_pools (real_router t)) = [PREFILL, DECODE, COLOCATED]"
  by (simp add: real_router_def live_pool_def Router_def register_pool_def)

end
