(* ===== verification/SentinelDaemon.thy ===== *)
theory SentinelDaemon
  imports PyText
begin

text \<open>
  \<open>scripts/sentinel_daemon.py\<close>: the probe that runs the sentinel check once per interval and reflects it in the
  gauge \<open>sentinel_drift\<close>. The subprocess, sleeping and the stop flag that the signal handlers set
  act on a world \<open>'w\<close>; the gauge is the list of the values it was set to. The loop ends only by
  a signal, so it is a partial function; it is shown to end once the flag goes up.
\<close>

record daemon_args =
  da_base_url :: string
  da_served_model_name :: string
  da_fixture_dir :: string
  da_interval_seconds :: int
  da_metrics_port :: int
  da_check_timeout :: real

definition default_daemon_args :: daemon_args where
  "default_daemon_args =
     \<lparr>da_base_url = ''http://localhost:19100/v1'', da_served_model_name = ''goodputlab-model'',
      da_fixture_dir = ''tests/_fixtures'', da_interval_seconds = 60, da_metrics_port = 9108, da_check_timeout = 120\<rparr>"

text \<open>A subprocess gives its return code and standard error, or nothing when it timed out.\<close>

record 'w daemon_env =
  de_executable :: string
  de_sentinel_cli :: string
  de_subprocess :: "string list \<Rightarrow> real \<Rightarrow> 'w \<Rightarrow> (int \<times> string) option \<times> 'w"
  de_sleep :: "'w \<Rightarrow> 'w"
  de_stop :: "'w \<Rightarrow> bool"

definition sentinel_cmd :: "'w daemon_env \<Rightarrow> daemon_args \<Rightarrow> string list" where
  "sentinel_cmd E g =
     [de_executable E, de_sentinel_cli E, ''--mode'', ''check'', ''--base-url'', da_base_url g,
      ''--served-model-name'', da_served_model_name g, ''--fixture-dir'', da_fixture_dir g]"

definition run_sentinel_check :: "'w daemon_env \<Rightarrow> daemon_args \<Rightarrow> 'w \<Rightarrow> int \<times> 'w" where
  "run_sentinel_check E g w =
     (case de_subprocess E (sentinel_cmd E g) (da_check_timeout g) w of
        (None, w') \<Rightarrow> (124, w')
      | (Some (returncode, stderr), w') \<Rightarrow> (returncode, w'))"

definition gauge_value :: "int \<Rightarrow> int" where
  "gauge_value rc = (if rc \<noteq> 0 then 1 else 0)"

text \<open>The sleep of one interval, in slices that look at the flag.\<close>

fun sleep_slices :: "'w daemon_env \<Rightarrow> nat \<Rightarrow> 'w \<Rightarrow> 'w" where
  "sleep_slices E 0 w = w"
| "sleep_slices E (Suc n) w = (if de_stop E w then w else sleep_slices E n (de_sleep E w))"

partial_function (option) daemon_loop :: "'w daemon_env \<Rightarrow> daemon_args \<Rightarrow> int list \<Rightarrow> 'w \<Rightarrow> (int list \<times> 'w) option" where
  "daemon_loop E g gauge w =
     (if de_stop E w then Some (gauge, w)
      else daemon_loop E g (gauge @ [gauge_value (fst (run_sentinel_check E g w))])
             (sleep_slices E (nat (da_interval_seconds g)) (snd (run_sentinel_check E g w))))"

text \<open>The exit code and the gauge's history; the metrics server starts before the loop.\<close>

definition daemon_main :: "'w daemon_env \<Rightarrow> daemon_args \<Rightarrow> 'w \<Rightarrow> (int \<times> int list \<times> 'w) option" where
  "daemon_main E g w =
     (if da_interval_seconds g < 1 then Some (2, [], w)
      else case daemon_loop E g [] w of None \<Rightarrow> None | Some (gauge, w') \<Rightarrow> Some (0, gauge, w'))"

section \<open>Probing until stopped\<close>

text \<open>What the daemon is to do: check and wait, as long as nobody asked it to stop.\<close>

inductive probes :: "'w daemon_env \<Rightarrow> daemon_args \<Rightarrow> 'w \<Rightarrow> int list \<Rightarrow> 'w \<Rightarrow> bool" for E g where
  stopped: "de_stop E w \<Longrightarrow> probes E g w [] w"
| probe: "\<not> de_stop E w \<Longrightarrow> run_sentinel_check E g w = (rc, w1) \<Longrightarrow>
    probes E g (sleep_slices E (nat (da_interval_seconds g)) w1) rcs w' \<Longrightarrow> probes E g w (rc # rcs) w'"

inductive_cases probesE: "probes E g w rcs w'"

lemma daemon_loop_probes:
  "probes E g w rcs w' \<Longrightarrow> daemon_loop E g gauge w = Some (gauge @ map gauge_value rcs, w')"
proof (induction arbitrary: gauge rule: probes.induct)
  case (stopped w)
  then show ?case by (simp add: daemon_loop.simps)
next
  case (probe w rc w1 rcs w')
  then show ?case by (subst daemon_loop.simps) simp
qed

text \<open>
  The environment after a signal at time \<open>T\<close>: the flag is up from then on; a second of sleep advances
  the clock by one, a check does not turn it back.
\<close>

definition stops_at :: "'w daemon_env \<Rightarrow> ('w \<Rightarrow> int) \<Rightarrow> int \<Rightarrow> bool" where
  "stops_at E clk T \<longleftrightarrow>
     (\<forall>w. (de_stop E w \<longleftrightarrow> T \<le> clk w) \<and> clk (de_sleep E w) = clk w + 1 \<and> (\<forall>c t. clk w \<le> clk (snd (de_subprocess E c t w))))"

lemma stops_atD:
  assumes "stops_at E clk T"
  shows "de_stop E w \<longleftrightarrow> T \<le> clk w" "clk (de_sleep E w) = clk w + 1" "clk w \<le> clk (snd (run_sentinel_check E g w))"
proof -
  have "clk w \<le> clk (snd (de_subprocess E (sentinel_cmd E g) (da_check_timeout g) w))"
    using assms by (simp add: stops_at_def)
  then show "clk w \<le> clk (snd (run_sentinel_check E g w))"
    by (auto simp: run_sentinel_check_def split: prod.split option.split)
qed (use assms in \<open>auto simp: stops_at_def\<close>)

lemma sleep_slices_clock:
  assumes "stops_at E clk T"
  shows "clk (sleep_slices E n w) = (if T \<le> clk w then clk w else min T (clk w + int n))"
proof (induction n arbitrary: w)
  case 0
  then show ?case by simp
next
  case (Suc n)
  then show ?case using stops_atD(1,2) [OF assms, of w] by auto
qed

lemma probes_until:
  assumes env: "stops_at E clk T" and g: "1 \<le> da_interval_seconds g"
  shows "\<exists>rcs w'. probes E g w rcs w' \<and> de_stop E w' \<and> int (length rcs) * da_interval_seconds g < max 0 (T - clk w) + da_interval_seconds g"
proof (induction "nat (T - clk w)" arbitrary: w rule: less_induct)
  case less
  show ?case
  proof (cases "T \<le> clk w")
    case True
    then have "de_stop E w" by (simp add: stops_atD(1) [OF env])
    then have "probes E g w [] w" by (rule probes.stopped)
    with \<open>de_stop E w\<close> g show ?thesis by (intro exI [of _ "[]"] exI [of _ w]) simp
  next
    case False
    obtain rc w1 where rc: "run_sentinel_check E g w = (rc, w1)" by force
    let ?w2 = "sleep_slices E (nat (da_interval_seconds g)) w1"
    have c1: "clk w \<le> clk w1" using stops_atD(3) [OF env, of w g] rc by simp
    have c2: "clk ?w2 = (if T \<le> clk w1 then clk w1 else min T (clk w1 + da_interval_seconds g))"
      using sleep_slices_clock [OF env, of "nat (da_interval_seconds g)" w1] g by simp
    have "nat (T - clk ?w2) < nat (T - clk w)" using c1 c2 g False by (auto simp: min_def)
    from less [OF this] obtain rcs w' where p: "probes E g ?w2 rcs w'" "de_stop E w'"
      "int (length rcs) * da_interval_seconds g < max 0 (T - clk ?w2) + da_interval_seconds g" by blast
    have "probes E g w (rc # rcs) w'"
      using False by (intro probes.probe [OF _ rc p(1)]) (simp add: stops_atD(1) [OF env])
    moreover have "int (length (rc # rcs)) * da_interval_seconds g < max 0 (T - clk w) + da_interval_seconds g"
      using p(3) c1 c2 g False by (auto simp: algebra_simps min_def max_def split: if_splits)
    ultimately show ?thesis using p(2) by blast
  qed
qed

text \<open>
  C38: After a signal the daemon stops with exit code 0. Until then it made one check per interval, at
  most one more than the intervals that passed, and each check set the gauge to 0 when its exit
  code was 0 and to 1 otherwise, a timeout included.
\<close>

theorem daemon_stops:
  assumes "stops_at E clk T" and "1 \<le> da_interval_seconds g"
  shows "\<exists>rcs w'. probes E g w rcs w' \<and> de_stop E w'
    \<and> daemon_main E g w = Some (0, map (\<lambda>rc. if rc = 0 then 0 else 1) rcs, w')
    \<and> int (length rcs) * da_interval_seconds g < max 0 (T - clk w) + da_interval_seconds g"
proof -
  obtain rcs w' where p: "probes E g w rcs w'" "de_stop E w'"
    "int (length rcs) * da_interval_seconds g < max 0 (T - clk w) + da_interval_seconds g"
    using probes_until [OF assms] by blast
  moreover have "daemon_loop E g [] w = Some (map gauge_value rcs, w')" using daemon_loop_probes [OF p(1), of "[]"] by simp
  moreover have "map gauge_value rcs = map (\<lambda>rc. if rc = 0 then 0 else 1) rcs" by (simp add: gauge_value_def)
  ultimately show ?thesis using assms(2) by (auto simp: daemon_main_def)
qed

text \<open>A world that is the clock, with a check that times out from the third second on.\<close>

definition ex_daemon :: "int daemon_env" where
  "ex_daemon =
     \<lparr>de_executable = ''python3'', de_sentinel_cli = ''sentinel.py'',
      de_subprocess = (\<lambda>c t w. (if w < 3 then Some (0, []) else None, w)),
      de_sleep = (\<lambda>w. w + 1), de_stop = (\<lambda>w. 5 \<le> w)\<rparr>"

lemma ex_daemon_stops_at: "stops_at ex_daemon (\<lambda>w. w) 5"
  by (simp add: stops_at_def ex_daemon_def)

theorem daemon_stops_witness:
  "\<exists>rcs w'. probes ex_daemon (default_daemon_args\<lparr>da_interval_seconds := 2\<rparr>) 0 rcs w' \<and> 5 \<le> w' \<and> length rcs < 4
     \<and> daemon_main ex_daemon (default_daemon_args\<lparr>da_interval_seconds := 2\<rparr>) 0
         = Some (0, map (\<lambda>rc. if rc = 0 then 0 else 1) rcs, w')"
proof -
  have "1 \<le> da_interval_seconds (default_daemon_args\<lparr>da_interval_seconds := 2\<rparr>)" by simp
  from daemon_stops [OF ex_daemon_stops_at this, of 0] obtain rcs w' where
    "probes ex_daemon (default_daemon_args\<lparr>da_interval_seconds := 2\<rparr>) 0 rcs w'" "de_stop ex_daemon w'"
    "daemon_main ex_daemon (default_daemon_args\<lparr>da_interval_seconds := 2\<rparr>) 0
       = Some (0, map (\<lambda>rc. if rc = 0 then 0 else 1) rcs, w')" "int (length rcs) * 2 < 7" by auto
  then show ?thesis by (intro exI [of _ rcs] exI [of _ w']) (simp add: ex_daemon_def)
qed

text \<open>The gauge of this run: two passing checks, then the timeout.\<close>

lemma ex_daemon_gauge:
  "daemon_main ex_daemon (default_daemon_args\<lparr>da_interval_seconds := 2\<rparr>) 0 = Some (0, [0, 0, 1], 5)"
  by (simp add: daemon_main_def daemon_loop.simps run_sentinel_check_def gauge_value_def ex_daemon_def eval_nat_numeral)

end
