(* ===== verification/Figures.thy ===== *)
theory Figures
  imports MatrixAggregator PyJson
begin

text \<open>
  \<open>bench/figures.py\<close>: the figures and the cost table of a run. Drawing belongs to \<open>matplotlib\<close>; a plot is modelled
  by the data it hands over (bars, points, annotations), without colours and static titles. The
  loaders read a directory of texts through the parser \<open>json_loads\<close>. The lemmas show that the sweep's
  loader sees the reconciled cells of the aggregate and what ends up on a curve.
\<close>

section \<open>Dynamically typed numbers\<close>

text \<open>\<open>v[k]\<close>, \<open>float(v)\<close>, \<open>int(v)\<close>, arithmetic on \<open>v\<close>, and \<open>f"{v:.kf}"\<close>.\<close>

definition jitem :: "json \<Rightarrow> string \<Rightarrow> json result" where
  "jitem v k =
     (case v of
        JObj kvs \<Rightarrow> (case od_get kvs k of None \<Rightarrow> Inl KeyError | Some x \<Rightarrow> Inr x)
      | _ \<Rightarrow> Inl TypeError)"

definition float_of :: "json \<Rightarrow> real result" where
  "float_of v =
     (case v of
        JNum x \<Rightarrow> Inr x
      | JBool b \<Rightarrow> Inr (if b then 1 else 0)
      | JStr s \<Rightarrow> (case py_float s of None \<Rightarrow> Inl ValueError | Some x \<Rightarrow> Inr x)
      | _ \<Rightarrow> Inl TypeError)"

definition int_of :: "json \<Rightarrow> int result" where
  "int_of v =
     (case v of
        JNum x \<Rightarrow> Inr (py_int x)
      | JBool b \<Rightarrow> Inr (if b then 1 else 0)
      | JStr s \<Rightarrow> parse_int (py_strip s)
      | _ \<Rightarrow> Inl TypeError)"

definition number_of :: "json \<Rightarrow> real result" where
  "number_of v = (case v of JNum x \<Rightarrow> Inr x | JBool b \<Rightarrow> Inr (if b then 1 else 0) | _ \<Rightarrow> Inl TypeError)"

definition format_of :: "nat \<Rightarrow> json \<Rightarrow> string result" where
  "format_of k v = (case v of JStr s \<Rightarrow> Inl ValueError | _ \<Rightarrow> rbind (number_of v) (\<lambda>x. Inr (fixed_str k x)))"

section \<open>Constants\<close>

definition TOPOS :: "string list" where
  "TOPOS = [''colocated'', ''chunked'', ''disagg'', ''disagg_tier'']"

definition H100_SXM_SPOT_USD_PER_HR :: real where "H100_SXM_SPOT_USD_PER_HR = 199 / 100"
definition TOKENS_PER_SEC_PER_H100 :: real where "TOKENS_PER_SEC_PER_H100 = 120"
definition OUTPUT_TOKENS_PER_REQUEST :: int where "OUTPUT_TOKENS_PER_REQUEST = 256"

definition REPLICAS :: "(string, int) odict" where
  "REPLICAS = [(''colocated'', 1), (''chunked'', 1), (''disagg'', 2), (''disagg_tier'', 2)]"

section \<open>Loading\<close>

definition load_results :: "('t \<Rightarrow> json option) \<Rightarrow> (string, 't) odict \<Rightarrow> (string, json) odict result" where
  "load_results json_loads d =
     rmap (\<lambda>topo. case od_get d (topo @ ''.json'') of
             None \<Rightarrow> Inl FileNotFoundError
           | Some t \<Rightarrow> (case json_loads t of None \<Rightarrow> Inl ValueError | Some v \<Rightarrow> Inr (topo, v))) TOPOS"

record full_cell =
  fl_topology :: json
  fl_model :: json
  fl_rate_rps :: json
  fl_mix :: json
  fl_mean_ttft_ms :: real
  fl_mean_itl_ms :: real
  fl_success_rate :: real

definition full_cell_of :: "json \<Rightarrow> full_cell result" where
  "full_cell_of data =
     rbind (jitem data ''topology'') (\<lambda>topology.
     rbind (jitem data ''model'') (\<lambda>model.
     rbind (jitem data ''rate_rps'') (\<lambda>rate.
     rbind (jitem data ''mix'') (\<lambda>mix.
     rbind (rbind (jitem data ''mean_ttft_ms'') float_of) (\<lambda>ttft.
     rbind (rbind (jitem data ''mean_itl_ms'') float_of) (\<lambda>itl.
     rbind (rbind (jitem data ''success_rate'') float_of) (\<lambda>success.
       Inr \<lparr>fl_topology = topology, fl_model = model, fl_rate_rps = rate, fl_mix = mix, fl_mean_ttft_ms = ttft,
            fl_mean_itl_ms = itl, fl_success_rate = success\<rparr>)))))))"

text \<open>The loop over the files: other names, unreadable texts and unreconciled cells are skipped.\<close>

fun full_cells :: "('t \<Rightarrow> json option) \<Rightarrow> (string \<times> 't) list \<Rightarrow> full_cell list result" where
  "full_cells json_loads [] = Inr []"
| "full_cells json_loads ((name, t) # fs) =
     (if \<not> py_contains ''__rate-'' name then full_cells json_loads fs
      else case json_loads t of
             None \<Rightarrow> full_cells json_loads fs
           | Some data \<Rightarrow>
               rbind (jget data ''reconcile_passes'') (\<lambda>passes.
                 if \<not> truthy passes then full_cells json_loads fs
                 else rbind (full_cell_of data) (\<lambda>c. rbind (full_cells json_loads fs) (\<lambda>cs. Inr (c # cs)))))"

text \<open>A path that is no directory gives no cells.\<close>

definition load_runpod_full_cells :: "('t \<Rightarrow> json option) \<Rightarrow> 't directory option \<Rightarrow> full_cell list result" where
  "load_runpod_full_cells json_loads cells_dir =
     (case cells_dir of None \<Rightarrow> Inr [] | Some d \<Rightarrow> full_cells json_loads (sort_key fst (json_files d)))"

section \<open>The figures\<close>

text \<open>A bar chart: per series its label, positions and heights; the annotations with their positions.\<close>

record bar_chart =
  bc_file :: string
  bc_ylabel :: string
  bc_series :: "(string \<times> real list \<times> real list) list"
  bc_annotations :: "(real \<times> real \<times> string) list"

definition result_field :: "(string, json) odict \<Rightarrow> string \<Rightarrow> string \<Rightarrow> json result" where
  "result_field results field topo =
     (case od_get results topo of None \<Rightarrow> Inl KeyError | Some v \<Rightarrow> jitem v field)"

definition plot_ttft :: "(string, json) odict \<Rightarrow> bar_chart result" where
  "plot_ttft results =
     rbind (rmap (result_field results ''mean_ttft_ms'') TOPOS) (\<lambda>mean_values.
     rbind (rmap (result_field results ''p95_ttft_ms'') TOPOS) (\<lambda>p95_values.
     rbind (rmap number_of mean_values) (\<lambda>means.
     rbind (rmap number_of p95_values) (\<lambda>p95s.
       Inr \<lparr>bc_file = ''ttft_comparison.png'', bc_ylabel = ''TTFT (ms)'',
            bc_series = [(''mean'', map (\<lambda>i. real i - 18 / 100) [0..<length TOPOS], means),
                         (''p95'', map (\<lambda>i. real i + 18 / 100) [0..<length TOPOS], p95s)],
            bc_annotations = concat (map (\<lambda>(i, m, p). [(real i - 18 / 100, m + 2, fixed_str 1 m), (real i + 18 / 100, p + 2, fixed_str 1 p)])
                               (zip [0..<length means] (zip means p95s)))\<rparr>))))"

definition plot_itl :: "(string, json) odict \<Rightarrow> bar_chart result" where
  "plot_itl results =
     rbind (rmap (result_field results ''mean_itl_ms'') TOPOS) (\<lambda>values.
     rbind (rmap number_of values) (\<lambda>means.
       Inr \<lparr>bc_file = ''itl_comparison.png'', bc_ylabel = ''Mean ITL (ms)'',
            bc_series = [(''ITL'', map real [0..<length TOPOS], means)],
            bc_annotations = map (\<lambda>(i, m). (real i, m + 5 / 100, fixed_str 2 m)) (zip [0..<length means] means)\<rparr>))"

section \<open>The cost table\<close>

definition cost_per_million_tokens :: "int \<Rightarrow> real" where
  "cost_per_million_tokens replicas =
     (let usd_per_sec = H100_SXM_SPOT_USD_PER_HR * real_of_int replicas / 3600
      in usd_per_sec * 1000000 / TOKENS_PER_SEC_PER_H100)"

definition cost_fields :: "string list" where
  "cost_fields = [''topology'', ''replicas'', ''mean_ttft_ms'', ''mean_itl_ms'', ''cost_per_1m_output_tokens_usd'']"

text \<open>The values of one row, in the order of the fields.\<close>

definition cost_row :: "(string, json) odict \<Rightarrow> string \<Rightarrow> string list result" where
  "cost_row results topo =
     (case od_get REPLICAS topo of
        None \<Rightarrow> Inl KeyError
      | Some replicas \<Rightarrow>
          rbind (result_field results ''mean_itl_ms'' topo) (\<lambda>itl.
          rbind (result_field results ''mean_ttft_ms'' topo) (\<lambda>ttft.
          rbind (format_of 2 ttft) (\<lambda>ttft_text.
          rbind (format_of 2 itl) (\<lambda>itl_text.
            Inr [topo, int_str replicas, ttft_text, itl_text, fixed_str 2 (cost_per_million_tokens replicas)])))))"

text \<open>No field of the table holds a comma, a quote or a line break, so the writer quotes nothing.\<close>

definition csv_line :: "string list \<Rightarrow> string" where
  "csv_line vals = joined '','' vals @ [CHR 0x0D, CHR 0x0A]"

definition md_row :: "string list \<Rightarrow> string" where
  "md_row r =
     ''| '' @ r ! 0 @ '' | '' @ r ! 1 @ '' | '' @ r ! 2 @ '' | '' @ r ! 3 @ '' | $'' @ r ! 4 @ '' |''"

definition cost_md_lines :: "string list list \<Rightarrow> string list" where
  "cost_md_lines rows =
     [''# Cost per 1M output tokens (Run 1, H100 SXM spot)'', [],
      ''Assumptions: H100 SXM spot $'' @ fixed_str 2 H100_SXM_SPOT_USD_PER_HR @ ''/hr (RunPod 2026-07), ''
        @ fixed_str 0 TOKENS_PER_SEC_PER_H100 @ '' output tok/s per H100, ''
        @ int_str OUTPUT_TOKENS_PER_REQUEST @ '' output tokens per request median.'', [],
      ''| Topology | Replicas | Mean TTFT (ms) | Mean ITL (ms) | $/1M output tok |'',
      ''|----------|----------|----------------|---------------|-----------------|''] @
     map md_row rows @
     [[], ''Linear in replica count; tier sidecar cost modelled as zero (negligible GPU; dominated by KV storage in production).'']"

text \<open>The two files written.\<close>

definition write_cost_table :: "(string, json) odict \<Rightarrow> (string, string) odict \<Rightarrow> (string, string) odict result" where
  "write_cost_table results files =
     rbind (rmap (cost_row results) TOPOS) (\<lambda>rows.
       Inr (od_set ''cost_per_million_tokens.md'' (joined [CHR 0x0A] (cost_md_lines rows))
             (od_set ''cost_per_million_tokens.csv'' (concat (map csv_line (cost_fields # rows))) files)))"

section \<open>The curves of the sweep\<close>

text \<open>
  The points of a topology; a topology that is not a string has no name in \<open>TOPOS\<close>. The numbers of every
  cell of the mix are converted, also of those that are not plotted.
\<close>

definition curve_point :: "full_cell \<Rightarrow> (json \<times> int \<times> real) result" where
  "curve_point c = rbind (int_of (fl_rate_rps c)) (\<lambda>rate. Inr (fl_topology c, rate, fl_mean_ttft_ms c))"

definition topo_points :: "(json \<times> int \<times> real) list \<Rightarrow> string \<Rightarrow> (int \<times> real) list" where
  "topo_points points topo = sort (map snd (filter (\<lambda>p. fst p = JStr topo) points))"

record curve =
  cu_topology :: string
  cu_label :: string
  cu_rates :: "int list"
  cu_ttfts :: "real list"

definition curve_of :: "(json \<times> int \<times> real) list \<Rightarrow> string \<Rightarrow> curve" where
  "curve_of points topo =
     (let pts = topo_points points topo
      in \<lparr>cu_topology = topo, cu_label = topo @ '' (n='' @ nat_str (length pts) @ '')'',
          cu_rates = map fst pts, cu_ttfts = map snd pts\<rparr>)"

text \<open>\<open>None\<close> when nothing is plotted.\<close>

definition plot_runpod_full_curves :: "full_cell list \<Rightarrow> string \<Rightarrow> (string \<times> curve list) option result" where
  "plot_runpod_full_curves cells mix =
     (let filtered = filter (\<lambda>c. fl_mix c = JStr mix) cells
      in if filtered = [] then Inr None
         else rbind (rmap curve_point filtered) (\<lambda>points.
                let curves = map (curve_of points) (filter (\<lambda>topo. 2 \<le> length (topo_points points topo)) TOPOS)
                in Inr (if curves = [] then None else Some (''runpod_full_ttft_'' @ mix @ ''.png'', curves))))"

text \<open>What \<open>main\<close> produces: the two charts, the curves, and the files of the table.\<close>

definition figures_main :: "('t \<Rightarrow> json option) \<Rightarrow> (string, 't) odict \<Rightarrow> 't directory option \<Rightarrow> (string, string) odict \<Rightarrow>
    (bar_chart \<times> bar_chart \<times> (string \<times> curve list) option \<times> (string, string) odict) result" where
  "figures_main json_loads real_dir full_dir files =
     rbind (load_results json_loads real_dir) (\<lambda>results.
     rbind (plot_ttft results) (\<lambda>ttft.
     rbind (plot_itl results) (\<lambda>itl.
     rbind (write_cost_table results files) (\<lambda>files1.
     rbind (load_runpod_full_cells json_loads full_dir) (\<lambda>cells.
     rbind (plot_runpod_full_curves cells ''chat'') (\<lambda>curves. Inr (ttft, itl, curves, files1)))))))"

section \<open>The loader and the aggregate\<close>

text \<open>The items of a stored result the loader reads, and a parser that reads back what the codec wrote.\<close>

definition result_items :: "cell_result \<Rightarrow> (string \<times> json) list" where
  "result_items r =
     [(''topology'', JStr (topology_value (cr_topology r))), (''model'', JStr (model_value (cr_model r))),
      (''rate_rps'', JNum (real_of_int (cr_rate_rps r))), (''mix'', JStr (mix_value (cr_mix r))),
      (''mean_ttft_ms'', JNum (cr_mean_ttft_ms r)), (''mean_itl_ms'', JNum (cr_mean_itl_ms r)),
      (''success_rate'', JNum (cr_success_rate r)), (''reconcile_passes'', JBool (cr_reconcile_passes r))]"

definition reads_dumps :: "('t \<Rightarrow> json option) \<Rightarrow> 't codec \<Rightarrow> bool" where
  "reads_dumps J C \<longleftrightarrow>
     (\<forall>r. \<exists>kvs. J (cd_dump C r) = Some (JObj kvs) \<and> (\<forall>(k, v)\<in>set (result_items r). od_get kvs k = Some v))"

definition full_of :: "cell_result \<Rightarrow> full_cell" where
  "full_of r =
     \<lparr>fl_topology = JStr (topology_value (cr_topology r)), fl_model = JStr (model_value (cr_model r)),
      fl_rate_rps = JNum (real_of_int (cr_rate_rps r)), fl_mix = JStr (mix_value (cr_mix r)),
      fl_mean_ttft_ms = cr_mean_ttft_ms r, fl_mean_itl_ms = cr_mean_itl_ms r, fl_success_rate = cr_success_rate r\<rparr>"

text \<open>A file a sweep leaves: the result of a cell, or one of another name that holds no result.\<close>

definition sweep_file :: "'t codec \<Rightarrow> string \<times> 't \<Rightarrow> bool" where
  "sweep_file C f \<longleftrightarrow>
     (case f of (name, t) \<Rightarrow>
        if py_contains ''__rate-'' name then \<exists>r. t = cd_dump C r else cd_validate C t = None)"

lemma read_result:
  assumes "reads_dumps J C"
  obtains kvs where "J (cd_dump C r) = Some (JObj kvs)"
    "jget (JObj kvs) ''reconcile_passes'' = Inr (JBool (cr_reconcile_passes r))" "full_cell_of (JObj kvs) = Inr (full_of r)"
proof -
  obtain kvs where J: "J (cd_dump C r) = Some (JObj kvs)" and
    items: "\<forall>(k, v)\<in>set (result_items r). od_get kvs k = Some v"
    using assms by (auto simp: reads_dumps_def)
  have get: "od_get kvs k = Some v" if "(k, v) \<in> set (result_items r)" for k v using items that by blast
  have items: "od_get kvs ''topology'' = Some (JStr (topology_value (cr_topology r)))"
    "od_get kvs ''model'' = Some (JStr (model_value (cr_model r)))"
    "od_get kvs ''rate_rps'' = Some (JNum (real_of_int (cr_rate_rps r)))" "od_get kvs ''mix'' = Some (JStr (mix_value (cr_mix r)))"
    "od_get kvs ''mean_ttft_ms'' = Some (JNum (cr_mean_ttft_ms r))" "od_get kvs ''mean_itl_ms'' = Some (JNum (cr_mean_itl_ms r))"
    "od_get kvs ''success_rate'' = Some (JNum (cr_success_rate r))"
    "od_get kvs ''reconcile_passes'' = Some (JBool (cr_reconcile_passes r))"
    by (rule get, simp add: result_items_def)+
  show thesis
  proof (rule that [OF J])
    show "jget (JObj kvs) ''reconcile_passes'' = Inr (JBool (cr_reconcile_passes r))" by (simp add: items)
    show "full_cell_of (JObj kvs) = Inr (full_of r)"
      by (simp add: full_cell_of_def jitem_def items float_of_def full_of_def)
  qed
qed

lemma full_cells_results:
  assumes "reads_dumps J C" and "codec_ok C"
  shows "load_files C fs = Inr rs \<Longrightarrow> \<forall>f\<in>set fs. sweep_file C f \<Longrightarrow>
    full_cells J fs = Inr (map full_of (reconciled rs))"
proof (induction fs arbitrary: rs)
  case Nil
  then show ?case by (simp add: reconciled_def)
next
  case (Cons f fs)
  obtain name t where f: "f = (name, t)" by force
  have rest: "\<forall>f\<in>set fs. sweep_file C f" and swf: "sweep_file C (name, t)" using Cons.prems(2) f by auto
  show ?case
  proof (cases "py_contains ''__rate-'' name")
    case False
    then have "cd_validate C t = None" using swf by (simp add: sweep_file_def)
    then have "load_files C fs = Inr rs" using Cons.prems(1) f by simp
    then show ?thesis using Cons.IH [OF _ rest] False f by simp
  next
    case True
    then obtain r where t: "t = cd_dump C r" using swf by (auto simp: sweep_file_def)
    then have r: "cd_validate C t = Some r" using assms(2) by (simp add: codec_ok_def)
    obtain rs' where rs': "load_files C fs = Inr rs'" "rs = r # rs'"
      using Cons.prems(1) f r by (auto simp: rbind_eq_Inr split: if_splits)
    obtain kvs where kvs: "J t = Some (JObj kvs)" "jget (JObj kvs) ''reconcile_passes'' = Inr (JBool (cr_reconcile_passes r))"
      "full_cell_of (JObj kvs) = Inr (full_of r)"
      using read_result [OF assms(1)] t by metis
    show ?thesis using Cons.IH [OF rs'(1) rest] True f kvs rs'(2) by (simp add: reconciled_def del: jget_obj)
  qed
qed

text \<open>
  C39: On a directory a sweep has filled, the figure loader and the aggregator see the same campaign:
  the points offered to the plots are the reconciled results of the aggregate, each once, and the
  summary file and unreconciled cells contribute nothing.
\<close>

theorem figures_see_aggregate:
  assumes "reads_dumps J C" and "codec_ok C" and "\<forall>f\<in>set (json_files d). sweep_file C f"
    and "aggregate C d = Inr results"
  shows "\<exists>cells. load_runpod_full_cells J (Some d) = Inr cells \<and> mset cells = mset (map full_of (reconciled results))"
proof -
  obtain rs where rs: "load_files C (sort_key fst (json_files d)) = Inr rs" "results = sort_key cr_cell_id rs"
    using assms(4) by (auto simp: aggregate_def Let_def rbind_eq_Inr split: if_splits)
  have "full_cells J (sort_key fst (json_files d)) = Inr (map full_of (reconciled rs))"
    using full_cells_results [OF assms(1,2) rs(1)] assms(3) by simp
  moreover have "mset (map full_of (reconciled rs)) = mset (map full_of (reconciled results))"
    by (simp add: reconciled_def rs(2) mset_map mset_filter)
  ultimately show ?thesis by (simp add: load_runpod_full_cells_def)
qed

text \<open>The codec of the examples with its results read as JSON objects.\<close>

definition plain_json :: "cell_result option \<Rightarrow> json option" where
  "plain_json t = map_option (\<lambda>r. JObj (result_items r)) t"

lemma plain_json_reads: "reads_dumps plain_json plain_codec"
  by (simp add: reads_dumps_def plain_json_def plain_codec_def result_items_def)

text \<open>Two cells, one of them unreconciled, and a summary.\<close>

definition ex_sweep_dir :: "cell_result option directory" where
  "ex_sweep_dir =
     [(sink_path ''disagg__rate-4'', Some (ex_result ''disagg__rate-4'' TOPO_DISAGG True 5)), (''summary.json'', None),
      (sink_path ''chunked__rate-4'', Some (ex_result ''chunked__rate-4'' TOPO_CHUNKED False 0))]"

lemma ex_sweep_json: "json_files ex_sweep_dir = ex_sweep_dir"
  by (simp add: json_files_def ex_sweep_dir_def is_json_def sink_path_def)

lemma ex_sweep_aggregate: "aggregate plain_codec ex_sweep_dir =
  Inr [ex_result ''chunked__rate-4'' TOPO_CHUNKED False 0, ex_result ''disagg__rate-4'' TOPO_DISAGG True 5]"
  unfolding aggregate_def ex_sweep_json Let_def
  by (simp add: ex_sweep_dir_def sink_path_def plain_codec_def stem_def ex_result_def)

theorem figures_see_aggregate_witness:
  "\<exists>cells. load_runpod_full_cells plain_json (Some ex_sweep_dir) = Inr cells
     \<and> mset cells = {#full_of (ex_result ''disagg__rate-4'' TOPO_DISAGG True 5)#}"
proof -
  have "\<forall>f\<in>set (json_files ex_sweep_dir). sweep_file plain_codec f"
    unfolding ex_sweep_json by (simp add: ex_sweep_dir_def sink_path_def sweep_file_def plain_codec_def)
  from figures_see_aggregate [OF plain_json_reads plain_codec_ok this ex_sweep_aggregate] show ?thesis
    by (simp add: reconciled_def ex_result_def)
qed

section \<open>What is on a curve\<close>

lemma curve_points_Inr:
  "rmap curve_point cs = Inr points \<Longrightarrow>
     points = map (\<lambda>c. (fl_topology c, projr (int_of (fl_rate_rps c)), fl_mean_ttft_ms c)) cs"
  by (induction cs arbitrary: points) (auto simp: rbind_eq_Inr curve_point_def)

text \<open>
  A curve is drawn for exactly the topologies with two reconciled cells of the mix. Its points are the
  rates and mean latencies of those cells, each once, in order of increasing rate; when no
  topology has two cells nothing is plotted.
\<close>

theorem curves_show_cells:
  assumes "plot_runpod_full_curves cells mix = Inr plot"
  defines "pts \<equiv> \<lambda>topo. map (\<lambda>c. (projr (int_of (fl_rate_rps c)), fl_mean_ttft_ms c))
    (filter (\<lambda>c. fl_mix c = JStr mix \<and> fl_topology c = JStr topo) cells)"
  shows "case plot of
      None \<Rightarrow> \<forall>topo\<in>set TOPOS. length (pts topo) < 2
    | Some (file, curves) \<Rightarrow>
        map cu_topology curves = filter (\<lambda>topo. 2 \<le> length (pts topo)) TOPOS \<and> curves \<noteq> [] \<and>
        (\<forall>cu\<in>set curves. sorted (cu_rates cu) \<and> length (cu_rates cu) = length (cu_ttfts cu) \<and>
           mset (zip (cu_rates cu) (cu_ttfts cu)) = mset (pts (cu_topology cu)))"
proof (cases "filter (\<lambda>c. fl_mix c = JStr mix) cells = []")
  case True
  then have none: "pts topo = []" for topo by (auto simp: pts_def filter_empty_conv)
  have "plot = None" using assms(1) True by (simp add: plot_runpod_full_curves_def)
  then show ?thesis using none by simp
next
  case False
  then obtain points where points: "rmap curve_point (filter (\<lambda>c. fl_mix c = JStr mix) cells) = Inr points"
    and plot: "plot = (let curves = map (curve_of points) (filter (\<lambda>topo. 2 \<le> length (topo_points points topo)) TOPOS)
                in if curves = [] then None else Some (''runpod_full_ttft_'' @ mix @ ''.png'', curves))"
    using assms(1) by (auto simp: plot_runpod_full_curves_def rbind_eq_Inr Let_def split: if_splits)
  have topo: "topo_points points topo = sort (pts topo)" for topo
    unfolding topo_points_def curve_points_Inr [OF points] pts_def
    by (simp add: filter_map comp_def conj_commute)
  have len: "length (topo_points points topo) = length (pts topo)" for topo by (simp add: topo)
  have sorted_fst: "sorted (map fst (sort xs))" for xs :: "(int \<times> real) list"
  proof -
    have "sorted_wrt (\<lambda>x y. fst x \<le> fst y) (sort xs)"
      by (rule sorted_wrt_mono_rel [of _ "(\<le>)"]) (auto simp: less_eq_prod_def)
    then show ?thesis by (simp add: sorted_map)
  qed
  have cu: "cu_topology (curve_of points topo) = topo \<and> sorted (cu_rates (curve_of points topo)) \<and>
      length (cu_rates (curve_of points topo)) = length (cu_ttfts (curve_of points topo)) \<and>
      mset (zip (cu_rates (curve_of points topo)) (cu_ttfts (curve_of points topo))) = mset (pts topo)" for topo
    using sorted_fst by (simp add: curve_of_def Let_def topo zip_map_fst_snd)
  show ?thesis
  proof (cases "filter (\<lambda>topo. 2 \<le> length (pts topo)) TOPOS = []")
    case True
    then have "plot = None" using plot len by simp
    then show ?thesis using True by (auto simp: filter_empty_conv not_le)
  next
    case False
    then have "plot = Some (''runpod_full_ttft_'' @ mix @ ''.png'', map (curve_of points) (filter (\<lambda>topo. 2 \<le> length (pts topo)) TOPOS))"
      using plot len by (simp add: Let_def)
    then show ?thesis using cu False by (simp add: comp_def)
  qed
qed

definition ex_full_cell :: "string \<Rightarrow> real \<Rightarrow> real \<Rightarrow> full_cell" where
  "ex_full_cell topo rate ttft =
     \<lparr>fl_topology = JStr topo, fl_model = JStr ''m'', fl_rate_rps = JNum rate, fl_mix = JStr ''chat'', fl_mean_ttft_ms = ttft,
      fl_mean_itl_ms = 1, fl_success_rate = 1\<rparr>"

lemma ex_curves:
  "plot_runpod_full_curves [ex_full_cell ''disagg'' 8 70, ex_full_cell ''chunked'' 4 60, ex_full_cell ''disagg'' 4 50] ''chat'' =
     Inr (Some (''runpod_full_ttft_chat.png'',
       [\<lparr>cu_topology = ''disagg'', cu_label = ''disagg (n=2)'', cu_rates = [4, 8], cu_ttfts = [50, 70]\<rparr>]))"
proof -
  have "nat_str 2 = ''2''" by code_simp
  moreover have "py_int 8 = 8" "py_int 4 = 4" using py_int_of_int [of 8] py_int_of_int [of 4] by simp_all
  ultimately show ?thesis
    by (simp add: plot_runpod_full_curves_def ex_full_cell_def curve_point_def int_of_def TOPOS_def topo_points_def
        curve_of_def eval_nat_numeral)
qed

theorem curves_show_cells_witness:
  "mset (zip [4, 8] [50, 70]) = mset (map (\<lambda>c. (projr (int_of (fl_rate_rps c)), fl_mean_ttft_ms c))
    (filter (\<lambda>c. fl_mix c = JStr ''chat'' \<and> fl_topology c = JStr ''disagg'')
      [ex_full_cell ''disagg'' 8 70, ex_full_cell ''chunked'' 4 60, ex_full_cell ''disagg'' 4 50]))"
  using curves_show_cells [OF ex_curves] by (simp add: ex_full_cell_def int_of_def add_mset_commute)

section \<open>Cost\<close>

text \<open>The cost is linear in the replicas, and two GPUs give the disaggregated topologies twice the cost of the colocated one.\<close>

lemma cost_linear: "cost_per_million_tokens n = real_of_int n * cost_per_million_tokens 1"
  by (simp add: cost_per_million_tokens_def)

text \<open>
  The formula of the module's documentation, \<open>($/hr \<times> replicas) / (3600 \<times> tok/s \<times> 1_000_000 / 1_000_000)\<close>, is the cost of one
  token; what the code computes is a million times that.
\<close>

lemma documented_cost_per_token:
  "cost_per_million_tokens n =
     1000000 * (H100_SXM_SPOT_USD_PER_HR * real_of_int n / (3600 * TOKENS_PER_SEC_PER_H100 * 1000000 / 1000000))"
  by (simp add: cost_per_million_tokens_def TOKENS_PER_SEC_PER_H100_def H100_SXM_SPOT_USD_PER_HR_def)

end
