(* ===== verification/KvFigures.thy ===== *)
theory KvFigures
  imports KvCampaign Figures
begin

text \<open>
  \<open>bench/kv_scaling/figures.py\<close>: the plotter of a KV-cache campaign. The loaders take the parsed JSON of \<open>cells.json\<close>
  (or the legacy pair) with a default for every column; a plot is the data handed to \<open>matplotlib\<close>; the
  markdown summary is its lines. \<open>shown\<close> is \<open>str()\<close> of a JSON value that is not a string. The lemmas show that what
  the study writes is what the plotter reads, and what the gate on the parity plot refuses.
\<close>

section \<open>Formats\<close>

text \<open>\<open>f"{x:,.kf}"\<close> and \<open>f"{i:,}"\<close>; the dash of the titles is written as its UTF-8 bytes.\<close>

fun comma_rev :: "string \<Rightarrow> string" where
  "comma_rev (a # b # c # d # s) = a # b # c # CHR '','' # comma_rev (d # s)"
| "comma_rev s = s"

definition comma_group :: "string \<Rightarrow> string" where
  "comma_group s = rev (comma_rev (rev s))"

definition comma_int :: "int \<Rightarrow> string" where
  "comma_int i = (if i < 0 then ''-'' else []) @ comma_group (nat_str (nat \<bar>i\<bar>))"

definition comma_fixed :: "nat \<Rightarrow> real \<Rightarrow> string" where
  "comma_fixed k x =
     (let s = fixed_str k \<bar>x\<bar>;
          whole = takeWhile (\<lambda>c. c \<noteq> CHR ''.'') s;
          frac = dropWhile (\<lambda>c. c \<noteq> CHR ''.'') s
      in (if x < 0 then ''-'' else []) @ comma_group whole @ frac)"

definition em_dash :: string where
  "em_dash = [CHR 0xE2, CHR 0x80, CHR 0x94]"

section \<open>Data\<close>

definition GIB :: real where "GIB = 1024 ^ 3"

definition GPU_RAM_BYTES :: "(string, real) odict" where
  "GPU_RAM_BYTES =
     [(''H100 SXM'', 80 * GIB), (''H100 NVL'', 94 * GIB), (''A100 80GB'', 80 * GIB), (''A100 40GB'', 40 * GIB),
      (''B200'', 192 * GIB), (''L40S'', 48 * GIB)]"

definition DEFAULT_GPU_RAM_BYTES :: real where "DEFAULT_GPU_RAM_BYTES = 80 * GIB"

record fig_cell =
  fc_model_id :: string
  fc_model_revision :: string
  fc_gpu :: string
  fc_vllm_version :: string
  fc_seq_len :: int
  fc_batch_size :: int
  fc_n_samples :: int
  fc_p50_alloc_bytes :: real
  fc_p95_alloc_bytes :: real
  fc_baseline_bytes :: real
  fc_total_tokens :: int
  fc_theory_bytes_per_token :: real
  fc_measured_bytes_per_token :: "real option"
  fc_method :: string

record fig_summary =
  fs_campaign_id :: string
  fs_measured_date :: string
  fs_slope_bytes_per_token :: "real option"
  fs_intercept_bytes :: "real option"
  fs_r2 :: "real option"
  fs_knee_total_tokens_by_batch :: "(string, int) odict"
  fs_notes :: string

record fig_campaign =
  fg_cells :: "fig_cell list"
  fg_summary :: fig_summary

record parity_point =
  pp_theory_bpt :: real
  pp_measured_slope_bpt :: real
  pp_campaign_id :: string

record theory_check =
  tc_measured :: real
  tc_theory :: real
  tc_within_tol :: bool

section \<open>Loading\<close>

text \<open>
  The code turns a value into text and parses the text; a number's text parses back to the number, so
  the text of a value is the value itself here. \<open>get_text\<close> is \<open>_get\<close>: a missing or false value is the empty text.
\<close>

definition text_of :: "(json \<Rightarrow> string) \<Rightarrow> json \<Rightarrow> string" where
  "text_of shown v = (case v of JStr s \<Rightarrow> s | _ \<Rightarrow> shown v)"

definition get_text :: "(string, json) odict \<Rightarrow> string \<Rightarrow> json" where
  "get_text row key = (case od_get row key of None \<Rightarrow> JStr [] | Some v \<Rightarrow> if truthy v then v else JStr [])"

definition blank :: "json \<Rightarrow> bool" where
  "blank v = (case v of JStr s \<Rightarrow> py_strip s = [] | _ \<Rightarrow> False)"

definition float_text :: "json \<Rightarrow> real option" where
  "float_text v = (case v of JStr s \<Rightarrow> py_float s | JNum x \<Rightarrow> Some x | _ \<Rightarrow> None)"

definition f_or :: "json \<Rightarrow> real \<Rightarrow> real" where
  "f_or v d = (if blank v then d else case float_text v of None \<Rightarrow> d | Some x \<Rightarrow> x)"

definition i_or :: "json \<Rightarrow> int \<Rightarrow> int" where
  "i_or v d = (if blank v then d else case float_text v of None \<Rightarrow> d | Some x \<Rightarrow> py_int x)"

definition opt_float :: "(string, json) odict \<Rightarrow> string \<Rightarrow> real option" where
  "opt_float data key =
     (case od_get data key of
        None \<Rightarrow> None
      | Some v \<Rightarrow> if v = JNull \<or> blank v then None else (case float_of v of Inl e \<Rightarrow> None | Inr x \<Rightarrow> Some x))"

definition campaign_theory :: "fig_cell list \<Rightarrow> real" where
  "campaign_theory cells =
     (let vals = filter (\<lambda>x. 0 < x) (map fc_theory_bytes_per_token cells)
      in if vals \<noteq> [] then sum_list vals / real (length vals) else 0)"

text \<open>\<open>a or b\<close> on two texts\<close>

definition text_or :: "json \<Rightarrow> json \<Rightarrow> json" where
  "text_or a b = (if a = JStr [] then b else a)"

definition cell_from_row :: "(json \<Rightarrow> string) \<Rightarrow> (string, json) odict \<Rightarrow> real \<Rightarrow> string \<Rightarrow> fig_cell" where
  "cell_from_row shown row fallback_theory fallback_revision =
     (let measured_raw = get_text row ''measured_bytes_per_token'';
          revision = text_of shown (get_text row ''model_revision'')
      in \<lparr>fc_model_id = text_of shown (get_text row ''model_id''),
          fc_model_revision = (if revision = [] then fallback_revision else revision),
          fc_gpu = text_of shown (get_text row ''gpu''),
          fc_vllm_version = text_of shown (get_text row ''vllm_version''),
          fc_seq_len = i_or (get_text row ''seq_len'') 0,
          fc_batch_size = i_or (get_text row ''batch_size'') 0,
          fc_n_samples = i_or (get_text row ''n_samples'') 0,
          fc_p50_alloc_bytes = f_or (text_or (get_text row ''p50_alloc_bytes'') (get_text row ''p50_bytes'')) 0,
          fc_p95_alloc_bytes = f_or (text_or (get_text row ''p95_alloc_bytes'') (get_text row ''p95_bytes'')) 0,
          fc_baseline_bytes = f_or (get_text row ''baseline_bytes'') 0,
          fc_total_tokens = i_or (get_text row ''total_tokens'') 0,
          fc_theory_bytes_per_token = f_or (get_text row ''theory_bytes_per_token'') fallback_theory,
          fc_measured_bytes_per_token = (if blank measured_raw then None else Some (f_or measured_raw 0)),
          fc_method = text_of shown (get_text row ''method'')\<rparr>)"

text \<open>\<open>x.get\<close> and \<open>x.items\<close> exist on dictionaries only.\<close>

definition obj_of :: "json \<Rightarrow> (string, json) odict result" where
  "obj_of v = (case v of JObj kvs \<Rightarrow> Inr kvs | _ \<Rightarrow> Inl AttributeError)"

definition obj_or_empty :: "json option \<Rightarrow> (string, json) odict result" where
  "obj_or_empty v = (case v of None \<Rightarrow> Inr [] | Some x \<Rightarrow> if truthy x then obj_of x else Inr [])"

definition str_get :: "(json \<Rightarrow> string) \<Rightarrow> (string, json) odict \<Rightarrow> string \<Rightarrow> string" where
  "str_get shown data key = (case od_get data key of None \<Rightarrow> [] | Some v \<Rightarrow> text_of shown v)"

definition summary_from_legacy :: "(json \<Rightarrow> string) \<Rightarrow> (string, json) odict \<Rightarrow> fig_summary result" where
  "summary_from_legacy shown data =
     rbind (obj_or_empty (od_get data ''knee_total_tokens_by_batch'')) (\<lambda>knees.
       Inr \<lparr>fs_campaign_id = str_get shown data ''campaign_id'', fs_measured_date = str_get shown data ''measured_date'',
            fs_slope_bytes_per_token = opt_float data ''slope_bytes_per_token'',
            fs_intercept_bytes = opt_float data ''intercept_bytes'', fs_r2 = opt_float data ''r2'',
            fs_knee_total_tokens_by_batch =
              fold (\<lambda>(k, v) knee. case int_of v of Inl e \<Rightarrow> knee | Inr n \<Rightarrow> od_set k n knee) knees [],
            fs_notes = str_get shown data ''notes''\<rparr>)"

definition load_campaign :: "(json \<Rightarrow> string) \<Rightarrow> (string, json) odict list \<Rightarrow> json \<Rightarrow> fig_campaign result" where
  "load_campaign shown rows payload =
     rbind (obj_of payload) (\<lambda>data.
     rbind (summary_from_legacy shown data) (\<lambda>summary.
       let fallback_theory = f_or (get_text data ''theory_bytes_per_token'') 0;
           fallback_revision = text_of shown (get_text data ''model_revision'')
       in Inr \<lparr>fg_cells = map (\<lambda>row. cell_from_row shown row fallback_theory fallback_revision) rows, fg_summary = summary\<rparr>))"

definition coerce_theory_check :: "json \<Rightarrow> theory_check result" where
  "coerce_theory_check raw =
     rbind (jget_or raw ''measured'' (JNum 0)) (\<lambda>m. rbind (float_of m) (\<lambda>measured.
     rbind (jget_or raw ''theory'' (JNum 0)) (\<lambda>t. rbind (float_of t) (\<lambda>theory.
     rbind (jget_or raw ''within_tol'' (JBool False)) (\<lambda>w.
       Inr \<lparr>tc_measured = measured, tc_theory = theory, tc_within_tol = truthy w\<rparr>)))))"

text \<open>
  \<open>dict(row)\<close>; a list of pairs, which Python would take too, is not expected here.
\<close>

definition dict_of :: "json \<Rightarrow> (string, json) odict result" where
  "dict_of row =
     (case row of
        JObj kvs \<Rightarrow> Inr kvs
      | JList xs \<Rightarrow> if xs = [] then Inr [] else Inl ValueError
      | JStr s \<Rightarrow> if s = [] then Inr [] else Inl ValueError
      | _ \<Rightarrow> Inl TypeError)"

definition rows_of :: "json option \<Rightarrow> json list result" where
  "rows_of v =
     (case v of
        None \<Rightarrow> Inr []
      | Some x \<Rightarrow>
          if \<not> truthy x then Inr []
          else (case x of
                  JList rows \<Rightarrow> Inr rows
                | JObj kvs \<Rightarrow> Inr (map (\<lambda>kv. JStr (fst kv)) kvs)
                | JStr s \<Rightarrow> Inr (map (\<lambda>c. JStr [c]) s)
                | _ \<Rightarrow> Inl TypeError))"

definition knee_of :: "(json \<Rightarrow> string) \<Rightarrow> (string, json) odict \<Rightarrow> (string, int) odict result" where
  "knee_of shown knee_data =
     (case od_get knee_data ''total_tokens'' of
        None \<Rightarrow> Inr []
      | Some JNull \<Rightarrow> Inr []
      | Some v \<Rightarrow>
          rbind (int_of v) (\<lambda>tokens.
            Inr [(case od_get knee_data ''batch_size'' of
                    None \<Rightarrow> ''pooled'' | Some JNull \<Rightarrow> ''pooled'' | Some b \<Rightarrow> text_of shown b, tokens)]))"

definition load_campaign_from_json :: "(json \<Rightarrow> string) \<Rightarrow> json \<Rightarrow> (fig_campaign \<times> theory_check option) result" where
  "load_campaign_from_json shown payload =
     rbind (jget_or payload ''campaign'' payload) (\<lambda>campaign.
     rbind (obj_of campaign) (\<lambda>data.
     let theory = f_or (get_text data ''theory_bytes_per_token'') 0;
         revision = text_of shown (get_text data ''model_revision'')
     in rbind (obj_or_empty (od_get data ''regression'')) (\<lambda>reg.
        rbind (obj_or_empty (od_get data ''knee'')) (\<lambda>knee_data.
        rbind (knee_of shown knee_data) (\<lambda>knee.
        let summary = \<lparr>fs_campaign_id = str_get shown data ''campaign_id'', fs_measured_date = str_get shown data ''measured_date'',
                       fs_slope_bytes_per_token = opt_float reg ''slope_bpt'',
                       fs_intercept_bytes = opt_float reg ''intercept_bytes'', fs_r2 = opt_float reg ''r2'',
                       fs_knee_total_tokens_by_batch = knee, fs_notes = str_get shown data ''notes''\<rparr>
        in rbind (rows_of (od_get data ''cells'')) (\<lambda>raw_rows.
           rbind (rmap dict_of raw_rows) (\<lambda>rows.
           rbind (case od_get data ''theory_check'' of
                    None \<Rightarrow> Inr None
                  | Some JNull \<Rightarrow> Inr None
                  | Some raw \<Rightarrow> rbind (coerce_theory_check raw) (\<lambda>c. Inr (Some c))) (\<lambda>check.
             Inr (\<lparr>fg_cells = map (\<lambda>row. cell_from_row shown row theory revision) rows, fg_summary = summary\<rparr>, check)))))))))"

section \<open>Captions\<close>

definition diff_pct :: "theory_check \<Rightarrow> real" where
  "diff_pct c = (if tc_theory c \<noteq> 0 then \<bar>tc_measured c - tc_theory c\<bar> / tc_theory c * 100 else 0)"

definition theory_check_caption :: "theory_check \<Rightarrow> string" where
  "theory_check_caption c =
     ''theory check: PASS (measured '' @ comma_fixed 0 (tc_measured c) @ '' vs predicted '' @ comma_fixed 0 (tc_theory c)
       @ '', '' @ fixed_str 1 (diff_pct c) @ ''% diff)''"

definition title_context :: "fig_cell list \<Rightarrow> fig_summary \<Rightarrow> string" where
  "title_context cells summary =
     (let model = (case cells of [] \<Rightarrow> ''unknown-model'' | c # cs \<Rightarrow> fc_model_id c);
          revision = (case cells of [] \<Rightarrow> [] | c # cs \<Rightarrow> fc_model_revision c);
          model_label = (if revision \<noteq> [] then model @ '' (rev '' @ revision @ '')'' else model);
          gpu = (case cells of [] \<Rightarrow> ''unknown-gpu'' | c # cs \<Rightarrow> fc_gpu c);
          vllm = (case cells of [] \<Rightarrow> ''unknown-vllm'' | c # cs \<Rightarrow> fc_vllm_version c);
          n = sum_list (map fc_n_samples cells);
          methods = sort (remdups (filter (\<lambda>m. m \<noteq> []) (map fc_method cells)));
          method = (if methods \<noteq> [] then joined ''/'' methods else ''unknown-method'')
      in model_label @ '' on '' @ gpu @ '', vLLM '' @ vllm @ '', n='' @ int_str n @ '', method='' @ method
           @ '' ('' @ fs_campaign_id summary @ '')'')"

fun gpu_lookup :: "string \<Rightarrow> (string, real) odict \<Rightarrow> real \<times> bool" where
  "gpu_lookup gpu [] = (DEFAULT_GPU_RAM_BYTES, True)"
| "gpu_lookup gpu ((name, ram) # table) =
     (if py_contains (py_lower name) (py_lower gpu) then (ram, False) else gpu_lookup gpu table)"

definition gpu_ram_bytes :: "string \<Rightarrow> real \<times> bool" where
  "gpu_ram_bytes gpu = gpu_lookup gpu GPU_RAM_BYTES"

section \<open>The plots\<close>

text \<open>Cells by batch size, the batches in order, the cells of one sorted by a key.\<close>

definition batches_of :: "fig_cell list \<Rightarrow> int list" where
  "batches_of cells = sort (remdups (map fc_batch_size cells))"

definition batch_cells :: "(fig_cell \<Rightarrow> int) \<Rightarrow> fig_cell list \<Rightarrow> int \<Rightarrow> fig_cell list" where
  "batch_cells key cells b = sort_key key (filter (\<lambda>c. fc_batch_size c = b) cells)"

record error_series =
  es_label :: string
  es_xs :: "int list"
  es_ys :: "real list"
  es_yerr :: "real list"

record seqlen_plot =
  sq_series :: "error_series list"
  sq_theory_line :: "(real \<times> string) option"
  sq_title :: string

definition plot_bytes_per_token_vs_seqlen :: "fig_cell list \<Rightarrow> fig_summary \<Rightarrow> seqlen_plot" where
  "plot_bytes_per_token_vs_seqlen cells summary =
     (let theory = campaign_theory cells
      in \<lparr>sq_series = map (\<lambda>b. let pts = batch_cells fc_seq_len cells b in
            \<lparr>es_label = ''batch='' @ int_str b, es_xs = map fc_seq_len pts,
             es_ys = map (\<lambda>c. case fc_measured_bytes_per_token c of Some m \<Rightarrow> m | None \<Rightarrow> fc_theory_bytes_per_token c) pts,
             es_yerr = map (\<lambda>c. max (fc_p95_alloc_bytes c - fc_p50_alloc_bytes c) 0 / real_of_int (max (fc_total_tokens c) 1)) pts\<rparr>)
            (batches_of cells),
          sq_theory_line = (if 0 < theory then Some (theory, ''theory '' @ comma_fixed 0 theory @ '' B/tok'') else None),
          sq_title = ''KV bytes/token vs sequence length '' @ em_dash @ '' '' @ title_context cells summary\<rparr>)"

record ram_plot =
  rp_series :: "(string \<times> int list \<times> real list) list"
  rp_knees :: "(string \<times> int) list"
  rp_ylabel :: string
  rp_title :: string

definition ram_label :: "real \<times> bool \<Rightarrow> string" where
  "ram_label ram = fixed_str 0 (fst ram / GIB) @ '' GiB'' @ (if snd ram then '' (assumed)'' else [])"

definition knee_items :: "fig_summary \<Rightarrow> (string \<times> int) list" where
  "knee_items summary = sort_key fst (fs_knee_total_tokens_by_batch summary)"

definition plot_kv_fraction_of_gpu_ram :: "fig_cell list \<Rightarrow> fig_summary \<Rightarrow> ram_plot" where
  "plot_kv_fraction_of_gpu_ram cells summary =
     (let ram = gpu_ram_bytes (case cells of [] \<Rightarrow> [] | c # cs \<Rightarrow> fc_gpu c)
      in \<lparr>rp_series = map (\<lambda>b. let pts = batch_cells fc_total_tokens cells b in
            (''batch='' @ int_str b, map fc_total_tokens pts,
             map (\<lambda>c. 100 * fc_theory_bytes_per_token c * real_of_int (fc_total_tokens c) / fst ram) pts)) (batches_of cells),
          rp_knees = map (\<lambda>(batch_key, knee). (''knee b='' @ batch_key, knee)) (knee_items summary),
          rp_ylabel = ''KV share of GPU RAM ('' @ ram_label ram @ '', %)'',
          rp_title = ''KV share of GPU RAM vs context tokens '' @ em_dash @ '' '' @ title_context cells summary\<rparr>)"

record parity_plot =
  py_points :: "(real \<times> real) list"
  py_axis :: "real \<times> real"
  py_bands :: "(real \<times> real) list"
  py_labels :: "(string \<times> real \<times> real) list"
  py_footer :: string

text \<open>\<open>TheoryCheckFailed\<close> is a \<open>ValueError\<close>.\<close>

definition parity_axis :: "real list \<Rightarrow> real list \<Rightarrow> real \<times> real" where
  "parity_axis xs ys =
     (let lo = min (Min (set xs)) (Min (set ys)); hi = max (Max (set xs)) (Max (set ys))
      in if lo = hi then (lo * (8 / 10), hi * (12 / 10))
         else let pad = 1 / 10 * (hi - lo) in (lo - pad, hi + pad))"

definition plot_theory_vs_measured :: "parity_point list \<Rightarrow> string \<Rightarrow> theory_check option \<Rightarrow> parity_plot result" where
  "plot_theory_vs_measured points ctx check =
     (if (case check of None \<Rightarrow> False | Some c \<Rightarrow> \<not> tc_within_tol c) then Inl ValueError
      else if points = [] then Inl ValueError
      else let xs = map pp_theory_bpt points; ys = map pp_measured_slope_bpt points; axis = parity_axis xs ys
           in Inr \<lparr>py_points = zip xs ys, py_axis = axis,
                   py_bands = [(9 / 10 * fst axis, 9 / 10 * snd axis), (11 / 10 * fst axis, 11 / 10 * snd axis)],
                   py_labels = (if length points \<le> 8
                                then map (\<lambda>p. (pp_campaign_id p, pp_theory_bpt p, pp_measured_slope_bpt p)) points else []),
                   py_footer = (case check of None \<Rightarrow> ctx | Some c \<Rightarrow> ctx @ [CHR 0x0A] @ theory_check_caption c)\<rparr>)"

section \<open>The summary\<close>

definition opt_text :: "(real \<Rightarrow> string) \<Rightarrow> real option \<Rightarrow> string" where
  "opt_text f v = (case v of None \<Rightarrow> ''n/a'' | Some x \<Rightarrow> f x)"

definition knee_line :: "fig_cell list \<Rightarrow> real \<Rightarrow> string \<times> int \<Rightarrow> string" where
  "knee_line cells ram knee =
     (let kv_gib = (if cells \<noteq> [] then campaign_theory cells * real_of_int (snd knee) / GIB else 0)
      in ''| '' @ fst knee @ '' | '' @ comma_int (snd knee) @ '' | '' @ fixed_str 2 kv_gib @ '' | ''
           @ fixed_str 1 (100 * kv_gib * GIB / ram) @ ''% |'')"

definition cell_line :: "fig_cell \<Rightarrow> string" where
  "cell_line c =
     (let measured = opt_text (comma_fixed 1) (fc_measured_bytes_per_token c);
          ratio = (case fc_measured_bytes_per_token c of
                     None \<Rightarrow> ''n/a''
                   | Some m \<Rightarrow> if m \<noteq> 0 \<and> fc_theory_bytes_per_token c \<noteq> 0
                               then fixed_str 3 (m / fc_theory_bytes_per_token c) else ''n/a'')
      in ''| '' @ comma_int (fc_seq_len c) @ '' | '' @ int_str (fc_batch_size c) @ '' | '' @ int_str (fc_n_samples c) @ '' | ''
           @ fixed_str 3 (fc_p50_alloc_bytes c / GIB) @ '' | ''
           @ fixed_str 2 (max (fc_p95_alloc_bytes c - fc_p50_alloc_bytes c) 0 / 1024 ^ 2) @ '' | ''
           @ measured @ '' | '' @ comma_fixed 1 (fc_theory_bytes_per_token c) @ '' | '' @ ratio @ '' |'')"

definition campaign_lines :: "fig_campaign \<Rightarrow> string list" where
  "campaign_lines g =
     (let cells = fg_cells g; summary = fg_summary g;
          ram = gpu_ram_bytes (case cells of [] \<Rightarrow> ''unknown'' | c # cs \<Rightarrow> fc_gpu c)
      in [''# KV-cache scaling '' @ em_dash @ '' '' @ (case cells of [] \<Rightarrow> ''unknown'' | c # cs \<Rightarrow> fc_model_id c), []] @
         (case cells of
            [] \<Rightarrow> []
          | c # cs \<Rightarrow> if fc_model_revision c \<noteq> []
                       then [''Model revision: '' @ [CHR 0x60] @ fc_model_revision c @ [CHR 0x60], []] else []) @
         [''## Campaign'', [], ''| Field | Value |'', ''|-------|-------|'',
          ''| Campaign | '' @ fs_campaign_id summary @ '' |'', ''| Measured | '' @ fs_measured_date summary @ '' |'',
          ''| Context | '' @ title_context cells summary @ '' |'', ''| Cells | '' @ nat_str (length cells) @ '' |'',
          ''| GPU RAM | '' @ fixed_str 0 (fst ram / GIB) @ '' GiB''
            @ (if snd ram then '' (assumed, not in lookup table)'' else '' (from lookup table)'') @ '' |'', []])"

definition regression_lines :: "fig_summary \<Rightarrow> string list" where
  "regression_lines summary =
     [''## Regression'', [],
      ''Slope (measured bytes/token): '' @ opt_text (comma_fixed 1) (fs_slope_bytes_per_token summary), [],
      ''Intercept: '' @ opt_text (comma_fixed 1) (fs_intercept_bytes summary) @ '' bytes; R^2 = ''
        @ opt_text (fixed_str 4) (fs_r2 summary) @ ''.'', [],
      ''The parity plot (theory_vs_measured.png) draws +/-10% bands around y=x: points inside the bands agree with theory within measurement noise. The parity plot only renders when the measured-vs-theory cross-check passed; a failed check raises instead of plotting.'', []]"

definition knee_lines :: "fig_campaign \<Rightarrow> string list" where
  "knee_lines g =
     (let cells = fg_cells g; ram = fst (gpu_ram_bytes (case cells of [] \<Rightarrow> ''unknown'' | c # cs \<Rightarrow> fc_gpu c))
      in [''## Knee (tokens where KV pressure dominates)'', []] @
         (if fs_knee_total_tokens_by_batch (fg_summary g) \<noteq> []
          then [''| Batch | Knee total tokens | KV at knee (GiB) | Share of GPU RAM |'',
                ''|-------|-------------------|------------------|------------------|''] @
               map (knee_line cells ram) (knee_items (fg_summary g))
          else [''No knee markers recorded for this campaign.'']) @ [[]])"

definition cells_lines :: "fig_cell list \<Rightarrow> string list" where
  "cells_lines cells =
     [''## Cells'', [],
      ''| seq_len | batch | n | p50 alloc (GiB) | p95-p50 (MiB) | measured B/tok | theory B/tok | ratio |'',
      ''|---------|-------|---|---------------|----------------|----------------|--------------|-------|''] @
     map cell_line (sort_key (\<lambda>c. (fc_batch_size c, fc_seq_len c)) cells) @ [[]]"

definition closing_lines :: "string list" where
  "closing_lines =
     [''## Method'', [],
      ''Each cell records GPU allocated bytes (p50 and p95 over n samples) for a fixed (model, seq_len, batch) point, minus a baseline allocation measured with the same engine and no KV cache. Per-cell incremental measured bytes/token = (p50_alloc - baseline) / total_tokens. The campaign regression fits allocated bytes against total context tokens across all cells; its slope is the headline measured bytes/token and is plotted against the theoretical 2 x layers x kv_heads x head_dim x bytes_per_element value in theory_vs_measured.png.'', [],
      ''## Limits'', [],
      ''These numbers describe this campaign only. They are not generalized to other models, GPUs, or vLLM versions: KV layout, block size, and allocator behavior are all engine-version dependent. Cells whose measured_bytes_per_token is empty contribute to the regression through theory only. GPU RAM totals come from a lookup table and are marked assumed where the GPU was not recognized.'', [],
      ''## Plots'', [], ''- kv_bytes_per_token_vs_seqlen.png'', ''- kv_fraction_of_gpu_ram.png'', ''- theory_vs_measured.png'', []]"

definition write_kv_scaling_summary :: "fig_campaign \<Rightarrow> string" where
  "write_kv_scaling_summary g =
     joined [CHR 0x0A] (campaign_lines g @ regression_lines (fg_summary g) @ knee_lines g @ cells_lines (fg_cells g) @ closing_lines)"

section \<open>Main\<close>

text \<open>The candidates are the \<open>cells.json\<close> files with their modification times, in the order of the directory.\<close>

definition newest_campaign_json :: "(real \<times> 't) list option \<Rightarrow> 't option" where
  "newest_campaign_json candidates =
     (case candidates of
        None \<Rightarrow> None
      | Some cs \<Rightarrow> if cs = [] then None else Some (snd (last (sort_key fst cs))))"

record kv_figures =
  kf_seqlen :: seqlen_plot
  kf_ram :: ram_plot
  kf_parity :: parity_plot
  kf_summary_md :: string

definition parse_json :: "('t \<Rightarrow> json option) \<Rightarrow> 't \<Rightarrow> json result" where
  "parse_json json_loads t = (case json_loads t of None \<Rightarrow> Inl ValueError | Some v \<Rightarrow> Inr v)"

text \<open>
  \<open>legacy\<close> is the pair of the rows of \<open>cells.csv\<close> and the text of \<open>summary.json\<close>, when both files exist. Without a
  campaign nothing is drawn.
\<close>

definition load_any :: "(json \<Rightarrow> string) \<Rightarrow> ('t \<Rightarrow> json option) \<Rightarrow> (real \<times> 't) list option \<Rightarrow>
    ((string, json) odict list \<times> 't) option \<Rightarrow> (fig_campaign \<times> theory_check option) option result" where
  "load_any shown json_loads candidates legacy =
     (case newest_campaign_json candidates of
        Some t \<Rightarrow> rbind (parse_json json_loads t) (\<lambda>v. rbind (load_campaign_from_json shown v) (\<lambda>r. Inr (Some r)))
      | None \<Rightarrow>
          (case legacy of
             None \<Rightarrow> Inr None
           | Some (rows, t) \<Rightarrow>
               rbind (parse_json json_loads t) (\<lambda>v. rbind (load_campaign shown rows v) (\<lambda>g. Inr (Some (g, None))))))"

definition kv_figures_main :: "(json \<Rightarrow> string) \<Rightarrow> ('t \<Rightarrow> json option) \<Rightarrow> (real \<times> 't) list option \<Rightarrow>
    ((string, json) odict list \<times> 't) option \<Rightarrow> kv_figures option result" where
  "kv_figures_main shown json_loads candidates legacy =
     rbind (load_any shown json_loads candidates legacy) (\<lambda>loaded.
       case loaded of
         None \<Rightarrow> Inr None
       | Some (g, check) \<Rightarrow>
           let cells = fg_cells g; summary = fg_summary g;
               slope = (case fs_slope_bytes_per_token summary of None \<Rightarrow> 0 | Some x \<Rightarrow> x);
               point = \<lparr>pp_theory_bpt = campaign_theory cells, pp_measured_slope_bpt = slope, pp_campaign_id = fs_campaign_id summary\<rparr>
           in rbind (plot_theory_vs_measured [point] (title_context cells summary) check) (\<lambda>parity.
                Inr (Some \<lparr>kf_seqlen = plot_bytes_per_token_vs_seqlen cells summary,
                           kf_ram = plot_kv_fraction_of_gpu_ram cells summary, kf_parity = parity,
                           kf_summary_md = write_kv_scaling_summary g\<rparr>)))"

section \<open>The plotter reads what the study wrote\<close>

text \<open>The payload \<open>write_campaign\<close> puts into \<open>cells.json\<close>: every field and computed field of the models.\<close>

definition int_json :: "int \<Rightarrow> json" where
  "int_json n = JNum (real_of_int n)"

definition kv_cell_row :: "kv_cell \<Rightarrow> (string, json) odict" where
  "kv_cell_row c =
     [(''model_id'', JStr (kc_model_id c)), (''gpu'', JStr (kc_gpu c)), (''vllm_version'', JStr (kc_vllm_version c)),
       (''seq_len'', int_json (kc_seq_len c)), (''batch_size'', int_json (kc_batch_size c)), (''n_samples'', int_json (kc_n_samples c)),
       (''kv_bytes_used_samples'', JList (map int_json (kc_kv_bytes_used_samples c))),
       (''kv_bytes_prefill_samples'',
          case kc_kv_bytes_prefill_samples c of None \<Rightarrow> JNull | Some xs \<Rightarrow> JList (map int_json xs)),
       (''total_tokens'', int_json (kc_total_tokens c)), (''baseline_bytes'', int_json (kc_baseline_bytes c)),
       (''method'', JStr (kc_method c)), (''p50_bytes'', JNum (p50_bytes c)), (''p95_bytes'', JNum (p95_bytes c)),
       (''measured_bytes_per_token'', JNum (measured_bytes_per_token c))]"

definition kv_cell_json :: "kv_cell \<Rightarrow> json" where
  "kv_cell_json c = JObj (kv_cell_row c)"

definition regression_json :: "regression_fit \<Rightarrow> json" where
  "regression_json f =
     JObj [(''slope_bpt'', JNum (rf_slope_bpt f)), (''intercept_bytes'', JNum (rf_intercept_bytes f)),
       (''r2'', JNum (rf_r2 f)), (''residual_se'', JNum (rf_residual_se f))]"

definition knee_json :: "knee_point \<Rightarrow> json" where
  "knee_json k =
     JObj [(''total_tokens'', int_json (kp_total_tokens k)), (''kv_share'', JNum (kp_kv_share k)),
       (''batch_size'', case kp_batch_size k of None \<Rightarrow> JNull | Some b \<Rightarrow> int_json b)]"

definition campaign_json :: "kv_campaign \<Rightarrow> json" where
  "campaign_json g =
     JObj [(''schema_version'', JStr SCHEMA_VERSION),
       (''campaign'', JObj [(''campaign_id'', JStr (kg_campaign_id g)), (''model_revision'', JStr (kg_model_revision g)),
          (''cells'', JList (map kv_cell_json (kg_cells g))),
          (''theory_bytes_per_token'', int_json (kg_theory_bytes_per_token g)),
          (''regression'', regression_json (kg_regression g)), (''knee'', knee_json (kg_knee g))])]"

text \<open>The cell and the summary the plotter should see; a measured value of zero is dropped.\<close>

definition fig_cell_of :: "kv_campaign \<Rightarrow> kv_cell \<Rightarrow> fig_cell" where
  "fig_cell_of g c =
     \<lparr>fc_model_id = kc_model_id c, fc_model_revision = kg_model_revision g, fc_gpu = kc_gpu c,
      fc_vllm_version = kc_vllm_version c, fc_seq_len = kc_seq_len c, fc_batch_size = kc_batch_size c,
      fc_n_samples = kc_n_samples c, fc_p50_alloc_bytes = p50_bytes c, fc_p95_alloc_bytes = p95_bytes c,
      fc_baseline_bytes = real_of_int (kc_baseline_bytes c), fc_total_tokens = kc_total_tokens c,
      fc_theory_bytes_per_token = real_of_int (kg_theory_bytes_per_token g),
      fc_measured_bytes_per_token = (if measured_bytes_per_token c = 0 then None else Some (measured_bytes_per_token c)),
      fc_method = kc_method c\<rparr>"

definition fig_summary_of :: "kv_campaign \<Rightarrow> fig_summary" where
  "fig_summary_of g =
     \<lparr>fs_campaign_id = kg_campaign_id g, fs_measured_date = [],
      fs_slope_bytes_per_token = Some (rf_slope_bpt (kg_regression g)),
      fs_intercept_bytes = Some (rf_intercept_bytes (kg_regression g)), fs_r2 = Some (rf_r2 (kg_regression g)),
      fs_knee_total_tokens_by_batch =
        [(case kp_batch_size (kg_knee g) of None \<Rightarrow> ''pooled'' | Some b \<Rightarrow> int_str b, kp_total_tokens (kg_knee g))],
      fs_notes = []\<rparr>"

lemma get_text_simps [simp]:
  "od_get row k = None \<Longrightarrow> get_text row k = JStr []"
  "od_get row k = Some (JStr s) \<Longrightarrow> get_text row k = JStr s"
  "od_get row k = Some (JNum x) \<Longrightarrow> get_text row k = (if x = 0 then JStr [] else JNum x)"
  by (simp_all add: get_text_def)

lemma text_simps [simp]: "text_of shown (JStr s) = s" "blank (JStr []) = True" "blank (JNum x) = False"
  by (simp_all add: text_of_def blank_def py_strip_def)

lemma f_or_num [simp]: "f_or (JNum x) d = x" "f_or (JStr []) d = d"
  by (simp_all add: f_or_def float_text_def)

lemma i_or_num [simp]: "i_or (JNum (real_of_int n)) d = n" "i_or (JStr []) d = d"
  by (simp_all add: i_or_def float_text_def)

lemma text_or_simps [simp]: "text_or (JStr []) v = v" "text_or (JNum x) v = JNum x"
  by (simp_all add: text_or_def)

text \<open>What the plotter reads of a written row.\<close>

lemma row_texts:
  "get_text (kv_cell_row c) ''model_id'' = JStr (kc_model_id c)"
  "get_text (kv_cell_row c) ''model_revision'' = JStr []"
  "get_text (kv_cell_row c) ''gpu'' = JStr (kc_gpu c)"
  "get_text (kv_cell_row c) ''vllm_version'' = JStr (kc_vllm_version c)"
  "get_text (kv_cell_row c) ''method'' = JStr (kc_method c)"
  "get_text (kv_cell_row c) ''p50_alloc_bytes'' = JStr []"
  "get_text (kv_cell_row c) ''p95_alloc_bytes'' = JStr []"
  "get_text (kv_cell_row c) ''theory_bytes_per_token'' = JStr []"
  by (simp_all add: kv_cell_row_def int_json_def)

lemma row_number: "od_get row k = Some (JNum x) \<Longrightarrow> f_or (get_text row k) 0 = x"
  by simp

lemma row_int: "od_get row k = Some (int_json n) \<Longrightarrow> i_or (get_text row k) 0 = n"
  by (simp add: int_json_def)

lemma row_ints:
  "i_or (get_text (kv_cell_row c) ''seq_len'') 0 = kc_seq_len c"
  "i_or (get_text (kv_cell_row c) ''batch_size'') 0 = kc_batch_size c"
  "i_or (get_text (kv_cell_row c) ''n_samples'') 0 = kc_n_samples c"
  "i_or (get_text (kv_cell_row c) ''total_tokens'') 0 = kc_total_tokens c"
  by (rule row_int, simp add: kv_cell_row_def)+

lemma row_numbers:
  "f_or (get_text (kv_cell_row c) ''p50_bytes'') 0 = p50_bytes c"
  "f_or (get_text (kv_cell_row c) ''p95_bytes'') 0 = p95_bytes c"
  "f_or (get_text (kv_cell_row c) ''baseline_bytes'') 0 = real_of_int (kc_baseline_bytes c)"
  "get_text (kv_cell_row c) ''measured_bytes_per_token'' =
     (if measured_bytes_per_token c = 0 then JStr [] else JNum (measured_bytes_per_token c))"
  by (rule row_number, simp add: kv_cell_row_def int_json_def)+ (simp add: kv_cell_row_def)

lemma cell_from_written:
  "cell_from_row shown (kv_cell_row c) (real_of_int (kg_theory_bytes_per_token g)) (kg_model_revision g) = fig_cell_of g c"
  unfolding cell_from_row_def Let_def row_texts text_simps text_or_simps row_ints row_numbers f_or_num fig_cell_of_def by simp

lemma rmap_dict_written: "rmap dict_of (map kv_cell_json cs) = Inr (map kv_cell_row cs)"
  by (induction cs) (simp_all add: dict_of_def kv_cell_json_def)

lemma load_written:
  assumes "\<forall>n. shown (JNum (real_of_int n)) = int_str n" and "KvScalingCampaign g = Inr g"
  shows "load_campaign_from_json shown (campaign_json g) =
    Inr (\<lparr>fg_cells = map (fig_cell_of g) (kg_cells g), fg_summary = fig_summary_of g\<rparr>, None)"
proof -
  let ?data = "[(''campaign_id'', JStr (kg_campaign_id g)), (''model_revision'', JStr (kg_model_revision g)),
          (''cells'', JList (map kv_cell_json (kg_cells g))),
          (''theory_bytes_per_token'', int_json (kg_theory_bytes_per_token g)),
          (''regression'', regression_json (kg_regression g)), (''knee'', knee_json (kg_knee g))]"
  have campaign: "jget_or (campaign_json g) ''campaign'' (campaign_json g) = Inr (JObj ?data)"
    by (simp add: jget_or_def campaign_json_def)
  have ne: "kg_cells g \<noteq> []" using assms(2) by (simp add: KvScalingCampaign_def split: if_splits)
  have bpt: "f_or (get_text ?data ''theory_bytes_per_token'') 0 = real_of_int (kg_theory_bytes_per_token g)"
    by (rule row_number) (simp add: int_json_def)
  have revision: "text_of shown (get_text ?data ''model_revision'') = kg_model_revision g" by simp
  obtain reg where reg: "regression_json (kg_regression g) = JObj reg" "reg \<noteq> []"
    "opt_float reg ''slope_bpt'' = Some (rf_slope_bpt (kg_regression g))"
    "opt_float reg ''intercept_bytes'' = Some (rf_intercept_bytes (kg_regression g))"
    "opt_float reg ''r2'' = Some (rf_r2 (kg_regression g))"
    by (simp add: regression_json_def opt_float_def float_of_def)
  have regression: "obj_or_empty (od_get ?data ''regression'') = Inr reg"
    using reg(1,2) by (simp add: obj_or_empty_def obj_of_def)
  obtain kd where kd: "knee_json (kg_knee g) = JObj kd" "kd \<noteq> []"
    "knee_of shown kd = Inr (fs_knee_total_tokens_by_batch (fig_summary_of g))"
    using assms(1)
    by (cases "kp_batch_size (kg_knee g)")
      (simp_all add: knee_json_def knee_of_def int_json_def int_of_def text_of_def fig_summary_of_def)
  have knee: "obj_or_empty (od_get ?data ''knee'') = Inr kd"
    using kd(1,2) by (simp add: obj_or_empty_def obj_of_def)
  have rows: "rows_of (od_get ?data ''cells'') = Inr (map kv_cell_json (kg_cells g))"
    using ne by (simp add: rows_of_def)
  have strs: "str_get shown ?data ''campaign_id'' = kg_campaign_id g" "str_get shown ?data ''measured_date'' = []"
    "str_get shown ?data ''notes'' = []" "od_get ?data ''theory_check'' = None"
    by (simp_all add: str_get_def)
  have obj: "obj_of (JObj ?data) = Inr ?data" by (simp add: obj_of_def)
  show ?thesis
    unfolding load_campaign_from_json_def campaign rbind_Inr obj Let_def bpt revision regression knee kd(3) rows
      rmap_dict_written strs option.case reg(3-5)
    by (simp add: cell_from_written comp_def fig_summary_of_def)
qed

text \<open>
  C40: What a campaign writes to \<open>cells.json\<close> the plotter reads back: every cell with its sizes, bytes and
  measured value, the fitted line, the knee and the theory. The file never carries a theory check,
  so the gate on the parity plot has nothing to refuse.
\<close>

theorem plotter_reads_campaign:
  assumes "\<forall>n. shown (JNum (real_of_int n)) = int_str n" and "KvScalingCampaign g = Inr g"
  shows "load_campaign_from_json shown (campaign_json g) =
    Inr (\<lparr>fg_cells = map (fig_cell_of g) (kg_cells g), fg_summary = fig_summary_of g\<rparr>, None)"
  using assms by (rule load_written)

text \<open>A rendering of numbers and a campaign of one cell.\<close>

definition ex_shown :: "json \<Rightarrow> string" where
  "ex_shown v = (case v of JNum x \<Rightarrow> int_str \<lfloor>x\<rfloor> | _ \<Rightarrow> [])"

definition ex_kv_campaign :: kv_campaign where
  "ex_kv_campaign =
     \<lparr>kg_campaign_id = ''c1'', kg_model_revision = ''r1'',
      kg_cells = [\<lparr>kc_model_id = ''m'', kc_gpu = ''NVIDIA H100 SXM'', kc_vllm_version = ''0.11'', kc_seq_len = 64, kc_batch_size = 4,
         kc_n_samples = 1, kc_kv_bytes_used_samples = [1024], kc_kv_bytes_prefill_samples = None, kc_total_tokens = 256,
         kc_baseline_bytes = 10, kc_method = ''blocks''\<rparr>],
      kg_theory_bytes_per_token = 4,
      kg_regression = \<lparr>rf_slope_bpt = 4, rf_intercept_bytes = 0, rf_r2 = 1, rf_residual_se = 0\<rparr>,
      kg_knee = \<lparr>kp_total_tokens = 256, kp_kv_share = 1 / 2, kp_batch_size = Some 4\<rparr>\<rparr>"

theorem plotter_reads_campaign_witness:
  "load_campaign_from_json ex_shown (campaign_json ex_kv_campaign) =
    Inr (\<lparr>fg_cells = map (fig_cell_of ex_kv_campaign) (kg_cells ex_kv_campaign), fg_summary = fig_summary_of ex_kv_campaign\<rparr>, None)"
  by (rule plotter_reads_campaign) (simp_all add: ex_shown_def ex_kv_campaign_def KvScalingCampaign_def)

section \<open>The gate on the parity plot\<close>

lemma padded:
  fixes v :: real
  assumes "lo \<le> v" and "v \<le> hi"
  shows "lo - (hi - lo) / 10 \<le> v \<and> v \<le> hi + (hi - lo) / 10"
proof -
  have "0 \<le> (hi - lo) / 10" using assms by simp
  then show ?thesis using assms by linarith
qed

lemma parity_axis_bounds:
  assumes "xs \<noteq> []" and "ys \<noteq> []" and "\<forall>v\<in>set xs \<union> set ys. 0 \<le> v" and "v \<in> set xs \<union> set ys"
  shows "fst (parity_axis xs ys) \<le> v \<and> v \<le> snd (parity_axis xs ys)"
proof -
  let ?lo = "min (Min (set xs)) (Min (set ys))" and ?hi = "max (Max (set xs)) (Max (set ys))"
  have between: "?lo \<le> v" "v \<le> ?hi" using assms(4) by (auto simp: min_le_iff_disj le_max_iff_disj)
  show ?thesis
  proof (cases "?lo = ?hi")
    case True
    moreover from this have "v = ?lo" using between by linarith
    moreover have "0 \<le> v" using assms(3,4) by blast
    ultimately show ?thesis unfolding parity_axis_def Let_def by simp
  next
    case False
    have "parity_axis xs ys = (?lo - 1 / 10 * (?hi - ?lo), ?hi + 1 / 10 * (?hi - ?lo))"
      unfolding parity_axis_def Let_def using False by (simp only: if_False)
    then show ?thesis using padded [OF between] by simp
  qed
qed

text \<open>
  The parity plot is refused exactly when there is no point or the theory check failed; what is drawn
  are the given points, all of them inside the axes.
\<close>

theorem parity_gate:
  assumes "\<forall>p\<in>set points. 0 \<le> pp_theory_bpt p \<and> 0 \<le> pp_measured_slope_bpt p"
  shows "case plot_theory_vs_measured points ctx check of
      Inl e \<Rightarrow> e = ValueError \<and> (points = [] \<or> (\<exists>c. check = Some c \<and> \<not> tc_within_tol c))
    | Inr plot \<Rightarrow>
        points \<noteq> [] \<and> (case check of None \<Rightarrow> True | Some c \<Rightarrow> tc_within_tol c)
        \<and> py_points plot = map (\<lambda>p. (pp_theory_bpt p, pp_measured_slope_bpt p)) points
        \<and> (\<forall>(x, y)\<in>set (py_points plot). fst (py_axis plot) \<le> x \<and> x \<le> snd (py_axis plot)
              \<and> fst (py_axis plot) \<le> y \<and> y \<le> snd (py_axis plot))"
proof (cases "(case check of None \<Rightarrow> False | Some c \<Rightarrow> \<not> tc_within_tol c) \<or> points = []")
  case True
  then show ?thesis by (auto simp: plot_theory_vs_measured_def split: option.splits)
next
  case False
  let ?xs = "map pp_theory_bpt points" and ?ys = "map pp_measured_slope_bpt points"
  have axis: "fst (parity_axis ?xs ?ys) \<le> v \<and> v \<le> snd (parity_axis ?xs ?ys)" if "v \<in> set ?xs \<union> set ?ys" for v
    using False assms that by (intro parity_axis_bounds) auto
  obtain plot where plot: "plot_theory_vs_measured points ctx check = Inr plot" "py_axis plot = parity_axis ?xs ?ys"
    "py_points plot = zip ?xs ?ys"
    using False by (auto simp: plot_theory_vs_measured_def Let_def)
  have zip: "zip ?xs ?ys = map (\<lambda>p. (pp_theory_bpt p, pp_measured_slope_bpt p)) points" by (simp add: zip_map_map zip_same_conv_map)
  have "\<forall>(x, y)\<in>set (py_points plot). fst (py_axis plot) \<le> x \<and> x \<le> snd (py_axis plot)
      \<and> fst (py_axis plot) \<le> y \<and> y \<le> snd (py_axis plot)"
    unfolding plot(2,3) zip using axis by fastforce
  then show ?thesis using False plot(1,3) zip by (auto split: option.splits)
qed

theorem parity_gate_witness:
  "\<exists>plot. plot_theory_vs_measured [\<lparr>pp_theory_bpt = 4, pp_measured_slope_bpt = 4, pp_campaign_id = ''c1''\<rparr>] ''ctx''
      (Some \<lparr>tc_measured = 4, tc_theory = 4, tc_within_tol = True\<rparr>) = Inr plot \<and> fst (py_axis plot) \<le> 4 \<and> 4 \<le> snd (py_axis plot)"
proof -
  let ?points = "[\<lparr>pp_theory_bpt = 4, pp_measured_slope_bpt = 4, pp_campaign_id = ''c1''\<rparr>]"
  let ?check = "Some \<lparr>tc_measured = 4, tc_theory = 4, tc_within_tol = True\<rparr>"
  obtain plot where plot: "plot_theory_vs_measured ?points ''ctx'' ?check = Inr plot" "py_points plot = [(4, 4)]"
    by (simp add: plot_theory_vs_measured_def Let_def)
  have "\<forall>p\<in>set ?points. 0 \<le> pp_theory_bpt p \<and> 0 \<le> pp_measured_slope_bpt p" by simp
  from parity_gate [OF this, where ctx = "''ctx''" and check = ?check] show ?thesis using plot by auto
qed

text \<open>
  A written campaign is always drawn, whatever its slope: the point is the theory and the fitted slope.
\<close>

lemma campaign_theory_written:
  assumes "kg_cells g \<noteq> []" and "0 < kg_theory_bytes_per_token g"
  shows "campaign_theory (map (fig_cell_of g) (kg_cells g)) = real_of_int (kg_theory_bytes_per_token g)"
proof -
  have "map fc_theory_bytes_per_token (map (fig_cell_of g) (kg_cells g)) =
      replicate (length (kg_cells g)) (real_of_int (kg_theory_bytes_per_token g))"
    by (simp add: fig_cell_of_def comp_def map_replicate_const)
  then show ?thesis using assms unfolding campaign_theory_def Let_def by (simp add: sum_list_replicate)
qed

lemma written_campaign_drawn:
  assumes "\<forall>n. shown (JNum (real_of_int n)) = int_str n" and "KvScalingCampaign g = Inr g"
    and "json_loads t = Some (campaign_json g)"
  shows "\<exists>f. kv_figures_main shown json_loads (Some [(time, t)]) legacy = Inr (Some f)
    \<and> py_points (kf_parity f) = [(real_of_int (kg_theory_bytes_per_token g), rf_slope_bpt (kg_regression g))]"
proof -
  have g: "kg_cells g \<noteq> []" "0 < kg_theory_bytes_per_token g"
    using assms(2) by (auto simp: KvScalingCampaign_def split: if_splits)
  have "load_any shown json_loads (Some [(time, t)]) legacy =
      Inr (Some (\<lparr>fg_cells = map (fig_cell_of g) (kg_cells g), fg_summary = fig_summary_of g\<rparr>, None))"
    by (simp add: load_any_def newest_campaign_json_def parse_json_def assms(3) load_written [OF assms(1,2)])
  then show ?thesis
    by (simp add: kv_figures_main_def Let_def plot_theory_vs_measured_def campaign_theory_written [OF g] fig_summary_of_def)
qed

end
