(* ===== verification/KvTier.thy ===== *)
theory KvTier
  imports PyRandom
begin

text \<open>
  \<open>kv/lmcache_client.py\<close> and \<open>kv/tier_policy.py\<close>: the in-memory LRU tier behind the \<open>LmcacheClient\<close>
  protocol, its statistics, and the admission policy that reads them. The module-level generator
  \<open>random.random\<close> is a generator \<open>R\<close> threaded through \<open>lookup\<close>.
\<close>

record kv_stats =
  kv_tier :: string
  kv_hit_rate :: real
  kv_hits :: int
  kv_misses :: int
  kv_capacity_bytes :: int
  kv_used_bytes :: int
  kv_eviction_count :: int

definition KvStats :: "string \<Rightarrow> real \<Rightarrow> int \<Rightarrow> int \<Rightarrow> int \<Rightarrow> int \<Rightarrow> int \<Rightarrow> kv_stats result" where
  "KvStats tier rate hits misses cap used ev =
     (if 0 \<le> rate \<and> rate \<le> 1 \<and> 0 \<le> hits \<and> 0 \<le> misses \<and> 0 \<le> cap \<and> 0 \<le> used \<and> 0 \<le> ev
      then Inr \<lparr>kv_tier = tier, kv_hit_rate = rate, kv_hits = hits, kv_misses = misses,
                kv_capacity_bytes = cap, kv_used_bytes = used, kv_eviction_count = ev\<rparr>
      else Inl ValueError)"

definition capacity_free_pct :: "kv_stats \<Rightarrow> real" where
  "capacity_free_pct s =
     (if kv_capacity_bytes s \<le> 0 then 0
      else max 0 (100 * (1 - real_of_int (kv_used_bytes s) / real_of_int (kv_capacity_bytes s))))"

record mock_lmcache =
  lm_capacity :: int
  lm_hit_prob :: real
  lm_store :: "(string, int) odict"
  lm_hits :: int
  lm_misses :: int
  lm_evictions :: int
  lm_used_bytes :: int
  lm_tier_name :: string

definition MockLmcacheClient :: "int \<Rightarrow> real \<Rightarrow> mock_lmcache" where
  "MockLmcacheClient capacity hit_probability =
     \<lparr>lm_capacity = capacity, lm_hit_prob = hit_probability, lm_store = [], lm_hits = 0, lm_misses = 0,
      lm_evictions = 0, lm_used_bytes = 0, lm_tier_name = ''mock-lmcache''\<rparr>"

definition lm_lookup :: "'g rng \<Rightarrow> mock_lmcache \<Rightarrow> string \<Rightarrow> 'g \<Rightarrow> (bool \<times> mock_lmcache) \<times> 'g" where
  "lm_lookup R m prefix_hash g =
     (if od_get (lm_store m) prefix_hash \<noteq> None
      then let m1 = m\<lparr>lm_store := od_move_to_end prefix_hash (lm_store m)\<rparr>
           in case rng_unit R g of (u, g') \<Rightarrow>
                if u < lm_hit_prob m1 then ((True, m1\<lparr>lm_hits := lm_hits m1 + 1\<rparr>), g')
                else ((False, m1\<lparr>lm_misses := lm_misses m1 + 1\<rparr>), g')
      else ((False, m\<lparr>lm_misses := lm_misses m + 1\<rparr>), g))"

definition lm_stats :: "mock_lmcache \<Rightarrow> kv_stats result" where
  "lm_stats m =
     (let total = lm_hits m + lm_misses m;
          rate = (if total > 0 then real_of_int (lm_hits m) / real_of_int total else 0)
      in KvStats (lm_tier_name m) rate (lm_hits m) (lm_misses m) (lm_capacity m * 4096) (lm_used_bytes m)
           (lm_evictions m))"

definition lm_evict :: "mock_lmcache \<Rightarrow> string \<Rightarrow> mock_lmcache" where
  "lm_evict m prefix_hash =
     (case od_get (lm_store m) prefix_hash of
        None \<Rightarrow> m
      | Some sz \<Rightarrow> m\<lparr>lm_used_bytes := lm_used_bytes m - sz, lm_store := od_del prefix_hash (lm_store m)\<rparr>)"

text \<open>
  The eviction loop of \<open>store\<close>: drop the oldest entry while the store is at capacity. \<open>popitem\<close> on an
  empty store raises \<open>KeyError\<close>, with the entries dropped so far gone.
\<close>

fun make_room :: "int \<Rightarrow> (string, int) odict \<Rightarrow> int \<Rightarrow> int \<Rightarrow> ((string, int) odict \<times> int \<times> int) \<times> unit result" where
  "make_room cap [] used ev = (([], used, ev), if 0 \<ge> cap then Inl KeyError else Inr ())"
| "make_room cap ((k, old_size) # st) used ev =
     (if int (length ((k, old_size) # st)) \<ge> cap then make_room cap st (used - old_size) (ev + 1)
      else (((k, old_size) # st, used, ev), Inr ()))"

definition lm_put :: "mock_lmcache \<Rightarrow> string \<Rightarrow> int \<Rightarrow> mock_lmcache \<times> unit result" where
  "lm_put m prefix_hash size_bytes =
     (if od_get (lm_store m) prefix_hash \<noteq> None
      then (m\<lparr>lm_store := od_move_to_end prefix_hash (lm_store m)\<rparr>, Inr ())
      else case make_room (lm_capacity m) (lm_store m) (lm_used_bytes m) (lm_evictions m) of
             ((st, used, ev), Inl e) \<Rightarrow> (m\<lparr>lm_store := st, lm_used_bytes := used, lm_evictions := ev\<rparr>, Inl e)
           | ((st, used, ev), Inr _) \<Rightarrow>
               (m\<lparr>lm_store := od_set prefix_hash size_bytes st, lm_used_bytes := used + size_bytes,
                  lm_evictions := ev\<rparr>, Inr ()))"

definition set_tier_name :: "mock_lmcache \<Rightarrow> string \<Rightarrow> mock_lmcache" where
  "set_tier_name m name = m\<lparr>lm_tier_name := name\<rparr>"

record tier_policy =
  min_hit_rate :: real
  min_capacity_free_pct :: real

definition TierPolicy :: "real \<Rightarrow> real \<Rightarrow> tier_policy result" where
  "TierPolicy rate free =
     (if 0 \<le> rate \<and> rate \<le> 1 \<and> 0 \<le> free \<and> free \<le> 100
      then Inr \<lparr>min_hit_rate = rate, min_capacity_free_pct = free\<rparr> else Inl ValueError)"

definition should_use_tier :: "tier_policy \<Rightarrow> kv_stats \<Rightarrow> real \<Rightarrow> bool" where
  "should_use_tier p stats expected_hit_prob =
     (if capacity_free_pct stats < min_capacity_free_pct p then False
      else if kv_hit_rate stats < min_hit_rate p then False
      else \<not> expected_hit_prob < min_hit_rate p)"

definition reject_reason :: "tier_policy \<Rightarrow> kv_stats \<Rightarrow> real \<Rightarrow> string option" where
  "reject_reason p stats expected_hit_prob =
     (if capacity_free_pct stats < min_capacity_free_pct p then Some ''tier_full''
      else if kv_hit_rate stats < min_hit_rate p then Some ''tier_cold''
      else if expected_hit_prob < min_hit_rate p then Some ''workload_low_hit_prob''
      else None)"

section \<open>The invariant of the store\<close>

text \<open>
  Distinct keys, at most \<open>capacity\<close> of them, and a byte count that is the sum of the entries' sizes.
\<close>

definition sizes :: "(string, int) odict \<Rightarrow> int" where
  "sizes st = sum_list (map snd st)"

definition lm_ok :: "mock_lmcache \<Rightarrow> bool" where
  "lm_ok m \<longleftrightarrow> od_ok (lm_store m) \<and> 0 < lm_capacity m \<and> int (length (lm_store m)) \<le> lm_capacity m \<and>
     lm_used_bytes m = sizes (lm_store m) \<and> (\<forall>kv\<in>set (lm_store m). 0 \<le> snd kv) \<and>
     0 \<le> lm_hits m \<and> 0 \<le> lm_misses m \<and> 0 \<le> lm_evictions m"

lemma sizes_nonneg: "\<forall>kv\<in>set st. 0 \<le> snd kv \<Longrightarrow> 0 \<le> sizes st"
  by (auto simp: sizes_def intro!: sum_list_nonneg)

lemma sizes_append: "sizes (st @ st') = sizes st + sizes st'"
  by (simp add: sizes_def)

lemma sizes_del: "od_ok st \<Longrightarrow> od_get st k = Some v \<Longrightarrow> sizes (od_del k st) = sizes st - v"
proof (induction st)
  case Nil
  then show ?case by simp
next
  case (Cons kv st)
  obtain k' v' where kv: "kv = (k', v')" by force
  show ?case
  proof (cases "k = k'")
    case True
    then have "od_del k st = st" using Cons.prems(1) kv by (simp add: od_ok_Cons od_del_absent)
    with True kv Cons.prems show ?thesis by (simp add: od_del_def sizes_def)
  next
    case False
    with Cons kv have "sizes (od_del k st) = sizes st - v" by (simp add: od_ok_Cons)
    with False kv show ?thesis by (simp add: od_del_def sizes_def)
  qed
qed

lemma sizes_move: "od_ok st \<Longrightarrow> sizes (od_move_to_end k st) = sizes st"
  by (auto simp: od_move_to_end_def sizes_append sizes_del split: option.splits) (simp add: sizes_def)

lemma od_set_new: "od_get st k = None \<Longrightarrow> od_set k v st = st @ [(k, v)]"
  by (induction k v st rule: od_set.induct) (auto split: if_splits)

lemma MockLmcacheClient_ok: "0 < capacity \<Longrightarrow> lm_ok (MockLmcacheClient capacity p)"
  by (simp add: lm_ok_def MockLmcacheClient_def od_ok_def sizes_def)

lemma lm_touch_ok: "lm_ok m \<Longrightarrow> lm_ok (m\<lparr>lm_store := od_move_to_end k (lm_store m)\<rparr>)"
  by (simp add: lm_ok_def od_ok_move length_od_move sizes_move set_od_move)

lemma lm_lookup_ok:
  assumes "lm_ok m" "lm_lookup R m k g = ((b, m'), g')"
  shows "lm_ok m'"
  using lm_touch_ok [OF assms(1), of k] assms
  by (auto simp: lm_lookup_def Let_def lm_ok_def split: if_splits prod.splits)

lemma lm_evict_ok:
  assumes "lm_ok m"
  shows "lm_ok (lm_evict m k)"
proof (cases "od_get (lm_store m) k")
  case None
  then show ?thesis using assms by (simp add: lm_evict_def)
next
  case (Some sz)
  have ok: "od_ok (lm_store m)" using assms by (simp add: lm_ok_def)
  have "set (od_del k (lm_store m)) \<subseteq> set (lm_store m)" by (auto simp: od_del_def)
  then show ?thesis
    using assms Some sizes_del [OF ok Some] length_od_del [OF ok Some] od_ok_del [OF ok]
    by (auto simp: lm_ok_def lm_evict_def)
qed

lemma make_room_ok:
  assumes "make_room cap st used ev = ((st', used', ev'), r)" "0 < cap" "od_ok st" "\<forall>kv\<in>set st. 0 \<le> snd kv"
    "used = sizes st" "0 \<le> ev"
  shows "r = Inr () \<and> int (length st') < cap \<and> od_ok st' \<and> set st' \<subseteq> set st \<and> used' = sizes st' \<and> ev \<le> ev'"
  using assms
proof (induction cap st used ev rule: make_room.induct)
  case (1 cap used ev)
  then show ?case by (auto simp: sizes_def)
next
  case (2 cap k sz st used ev)
  show ?case
  proof (cases "int (length ((k, sz) # st)) \<ge> cap")
    case True
    have "used - sz = sizes st" using 2(6) by (simp add: sizes_def)
    then have "r = Inr () \<and> int (length st') < cap \<and> od_ok st' \<and> set st' \<subseteq> set st \<and> used' = sizes st' \<and> ev + 1 \<le> ev'"
      using 2 True by (auto simp: od_ok_Cons)
    then show ?thesis by auto
  next
    case False
    then show ?thesis using 2(2-) by auto
  qed
qed

lemma lm_put_ok:
  assumes "lm_ok m" "0 \<le> size_bytes" "lm_put m k size_bytes = (m', r)"
  shows "lm_ok m' \<and> r = Inr () \<and> od_get (lm_store m') k \<noteq> None"
proof (cases "od_get (lm_store m) k")
  case (Some v)
  then show ?thesis using assms(3) lm_touch_ok [OF assms(1), of k] by (auto simp: lm_put_def)
next
  case None
  obtain st used ev q where room: "make_room (lm_capacity m) (lm_store m) (lm_used_bytes m) (lm_evictions m) = ((st, used, ev), q)"
    by (metis surj_pair)
  have r: "q = Inr () \<and> int (length st) < lm_capacity m \<and> od_ok st \<and> set st \<subseteq> set (lm_store m) \<and>
      used = sizes st \<and> lm_evictions m \<le> ev"
    using make_room_ok [OF room] assms(1) by (simp add: lm_ok_def)
  have new: "od_get st k = None"
    using r None by (auto simp: od_get_None_iff)
  have m': "m' = m\<lparr>lm_store := od_set k size_bytes st, lm_used_bytes := used + size_bytes, lm_evictions := ev\<rparr>" "r = Inr ()"
    using assms(3) None room r by (auto simp: lm_put_def)
  have "lm_ok m'"
    using assms(1,2) r od_ok_set [of st k size_bytes] by (auto simp: lm_ok_def m'(1) od_set_new [OF new] sizes_append) (simp add: sizes_def)
  then show ?thesis by (simp add: m')
qed

section \<open>The protocol\<close>

text \<open>
  What a tier-aware caller relies on: statistics that exist and are in range. The client is the tier
  policy: a tier it admits has at least the configured share of its bytes free.
\<close>

locale tier_stats =
  fixes tstats :: "'s \<Rightarrow> kv_stats result"
    and ok :: "'s \<Rightarrow> bool"
  assumes stats_total: "ok s \<Longrightarrow> \<exists>k. tstats s = Inr k"
    and stats_range: "ok s \<Longrightarrow> tstats s = Inr k \<Longrightarrow> 0 \<le> kv_hit_rate k \<and> kv_hit_rate k \<le> 1 \<and> 0 < kv_capacity_bytes k"
begin

lemma admitted_has_room:
  assumes "ok s" "tstats s = Inr k" "should_use_tier p k e" "0 < min_capacity_free_pct p"
  shows "real_of_int (kv_used_bytes k) \<le> (1 - min_capacity_free_pct p / 100) * real_of_int (kv_capacity_bytes k)"
proof -
  let ?q = "real_of_int (kv_used_bytes k) / real_of_int (kv_capacity_bytes k)"
  have cap: "0 < real_of_int (kv_capacity_bytes k)" using stats_range [OF assms(1,2)] by simp
  have "min_capacity_free_pct p \<le> max 0 (100 * (1 - ?q))"
    using assms(3) cap by (auto simp: should_use_tier_def capacity_free_pct_def split: if_splits)
  then have "?q \<le> 1 - min_capacity_free_pct p / 100" using assms(4) by (auto simp: max_def split: if_splits)
  then show ?thesis using cap by (simp add: pos_divide_le_eq)
qed

end

lemma lm_stats_ok: "lm_ok m \<Longrightarrow> \<exists>k. lm_stats m = Inr k \<and> 0 \<le> kv_hit_rate k \<and> kv_hit_rate k \<le> 1 \<and>
    kv_capacity_bytes k = lm_capacity m * 4096 \<and> kv_used_bytes k = lm_used_bytes m"
  using sizes_nonneg [of "lm_store m"]
  by (auto simp: lm_stats_def Let_def KvStats_def lm_ok_def divide_le_eq)

interpretation tier: tier_stats lm_stats lm_ok
proof unfold_locales
  fix m k
  assume "lm_ok m"
  then show "\<exists>k. lm_stats m = Inr k" using lm_stats_ok by blast
  assume "lm_stats m = Inr k"
  with \<open>lm_ok m\<close> lm_stats_ok [of m] show "0 \<le> kv_hit_rate k \<and> kv_hit_rate k \<le> 1 \<and> 0 < kv_capacity_bytes k"
    by (auto simp: lm_ok_def)
qed

section \<open>Operations in sequence\<close>

datatype lm_op = Lookup string | Evict string | Store string int

fun lm_step :: "'g rng \<Rightarrow> mock_lmcache \<times> 'g \<Rightarrow> lm_op \<Rightarrow> mock_lmcache \<times> 'g" where
  "lm_step R (m, g) (Lookup h) = (case lm_lookup R m h g of ((_, m'), g') \<Rightarrow> (m', g'))"
| "lm_step R (m, g) (Evict h) = (lm_evict m h, g)"
| "lm_step R (m, g) (Store h n) = (fst (lm_put m h n), g)"

definition lm_run :: "'g rng \<Rightarrow> mock_lmcache \<times> 'g \<Rightarrow> lm_op list \<Rightarrow> mock_lmcache \<times> 'g" where
  "lm_run R s ops = foldl (lm_step R) s ops"

lemma lm_step_frame: "lm_capacity (fst (lm_step R s op)) = lm_capacity (fst s)"
  by (cases s; cases op) (auto simp: lm_lookup_def lm_evict_def lm_put_def Let_def split: prod.splits option.splits sum.splits)

lemma lm_step_ok:
  assumes "lm_ok (fst s)" "\<And>h n. op = Store h n \<Longrightarrow> 0 \<le> n"
  shows "lm_ok (fst (lm_step R s op))"
proof (cases s)
  case (Pair m g)
  show ?thesis
  proof (cases op)
    case (Lookup h)
    then show ?thesis using lm_lookup_ok assms(1) Pair by (auto split: prod.splits)
  next
    case (Evict h)
    then show ?thesis using lm_evict_ok assms(1) Pair by simp
  next
    case (Store h n)
    then show ?thesis using lm_put_ok [of m n h] assms Pair by (cases "lm_put m h n") simp
  qed
qed

lemma lm_run_ok:
  assumes "lm_ok (fst s)" "\<forall>h n. Store h n \<in> set ops \<longrightarrow> 0 \<le> n"
  shows "lm_ok (fst (lm_run R s ops)) \<and> lm_capacity (fst (lm_run R s ops)) = lm_capacity (fst s)"
  using assms
proof (induction ops arbitrary: s)
  case Nil
  then show ?case by (simp add: lm_run_def)
next
  case (Cons op ops)
  have "lm_ok (fst (lm_step R s op))" using lm_step_ok [OF Cons.prems(1)] Cons.prems(2) by auto
  then show ?case using Cons.IH Cons.prems(2) lm_step_frame [of R s op] by (simp add: lm_run_def)
qed

section \<open>Properties\<close>

text \<open>
  C31: The tier's accounting is exact. After any sequence of lookups, evictions and stores of non-negative
  sizes on a new client of positive capacity, the store holds at most \<open>capacity\<close> entries, the byte
  count is the sum of their sizes, and the statistics can be taken.
\<close>

theorem tier_accounting:
  assumes "0 < capacity" and "\<forall>h n. Store h n \<in> set ops \<longrightarrow> 0 \<le> n"
    and "lm_run R (MockLmcacheClient capacity prob, g) ops = (m, g')"
  shows "int (length (lm_store m)) \<le> capacity \<and> lm_used_bytes m = sum_list (map snd (lm_store m)) \<and>
    (\<exists>k. lm_stats m = Inr k \<and> kv_used_bytes k = lm_used_bytes m \<and> 0 \<le> kv_hit_rate k \<and> kv_hit_rate k \<le> 1)"
proof -
  have "lm_ok m \<and> lm_capacity m = capacity"
    using lm_run_ok [of "(MockLmcacheClient capacity prob, g)" ops R] MockLmcacheClient_ok [OF assms(1), of prob] assms(2,3)
    by (simp add: MockLmcacheClient_def)
  then show ?thesis using lm_stats_ok [of m] by (auto simp: lm_ok_def sizes_def)
qed

text \<open>
  The two tier decisions agree. \<open>should_use_tier\<close> admits precisely when \<open>reject_reason\<close> has no reason,
  and an admitted tier has at least the configured share of its bytes free.
\<close>

theorem tier_admission_sound:
  assumes "lm_ok m" and "lm_stats m = Inr k" and "0 < min_capacity_free_pct p"
  shows "(should_use_tier p k e \<longleftrightarrow> reject_reason p k e = None) \<and>
    (should_use_tier p k e \<longrightarrow>
       real_of_int (lm_used_bytes m) \<le> (1 - min_capacity_free_pct p / 100) * real_of_int (lm_capacity m * 4096))"
proof -
  have "kv_used_bytes k = lm_used_bytes m" "kv_capacity_bytes k = lm_capacity m * 4096"
    using lm_stats_ok [OF assms(1)] assms(2) by auto
  then show ?thesis
    using tier.admitted_has_room [OF assms(1,2) _ assms(3), of e] by (auto simp: should_use_tier_def reject_reason_def)
qed

text \<open>
  A tier without capacity cannot store. With a capacity of zero or less, storing any new entry
  raises \<open>KeyError\<close>, after evicting every entry the store held.
\<close>

theorem no_capacity_raises:
  assumes "lm_capacity m \<le> 0" and "od_get (lm_store m) h = None"
  shows "snd (lm_put m h n) = Inl KeyError \<and> lm_store (fst (lm_put m h n)) = []"
proof -
  have "snd (make_room cap st used ev) = Inl KeyError \<and> fst (fst (make_room cap st used ev)) = []" if "cap \<le> 0" for cap st used ev
    using that by (induction cap st used ev rule: make_room.induct) auto
  then show ?thesis
    using assms by (auto simp: lm_put_def split: prod.splits sum.splits) (metis fst_conv snd_conv sum.inject(1) sum.distinct(1))+
qed

definition ex_ops :: "lm_op list" where
  "ex_ops = [Store ''a'' 10, Store ''b'' 20, Lookup ''a'', Store ''c'' 5, Evict ''a'']"

lemma ex_lm_run: "lm_run counting_rng (MockLmcacheClient 2 1, 0) ex_ops =
   (\<lparr>lm_capacity = 2, lm_hit_prob = 1, lm_store = [(''c'', 5)], lm_hits = 1, lm_misses = 0, lm_evictions = 1,
     lm_used_bytes = 5, lm_tier_name = ''mock-lmcache''\<rparr>, 1)"
  by (simp add: lm_run_def ex_ops_def lm_lookup_def lm_put_def lm_evict_def MockLmcacheClient_def
      od_move_to_end_def od_del_def counting_rng_def Let_def)

theorem tier_accounting_witness: "(5 :: int) = sum_list (map snd [(''c'', 5)])"
  using tier_accounting [OF _ _ ex_lm_run] by (simp add: ex_ops_def)

theorem tier_admission_sound_witness:
  "reject_reason \<lparr>min_hit_rate = 1 / 2, min_capacity_free_pct = 10\<rparr>
     \<lparr>kv_tier = ''mock-lmcache'', kv_hit_rate = 0, kv_hits = 0, kv_misses = 0, kv_capacity_bytes = 8192,
      kv_used_bytes = 0, kv_eviction_count = 0\<rparr> (9 / 10) \<noteq> None"
proof -
  have k: "lm_stats (MockLmcacheClient 2 1) = Inr \<lparr>kv_tier = ''mock-lmcache'', kv_hit_rate = 0, kv_hits = 0, kv_misses = 0,
      kv_capacity_bytes = 8192, kv_used_bytes = 0, kv_eviction_count = 0\<rparr>"
    by (simp add: lm_stats_def MockLmcacheClient_def KvStats_def)
  have "lm_ok (MockLmcacheClient 2 1)" by (rule MockLmcacheClient_ok) simp
  from tier_admission_sound [OF this k, of "\<lparr>min_hit_rate = 1 / 2, min_capacity_free_pct = 10\<rparr>" "9 / 10"]
  show ?thesis by (simp add: should_use_tier_def capacity_free_pct_def)
qed

theorem no_capacity_raises_witness: "snd (lm_put (MockLmcacheClient 0 1) ''a'' 1) = Inl KeyError"
  using no_capacity_raises [of "MockLmcacheClient 0 1" "''a''" 1] by (simp add: MockLmcacheClient_def)

end
