(* ===== verification/ClientSlots.thy ===== *)
theory ClientSlots
  imports HttpClient
begin

text \<open>
  How the tasks of \<open>VllmHttpClient.run\<close> share the slots of their \<open>asyncio.Semaphore\<close>. A task is named by its
  position in the schedule. The event loop starts the tasks in the order they were created, a task that finds the
  semaphore locked waits in its queue, and a task that finishes its request hands its slot to the first one waiting.
  Which of the running requests finishes next is up to the server: \<open>client_step\<close> is a relation.
\<close>

section \<open>The semaphore\<close>

text \<open>The queue holds the waiting tasks, with \<open>True\<close> for one that was handed a slot and has yet to run.\<close>

record semaphore =
  sem_value :: nat
  sem_waiters :: "(nat \<times> bool) list"

definition Semaphore :: "nat \<Rightarrow> semaphore" where
  "Semaphore n = \<lparr>sem_value = n, sem_waiters = []\<rparr>"

definition sem_locked :: "semaphore \<Rightarrow> bool" where
  "sem_locked s \<longleftrightarrow> sem_value s = 0 \<or> sem_waiters s \<noteq> []"

fun wake_next :: "(nat \<times> bool) list \<Rightarrow> (nat \<times> bool) list option" where
  "wake_next [] = None"
| "wake_next ((i, True) # ws) = map_option (Cons (i, True)) (wake_next ws)"
| "wake_next ((i, False) # ws) = Some ((i, True) # ws)"

fun wake_all :: "nat \<Rightarrow> (nat \<times> bool) list \<Rightarrow> semaphore" where
  "wake_all 0 ws = \<lparr>sem_value = 0, sem_waiters = ws\<rparr>"
| "wake_all (Suc v) ws =
     (case wake_next ws of None \<Rightarrow> \<lparr>sem_value = Suc v, sem_waiters = ws\<rparr> | Some ws' \<Rightarrow> wake_all v ws')"

text \<open>\<open>acquire\<close> up to its first suspension: \<open>True\<close> when it returned at once.\<close>

definition sem_acquire :: "nat \<Rightarrow> semaphore \<Rightarrow> semaphore \<times> bool" where
  "sem_acquire i s =
     (if sem_locked s then (s\<lparr>sem_waiters := sem_waiters s @ [(i, False)]\<rparr>, False)
      else (s\<lparr>sem_value := sem_value s - 1\<rparr>, True))"

text \<open>The rest of a suspended \<open>acquire\<close>, run by the first task that was handed a slot.\<close>

definition sem_resume :: "semaphore \<Rightarrow> (nat \<times> semaphore) option" where
  "sem_resume s =
     (case sem_waiters s of (i, True) # ws \<Rightarrow> Some (i, wake_all (sem_value s) ws) | _ \<Rightarrow> None)"

definition sem_release :: "semaphore \<Rightarrow> semaphore" where
  "sem_release s =
     (case wake_next (sem_waiters s) of
        None \<Rightarrow> s\<lparr>sem_value := sem_value s + 1\<rparr>
      | Some ws \<Rightarrow> s\<lparr>sem_waiters := ws\<rparr>)"

section \<open>The tasks of a run\<close>

text \<open>\<open>cs_entered\<close>: who got a slot, in that order; \<open>cs_finished\<close>: who returned or raised, in that order.\<close>

record client_state =
  cs_sem :: semaphore
  cs_started :: nat
  cs_entered :: "nat list"
  cs_finished :: "nat list"

definition client_init :: "http_client \<Rightarrow> client_state" where
  "client_init cl = \<lparr>cs_sem = Semaphore (hc_slots cl), cs_started = 0, cs_entered = [], cs_finished = []\<rparr>"

definition in_flight :: "client_state \<Rightarrow> nat list" where
  "in_flight st = filter (\<lambda>i. i \<notin> set (cs_finished st)) (cs_entered st)"

text \<open>A created task runs up to its slot, a woken task takes the slot it was handed, a task ends.\<close>

definition task_start :: "client_state \<Rightarrow> client_state" where
  "task_start st =
     (case sem_acquire (cs_started st) (cs_sem st) of
        (s, got) \<Rightarrow> st\<lparr>cs_sem := s, cs_started := Suc (cs_started st),
                      cs_entered := (if got then cs_entered st @ [cs_started st] else cs_entered st)\<rparr>)"

definition task_resume :: "client_state \<Rightarrow> client_state option" where
  "task_resume st =
     (case sem_resume (cs_sem st) of
        None \<Rightarrow> None
      | Some (i, s) \<Rightarrow> Some (st\<lparr>cs_sem := s, cs_entered := cs_entered st @ [i]\<rparr>))"

definition task_finish :: "nat \<Rightarrow> client_state \<Rightarrow> client_state" where
  "task_finish i st = st\<lparr>cs_sem := sem_release (cs_sem st), cs_finished := cs_finished st @ [i]\<rparr>"

inductive client_step :: "nat \<Rightarrow> client_state \<Rightarrow> client_state \<Rightarrow> bool" for n where
  start: "cs_started st < n \<Longrightarrow> client_step n st (task_start st)"
| resume: "task_resume st = Some st' \<Longrightarrow> client_step n st st'"
| finish: "i \<in> set (in_flight st) \<Longrightarrow> client_step n st (task_finish i st)"

inductive client_reach :: "nat \<Rightarrow> http_client \<Rightarrow> nat \<Rightarrow> client_state \<Rightarrow> bool" for n cl where
  init: "client_reach n cl 0 (client_init cl)"
| step: "client_reach n cl k st \<Longrightarrow> client_step n st st' \<Longrightarrow> client_reach n cl (Suc k) st'"

inductive_cases client_stepE: "client_step n st st'"

text \<open>
  \<open>asyncio.gather\<close>: the first task that raised decides, once it has; otherwise the list of the results in task order,
  once every task returned. \<open>None\<close>: still waiting.
\<close>

definition gathered :: "(nat \<Rightarrow> 'a result) \<Rightarrow> nat \<Rightarrow> client_state \<Rightarrow> 'a list result option" where
  "gathered outcome n st =
     (case filter (\<lambda>i. isl (outcome i)) (cs_finished st) of
        i # _ \<Rightarrow> Some (Inl (projl (outcome i)))
      | [] \<Rightarrow> if length (cs_finished st) = n then Some (Inr (map (\<lambda>i. projr (outcome i)) [0..<n])) else None)"

section \<open>The contract of a slot queue\<close>

text \<open>
  \<open>holds cap r q s\<close>: \<open>s\<close> manages \<open>cap\<close> slots, \<open>r\<close> tasks run in one, and the tasks of \<open>q\<close> are waiting, first come
  first served. The lemmas are the bookkeeping of a client that follows the contract.
\<close>

locale slot_queue =
  fixes acquire :: "nat \<Rightarrow> 's \<Rightarrow> 's \<times> bool"
    and resume :: "'s \<Rightarrow> (nat \<times> 's) option"
    and release :: "'s \<Rightarrow> 's"
    and holds :: "nat \<Rightarrow> nat \<Rightarrow> nat list \<Rightarrow> 's \<Rightarrow> bool"
  assumes acquire_free: "holds cap r q s \<Longrightarrow> acquire i s = (s', True) \<Longrightarrow> q = [] \<and> holds cap (Suc r) [] s'"
    and acquire_wait: "holds cap r q s \<Longrightarrow> acquire i s = (s', False) \<Longrightarrow> holds cap r (q @ [i]) s'"
    and resume_next: "holds cap r q s \<Longrightarrow> resume s = Some (i, s') \<Longrightarrow> \<exists>q'. q = i # q' \<and> holds cap (Suc r) q' s'"
    and release_one: "holds cap (Suc r) q s \<Longrightarrow> holds cap r q (release s)"
    and bounded: "holds cap r q s \<Longrightarrow> r \<le> cap"
    and live: "holds cap 0 q s \<Longrightarrow> 0 < cap \<Longrightarrow> q \<noteq> [] \<Longrightarrow> \<exists>i s'. resume s = Some (i, s')"
begin

definition accounts :: "nat \<Rightarrow> nat \<Rightarrow> nat list \<Rightarrow> nat list \<Rightarrow> 's \<Rightarrow> bool" where
  "accounts cap started entered finished s \<longleftrightarrow>
     distinct finished \<and> set finished \<subseteq> set entered \<and>
     (\<exists>q. entered @ q = [0..<started] \<and> holds cap (length entered - length finished) q s)"

lemma accounts_entered:
  assumes "accounts cap started entered finished s"
  shows "entered = [0..<length entered] \<and> length entered \<le> started"
proof -
  obtain q where q: "entered @ q = [0..<started]" using assms by (auto simp: accounts_def)
  then have le: "length entered \<le> started" by (metis le_add1 length_append length_upt diff_zero)
  have "entered = take (length entered) [0..<started]" using q by (metis append_eq_conv_conj)
  with le show ?thesis by (simp add: take_upt)
qed

lemma accounts_counts:
  assumes "accounts cap started entered finished s"
  shows "length finished \<le> length entered \<and> length entered - length finished \<le> cap
    \<and> length (filter (\<lambda>i. i \<notin> set finished) entered) = length entered - length finished"
proof -
  have d: "distinct entered" using accounts_entered [OF assms] by (metis distinct_upt)
  have f: "distinct finished" "set finished \<subseteq> set entered" and h: "length entered - length finished \<le> cap"
    using assms bounded by (auto simp: accounts_def)
  have "length (filter (\<lambda>i. i \<notin> set finished) entered) = card (set entered - set finished)"
    using distinct_card [of "filter (\<lambda>i. i \<notin> set finished) entered"] d by (simp add: set_diff_eq)
  also have "\<dots> = length entered - length finished"
    using f d by (simp add: card_Diff_subset distinct_card)
  finally show ?thesis using h card_mono [OF _ f(2)] f(1) d by (simp add: distinct_card)
qed

lemma accounts_start:
  assumes "accounts cap started entered finished s" "acquire started s = (s', got)"
  shows "accounts cap (Suc started) (if got then entered @ [started] else entered) finished s'"
proof -
  obtain q where q: "entered @ q = [0..<started]" "holds cap (length entered - length finished) q s"
    using assms(1) by (auto simp: accounts_def)
  have le: "length finished \<le> length entered" using accounts_counts [OF assms(1)] by simp
  show ?thesis
  proof (cases got)
    case True
    with acquire_free [OF q(2)] assms(2) have "q = []" "holds cap (Suc (length entered - length finished)) [] s'" by auto
    with q le assms(1) True show ?thesis by (auto simp: accounts_def Suc_diff_le)
  next
    case False
    with acquire_wait [OF q(2)] assms(2) have "holds cap (length entered - length finished) (q @ [started]) s'" by auto
    with q assms(1) False show ?thesis
      unfolding accounts_def by (auto intro!: exI [of _ "q @ [started]"] simp flip: append_assoc)
  qed
qed

lemma accounts_resume:
  assumes "accounts cap started entered finished s" "resume s = Some (i, s')"
  shows "accounts cap started (entered @ [i]) finished s'"
proof -
  obtain q where q: "entered @ q = [0..<started]" "holds cap (length entered - length finished) q s"
    using assms(1) by (auto simp: accounts_def)
  obtain q' where "q = i # q'" "holds cap (Suc (length entered - length finished)) q' s'"
    using resume_next [OF q(2) assms(2)] by blast
  then show ?thesis
    using q assms(1) accounts_counts [OF assms(1)] by (auto simp: accounts_def Suc_diff_le)
qed

lemma accounts_finish:
  assumes "accounts cap started entered finished s" "i \<in> set entered" "i \<notin> set finished"
  shows "accounts cap started entered (finished @ [i]) (release s)"
proof -
  obtain q where q: "entered @ q = [0..<started]" "holds cap (length entered - length finished) q s"
    using assms(1) by (auto simp: accounts_def)
  have "length (filter (\<lambda>j. j \<notin> set finished) entered) \<noteq> 0"
    using assms(2,3) by (auto simp: filter_empty_conv)
  then have "length entered - length finished = Suc (length entered - length (finished @ [i]))"
    using accounts_counts [OF assms(1)] by simp
  with release_one q have "holds cap (length entered - length (finished @ [i])) q (release s)" by metis
  then show ?thesis using q assms by (auto simp: accounts_def)
qed

lemma accounts_progress:
  assumes "accounts cap started entered finished s" "0 < cap" "length finished < started"
  shows "(\<exists>i. i \<in> set entered \<and> i \<notin> set finished) \<or> (\<exists>i s'. resume s = Some (i, s'))"
proof (cases "length finished = length entered")
  case True
  obtain q where q: "entered @ q = [0..<started]" "holds cap 0 q s"
    using assms(1) True by (auto simp: accounts_def)
  have "length entered + length q = started" using arg_cong [OF q(1), of length] by simp
  then have "q \<noteq> []" using assms(3) True by auto
  with live [OF q(2) assms(2)] show ?thesis by blast
next
  case False
  then have "length (filter (\<lambda>i. i \<notin> set finished) entered) \<noteq> 0"
    using accounts_counts [OF assms(1)] by simp
  then show ?thesis by (auto simp: filter_empty_conv)
qed

end

text \<open>
  The semaphore keeps it: the tasks that were handed a slot come first. A slot can be free while another task waits,
  but only until the next of those tasks runs, which hands out all that are free.
\<close>

abbreviation queue_of :: "nat list \<Rightarrow> nat list \<Rightarrow> (nat \<times> bool) list" where
  "queue_of h w \<equiv> map (\<lambda>i. (i, True)) h @ map (\<lambda>i. (i, False)) w"

definition sem_holds :: "nat \<Rightarrow> nat \<Rightarrow> nat list \<Rightarrow> semaphore \<Rightarrow> bool" where
  "sem_holds cap r q s \<longleftrightarrow>
     (\<exists>h w. sem_waiters s = queue_of h w \<and> q = h @ w \<and> sem_value s + length h + r = cap \<and>
        (w = [] \<or> sem_value s = 0 \<or> h \<noteq> []))"

lemma wake_next_queue:
  "wake_next (queue_of h w) = (case w of [] \<Rightarrow> None | j # w' \<Rightarrow> Some (queue_of (h @ [j]) w'))"
  by (induction h) (simp_all split: list.splits)

lemma wake_all_queue:
  "wake_all v (queue_of h w) =
     \<lparr>sem_value = v - length w, sem_waiters = queue_of (h @ take v w) (drop v w)\<rparr>"
proof (induction v arbitrary: h w)
  case 0
  then show ?case by simp
next
  case (Suc v)
  show ?case
  proof (cases w)
    case Nil
    then show ?thesis using wake_next_queue [of h "[]"] by simp
  next
    case (Cons j w')
    then show ?thesis using wake_next_queue [of h w] Suc.IH [of "h @ [j]" w'] by simp
  qed
qed

lemma sem_holds_init: "sem_holds n 0 [] (Semaphore n)"
  by (simp add: sem_holds_def Semaphore_def)

interpretation sem: slot_queue sem_acquire sem_resume sem_release sem_holds
proof unfold_locales
  fix cap r q s i s'
  assume hs: "sem_holds cap r q s"
  then obtain h w where hw: "sem_waiters s = queue_of h w" "q = h @ w" "sem_value s + length h + r = cap"
    "w = [] \<or> sem_value s = 0 \<or> h \<noteq> []"
    by (auto simp: sem_holds_def)
  show "q = [] \<and> sem_holds cap (Suc r) [] s'" if "sem_acquire i s = (s', True)"
    using hw that by (auto simp: sem_holds_def sem_acquire_def sem_locked_def split: if_splits)
  show "sem_holds cap r (q @ [i]) s'" if a: "sem_acquire i s = (s', False)"
    unfolding sem_holds_def using a hw
    by (intro exI [of _ h] exI [of _ "w @ [i]"]) (auto simp: sem_acquire_def sem_locked_def split: if_splits)
  show "\<exists>q'. q = i # q' \<and> sem_holds cap (Suc r) q' s'" if a: "sem_resume s = Some (i, s')"
  proof -
    obtain h' where h': "h = i # h'" and s': "s' = wake_all (sem_value s) (queue_of h' w)"
      using a hw(1) by (cases h; cases w) (auto simp: sem_resume_def)
    have "sem_holds cap (Suc r) (h' @ w) s'"
      unfolding sem_holds_def s' wake_all_queue using hw h'
      by (intro exI [of _ "h' @ take (sem_value s) w"] exI [of _ "drop (sem_value s) w"]) auto
    then show ?thesis using hw(2) h' by simp
  qed
  show "r \<le> cap" using hw(3) by simp
next
  fix cap r q s
  assume "sem_holds cap (Suc r) q s"
  then obtain h w where hw: "sem_waiters s = queue_of h w" "q = h @ w" "sem_value s + length h + Suc r = cap"
    "w = [] \<or> sem_value s = 0 \<or> h \<noteq> []"
    by (auto simp: sem_holds_def)
  show "sem_holds cap r q (sem_release s)"
  proof (cases w)
    case Nil
    then show ?thesis using hw wake_next_queue [of h w] by (auto simp: sem_release_def sem_holds_def)
  next
    case (Cons j w')
    then show ?thesis unfolding sem_holds_def using hw wake_next_queue [of h w]
      by (intro exI [of _ "h @ [j]"] exI [of _ w']) (auto simp: sem_release_def)
  qed
next
  fix cap q s
  assume "sem_holds cap 0 q s" "0 < cap" "q \<noteq> []"
  then obtain h w where hw: "sem_waiters s = queue_of h w" "q = h @ w" "sem_value s + length h = cap"
    "w = [] \<or> sem_value s = 0 \<or> h \<noteq> []"
    by (auto simp: sem_holds_def)
  with \<open>0 < cap\<close> \<open>q \<noteq> []\<close> obtain i h' where "h = i # h'" by (cases h) auto
  then show "\<exists>i s'. sem_resume s = Some (i, s')" using hw(1) by (simp add: sem_resume_def)
qed

section \<open>Every reachable state\<close>

definition client_ok :: "nat \<Rightarrow> nat \<Rightarrow> client_state \<Rightarrow> bool" where
  "client_ok n cap st \<longleftrightarrow>
     sem.accounts cap (cs_started st) (cs_entered st) (cs_finished st) (cs_sem st) \<and> cs_started st \<le> n"

lemma client_step_ok:
  assumes "client_step n st st'" "client_ok n cap st"
  shows "client_ok n cap st' \<and>
    cs_started st' + length (cs_entered st') + length (cs_finished st')
      > cs_started st + length (cs_entered st) + length (cs_finished st)"
  using assms(1)
proof (rule client_stepE)
  assume st': "st' = task_start st" and lt: "cs_started st < n"
  obtain s got where a: "sem_acquire (cs_started st) (cs_sem st) = (s, got)" by force
  from sem.accounts_start [OF _ a] assms(2) lt show ?thesis
    by (auto simp: st' task_start_def a client_ok_def)
next
  assume "task_resume st = Some st'"
  then obtain i s where a: "sem_resume (cs_sem st) = Some (i, s)"
    and st': "st' = st\<lparr>cs_sem := s, cs_entered := cs_entered st @ [i]\<rparr>"
    by (auto simp: task_resume_def split: option.splits)
  from sem.accounts_resume [OF _ a] assms(2) show ?thesis by (auto simp: st' client_ok_def)
next
  fix i
  assume st': "st' = task_finish i st" and i: "i \<in> set (in_flight st)"
  then have "i \<in> set (cs_entered st)" "i \<notin> set (cs_finished st)" by (auto simp: in_flight_def)
  from sem.accounts_finish [OF _ this] assms(2) show ?thesis
    by (auto simp: st' task_finish_def client_ok_def)
qed

lemma client_reach_ok:
  "client_reach n cl k st \<Longrightarrow> client_ok n (hc_slots cl) st \<and>
     k \<le> cs_started st + length (cs_entered st) + length (cs_finished st)"
proof (induction rule: client_reach.induct)
  case init
  then show ?case by (simp add: client_init_def client_ok_def sem.accounts_def sem_holds_init)
next
  case (step k st st')
  then show ?case using client_step_ok [of n st st' "hc_slots cl"] by auto
qed

lemma client_ok_counts:
  assumes "client_ok n cap st"
  shows "length (cs_finished st) \<le> length (cs_entered st)" "length (cs_entered st) \<le> cs_started st" "cs_started st \<le> n"
  using assms sem.accounts_counts sem.accounts_entered by (auto simp: client_ok_def)

text \<open>When every task has finished, the finishing order is a permutation of the tasks.\<close>

lemma client_ok_complete:
  assumes "client_ok n cap st" "length (cs_finished st) = n"
  shows "set (cs_finished st) = {0..<n} \<and> cs_started st = n"
proof -
  have acc: "sem.accounts cap (cs_started st) (cs_entered st) (cs_finished st) (cs_sem st)" "cs_started st \<le> n"
    using assms(1) by (auto simp: client_ok_def)
  have eq: "length (cs_entered st) = n" "cs_started st = n" using client_ok_counts [OF assms(1)] assms(2) by auto
  have e: "cs_entered st = [0..<n]" using sem.accounts_entered [OF acc(1)] eq by metis
  have f: "distinct (cs_finished st)" "set (cs_finished st) \<subseteq> {0..<n}" using acc(1) e by (auto simp: sem.accounts_def)
  have "card (set (cs_finished st)) = card {0..<n}" using f(1) assms(2) by (simp add: distinct_card)
  with f(2) eq show ?thesis by (simp add: card_subset_eq)
qed

lemma client_ok_progress:
  assumes "client_ok n cap st" "0 < cap" "length (cs_finished st) < n"
  shows "\<exists>st'. client_step n st st'"
proof (cases "cs_started st < n")
  case True
  then show ?thesis using client_step.start by blast
next
  case False
  then have "length (cs_finished st) < cs_started st" using assms(3) by simp
  with assms(1,2) have "(\<exists>i. i \<in> set (cs_entered st) \<and> i \<notin> set (cs_finished st)) \<or>
      (\<exists>i s'. sem_resume (cs_sem st) = Some (i, s'))"
    by (intro sem.accounts_progress [of cap "cs_started st"]) (simp_all add: client_ok_def)
  then show ?thesis
  proof
    assume "\<exists>i. i \<in> set (cs_entered st) \<and> i \<notin> set (cs_finished st)"
    then show ?thesis using client_step.finish [of _ st n] by (auto simp: in_flight_def)
  next
    assume "\<exists>i s'. sem_resume (cs_sem st) = Some (i, s')"
    then show ?thesis using client_step.resume [of st] by (fastforce simp: task_resume_def)
  qed
qed

section \<open>What the caller gets\<close>

lemma rmap_cases:
  "rmap f xs = (case filter (\<lambda>x. isl (f x)) xs of
     x # _ \<Rightarrow> Inl (projl (f x)) | [] \<Rightarrow> Inr (map (\<lambda>x. projr (f x)) xs))"
proof (induction xs)
  case (Cons x xs)
  then show ?case by (cases "f x") (auto split: list.splits)
qed simp

lemma task_error: "task_telemetry json_loads exc_text now slp pool task = Inl e \<Longrightarrow> e = ValueError"
  by (auto simp: task_telemetry_def send_one_def RequestTelemetry_def split: prod.splits if_splits)

lemma client_run_cases:
  "client_run json_loads exc_text now slp pool tasks =
     (if \<exists>t\<in>set tasks. isl (task_telemetry json_loads exc_text now slp pool t) then Inl ValueError
      else Inr (map (\<lambda>t. projr (task_telemetry json_loads exc_text now slp pool t)) tasks))"
proof (cases "filter (\<lambda>t. isl (task_telemetry json_loads exc_text now slp pool t)) tasks")
  case Nil
  then show ?thesis by (auto simp: client_run_def rmap_cases filter_empty_conv)
next
  case (Cons t ts)
  have "t \<in> set (filter (\<lambda>t. isl (task_telemetry json_loads exc_text now slp pool t)) tasks)"
    unfolding Cons by simp
  then have t: "t \<in> set tasks" "isl (task_telemetry json_loads exc_text now slp pool t)" by auto
  then have "projl (task_telemetry json_loads exc_text now slp pool t) = ValueError"
    using task_error by (metis sum.collapse(1))
  then show ?thesis using Cons t by (auto simp: client_run_def rmap_cases)
qed

lemma gathered_client_run:
  assumes ok: "client_ok (length tasks) cap st"
    and g: "gathered (\<lambda>i. task_telemetry json_loads exc_text now slp pool (tasks ! i)) (length tasks) st = Some r"
  shows "r = client_run json_loads exc_text now slp pool tasks"
proof -
  let ?f = "task_telemetry json_loads exc_text now slp pool"
  have sub: "set (cs_finished st) \<subseteq> {0..<length tasks}"
  proof -
    have acc: "sem.accounts cap (cs_started st) (cs_entered st) (cs_finished st) (cs_sem st)" "cs_started st \<le> length tasks"
      using ok by (auto simp: client_ok_def)
    have "set (cs_entered st) \<subseteq> {0..<length tasks}"
      using sem.accounts_entered [OF acc(1)] acc(2) by (metis atLeastLessThan_upt order_trans ivl_subset le0)
    then show ?thesis using acc(1) by (auto simp: sem.accounts_def)
  qed
  show ?thesis
  proof (cases "filter (\<lambda>i. isl (?f (tasks ! i))) (cs_finished st)")
    case (Cons i rest)
    have "i \<in> set (filter (\<lambda>i. isl (?f (tasks ! i))) (cs_finished st))" unfolding Cons by simp
    then have i: "i < length tasks" "isl (?f (tasks ! i))" using sub by auto
    then have "projl (?f (tasks ! i)) = ValueError" using task_error by (metis sum.collapse(1))
    then have "r = Inl ValueError" using g Cons by (simp add: gathered_def)
    moreover have "tasks ! i \<in> set tasks" using i(1) by simp
    ultimately show ?thesis using i(2) by (auto simp: client_run_cases)
  next
    case Nil
    then have n: "length (cs_finished st) = length tasks" and r: "r = Inr (map (\<lambda>i. projr (?f (tasks ! i))) [0..<length tasks])"
      using g by (auto simp: gathered_def split: if_splits)
    have "\<forall>i\<in>{0..<length tasks}. \<not> isl (?f (tasks ! i))"
      using Nil client_ok_complete [OF ok n] by (simp add: filter_empty_conv)
    then have "\<forall>t\<in>set tasks. \<not> isl (?f t)" by (force simp: in_set_conv_nth)
    moreover have "map (\<lambda>i. projr (?f (tasks ! i))) [0..<length tasks] = map (\<lambda>t. projr (?f t)) tasks"
      by (rule nth_equalityI) simp_all
    ultimately show ?thesis unfolding r client_run_cases by simp
  qed
qed

lemma task_telemetry_request:
  "task_telemetry json_loads exc_text now slp pool ((spec, ts), ex, c) = Inr t \<Longrightarrow> tl_request_id t = rq_id spec"
  by (auto simp: task_telemetry_def send_one_def RequestTelemetry_def split: prod.splits if_splits)

lemma client_run_requests:
  assumes "client_run json_loads exc_text now slp pool (zip sched obs) = Inr ts" "length obs = length sched"
  shows "map tl_request_id ts = map (\<lambda>(spec, t). rq_id spec) sched"
  using assms
proof (induction sched obs arbitrary: ts rule: list_induct2')
  case (4 x sched y obs)
  obtain spec t ex c where xy: "x = (spec, t)" "y = (ex, c)" by (metis surj_pair)
  with 4 show ?case
    by (auto simp: client_run_def rbind_eq_Inr dest: task_telemetry_request)
qed (auto simp: client_run_def)

lemma scheduler_trace: "OpenLoopScheduler R tr = Some (Inr s) \<Longrightarrow> sc_trace s = tr"
  by (auto simp: OpenLoopScheduler_def rbind_eq_Inr split: arrival_process.splits option.splits sum.splits)

section \<open>Properties\<close>

lemma replay_requests:
  assumes "replay R json_loads exc_text now slp pool tr t0 obs = Some (Inr ts)"
    and "OpenLoopScheduler R tr = Some (Inr s)" and "length obs = n_scheduled s"
  shows "map tl_request_id ts = map rq_id (take (n_scheduled s) (tr_requests tr))"
proof -
  have run: "client_run json_loads exc_text now slp pool (zip (schedule s t0) obs) = Inr ts"
    using assms(1,2) by (simp add: replay_def run_trace_def)
  have "map tl_request_id ts = map rq_id (map fst (schedule s t0))"
    using client_run_requests [OF run] assms(3) by (simp add: schedule_length case_prod_beta comp_def)
  then show ?thesis using scheduler_trace [OF assms(2)] by (simp add: schedule_requests)
qed

text \<open>
  C33: A replay issues the same requests in the same order. When two replays of a trace return, whatever the servers
  answered and the clocks read, both lists carry the identifiers of the first scheduled requests of the trace, in
  its order.
\<close>

theorem replay_contract:
  assumes "OpenLoopScheduler R tr = Some (Inr s)"
    and "replay R json_loads exc_text now slp pool tr t0 obs = Some (Inr ts)" and "length obs = n_scheduled s"
    and "replay R json_loads exc_text now slp pool tr t0' obs' = Some (Inr ts')" and "length obs' = n_scheduled s"
  shows "map tl_request_id ts = map tl_request_id ts' \<and>
    map tl_request_id ts = map rq_id (take (n_scheduled s) (tr_requests tr))"
  using replay_requests [OF assms(2,1,3)] replay_requests [OF assms(4,1,5)] by simp

text \<open>
  C12: The client never has more requests in flight than it was given slots. In every state the event loop can
  reach, at most \<open>max_concurrent\<close> tasks hold a slot, slots were granted in schedule order without gaps, a task
  that finished had been granted one, and none finished twice.
\<close>

theorem flight_bounded:
  assumes "VllmHttpClient url model timeout_s max_concurrent = Inr cl" and "client_reach n cl k st"
  shows "int (length (in_flight st)) \<le> max_concurrent \<and> cs_entered st = [0..<length (cs_entered st)] \<and>
    length (cs_entered st) \<le> n \<and> set (cs_finished st) \<subseteq> set (cs_entered st) \<and> distinct (cs_finished st)"
proof -
  have ok: "client_ok n (hc_slots cl) st" using client_reach_ok [OF assms(2)] by simp
  then have acc: "sem.accounts (hc_slots cl) (cs_started st) (cs_entered st) (cs_finished st) (cs_sem st)" "cs_started st \<le> n"
    by (auto simp: client_ok_def)
  have "length (in_flight st) \<le> hc_slots cl" using sem.accounts_counts [OF acc(1)] by (simp add: in_flight_def)
  moreover have "int (hc_slots cl) = max_concurrent" using assms(1) by (auto simp: VllmHttpClient_def split: if_splits)
  ultimately show ?thesis
    using sem.accounts_entered [OF acc(1)] acc by (auto simp: sem.accounts_def)
qed

text \<open>
  C11: A run ends, with the results the order of events does not change. With at least one slot, a run of \<open>n\<close> tasks
  makes at most three steps per task; until the caller has its answer some step is possible; and the answer is
  what \<open>client_run\<close> computes task by task, whichever requests finished first.
\<close>

theorem client_run_ends:
  assumes "client_reach (length tasks) cl k st" and "0 < hc_slots cl"
  shows "k \<le> 3 * length tasks \<and>
    (case gathered (\<lambda>i. task_telemetry json_loads exc_text now slp pool (tasks ! i)) (length tasks) st of
       None \<Rightarrow> \<exists>st'. client_step (length tasks) st st'
     | Some r \<Rightarrow> r = client_run json_loads exc_text now slp pool tasks)"
proof -
  have ok: "client_ok (length tasks) (hc_slots cl) st"
    and k: "k \<le> cs_started st + length (cs_entered st) + length (cs_finished st)"
    using client_reach_ok [OF assms(1)] by auto
  show ?thesis
  proof (cases "gathered (\<lambda>i. task_telemetry json_loads exc_text now slp pool (tasks ! i)) (length tasks) st")
    case None
    then have "length (cs_finished st) \<noteq> length tasks" by (auto simp: gathered_def split: list.splits if_splits)
    then have "length (cs_finished st) < length tasks" using client_ok_counts [OF ok] by linarith
    from client_ok_progress [OF ok assms(2) this] None k client_ok_counts [OF ok] show ?thesis by simp
  next
    case (Some r)
    with gathered_client_run [OF ok Some] k client_ok_counts [OF ok] show ?thesis by simp
  qed
qed

text \<open>Without a slot nothing is ever sent, and a caller with a task waits for ever.\<close>

lemma no_slots_no_results:
  "client_reach n cl k st \<Longrightarrow> hc_slots cl = 0 \<Longrightarrow> cs_entered st = [] \<and> cs_finished st = []"
proof (induction rule: client_reach.induct)
  case init
  then show ?case by (simp add: client_init_def)
next
  case (step k st st')
  then have empty: "cs_entered st = []" "cs_finished st = []" by simp_all
  have "client_ok n 0 st'" using client_reach_ok [OF client_reach.step [OF step.hyps]] step.prems by simp
  then have "length (cs_entered st') = length (cs_finished st')"
    using sem.accounts_counts [of 0 "cs_started st'" "cs_entered st'" "cs_finished st'" "cs_sem st'"] by (auto simp: client_ok_def)
  moreover have "cs_finished st' = []"
    using step.hyps(2)
  proof (rule client_stepE)
    assume "st' = task_start st"
    then show ?thesis using empty by (simp add: task_start_def split: prod.splits)
  next
    assume "task_resume st = Some st'"
    then show ?thesis using empty by (auto simp: task_resume_def split: option.splits)
  next
    fix i
    assume "i \<in> set (in_flight st)"
    then show ?thesis using empty by (simp add: in_flight_def)
  qed
  ultimately show ?case by simp
qed

text \<open>Two tasks and one slot: the second waits until the first has finished.\<close>

definition ex_client :: http_client where
  "ex_client = \<lparr>hc_base_url = ''u'', hc_model = ''m'', hc_timeout = 1, hc_slots = 1\<rparr>"

lemma ex_client_reach:
  "client_reach 2 ex_client 3
     \<lparr>cs_sem = \<lparr>sem_value = 0, sem_waiters = [(1, True)]\<rparr>, cs_started = 2, cs_entered = [0], cs_finished = [0]\<rparr>"
proof -
  have s: "client_reach 2 ex_client 1
     \<lparr>cs_sem = \<lparr>sem_value = 0, sem_waiters = []\<rparr>, cs_started = 1, cs_entered = [0], cs_finished = []\<rparr>"
    using client_reach.step [OF client_reach.init client_step.start [of "client_init ex_client" 2]]
    by (simp add: client_init_def ex_client_def Semaphore_def task_start_def sem_acquire_def sem_locked_def)
  have t: "client_reach 2 ex_client 2
     \<lparr>cs_sem = \<lparr>sem_value = 0, sem_waiters = [(1, False)]\<rparr>, cs_started = 2, cs_entered = [0], cs_finished = []\<rparr>"
    using client_reach.step [OF s client_step.start]
    by (simp add: task_start_def sem_acquire_def sem_locked_def numeral_2_eq_2)
  show ?thesis
    using client_reach.step [OF t client_step.finish [of 0]]
    by (simp add: task_finish_def sem_release_def in_flight_def numeral_3_eq_3)
qed

theorem flight_bounded_witness:
  "VllmHttpClient ''u/'' ''m'' 1 1 = Inr ex_client \<and>
   length (in_flight \<lparr>cs_sem = \<lparr>sem_value = 0, sem_waiters = [(1, True)]\<rparr>, cs_started = 2, cs_entered = [0], cs_finished = [0]\<rparr>) \<le> 1"
proof -
  have c: "VllmHttpClient ''u/'' ''m'' 1 1 = Inr ex_client"
    by (simp add: VllmHttpClient_def ex_client_def rstrip_slash_def)
  from flight_bounded [OF c ex_client_reach] c show ?thesis by simp
qed

lemma ex_replay:
  "replay counting_rng ex_loads (\<lambda>e. []) ex_now ex_slp None ex_trace t0 [(Unreachable ''e'', 0), (Unreachable ''e'', 0)] =
     Some (Inr (map (\<lambda>(rid, t). \<lparr>tl_request_id = rid, tl_prompt_tokens = 1, tl_enqueue_ts_ns = t, tl_ttft_ms = None,
       tl_per_token_ts_ns = [], tl_completion_ts_ns = None, tl_status_code = 599, tl_error = Some ''e'', tl_routed_pool = None\<rparr>)
       [(''a'', fst (ex_now (case wait_until (t0 + 500000000) 0 of None \<Rightarrow> Suc 0 | Some d \<Rightarrow> ex_slp d (Suc 0)))),
        (''b'', fst (ex_now (case wait_until (t0 + 1000000000) 0 of None \<Rightarrow> Suc 0 | Some d \<Rightarrow> ex_slp d (Suc 0))))]))"
proof -
  have sch: "schedule \<lparr>sc_trace = ex_trace, sc_offsets = [1 / 2, 1]\<rparr> t0 =
      [(tr_requests ex_trace ! 0, t0 + 500000000), (tr_requests ex_trace ! 1, t0 + 1000000000)]"
    by (simp add: schedule_def ex_trace_def py_int_def)
  have now: "ex_now n = (int n, Suc n)" for n by (simp add: ex_now_def)
  show ?thesis
    by (simp add: replay_def run_trace_def ex_scheduler sch client_run_def task_telemetry_def send_one_def now
        exchange_result_def RequestTelemetry_def, simp add: ex_trace_def)
qed

theorem replay_contract_witness:
  "\<exists>ts ts'. replay counting_rng ex_loads (\<lambda>e. []) ex_now ex_slp None ex_trace 0 [(Unreachable ''e'', 0), (Unreachable ''e'', 0)] = Some (Inr ts) \<and>
     replay counting_rng ex_loads (\<lambda>e. []) ex_now ex_slp None ex_trace 7 [(Unreachable ''e'', 0), (Unreachable ''e'', 0)] = Some (Inr ts') \<and>
     map tl_request_id ts = map tl_request_id ts' \<and> map tl_request_id ts = [''a'', ''b'']"
proof -
  have n: "length [(Unreachable ''e'', 0 :: nat), (Unreachable ''e'', 0)] = n_scheduled \<lparr>sc_trace = ex_trace, sc_offsets = [1 / 2, 1]\<rparr>"
    by (simp add: n_scheduled_def ex_trace_def)
  from replay_contract [OF ex_scheduler ex_replay n ex_replay n] show ?thesis
    unfolding ex_replay by (auto simp: ex_trace_def n_scheduled_def)
qed

theorem client_run_ends_witness:
  "\<exists>st st'. client_reach 2 ex_client 3 st \<and>
     gathered (\<lambda>i. task_telemetry ex_loads (\<lambda>e. []) ex_now ex_slp None
       ([((ex_request, 0), Unreachable ''e'', 0), ((ex_request, 5), Unreachable ''e'', 0)] ! i)) 2 st = None \<and>
     client_step 2 st st'"
proof -
  let ?st = "\<lparr>cs_sem = \<lparr>sem_value = 0, sem_waiters = [(1, True)]\<rparr>, cs_started = 2, cs_entered = [0], cs_finished = [0 :: nat]\<rparr>"
  let ?tasks = "[((ex_request, 0), Unreachable ''e'', 0), ((ex_request, 5), Unreachable ''e'', 0)]"
  have r: "client_reach (length ?tasks) ex_client 3 ?st" using ex_client_reach by (simp add: numeral_2_eq_2)
  have t0: "\<not> isl (task_telemetry ex_loads (\<lambda>e. []) ex_now ex_slp None ((ex_request, 0), Unreachable ''e'', 0))"
    by (simp add: task_telemetry_def send_one_def exchange_result_def wait_until_def ex_now_def RequestTelemetry_def ex_request_def)
  then have g: "gathered (\<lambda>i. task_telemetry ex_loads (\<lambda>e. []) ex_now ex_slp None (?tasks ! i)) (length ?tasks) ?st = None"
    by (simp add: gathered_def)
  have "0 < hc_slots ex_client" by (simp add: ex_client_def)
  from client_run_ends [OF r this, of ex_loads "\<lambda>e. []" ex_now ex_slp None] g ex_client_reach
  show ?thesis by (auto simp: numeral_2_eq_2)
qed

end
