(* ===== verification/ClientCell.thy ===== *)
theory ClientCell
  imports ClientSlots CellRunner
begin

text \<open>
  A cell measured through the client: \<open>CellRunner._execute\<close> (src/bench/cell_runner.py) replays the trace of the cell with
  \<open>ReplayRunner\<close> over \<open>VllmHttpClient\<close>, so the telemetries behind a result are those of \<open>replay\<close>. How many of the trace's
  requests they cover is decided by the arrival process of the mix.
\<close>


section \<open>The arrivals of a cell\<close>

lemma ArrivalConfig_fields:
  "ArrivalConfig p rate seed on off = Inr a \<Longrightarrow>
     a = \<lparr>ar_process = p, ar_rate_per_sec = rate, ar_seed = seed, ar_on_duration_s = on, ar_off_duration_s = off\<rparr>"
  by (auto simp: ArrivalConfig_def split: if_splits)

lemma Trace_fields:
  "Trace wl seed duration arrival reqs = Inr t \<Longrightarrow> tr_arrival t = arrival \<and> tr_duration_s t = duration \<and> tr_requests t = reqs"
  by (auto simp: Trace_def split: if_splits)

definition cell_arrival :: "cell_spec \<Rightarrow> arrival_config" where
  "cell_arrival c =
     \<lparr>ar_process = (if cs_mix c = MIX_AGENTIC then OnOff else Poisson), ar_rate_per_sec = real_of_int (cs_rate_rps c),
      ar_seed = cs_seed c, ar_on_duration_s = (if cs_mix c = MIX_AGENTIC then Some (3 / 2) else None),
      ar_off_duration_s = (if cs_mix c = MIX_AGENTIC then Some (3 / 10) else None)\<rparr>"

lemma build_trace_arrival:
  assumes "build_trace R c = Inr tr"
  shows "tr_arrival tr = cell_arrival c \<and> tr_duration_s tr = cell_duration_s c"
proof (cases "cs_mix c")
  case MIX_CHAT
  then obtain cfg t where "ChatWorkloadConfig (cell_total c) (cs_seed c) (500, 2000) (50, 500) (1, 5) DEFAULT_SYSTEM_PROMPT
        (real_of_int (cs_rate_rps c)) (cell_duration_s c) INTERACTIVE = Inr cfg"
      "chat_generate R cfg = Inr t" "tr = t\<lparr>tr_workload := mix_to_workload (cs_mix c)\<rparr>"
    using assms by (auto simp: build_trace_def rbind_eq_Inr)
  then show ?thesis using MIX_CHAT
    by (auto simp: ChatWorkloadConfig_def chat_generate_def rbind_eq_Inr cell_arrival_def
        dest!: ArrivalConfig_fields Trace_fields split: if_splits)
next
  case MIX_RAG
  then obtain cfg gen t g where "RagWorkloadConfig (rag_cell_config c) = Inr cfg" "rag_generate R cfg gen = Inr (t, g)"
      "tr = t\<lparr>tr_workload := mix_to_workload (cs_mix c)\<rparr>"
    using assms by (auto simp: build_trace_def rbind_eq_Inr)
  then show ?thesis using MIX_RAG
    by (auto simp: RagWorkloadConfig_def rag_generate_def rbind_eq_Inr cell_arrival_def rag_cell_config_def
        dest!: ArrivalConfig_fields Trace_fields split: if_splits prod.splits)
next
  case MIX_AGENTIC
  then obtain cfg t where "AgenticWorkloadConfig (agentic_cell_config c) = Inr cfg" "agent_generate R cfg = Inr t"
      "tr = t\<lparr>tr_workload := mix_to_workload (cs_mix c)\<rparr>"
    using assms by (auto simp: build_trace_def rbind_eq_Inr)
  then show ?thesis using MIX_AGENTIC
    by (auto simp: AgenticWorkloadConfig_def agent_generate_def rbind_eq_Inr cell_arrival_def agentic_cell_config_def
        dest!: ArrivalConfig_fields Trace_fields split: if_splits)
qed


section \<open>Properties\<close>


section \<open>A chat cell against a server that is down\<close>










section \<open>Agentic cells drop requests\<close>

text \<open>
  An agentic cell draws on/off arrivals over \<open>total / rate\<close> seconds and sends nothing in the off phases, so it schedules
  fewer arrivals than its trace has requests: with a generator that draws the mean gap, 9 of 12.
\<close>

lemma first_phase: "\<exists>g'. on_phase counting_rng 4 (3 / 2) 0 [] g = Some ([1 / 4, 1 / 2, 3 / 4, 1, 5 / 4], g')"
  by (simp add: on_phase.simps)

lemma second_phase:
  "\<exists>g'. on_phase counting_rng 4 3 (9 / 5) [1 / 4, 1 / 2, 3 / 4, 1, 5 / 4] g =
     Some ([1 / 4, 1 / 2, 3 / 4, 1, 5 / 4, 41 / 20, 23 / 10, 51 / 20, 14 / 5], g')"
  by (simp add: on_phase.simps)

lemma agentic_offsets:
  "\<exists>p'. onoff_sample counting_rng \<lparr>oo_on_rate = 4, oo_on_dur = 3 / 2, oo_off_dur = 3 / 10, oo_rng = g\<rparr> 3 =
     Some ([1 / 4, 1 / 2, 3 / 4, 1, 5 / 4, 41 / 20, 23 / 10, 51 / 20, 14 / 5], p')"
proof -
  let ?p = "\<lparr>oo_on_rate = 4, oo_on_dur = 3 / 2, oo_off_dur = 3 / 10, oo_rng = g\<rparr>"
  have len: "cycle_len ?p = 9 / 5" by (simp add: cycle_len_def)
  have "\<lfloor>3 / cycle_len ?p\<rfloor> = 1" unfolding len by (rule floor_unique) simp_all
  then have cycles: "\<lfloor>3 / cycle_len ?p\<rfloor> + 1 = 2" by simp
  obtain g1 where first: "on_phase counting_rng 4 (3 / 2) 0 [] g = Some ([1 / 4, 1 / 2, 3 / 4, 1, 5 / 4], g1)"
    using first_phase by blast
  obtain g2 where second: "on_phase counting_rng 4 3 (9 / 5) [1 / 4, 1 / 2, 3 / 4, 1, 5 / 4] g1 =
     Some ([1 / 4, 1 / 2, 3 / 4, 1, 5 / 4, 41 / 20, 23 / 10, 51 / 20, 14 / 5], g2)"
    using second_phase by blast
  have two: "onoff_loop counting_rng ?p 3 2 2 (18 / 5) offs h = Some (offs, h)" for offs h
    by (subst onoff_loop.simps) simp
  have one: "onoff_loop counting_rng ?p 3 2 1 (9 / 5) [1 / 4, 1 / 2, 3 / 4, 1, 5 / 4] g1 =
      Some ([1 / 4, 1 / 2, 3 / 4, 1, 5 / 4, 41 / 20, 23 / 10, 51 / 20, 14 / 5], g2)"
    by (subst onoff_loop.simps) (simp add: len second two Let_def)
  have "onoff_loop counting_rng ?p 3 2 0 0 [] g =
      Some ([1 / 4, 1 / 2, 3 / 4, 1, 5 / 4, 41 / 20, 23 / 10, 51 / 20, 14 / 5], g2)"
    by (subst onoff_loop.simps) (simp add: len first one Let_def)
  then show ?thesis by (simp add: onoff_sample_def cycles)
qed

definition agentic_cell :: cell_spec where
  "agentic_cell = default_seed \<lparr>cs_topology = TOPO_DISAGG, cs_model = QWEN3_1_7B, cs_rate_rps = 4, cs_mix = MIX_AGENTIC,
     cs_n_warmup = 2, cs_n_measure = 10, cs_seed = 0\<rparr>"

lemma agentic_cell_spec: "CellSpec TOPO_DISAGG QWEN3_1_7B 4 MIX_AGENTIC 2 10 0 = Inr agentic_cell"
  by (simp add: CellSpec_def agentic_cell_def)

theorem agentic_cell_drops:
  "\<exists>tr s. build_trace counting_rng agentic_cell = Inr tr \<and> n_requests tr = 12 \<and>
     OpenLoopScheduler counting_rng tr = Some (Inr s) \<and> n_scheduled s = 9"
proof -
  obtain tr where tr: "build_trace counting_rng agentic_cell = Inr tr" "int (n_requests tr) = 12"
    using build_trace_ok [OF counting_rng_ok agentic_cell_spec] by auto
  have mix: "cs_mix agentic_cell = MIX_AGENTIC" "cs_rate_rps agentic_cell = 4" "cell_duration_s agentic_cell = 3"
    using CellSpec_Inr [OF agentic_cell_spec] by (auto simp: cell_duration_s_def cell_total_def)
  have arrival: "tr_arrival tr = \<lparr>ar_process = OnOff, ar_rate_per_sec = 4, ar_seed = cs_seed agentic_cell,
      ar_on_duration_s = Some (3 / 2), ar_off_duration_s = Some (3 / 10)\<rparr>" "tr_duration_s tr = 3"
    using build_trace_arrival [OF tr(1)] by (simp_all add: cell_arrival_def mix)
  obtain p' where sample: "onoff_sample counting_rng
      \<lparr>oo_on_rate = 4, oo_on_dur = 3 / 2, oo_off_dur = 3 / 10, oo_rng = rng_seed counting_rng (cs_seed agentic_cell)\<rparr> 3 =
      Some ([1 / 4, 1 / 2, 3 / 4, 1, 5 / 4, 41 / 20, 23 / 10, 51 / 20, 14 / 5], p')"
    using agentic_offsets by blast
  then have "OpenLoopScheduler counting_rng tr = Some (Inr
      \<lparr>sc_trace = tr, sc_offsets = [1 / 4, 1 / 2, 3 / 4, 1, 5 / 4, 41 / 20, 23 / 10, 51 / 20, 14 / 5]\<rparr>)"
    by (simp add: OpenLoopScheduler_def arrival OnOffArrival_def)
  moreover have "n_scheduled \<lparr>sc_trace = tr, sc_offsets = [1 / 4, 1 / 2, 3 / 4, 1, 5 / 4, 41 / 20, 23 / 10, 51 / 20, 14 / 5]\<rparr> = 9"
    using tr(2) by (simp add: n_scheduled_def n_requests_def)
  ultimately show ?thesis using tr by auto
qed

end
