(* ===== verification/DryRun.thy ===== *)
theory DryRun
  imports Orchestrator ClientSlots
begin

text \<open>
  The dry run of \<open>bench/orchestrator.py\<close> put together: the requests of a trace are scheduled, routed, sent by
  the client to the mock application over the in-process transport, and summarised. The server is the model
  of \<open>bench/mock_vllm.py\<close>, the client that of \<open>loadgen/client.py\<close>; nothing but the clocks and the JSON
  library is left open. The lemmas show that every request comes back complete, and the property that every
  report of a campaign says so.
\<close>

section \<open>The application behind the transport\<close>

text \<open>The body of a request, as the JSON library gets it.\<close>

definition chat_body :: "chat_payload \<Rightarrow> json" where
  "chat_body p =
     JObj [(''model'', JStr (pl_model p)),
           (''messages'', JList [JObj [(''role'', JStr ''user''), (''content'', JStr (pl_content p))]]),
           (''max_tokens'', JNum (real_of_int (pl_max_tokens p))),
           (''stream'', JBool (pl_stream p)),
           (''temperature'', JNum (pl_temperature p))]"

text \<open>
  \<open>chat_completions\<close> of the application: an exception of the handler reaches the client as it is, since the in-process
  transport raises it there.
\<close>

definition mock_chat_completions ::
  "json_parser \<Rightarrow> (string \<Rightarrow> int option) \<Rightarrow> (json \<Rightarrow> string) \<Rightarrow> (py_error \<Rightarrow> string) \<Rightarrow> string \<Rightarrow> exchange" where
  "mock_chat_completions json_loads int_text dumps exc_text request =
     (case json_loads request of
        None \<Rightarrow> Unreachable (exc_text ValueError)
      | Some body \<Rightarrow>
          (case mock_max_tokens int_text body of
             Inl e \<Rightarrow> Unreachable (exc_text e)
           | Inr max_tokens \<Rightarrow> Response 200 [] (mock_lines dumps max_tokens) None))"

section \<open>The pipeline\<close>

definition bench_client :: "http_client result" where
  "bench_client = VllmHttpClient ''http://mock-bench'' ''bench-model'' 120 8"

text \<open>
  One task of the client: the pool its router decision named, its request against the application, and the
  clock it reads.
\<close>

definition dry_task ::
  "json_parser \<Rightarrow> (string \<Rightarrow> int option) \<Rightarrow> (json \<Rightarrow> string) \<Rightarrow> (py_error \<Rightarrow> string) \<Rightarrow> ('c \<Rightarrow> int \<times> 'c) \<Rightarrow>
   (real \<Rightarrow> 'c \<Rightarrow> 'c) \<Rightarrow> string \<Rightarrow> (request_spec \<times> int) \<times> string \<times> 'c \<Rightarrow> request_telemetry result" where
  "dry_task json_loads int_text dumps exc_text now slp model = (\<lambda>((spec, ts), pool, c).
     task_telemetry json_loads exc_text now slp (Some (\<lambda>_. Some pool))
       ((spec, ts), mock_chat_completions json_loads int_text dumps exc_text (dumps (chat_body (build_payload model spec))), c))"

definition dry_fire ::
  "json_parser \<Rightarrow> (string \<Rightarrow> int option) \<Rightarrow> (json \<Rightarrow> string) \<Rightarrow> (py_error \<Rightarrow> string) \<Rightarrow> ('c \<Rightarrow> int \<times> 'c) \<Rightarrow>
   (real \<Rightarrow> 'c \<Rightarrow> 'c) \<Rightarrow> string \<Rightarrow> (request_spec \<times> int) list \<Rightarrow> 'c list \<Rightarrow> (request_spec \<times> string) list \<Rightarrow>
   request_telemetry list result" where
  "dry_fire json_loads int_text dumps exc_text now slp model sched clocks tagged =
     rmap (dry_task json_loads int_text dumps exc_text now slp model) (zip sched (zip (map snd tagged) clocks))"

text \<open>\<open>clocks\<close> are the states of the counter in which the tasks start, one per scheduled request.\<close>

definition dry_topology ::
  "'g rng \<Rightarrow> digest \<Rightarrow> json_parser \<Rightarrow> (string \<Rightarrow> int option) \<Rightarrow> (json \<Rightarrow> string) \<Rightarrow> (py_error \<Rightarrow> string) \<Rightarrow>
   ('c \<Rightarrow> int \<times> 'c) \<Rightarrow> (real \<Rightarrow> 'c \<Rightarrow> 'c) \<Rightarrow> string \<Rightarrow> topology \<Rightarrow> trace \<Rightarrow> int \<Rightarrow> (nat \<Rightarrow> 'c) \<Rightarrow> router \<Rightarrow>
   (topology_report result \<times> router) option" where
  "dry_topology R sha json_loads int_text dumps exc_text now slp label t tr t0 clocks rt =
     (case bench_client of
        Inl e \<Rightarrow> Some (Inl e, rt)
      | Inr cl \<Rightarrow>
          (case OpenLoopScheduler R tr of
             None \<Rightarrow> None
           | Some (Inl e) \<Rightarrow> Some (Inl e, rt)
           | Some (Inr s) \<Rightarrow>
               Some (run_topology sha
                 (dry_fire json_loads int_text dumps exc_text now slp (hc_model cl) (schedule s t0)
                    (map clocks [0..<n_scheduled s]))
                 label t (map fst (schedule s t0)) rt)))"

text \<open>A campaign over the traces of a dictionary; each topology gets a router of its own.\<close>

fun mock_campaign ::
  "'g rng \<Rightarrow> digest \<Rightarrow> json_parser \<Rightarrow> (string \<Rightarrow> int option) \<Rightarrow> (json \<Rightarrow> string) \<Rightarrow> (py_error \<Rightarrow> string) \<Rightarrow>
   ('c \<Rightarrow> int \<times> 'c) \<Rightarrow> (real \<Rightarrow> 'c \<Rightarrow> 'c) \<Rightarrow> string \<Rightarrow> (topology \<Rightarrow> router) \<Rightarrow> (topology \<Rightarrow> int \<times> (nat \<Rightarrow> 'c)) \<Rightarrow>
   (topology, trace) odict \<Rightarrow> topology_report list result option" where
  "mock_campaign R sha json_loads int_text dumps exc_text now slp label router_factory start [] = Some (Inr [])"
| "mock_campaign R sha json_loads int_text dumps exc_text now slp label router_factory start ((t, tr) # traces) =
     (case dry_topology R sha json_loads int_text dumps exc_text now slp label t tr (fst (start t)) (snd (start t))
             (router_factory t) of
        None \<Rightarrow> None
      | Some (Inl e, rt) \<Rightarrow> Some (Inl e)
      | Some (Inr r, rt) \<Rightarrow>
          map_option (\<lambda>rest. rbind rest (\<lambda>rs. Inr (r # rs)))
            (mock_campaign R sha json_loads int_text dumps exc_text now slp label router_factory start traces))"

section \<open>One request\<close>

text \<open>What the JSON library has to give back for a request: its own body and the chunks of its answer.\<close>

definition wire_ok :: "json_parser \<Rightarrow> (json \<Rightarrow> string) \<Rightarrow> string \<Rightarrow> request_spec \<Rightarrow> bool" where
  "wire_ok json_loads dumps model spec \<longleftrightarrow>
     json_loads (dumps (chat_body (build_payload model spec))) = Some (chat_body (build_payload model spec)) \<and>
     loads_chunks json_loads dumps (rq_output_tokens spec)"

definition prompt_ok :: "request_spec \<Rightarrow> bool" where
  "prompt_ok spec \<longleftrightarrow> 1 \<le> rq_prompt_tokens spec \<and> rq_prompt_tokens spec \<le> 200000"

text \<open>A request that was served in full.\<close>

definition served :: "request_spec \<Rightarrow> string \<Rightarrow> request_telemetry \<Rightarrow> bool" where
  "served spec pool t \<longleftrightarrow>
     tl_request_id t = rq_id spec \<and> tl_status_code t = 200 \<and> tl_error t = None \<and> tl_routed_pool t = Some pool \<and>
     length (tl_per_token_ts_ns t) = nat (rq_output_tokens spec) \<and> sorted (tl_per_token_ts_ns t) \<and>
     (\<forall>v. tl_ttft_ms t = Some v \<longrightarrow> 0 \<le> v)"

lemma mock_max_tokens_body: "mock_max_tokens int_text (chat_body (build_payload model spec)) = Inr (rq_output_tokens spec)"
  by (simp add: mock_max_tokens_def chat_body_def build_payload_def py_int_of_int)

lemma mock_answer:
  assumes "wire_ok json_loads dumps model spec"
  shows "mock_chat_completions json_loads int_text dumps exc_text (dumps (chat_body (build_payload model spec))) =
    Response 200 [] (mock_lines dumps (rq_output_tokens spec)) None"
  using assms by (simp add: mock_chat_completions_def wire_ok_def mock_max_tokens_body)

lemma first_latency_nonneg:
  "\<forall>x\<in>set stamps. enq \<le> x \<Longrightarrow> first_latency_ms enq stamps = Some v \<Longrightarrow> 0 \<le> v"
  by (auto simp: first_latency_ms_def split: list.splits)

lemma dry_task_served:
  assumes "steady now low" "prompt_ok spec" "wire_ok json_loads dumps model spec"
  shows "\<exists>t. dry_task json_loads int_text dumps exc_text now slp model ((spec, ts), pool, c) = Inr t \<and> served spec pool t"
proof -
  let ?n = "rq_output_tokens spec" and ?ex = "Response 200 [] (mock_lines dumps (rq_output_tokens spec)) None"
  obtain w c0 where w: "now c = (w, c0)" by force
  obtain enq c1 where enq: "now (case wait_until ts w of None \<Rightarrow> c0 | Some delay \<Rightarrow> slp delay c0) = (enq, c1)" by force
  have le: "0 \<le> enq" "enq \<le> low c1" using steady_now [OF assms(1) enq] by auto
  obtain evs c2 where str: "stream_tokens json_loads now (mock_lines dumps ?n) c1 = (evs, c2, None)"
    "map te_content evs = map (\<lambda>i. JStr (''tok'' @ nat_str i)) [0..<nat ?n]"
    using mock_roundtrip [OF conjunct2 [OF assms(3) [unfolded wire_ok_def]], of now c1] by blast
  have len: "length evs = nat ?n" using arg_cong [OF str(2), of length] by simp
  obtain d c3 where d: "now c2 = (d, c3)" by force
  have s: "exchange_result json_loads exc_text now enq ?ex c1 =
      (\<lparr>se_ttft_ms = first_latency_ms enq (map te_ts_ns evs), se_per_token = map te_ts_ns evs,
        se_completion_ts = Some d, se_status = 200, se_error = None\<rparr>, c3)"
    using str(1) d by (simp add: exchange_result_def Let_def)
  have ord: "sorted (map te_ts_ns evs)" "\<forall>x\<in>set (map te_ts_ns evs). enq \<le> x"
    using stream_tokens_sorted [OF assms(1) str(1)] le(2) by force+
  then have "per_token_monotonic None (map te_ts_ns evs)" using per_token_monotonic_sorted [of None] by simp
  then show ?thesis
    using w enq s le(1) assms(2) len ord first_latency_nonneg [OF ord(2)] mock_answer [OF assms(3)]
    by (simp add: dry_task_def task_telemetry_def send_one_def RequestTelemetry_def prompt_ok_def served_def)
qed

section \<open>One topology\<close>

lemma assign_pools_requests: "map fst (fst (assign_pools sha rt specs)) = specs"
  by (induction specs arbitrary: rt) (simp_all add: split_beta)

lemma dry_fire_served:
  assumes "steady now low" "\<forall>e\<in>set sched. prompt_ok (fst e) \<and> wire_ok json_loads dumps model (fst e)"
    and "length tagged = length sched" "length clocks = length sched"
  shows "\<exists>ts. dry_fire json_loads int_text dumps exc_text now slp model sched clocks tagged = Inr ts \<and>
    list_all2 (\<lambda>(spec, pool) t. served spec pool t) (zip (map fst sched) (map snd tagged)) ts"
  using assms(2-)
proof (induction sched arbitrary: tagged clocks)
  case Nil
  then show ?case by (simp add: dry_fire_def)
next
  case (Cons e sched)
  obtain spec ts where e: "e = (spec, ts)" by force
  obtain tg tgs c cs where cons: "tagged = tg # tgs" "clocks = c # cs"
    using Cons.prems(2,3) by (metis length_Suc_conv)
  obtain t where t: "dry_task json_loads int_text dumps exc_text now slp model ((spec, ts), snd tg, c) = Inr t"
    "served spec (snd tg) t"
    using dry_task_served [OF assms(1)] Cons.prems(1) e by fastforce
  have "length tgs = length sched" "length cs = length sched" using Cons.prems(2,3) cons by simp_all
  then obtain rest where "dry_fire json_loads int_text dumps exc_text now slp model sched cs tgs = Inr rest"
    "list_all2 (\<lambda>(spec, pool) t. served spec pool t) (zip (map fst sched) (map snd tgs)) rest"
    using Cons.IH [of tgs cs] Cons.prems(1) by auto
  then show ?case using t e cons by (simp add: dry_fire_def)
qed

text \<open>The summary of telemetries that were all served.\<close>

lemma served_summary:
  assumes "list_all2 (\<lambda>(spec, pool) t. served spec pool t) ps ts"
  shows "successes ts = ts" "routed ts = ts" "length ts = length ps"
    "\<forall>v\<in>set (ttft_values ts). 0 \<le> v" "\<forall>g\<in>set (itl_values ts). 0 \<le> g"
proof -
  have all: "\<forall>t\<in>set ts. \<exists>spec pool. served spec pool t"
    using assms by (induction rule: list_all2_induct) auto
  show "successes ts = ts" "routed ts = ts"
    using all by (auto simp: successes_def routed_def served_def filter_id_conv)
  show "length ts = length ps" using assms by (simp add: list_all2_lengthD)
  show "\<forall>v\<in>set (ttft_values ts). 0 \<le> v" by (rule ttft_values_nonneg) (use all in \<open>auto simp: served_def\<close>)
  show "\<forall>g\<in>set (itl_values ts). 0 \<le> g" by (rule itl_values_nonneg) (use all in \<open>auto simp: served_def\<close>)
qed

text \<open>What the report of a dry run over \<open>n\<close> scheduled requests has to say, its latencies being those of \<open>ts\<close>.\<close>

definition full_marks :: "topology \<Rightarrow> nat \<Rightarrow> request_telemetry list \<Rightarrow> topology_report \<Rightarrow> bool" where
  "full_marks t n ts r \<longleftrightarrow>
     tr_topology r = t \<and> tr_n_requests r = int n \<and> tr_success_rate r = (if n = 0 then 0 else 1) \<and>
     tr_cache_hit_rate r = (if n = 0 then 0 else 1) \<and> (tr_reconcile_passes r \<longleftrightarrow> n \<noteq> 0) \<and>
     tr_mean_ttft_ms r = rs_mean_ttft_ms (summary ts) \<and> tr_p95_ttft_ms r = rs_p95_ttft_ms (summary ts) \<and>
     tr_mean_itl_ms r = rs_mean_itl_ms (summary ts)"

lemma run_topology_served:
  assumes "fire (fst (assign_pools sha rt specs)) = Inr ts"
    and "list_all2 (\<lambda>(spec, pool) t. served spec pool t) (fst (assign_pools sha rt specs)) ts"
  shows "\<exists>r. run_topology sha fire label t specs rt = (Inr r, snd (assign_pools sha rt specs)) \<and>
    full_marks t (length specs) ts r"
proof -
  note s = served_summary [OF assms(2)]
  have n: "length ts = length specs"
    using s(3) arg_cong [OF assign_pools_requests [of sha rt specs], of length] by simp
  have "0 \<le> rs_p95_ttft_ms (summary ts)" "0 \<le> rs_mean_ttft_ms (summary ts)" "0 \<le> rs_mean_itl_ms (summary ts)"
    using s(4) mean_or_zero_nonneg [OF s(4)] mean_or_zero_nonneg [OF s(5)] s(1)
    by (simp_all add: summary_def orch_percentile_eq percentile_nonneg)
  moreover have "rs_success_rate (summary ts) = (if length specs = 0 then 0 else 1)"
    using n s(1) by (cases ts) (auto simp: summary_def success_share_def)
  moreover have "rs_cache_hit_rate (summary ts) = (if length specs = 0 then 0 else 1)"
    using n s(2) by (cases ts) (auto simp: routed_share)
  moreover have "rs_n_requests (summary ts) = real (length specs)" using n by (simp add: summary_def)
  ultimately show ?thesis
    using assms(1) py_int_of_int [of "int (length specs)"]
    by (cases "assign_pools sha rt specs")
       (simp add: run_topology_def Let_def TopologyReport_def full_marks_def)
qed

text \<open>The hypotheses on the trace of one topology: its scheduled requests go over the wire.\<close>

definition sendable :: "'g rng \<Rightarrow> json_parser \<Rightarrow> (json \<Rightarrow> string) \<Rightarrow> trace \<Rightarrow> bool" where
  "sendable R json_loads dumps tr \<longleftrightarrow>
     (\<forall>spec\<in>set (tr_requests tr). prompt_ok spec \<and> wire_ok json_loads dumps ''bench-model'' spec)"

text \<open>
  What a campaign has to deliver for one topology: the telemetries its tasks gathered, one per scheduled request in
  order, each of a request served in full by the pool the router named, and the report made of them.
\<close>

definition delivered ::
  "'g rng \<Rightarrow> digest \<Rightarrow> json_parser \<Rightarrow> (string \<Rightarrow> int option) \<Rightarrow> (json \<Rightarrow> string) \<Rightarrow> (py_error \<Rightarrow> string) \<Rightarrow>
   ('c \<Rightarrow> int \<times> 'c) \<Rightarrow> (real \<Rightarrow> 'c \<Rightarrow> 'c) \<Rightarrow> topology \<Rightarrow> trace \<Rightarrow> int \<times> (nat \<Rightarrow> 'c) \<Rightarrow> router \<Rightarrow> topology_report \<Rightarrow> bool" where
  "delivered R sha json_loads int_text dumps exc_text now slp t tr start rt r \<longleftrightarrow>
     (\<exists>s ts. OpenLoopScheduler R tr = Some (Inr s) \<and>
       (let tagged = fst (assign_pools sha rt (take (n_scheduled s) (tr_requests tr))) in
        dry_fire json_loads int_text dumps exc_text now slp ''bench-model'' (schedule s (fst start))
          (map (snd start) [0..<n_scheduled s]) tagged = Inr ts \<and>
        list_all2 (\<lambda>(spec, pool) tel. served spec pool tel) tagged ts) \<and>
       full_marks t (n_scheduled s) ts r)"

lemma dry_topology_full:
  assumes "steady now low" "OpenLoopScheduler R tr = Some (Inr s)" "sendable R json_loads dumps tr"
  shows "\<exists>r. dry_topology R sha json_loads int_text dumps exc_text now slp label t tr (fst start) (snd start) rt =
      Some (Inr r, snd (assign_pools sha rt (take (n_scheduled s) (tr_requests tr)))) \<and>
    delivered R sha json_loads int_text dumps exc_text now slp t tr start rt r"
proof -
  let ?sched = "schedule s (fst start)" and ?specs = "take (n_scheduled s) (tr_requests tr)"
  let ?tagged = "fst (assign_pools sha rt ?specs)" and ?clocks = "map (snd start) [0..<n_scheduled s]"
  have specs: "map fst ?sched = ?specs" using schedule_requests [of s] scheduler_trace [OF assms(2)] by simp
  have n: "length ?specs = n_scheduled s" "length ?sched = n_scheduled s"
    using schedule_length [of s] arg_cong [OF specs, of length] by simp_all
  have len: "length ?tagged = length ?sched"
    using arg_cong [OF assign_pools_requests [of sha rt ?specs], of length] n by simp
  have zip: "zip (map fst ?sched) (map snd ?tagged) = ?tagged"
    using specs assign_pools_requests [of sha rt ?specs] by (metis zip_map_fst_snd)
  have "\<forall>e\<in>set ?sched. fst e \<in> set (tr_requests tr)"
    using specs by (metis in_set_takeD image_eqI list.set_map)
  then have "\<forall>e\<in>set ?sched. prompt_ok (fst e) \<and> wire_ok json_loads dumps ''bench-model'' (fst e)"
    using assms(3) by (auto simp: sendable_def)
  from dry_fire_served [OF assms(1) this len, of ?clocks int_text exc_text slp] obtain ts where
    ts: "dry_fire json_loads int_text dumps exc_text now slp ''bench-model'' ?sched ?clocks ?tagged = Inr ts"
      "list_all2 (\<lambda>(spec, pool) t. served spec pool t) ?tagged ts"
    using n(2) zip by auto
  obtain r where r: "run_topology sha (dry_fire json_loads int_text dumps exc_text now slp ''bench-model'' ?sched ?clocks)
      label t ?specs rt = (Inr r, snd (assign_pools sha rt ?specs))" "full_marks t (n_scheduled s) ts r"
    using run_topology_served [of "dry_fire json_loads int_text dumps exc_text now slp ''bench-model'' ?sched ?clocks", OF ts]
      n(1) by metis
  have "delivered R sha json_loads int_text dumps exc_text now slp t tr start rt r"
    using assms(2) ts r(2) by (auto simp: delivered_def Let_def)
  then show ?thesis
    using r(1) assms(2) specs by (simp add: dry_topology_def bench_client_def VllmHttpClient_def)
qed

section \<open>Properties\<close>

text \<open>
  C24: A dry run reports what it should. For a campaign over traces whose schedulers can be built and whose
  requests go over the wire, with a counter that does not go back, every topology gets its report, in the
  order of the dictionary. The tasks gather one telemetry per scheduled request, in order: status 200, no error,
  the pool the router named, as many token times as the request asked for, in order, and no negative latency. The
  report is made of these: it counts them all, its success rate is 1 and it reconciles exactly when there was a
  request, and its latencies are those of the gathered telemetries.
\<close>

theorem mock_campaign_reconciles:
  assumes "steady now low"
    and "\<forall>(t, tr)\<in>set traces. (\<exists>s. OpenLoopScheduler R tr = Some (Inr s)) \<and> sendable R json_loads dumps tr"
  shows "\<exists>rs. mock_campaign R sha json_loads int_text dumps exc_text now slp label router_factory start traces = Some (Inr rs) \<and>
    list_all2 (\<lambda>(t, tr) r. delivered R sha json_loads int_text dumps exc_text now slp t tr (start t) (router_factory t) r)
      traces rs"
  using assms(2)
proof (induction traces)
  case Nil
  then show ?case by simp
next
  case (Cons x traces)
  obtain t tr where x: "x = (t, tr)" by force
  obtain s where s: "OpenLoopScheduler R tr = Some (Inr s)" "sendable R json_loads dumps tr" using Cons.prems x by auto
  obtain r where r: "dry_topology R sha json_loads int_text dumps exc_text now slp label t tr (fst (start t)) (snd (start t))
      (router_factory t) = Some (Inr r, snd (assign_pools sha (router_factory t) (take (n_scheduled s) (tr_requests tr))))"
    "delivered R sha json_loads int_text dumps exc_text now slp t tr (start t) (router_factory t) r"
    using dry_topology_full [OF assms(1) s] by blast
  obtain rs where "mock_campaign R sha json_loads int_text dumps exc_text now slp label router_factory start traces = Some (Inr rs)"
    "list_all2 (\<lambda>(t, tr) r. delivered R sha json_loads int_text dumps exc_text now slp t tr (start t) (router_factory t) r)
       traces rs"
    using Cons.IH Cons.prems by auto
  then show ?case using x r by auto
qed


text \<open>Two requests of one token each; the JSON library knows the two bodies and the three chunks.\<close>

definition ex_body :: "nat \<Rightarrow> json" where
  "ex_body i = chat_body (build_payload ''bench-model'' (tr_requests ex_trace ! i))"

definition dry_dumps :: "json \<Rightarrow> string" where
  "dry_dumps j =
     (if j = role_chunk then ''role'' else if j = finish_chunk then ''finish'' else if j = token_chunk 0 then ''tok0''
      else if j = ex_body 0 then ''a'' else ''b'')"

definition dry_loads :: json_parser where
  "dry_loads s =
     (if s = ''role'' then Some role_chunk else if s = ''finish'' then Some finish_chunk
      else if s = ''tok0'' then Some (token_chunk 0) else if s = ''a'' then Some (ex_body 0)
      else if s = ''b'' then Some (ex_body 1) else None)"

lemma ex_bodies: "ex_body 0 \<noteq> ex_body 1" "ex_body i \<notin> {role_chunk, finish_chunk, token_chunk 0}"
  by (simp_all add: ex_body_def chat_body_def build_payload_def ex_trace_def role_chunk_def finish_chunk_def token_chunk_def)

lemma ex_chunks: "loads_chunks dry_loads dry_dumps 1"
proof -
  have "role_chunk \<noteq> finish_chunk" "token_chunk 0 \<noteq> role_chunk" "token_chunk 0 \<noteq> finish_chunk"
    by (simp_all add: role_chunk_def finish_chunk_def token_chunk_def)
  then show ?thesis
    by (simp add: loads_chunks_def dry_dumps_def dry_loads_def wire_safe_def py_strip_def is_space_def lessThan_Suc)
qed

lemma ex_sendable: "sendable counting_rng dry_loads dry_dumps ex_trace"
proof -
  have "dry_loads (dry_dumps (ex_body 0)) = Some (ex_body 0)" "dry_loads (dry_dumps (ex_body 1)) = Some (ex_body 1)"
    using ex_bodies(1) ex_bodies(2) [of 0] ex_bodies(2) [of 1] by (auto simp: dry_dumps_def dry_loads_def)
  then show ?thesis
    using ex_chunks by (simp add: sendable_def wire_ok_def prompt_ok_def ex_trace_def ex_body_def)
qed

lemma mock_campaign_reconciles_witness:
  "\<exists>r. mock_campaign counting_rng (\<lambda>s. s) dry_loads (\<lambda>_. None) dry_dumps (\<lambda>_. []) ex_now ex_slp ''mock-vllm''
      (\<lambda>_. Router None 10 None None) (\<lambda>_. (0, \<lambda>_. 0)) [(TOPO_CHUNKED, ex_trace)] = Some (Inr [r]) \<and>
    tr_n_requests r = 2 \<and> tr_success_rate r = 1 \<and> tr_reconcile_passes r"
proof -
  have n: "n_scheduled \<lparr>sc_trace = ex_trace, sc_offsets = [1 / 2, 1]\<rparr> = 2" by (simp add: n_scheduled_def ex_trace_def)
  have "\<forall>(t, tr)\<in>set [(TOPO_CHUNKED, ex_trace)]. (\<exists>s. OpenLoopScheduler counting_rng tr = Some (Inr s)) \<and>
      sendable counting_rng dry_loads dry_dumps tr"
    using ex_scheduler ex_sendable by simp
  from mock_campaign_reconciles [OF ex_steady this, of "\<lambda>s. s" "\<lambda>_. None" "\<lambda>_. []" ex_slp "''mock-vllm''"
      "\<lambda>_. Router None 10 None None" "\<lambda>_. (0, \<lambda>_. 0)"]
  obtain r where r: "mock_campaign counting_rng (\<lambda>s. s) dry_loads (\<lambda>_. None) dry_dumps (\<lambda>_. []) ex_now ex_slp ''mock-vllm''
      (\<lambda>_. Router None 10 None None) (\<lambda>_. (0, \<lambda>_. 0)) [(TOPO_CHUNKED, ex_trace)] = Some (Inr [r])"
    "delivered counting_rng (\<lambda>s. s) dry_loads (\<lambda>_. None) dry_dumps (\<lambda>_. []) ex_now ex_slp TOPO_CHUNKED ex_trace
       (0, \<lambda>_. 0) (Router None 10 None None) r"
    by (auto simp: list_all2_Cons1)
  then have "\<exists>ts. full_marks TOPO_CHUNKED 2 ts r" using ex_scheduler n by (auto simp: delivered_def)
  then show ?thesis using r(1) by (auto simp: full_marks_def)
qed

end
