(* ===== verification/ArgParse.thy ===== *)
theory ArgParse
  imports PyText "HOL-Library.Sublist"
begin

text \<open>
  \<open>argparse.ArgumentParser\<close> of the standard library, as far as the command lines of the program use it: long options
  that store a converted value or set a flag, none positional. A parser is the table of its options with what they do
  to the record of arguments; parsing gives the record, or the code of the \<open>SystemExit\<close> it raises. The separator
  \<open>--\<close> is outside the model and is an error here.
\<close>

datatype 'a action =
    Store "string \<Rightarrow> 'a \<Rightarrow> 'a option"
  | SetFlag "'a \<Rightarrow> 'a"

type_synonym 'a option_table = "(string \<times> 'a action) list"

section \<open>What an argument looks like\<close>

datatype 'a arg_class =
    Plain
  | Unknown
  | Ambiguous
  | Help "string option"
  | Option "'a action" "string option"

text \<open>\<open>^-\d+$|^-\d*\.\d+$\<close>\<close>

definition negative_number :: "string \<Rightarrow> bool" where
  "negative_number s =
     (case s of
        [] \<Rightarrow> False
      | c # cs \<Rightarrow>
          c = CHR ''-'' \<and>
          (let ip = takeWhile is_digit cs; rest = dropWhile is_digit cs
           in (rest = [] \<and> ip \<noteq> []) \<or>
              (take 1 rest = ''.'' \<and> drop 1 rest \<noteq> [] \<and> list_all is_digit (drop 1 rest))))"

text \<open>\<open>arg.split("=", 1)\<close>: the name before the first sign, and what follows it.\<close>

definition arg_name :: "string \<Rightarrow> string" where
  "arg_name s = takeWhile (\<lambda>c. c \<noteq> CHR ''='') s"

definition arg_value :: "string \<Rightarrow> string option" where
  "arg_value s = (case dropWhile (\<lambda>c. c \<noteq> CHR ''='') s of [] \<Rightarrow> None | c # cs \<Rightarrow> Some cs)"

text \<open>The options of a table, with the one every parser has; \<open>None\<close> stands for it.\<close>

definition all_options :: "'a option_table \<Rightarrow> (string \<times> 'a action option) list" where
  "all_options t = (''--help'', None) # map (\<lambda>(k, a). (k, Some a)) t"

definition found :: "'a action option \<Rightarrow> string option \<Rightarrow> 'a arg_class" where
  "found a v = (case a of None \<Rightarrow> Help v | Some a \<Rightarrow> Option a v)"

text \<open>An exact name, a name before an equals sign, the unique completion of an abbreviation, in this order.\<close>

definition classify :: "'a option_table \<Rightarrow> string \<Rightarrow> 'a arg_class" where
  "classify t s =
     (if take 1 s \<noteq> ''-'' then Plain
      else if s = ''-h'' then Help None
      else case map_of (all_options t) s of
        Some a \<Rightarrow> found a None
      | None \<Rightarrow>
          if length s = 1 then Plain
          else case (if arg_value s = None then None else map_of (all_options t) (arg_name s)) of
            Some a \<Rightarrow> found a (arg_value s)
          | None \<Rightarrow>
              if take 2 s = ''-h'' then Help (Some (drop 2 s))
              else case (if take 2 s = ''--'' then filter (\<lambda>(k, a). prefix (arg_name s) k) (all_options t) else []) of
                [(k, a)] \<Rightarrow> found a (arg_value s)
              | _ # _ # _ \<Rightarrow> Ambiguous
              | [] \<Rightarrow> if negative_number s \<or> CHR '' '' \<in> set s then Plain else Unknown)"

section \<open>Parsing\<close>

text \<open>
  \<open>extra\<close>: an argument nobody wanted was seen; it is reported at the end. Help exits with 0 as soon as it is reached
  (\<open>-hh\<close> is help twice), every error with 2.
\<close>

fun parse_from :: "'a option_table \<Rightarrow> bool \<Rightarrow> string list \<Rightarrow> 'a \<Rightarrow> int + 'a" where
  "parse_from t extra [] a = (if extra then Inl 2 else Inr a)"
| "parse_from t extra (s # rest) a =
     (case classify t s of
        Plain \<Rightarrow> parse_from t True rest a
      | Unknown \<Rightarrow> parse_from t True rest a
      | Ambiguous \<Rightarrow> Inl 2
      | Help v \<Rightarrow>
          Inl (if v = None \<or> (take 2 s = ''-h'' \<and> list_all (\<lambda>c. c = CHR ''h'') (drop 1 s)) then 0 else 2)
      | Option (SetFlag f) None \<Rightarrow> parse_from t extra rest (f a)
      | Option (SetFlag f) (Some v) \<Rightarrow> Inl 2
      | Option (Store f) (Some v) \<Rightarrow> (case f v a of None \<Rightarrow> Inl 2 | Some a' \<Rightarrow> parse_from t extra rest a')
      | Option (Store f) None \<Rightarrow>
          (case rest of
             [] \<Rightarrow> Inl 2
           | v # rest' \<Rightarrow>
               (case classify t v of
                  Plain \<Rightarrow> (case f v a of None \<Rightarrow> Inl 2 | Some a' \<Rightarrow> parse_from t extra rest' a')
                | _ \<Rightarrow> Inl 2)))"

text \<open>
  An ambiguous abbreviation is an error wherever it stands; \<open>required\<close> says of the parsed record whether the required
  options were given.
\<close>

definition parse_args :: "'a option_table \<Rightarrow> ('a \<Rightarrow> bool) \<Rightarrow> 'a \<Rightarrow> string list \<Rightarrow> int + 'a" where
  "parse_args t required a0 argv =
     (if list_ex (\<lambda>s. case classify t s of Ambiguous \<Rightarrow> True | _ \<Rightarrow> False) argv then Inl 2
      else rbind (parse_from t False argv a0) (\<lambda>a. if required a then Inr a else Inl 2))"

text \<open>Converters: \<open>str\<close>, \<open>int\<close>, \<open>float\<close> (of the stripped text).\<close>

definition store_str :: "(string \<Rightarrow> 'a \<Rightarrow> 'a) \<Rightarrow> 'a action" where
  "store_str f = Store (\<lambda>v a. Some (f v a))"

definition store_int :: "(int \<Rightarrow> 'a \<Rightarrow> 'a) \<Rightarrow> 'a action" where
  "store_int f = Store (\<lambda>v a. case parse_int (py_strip v) of Inl e \<Rightarrow> None | Inr n \<Rightarrow> Some (f n a))"

definition store_float :: "(real \<Rightarrow> 'a \<Rightarrow> 'a) \<Rightarrow> 'a action" where
  "store_float f = Store (\<lambda>v a. case py_float v of None \<Rightarrow> None | Some x \<Rightarrow> Some (f x a))"

section \<open>Lemmas\<close>

lemma classify_plain: "take 1 v \<noteq> ''-'' \<Longrightarrow> classify t v = Plain"
  by (simp add: classify_def)

lemma classify_exact:
  "take 1 k = ''-'' \<Longrightarrow> k \<noteq> ''-h'' \<Longrightarrow> map_of (all_options t) k = Some (Some act) \<Longrightarrow> classify t k = Option act None"
  by (simp add: classify_def found_def)

lemma parse_from_store:
  "classify t k = Option (Store f) None \<Longrightarrow> classify t v = Plain \<Longrightarrow> f v a = Some a' \<Longrightarrow>
     parse_from t extra (k # v # rest) a = parse_from t extra rest a'"
  by simp

lemma parse_from_flag:
  "classify t k = Option (SetFlag f) None \<Longrightarrow> parse_from t extra (k # rest) a = parse_from t extra rest (f a)"
  by simp

text \<open>What an argument can name: an option it is, up to an equals sign, an abbreviation of.\<close>

lemma prefix_arg_name: "prefix (arg_name s) s"
  unfolding arg_name_def by (metis prefixI takeWhile_dropWhile_id)

lemma found_Option: "found a v = Option act w \<longleftrightarrow> a = Some act \<and> w = v"
  by (auto simp: found_def split: option.splits)

lemma all_options_Some: "(k, Some act) \<in> set (all_options t) \<longleftrightarrow> (k, act) \<in> set t"
  by (auto simp: all_options_def)

lemma classify_Option:
  assumes "classify t s = Option act v"
  shows "\<exists>k. (k, act) \<in> set t \<and> prefix (arg_name s) k"
proof -
  let ?o = "map_of (all_options t)"
  have named: "\<exists>k. (k, act) \<in> set t \<and> prefix (arg_name s) k" if "?o r = Some (Some act)" "prefix (arg_name s) r" for r
    using that map_of_SomeD [of "all_options t" r] by (auto simp: all_options_Some)
  consider (exact) "?o s = Some (Some act)" | (eq) "?o (arg_name s) = Some (Some act)"
    | (abbrev) k where "filter (\<lambda>(k, a). prefix (arg_name s) k) (all_options t) = [(k, Some act)]"
    using assms by (auto simp: classify_def found_Option split: if_splits option.splits list.splits)
  then show ?thesis
  proof cases
    case exact
    then show ?thesis by (rule named) (rule prefix_arg_name)
  next
    case eq
    then show ?thesis by (rule named) simp
  next
    case (abbrev k)
    have "(k, Some act) \<in> set (filter (\<lambda>(k, a). prefix (arg_name s) k) (all_options t))" unfolding abbrev by simp
    then show ?thesis by (auto simp: all_options_Some)
  qed
qed

text \<open>What every action the arguments name keeps, parsing keeps.\<close>

lemma parse_from_keeps:
  assumes "parse_from t extra argv a = Inr a'" and "P a"
    and "\<And>s f a. s \<in> set argv \<Longrightarrow> classify t s = Option (SetFlag f) None \<Longrightarrow> P a \<Longrightarrow> P (f a)"
    and "\<And>s f v x a a'. s \<in> set argv \<Longrightarrow> classify t s = Option (Store f) v \<Longrightarrow> P a \<Longrightarrow> f x a = Some a' \<Longrightarrow> P a'"
  shows "P a'"
  using assms
proof (induction "length argv" arbitrary: argv extra a rule: less_induct)
  case less
  show ?case
  proof (cases argv)
    case Nil
    then show ?thesis using less.prems by (simp split: if_splits)
  next
    case (Cons s rest)
    have IH: "parse_from t e xs b = Inr a' \<Longrightarrow> P b \<Longrightarrow> set xs \<subseteq> set argv \<Longrightarrow> length xs < length argv \<Longrightarrow> P a'" for e xs b
      using less.hyps [of xs e b] less.prems(3,4) by blast
    show ?thesis
    proof (cases "classify t s")
      case Plain
      then show ?thesis using less.prems(1,2) Cons by (intro IH [of True rest a]) auto
    next
      case Unknown
      then show ?thesis using less.prems(1,2) Cons by (intro IH [of True rest a]) auto
    next
      case (Option act v)
      show ?thesis
      proof (cases act)
        case (SetFlag f)
        then have v: "v = None" and run: "parse_from t extra rest (f a) = Inr a'"
          using less.prems(1) Option Cons by (cases v; simp)+
        have "P (f a)" by (rule less.prems(3) [of s]) (use less.prems(2) Option SetFlag v Cons in simp_all)
        then show ?thesis using run Cons by (intro IH [of extra rest "f a"]) auto
      next
        case (Store f)
        then obtain x b xs where "f x a = Some b" "parse_from t extra xs b = Inr a'" "set xs \<subseteq> set rest" "length xs \<le> length rest"
          using less.prems(1) Option Cons
          by (cases v) (fastforce split: option.splits list.splits arg_class.splits)+
        moreover from this have "P b" by (intro less.prems(4) [of s f v a x b]) (use less.prems(2) Option Store Cons in simp_all)
        ultimately show ?thesis using Cons by (intro IH [of extra xs b]) auto
      qed
    qed (use less.prems(1) Cons in auto)
  qed
qed

text \<open>
  What only one option writes changes only if some argument stands for that option: it is its name, up to an equals
  sign, or an abbreviation of it that the parser resolves.
\<close>

definition stands_for :: "'a option_table \<Rightarrow> string \<Rightarrow> string \<Rightarrow> bool" where
  "stands_for t k s \<longleftrightarrow> (case classify t s of Option act v \<Rightarrow> prefix (arg_name s) k | _ \<Rightarrow> False)"

definition action_keeps :: "('a \<Rightarrow> 'b) \<Rightarrow> 'a action \<Rightarrow> bool" where
  "action_keeps g act \<longleftrightarrow>
     (case act of SetFlag f \<Rightarrow> \<forall>a. g (f a) = g a | Store f \<Rightarrow> \<forall>x a a'. f x a = Some a' \<longrightarrow> g a' = g a)"

lemma action_keeps_simps [simp]:
  "action_keeps g (SetFlag f') \<longleftrightarrow> (\<forall>a. g (f' a) = g a)"
  "(\<And>x a. g (fs x a) = g a) \<Longrightarrow> action_keeps g (store_str fs)"
  "(\<And>x a. g (fi x a) = g a) \<Longrightarrow> action_keeps g (store_int fi)"
  "(\<And>x a. g (ff x a) = g a) \<Longrightarrow> action_keeps g (store_float ff)"
  by (auto simp: action_keeps_def store_str_def store_int_def store_float_def split: sum.splits option.splits)

lemma parse_args_keeps:
  assumes run: "parse_args t required a0 argv = Inr a"
    and others: "\<forall>(k, act)\<in>set t. k = name \<or> action_keeps g act"
  shows "g a = g a0 \<or> (\<exists>s\<in>set argv. stands_for t name s)"
proof (rule disjCI)
  assume none: "\<not> (\<exists>s\<in>set argv. stands_for t name s)"
  have keeps: "action_keeps g act" if hyps: "s \<in> set argv" "classify t s = Option act v" for s act v
  proof -
    obtain k where k: "(k, act) \<in> set t" "prefix (arg_name s) k" using classify_Option [OF hyps(2)] by blast
    have "k \<noteq> name" using none hyps k(2) by (auto simp: stands_for_def)
    then show ?thesis using others k(1) by auto
  qed
  have "parse_from t False argv a0 = Inr a"
    using run by (auto simp: parse_args_def rbind_eq_Inr split: if_splits)
  then show "g a = g a0"
  proof (rule parse_from_keeps [where P = "\<lambda>b. g b = g a0"])
    show "g (f b) = g a0" if "s \<in> set argv" "classify t s = Option (SetFlag f) None" "g b = g a0" for s f b
      using keeps [OF that(1,2)] that(3) by simp
    show "g b' = g a0"
      if "s \<in> set argv" "classify t s = Option (Store f) v" "g b = g a0" "f x b = Some b'" for s f v x b b'
      using keeps [OF that(1,2)] that(3,4) by (auto simp: action_keeps_def)
  qed simp
qed

lemma parse_from_code: "parse_from t extra argv a = Inl code \<Longrightarrow> code \<in> {0, 2}"
proof (induction "length argv" arbitrary: argv extra a rule: less_induct)
  case less
  show ?case
  proof (cases argv)
    case Nil
    then show ?thesis using less.prems by (simp split: if_splits)
  next
    case (Cons s rest)
    have IH: "parse_from t e xs b = Inl code \<Longrightarrow> length xs \<le> length rest \<Longrightarrow> code \<in> {0, 2}" for e xs b
      using less.hyps [of xs e b] Cons by simp
    show ?thesis
    proof (cases "classify t s")
      case (Option act v)
      show ?thesis
      proof (cases act)
        case (SetFlag f)
        then show ?thesis using less.prems Option Cons IH [of extra rest "f a"] by (cases v) auto
      next
        case (Store f)
        then consider "code = 2" | xs b where "parse_from t extra xs b = Inl code" "length xs \<le> length rest"
          using less.prems Option Cons by (cases v) (fastforce split: option.splits list.splits arg_class.splits)+
        then show ?thesis using IH by cases auto
      qed
    qed (use less.prems Cons IH [of True rest a] in \<open>auto split: if_splits\<close>)
  qed
qed

lemma parse_args_code: "parse_args t required a0 argv = Inl code \<Longrightarrow> code \<in> {0, 2}"
  using parse_from_code [of t False argv a0 code]
  by (cases "parse_from t False argv a0") (auto simp: parse_args_def split: if_splits)

end
