(* ===== verification/KvCommand.thy ===== *)
theory KvCommand
  imports ArgParse KvCampaign
begin

text \<open>
  The command line of the KV scaling study (\<open>bench/kv_scaling/__main__.py\<close>): the options, their defaults, and \<open>main\<close>
  from the argument vector to the exit code.
\<close>

record kv_cli =
  kc_model :: "string option"
  kc_model_id :: "string option"
  kc_revision :: "string option"
  kc_seq_lens :: "int list"
  kc_batches :: "int list"
  kc_n_samples :: int
  kc_max_model_len :: int
  kc_enforce_eager :: bool
  kc_out :: string
  kc_approve_cost :: bool
  kc_campaign_id :: string
  kc_dry_run :: bool
  kc_usd_per_hour :: "real option"
  kc_secs_per_cell :: real
  kc_gpu_memory_utilization :: real
  kc_block_size :: int
  kc_decode_tokens :: int

definition default_kv_cli :: kv_cli where
  "default_kv_cli =
     \<lparr>kc_model = None, kc_model_id = None, kc_revision = None, kc_seq_lens = [512, 2048, 8192], kc_batches = [1, 4, 16],
      kc_n_samples = 5, kc_max_model_len = 32768, kc_enforce_eager = True, kc_out = ''bench/results/kv_scaling'',
      kc_approve_cost = False, kc_campaign_id = ''kv-scaling'', kc_dry_run = False, kc_usd_per_hour = None,
      kc_secs_per_cell = 120, kc_gpu_memory_utilization = 9 / 10, kc_block_size = 16, kc_decode_tokens = 4\<rparr>"

definition store_int_list :: "(int list \<Rightarrow> 'a \<Rightarrow> 'a) \<Rightarrow> 'a action" where
  "store_int_list f = Store (\<lambda>v a. case parse_int_list v of None \<Rightarrow> None | Some xs \<Rightarrow> Some (f xs a))"

definition kv_parser :: "kv_cli option_table" where
  "kv_parser =
     [(''--model'', store_str (\<lambda>v a. a\<lparr>kc_model := Some v\<rparr>)),
      (''--model-id'', store_str (\<lambda>v a. a\<lparr>kc_model_id := Some v\<rparr>)),
      (''--revision'', store_str (\<lambda>v a. a\<lparr>kc_revision := Some v\<rparr>)),
      (''--seq-lens'', store_int_list (\<lambda>v a. a\<lparr>kc_seq_lens := v\<rparr>)),
      (''--batches'', store_int_list (\<lambda>v a. a\<lparr>kc_batches := v\<rparr>)),
      (''--n-samples'', store_int (\<lambda>v a. a\<lparr>kc_n_samples := v\<rparr>)),
      (''--max-model-len'', store_int (\<lambda>v a. a\<lparr>kc_max_model_len := v\<rparr>)),
      (''--enforce-eager'', SetFlag (\<lambda>a. a\<lparr>kc_enforce_eager := True\<rparr>)),
      (''--no-enforce-eager'', SetFlag (\<lambda>a. a\<lparr>kc_enforce_eager := False\<rparr>)),
      (''--out'', store_str (\<lambda>v a. a\<lparr>kc_out := v\<rparr>)),
      (''--approve-cost'', SetFlag (\<lambda>a. a\<lparr>kc_approve_cost := True\<rparr>)),
      (''--campaign-id'', store_str (\<lambda>v a. a\<lparr>kc_campaign_id := v\<rparr>)),
      (''--dry-run'', SetFlag (\<lambda>a. a\<lparr>kc_dry_run := True\<rparr>)),
      (''--usd-per-hour'', store_float (\<lambda>v a. a\<lparr>kc_usd_per_hour := Some v\<rparr>)),
      (''--secs-per-cell'', store_float (\<lambda>v a. a\<lparr>kc_secs_per_cell := v\<rparr>)),
      (''--gpu-memory-utilization'', store_float (\<lambda>v a. a\<lparr>kc_gpu_memory_utilization := v\<rparr>)),
      (''--block-size'', store_int (\<lambda>v a. a\<lparr>kc_block_size := v\<rparr>)),
      (''--decode-tokens'', store_int (\<lambda>v a. a\<lparr>kc_decode_tokens := v\<rparr>))]"

text \<open>The pinned model, unless the environment names another.\<close>

definition env_or :: "(string, string) odict \<Rightarrow> string \<Rightarrow> string \<Rightarrow> string" where
  "env_or env k d = (case od_get env k of None \<Rightarrow> d | Some v \<Rightarrow> v)"

definition MODEL_ID :: "(string, string) odict \<Rightarrow> string" where
  "MODEL_ID env = env_or env ''KV_SCALING_MODEL_ID'' ''Qwen/Qwen2.5-0.5B-Instruct''"

definition REVISION :: "(string, string) odict \<Rightarrow> string" where
  "REVISION env = env_or env ''KV_SCALING_REVISION'' ''7ae557604adf67be50417f59c2c2f167def9a775''"

text \<open>\<open>a or b\<close> of an optional string\<close>

definition str_or :: "string option \<Rightarrow> string \<Rightarrow> string" where
  "str_or v d = (case v of None \<Rightarrow> d | Some s \<Rightarrow> if s = [] then d else s)"

text \<open>The rate of the environment is used when the option is absent; an invalid one is ignored with a warning.\<close>

definition kv_rate :: "(string, string) odict \<Rightarrow> kv_cli \<Rightarrow> real option" where
  "kv_rate env a =
     (case kc_usd_per_hour a of
        Some x \<Rightarrow> Some x
      | None \<Rightarrow>
          (case od_get env ''KV_SCALING_USD_PER_HR'' of
             None \<Rightarrow> None
           | Some raw \<Rightarrow> if raw = [] then None else py_float raw))"

definition kv_sweep_args :: "(string, string) odict \<Rightarrow> kv_cli \<Rightarrow> sweep_args" where
  "kv_sweep_args env a =
     \<lparr>sa_model_id = str_or (kc_model_id a) (str_or (kc_model a) (MODEL_ID env)), sa_revision = str_or (kc_revision a) (REVISION env),
      sa_seq_lens = kc_seq_lens a, sa_batch_sizes = kc_batches a, sa_n_samples = kc_n_samples a,
      sa_campaign_id = kc_campaign_id a, sa_out_dir = kc_out a, sa_gpu_memory_utilization = kc_gpu_memory_utilization a,
      sa_max_model_len = kc_max_model_len a, sa_block_size = kc_block_size a, sa_enforce_eager = kc_enforce_eager a,
      sa_decode_tokens = kc_decode_tokens a, sa_seed = 0, sa_approve_cost = kc_approve_cost a, sa_dry_run = kc_dry_run a,
      sa_usd_per_hour = kv_rate env a, sa_secs_per_cell = kc_secs_per_cell a\<rparr>"

text \<open>The parser's \<open>SystemExit\<close> leaves with its code before anything is done.\<close>

definition kv_command ::
  "'t kv_codec \<Rightarrow> string \<Rightarrow> (llm_kwargs \<Rightarrow> 'e llm result) \<Rightarrow> (int \<times> string) option \<Rightarrow> (string, string) odict \<Rightarrow> string list \<Rightarrow>
   't files \<Rightarrow> (int result \<times> 't files) option" where
  "kv_command X now load smi env argv files =
     (case parse_args kv_parser (\<lambda>a. True) default_kv_cli argv of
        Inl code \<Rightarrow> Some (Inr code, files)
      | Inr a \<Rightarrow> kv_main X now load smi env (kv_sweep_args env a) files)"

section \<open>What an argument vector can set\<close>

lemma action_keeps_int_list [simp]: "(\<And>x a. g (f x a) = g a) \<Longrightarrow> action_keeps g (store_int_list f)"
  by (auto simp: action_keeps_def store_int_list_def split: option.splits)

text \<open>No other option touches the two flags.\<close>

lemma only_dry_run: "\<forall>(k, act)\<in>set kv_parser. k = ''--dry-run'' \<or> action_keeps kc_dry_run act"
  by (simp add: kv_parser_def)

lemma only_approve: "\<forall>(k, act)\<in>set kv_parser. k = ''--approve-cost'' \<or> action_keeps kc_approve_cost act"
  by (simp add: kv_parser_def)

section \<open>Properties\<close>

text \<open>
  C25: No spend from an argument vector that does not ask for it. When no argument stands for \<open>--approve-cost\<close> or
  \<open>--dry-run\<close> and the environment does not approve, the command either stops in its parser without touching a file, or
  refuses a grid of several cells with 2 and leaves nothing but the preflight record behind.
\<close>

theorem kv_command_gated:
  assumes "kv_command X now load smi env argv files = Some (res, files')"
    and "\<not> (\<exists>s\<in>set argv. stands_for kv_parser ''--approve-cost'' s \<or> stands_for kv_parser ''--dry-run'' s)"
    and "od_get env ''APPROVE_GPU_SPEND'' \<noteq> Some ''yes''"
  shows "case parse_args kv_parser (\<lambda>a. True) default_kv_cli argv of
      Inl code \<Rightarrow> code \<in> {0, 2} \<and> res = Inr code \<and> files' = files
    | Inr a \<Rightarrow>
        length (kc_seq_lens a) * length (kc_batches a) \<le> 1 \<or>
        res = Inr 2 \<and> (\<exists>p. files' = write_preflight_json X (campaign_dir (kc_out a) (kc_campaign_id a)) p files)"
proof (cases "parse_args kv_parser (\<lambda>a. True) default_kv_cli argv")
  case (Inl code)
  then show ?thesis using assms(1) parse_args_code [OF Inl] by (auto simp: kv_command_def)
next
  case (Inr a)
  have flags: "\<not> kc_approve_cost a" "\<not> kc_dry_run a"
    using parse_args_keeps [OF Inr only_approve] parse_args_keeps [OF Inr only_dry_run] assms(2)
    by (auto simp: default_kv_cli_def)
  obtain r f where run: "run_vllm_sweep X now load smi env (kv_sweep_args env a) files = Some (r, f)"
    and out: "res = (case r of Inr _ \<Rightarrow> Inr 0 | Inl RuntimeError \<Rightarrow> Inr 2 | Inl ValueError \<Rightarrow> Inr 1 | Inl e \<Rightarrow> Inl e)" "files' = f"
    using assms(1) Inr by (auto simp: kv_command_def kv_main_def)
  show ?thesis
  proof (cases "1 < length (kc_seq_lens a) * length (kc_batches a)")
    case True
    have "\<not> sa_dry_run (kv_sweep_args env a)" "1 < length (sa_seq_lens (kv_sweep_args env a)) * length (sa_batch_sizes (kv_sweep_args env a))"
      using flags True by (simp_all add: kv_sweep_args_def)
    from kv_spend_gated [OF run this] have "r = Inl RuntimeError \<and>
        (\<exists>p. f = write_preflight_json X (campaign_dir (kc_out a) (kc_campaign_id a)) p files)"
      using assms(3) flags by (simp add: kv_sweep_args_def)
    then show ?thesis using Inr out by simp
  qed (use Inr in simp)
qed

lemma kv_no_arguments: "parse_args kv_parser (\<lambda>a. True) default_kv_cli [] = Inr default_kv_cli"
  by (simp add: parse_args_def)

theorem kv_command_gated_witness:
  "\<exists>files'. kv_command cell_codec [] (\<lambda>k. Inl RuntimeError :: unit llm result) (Some (0, ''GPU 0'')) [] [] [] = Some (Inr 2, files')"
proof -
  obtain res files' where run: "run_vllm_sweep cell_codec [] (\<lambda>k. Inl RuntimeError :: unit llm result) (Some (0, ''GPU 0'')) []
      (kv_sweep_args [] default_kv_cli) [] = Some (res, files')"
    by (auto simp: run_vllm_sweep_def kv_sweep_args_def default_kv_cli_def Let_def build_kv_preflight_def)
  then obtain res' where cmd: "kv_command cell_codec [] (\<lambda>k. Inl RuntimeError :: unit llm result) (Some (0, ''GPU 0'')) [] [] [] = Some (res', files')"
    by (simp add: kv_command_def kv_no_arguments kv_main_def)
  have "length (kc_seq_lens default_kv_cli) * length (kc_batches default_kv_cli) = 9" by (simp add: default_kv_cli_def)
  with kv_command_gated [OF cmd] show ?thesis using cmd by (auto simp: kv_no_arguments od_get_def)
qed

text \<open>The invocation of the runbook, with the last value of a repeated option.\<close>

lemma kv_runbook:
  "parse_args kv_parser (\<lambda>a. True) default_kv_cli
     [''--model'', ''m'', ''--seq-lens'', ''1024,2048'', ''--batches=1,2'', ''--no-enforce-eager'', ''--enforce-eager'', ''--out'', ''o'', ''--approve''] =
   Inr (default_kv_cli\<lparr>kc_model := Some ''m'', kc_seq_lens := [1024, 2048], kc_batches := [1, 2], kc_out := ''o'', kc_approve_cost := True\<rparr>)"
  by code_simp

end
