(* ===== verification/MatrixCommand.thy ===== *)
theory MatrixCommand
  imports ArgParse HttpClient RunMatrix
begin

text \<open>
  The command lines of the sweep from the argument vector on: the options of \<open>scripts/run_matrix.py\<close> and
  \<open>scripts/sweep_report.py\<close>, the client each cell gets, and the \<open>main\<close> functions of \<open>RunMatrix\<close> behind them. Reading the
  configuration file of a path is the parameter \<open>load\<close>; the world a cell runs in depends on the client.
\<close>

record matrix_cli =
  mc_config :: "string option"
  mc_model_name :: string
  mc_max_concurrent :: int
  mc_run :: run_args

definition default_matrix_cli :: matrix_cli where
  "default_matrix_cli =
     \<lparr>mc_config = None, mc_model_name = ''goodputlab-model'', mc_max_concurrent = 64,
      mc_run = \<lparr>ra_topologies = None, ra_run_all = False, ra_approve_cost = False, ra_keep_going = False, ra_allow_overflow = False\<rparr>\<rparr>"

definition matrix_parser :: "matrix_cli option_table" where
  "matrix_parser =
     [(''--config'', store_str (\<lambda>v a. a\<lparr>mc_config := Some v\<rparr>)),
      (''--model-name'', store_str (\<lambda>v a. a\<lparr>mc_model_name := v\<rparr>)),
      (''--max-concurrent'', store_int (\<lambda>v a. a\<lparr>mc_max_concurrent := v\<rparr>)),
      (''--run-all'', SetFlag (\<lambda>a. a\<lparr>mc_run := mc_run a\<lparr>ra_run_all := True\<rparr>\<rparr>)),
      (''--approve-cost'', SetFlag (\<lambda>a. a\<lparr>mc_run := mc_run a\<lparr>ra_approve_cost := True\<rparr>\<rparr>)),
      (''--keep-going'', SetFlag (\<lambda>a. a\<lparr>mc_run := mc_run a\<lparr>ra_keep_going := True\<rparr>\<rparr>)),
      (''--allow-overflow'', SetFlag (\<lambda>a. a\<lparr>mc_run := mc_run a\<lparr>ra_allow_overflow := True\<rparr>\<rparr>)),
      (''--topologies'', store_str (\<lambda>v a. a\<lparr>mc_run := mc_run a\<lparr>ra_topologies := Some v\<rparr>\<rparr>))]"

definition parse_matrix :: "string list \<Rightarrow> int + matrix_cli" where
  "parse_matrix = parse_args matrix_parser (\<lambda>a. mc_config a \<noteq> None) default_matrix_cli"

definition build_client_factory :: "string \<Rightarrow> string \<Rightarrow> int \<Rightarrow> http_client result" where
  "build_client_factory base_url model_name max_concurrent = VllmHttpClient base_url model_name 120 max_concurrent"

text \<open>The client of a run, from the address in the environment variable that the configuration names.\<close>

definition matrix_client :: "(string, string) odict \<Rightarrow> sweep_config result \<Rightarrow> matrix_cli \<Rightarrow> http_client result" where
  "matrix_client env loaded a =
     rbind loaded (\<lambda>cfg.
       build_client_factory (case od_get env (sw_vllm_base_url_env cfg) of None \<Rightarrow> [] | Some url \<Rightarrow> url)
         (mc_model_name a) (mc_max_concurrent a))"

definition matrix_command ::
  "'g rng \<Rightarrow> 't codec \<Rightarrow> (http_client result \<Rightarrow> 'w cell_world) \<Rightarrow> 't dumps \<Rightarrow> (string \<Rightarrow> sweep_config result) \<Rightarrow>
   (string, string) odict \<Rightarrow> string list \<Rightarrow> 't directory \<times> 'w \<Rightarrow> int result \<times> 't directory \<times> 'w" where
  "matrix_command R C W D load env argv s =
     (case parse_matrix argv of
        Inl code \<Rightarrow> (Inr code, s)
      | Inr a \<Rightarrow>
          (case mc_config a of
             None \<Rightarrow> (Inr 2, s)
           | Some path \<Rightarrow> run_matrix_main R C (W (matrix_client env (load path) a)) D (mc_run a) env (load path) s))"

section \<open>The report command\<close>

record report_cli =
  rc_config :: "string option"
  rc_cells_dir :: "string option"
  rc_quiet :: bool

definition report_parser :: "report_cli option_table" where
  "report_parser =
     [(''--config'', store_str (\<lambda>v a. a\<lparr>rc_config := Some v\<rparr>)),
      (''--cells-dir'', store_str (\<lambda>v a. a\<lparr>rc_cells_dir := Some v\<rparr>)),
      (''--quiet'', SetFlag (\<lambda>a. a\<lparr>rc_quiet := True\<rparr>))]"

text \<open>\<open>dirs\<close> gives the directory of a path; the exit code does not depend on \<open>--quiet\<close>.\<close>

definition report_command ::
  "'t codec \<Rightarrow> (string \<Rightarrow> 't directory) \<Rightarrow> (string \<Rightarrow> sweep_config result) \<Rightarrow> string list \<Rightarrow> int result" where
  "report_command C dirs load argv =
     (case parse_args report_parser (\<lambda>a. rc_config a \<noteq> None) \<lparr>rc_config = None, rc_cells_dir = None, rc_quiet = False\<rparr> argv of
        Inl code \<Rightarrow> Inr code
      | Inr a \<Rightarrow>
          (case rc_config a of
             None \<Rightarrow> Inr 2
           | Some path \<Rightarrow>
               sweep_report_main C
                 (case rc_cells_dir a of Some p \<Rightarrow> dirs p | None \<Rightarrow> dirs (case load path of Inl e \<Rightarrow> [] | Inr cfg \<Rightarrow> sw_output_dir cfg))
                 (load path)))"

section \<open>Properties\<close>

lemma only_matrix_approve: "\<forall>(k, act)\<in>set matrix_parser. k = ''--approve-cost'' \<or> action_keeps (\<lambda>a. ra_approve_cost (mc_run a)) act"
  by (simp add: matrix_parser_def)

lemma only_matrix_overflow: "\<forall>(k, act)\<in>set matrix_parser. k = ''--allow-overflow'' \<or> action_keeps (\<lambda>a. ra_allow_overflow (mc_run a)) act"
  by (simp add: matrix_parser_def)

lemma parsed_flags:
  assumes "parse_matrix argv = Inr a"
  shows "ra_approve_cost (mc_run a) \<Longrightarrow> \<exists>s\<in>set argv. stands_for matrix_parser ''--approve-cost'' s"
    and "ra_allow_overflow (mc_run a) \<Longrightarrow> \<exists>s\<in>set argv. stands_for matrix_parser ''--allow-overflow'' s"
  using parse_args_keeps [OF assms [unfolded parse_matrix_def] only_matrix_approve]
    parse_args_keeps [OF assms [unfolded parse_matrix_def] only_matrix_overflow]
  by (auto simp: default_matrix_cli_def)

text \<open>
  C5: From the argument vector to the first change, nothing is spent unasked. If the sweep command changed a file or
  the world, then it was given a configuration that loads, every request of the cells it selected fits the context
  window or an argument stands for \<open>--allow-overflow\<close>, and the run is a smoke run, has nothing to execute, is approved by the
  environment, or an argument stands for \<open>--approve-cost\<close>.
\<close>

theorem matrix_command_gated:
  assumes "matrix_command R C W D load env argv s = (res, s')" and "s' \<noteq> s"
  shows "\<exists>a path cfg0 cfg pending pf. parse_matrix argv = Inr a \<and> mc_config a = Some path \<and> load path = Inr cfg0 \<and>
    filtered_config (mc_run a) cfg0 = Inr cfg \<and> selected_cells C (mc_run a) cfg (fst s) = Inr pending \<and>
    build_prompt_preflight R pending (sw_max_model_len cfg) = Inr pf \<and>
    (preflight_ok pf \<or> (\<exists>t\<in>set argv. stands_for matrix_parser ''--allow-overflow'' t)) \<and>
    (pending = [] \<or> sw_smoke cfg \<or> spend_approved False env \<or> (\<exists>t\<in>set argv. stands_for matrix_parser ''--approve-cost'' t))"
proof -
  obtain a path where a: "parse_matrix argv = Inr a" "mc_config a = Some path"
    and run: "run_matrix_main R C (W (matrix_client env (load path) a)) D (mc_run a) env (load path) s = (res, s')"
    using assms by (auto simp: matrix_command_def split: sum.splits option.splits)
  show ?thesis
    using run assms(2)
  proof (rule main_gated)
    fix cfg0 cfg pending pf
    assume g: "load path = Inr cfg0" "filtered_config (mc_run a) cfg0 = Inr cfg" "selected_cells C (mc_run a) cfg (fst s) = Inr pending"
      "build_prompt_preflight R pending (sw_max_model_len cfg) = Inr pf" "gate_code (mc_run a) env cfg pending pf = None"
    have gates: "preflight_ok pf \<or> ra_allow_overflow (mc_run a)"
      "pending = [] \<or> sw_smoke cfg \<or> spend_approved (ra_approve_cost (mc_run a)) env"
      using g(5) gate_code_None by blast+
    have "spend_approved (ra_approve_cost (mc_run a)) env \<longleftrightarrow> ra_approve_cost (mc_run a) \<or> spend_approved False env"
      by (simp add: spend_approved_def)
    then show ?thesis using a g gates parsed_flags [OF a(1)] by blast
  qed
qed

definition ex_argv :: "string list" where
  "ex_argv = [''--config'', ''c.yaml'', ''--keep'']"

lemma ex_argv_parsed:
  "parse_matrix ex_argv = Inr (default_matrix_cli\<lparr>mc_config := Some ''c.yaml'', mc_run := ex_args\<rparr>)"
  by code_simp

theorem matrix_command_gated_witness:
  "\<exists>pending pf. selected_cells plain_codec ex_args ex_config [] = Inr pending \<and>
     build_prompt_preflight counting_rng pending (sw_max_model_len ex_config) = Inr pf \<and> preflight_ok pf"
proof -
  let ?a = "default_matrix_cli\<lparr>mc_config := Some ''c.yaml'', mc_run := ex_args\<rparr>"
  obtain d' where run: "run_matrix_main counting_rng plain_codec (ex_world [ex_bench_telemetry 200 [0, 5]]) ex_dumps ex_args
     [(''URL'', ''http'')] (Inr ex_config) ([], 0) = (Inr 0, d', 5)" using ex_main by blast
  have cmd: "matrix_command counting_rng plain_codec (\<lambda>c. ex_world [ex_bench_telemetry 200 [0, 5]]) ex_dumps (\<lambda>p. Inr ex_config)
     [(''URL'', ''http'')] ex_argv ([], 0) = (Inr 0, d', 5)"
    using run by (simp add: matrix_command_def ex_argv_parsed)
  have none: "\<not> (\<exists>t\<in>set ex_argv. stands_for matrix_parser ''--allow-overflow'' t)"
    by code_simp
  from matrix_command_gated [OF cmd] none show ?thesis
    by (auto simp: ex_argv_parsed filtered_config_def ex_args_def)
qed

end
