(* ===== verification/ServiceCommands.thy ===== *)
theory ServiceCommands
  imports ArgParse DisaggProxy SentinelDaemon LiveBench
begin

text \<open>
  The command lines of the long-running services and of the live harnesses: the options of \<open>scripts/disagg_proxy.py\<close>,
  \<open>scripts/sentinel_daemon.py\<close>, \<open>scripts/real_bench.py\<close> and \<open>bench/ollama_smoke.py\<close>, each with the function its arguments
  reach. A parser that exits does so before the service starts.
\<close>

section \<open>The proxy\<close>

definition proxy_parser :: "proxy_args option_table" where
  "proxy_parser =
     [(''--host'', store_str (\<lambda>v a. a\<lparr>pg_host := v\<rparr>)),
      (''--port'', store_int (\<lambda>v a. a\<lparr>pg_port := v\<rparr>)),
      (''--prefiller-host'', store_str (\<lambda>v a. a\<lparr>pg_prefiller_host := v\<rparr>)),
      (''--prefiller-port'', store_int (\<lambda>v a. a\<lparr>pg_prefiller_port := v\<rparr>)),
      (''--decoder-host'', store_str (\<lambda>v a. a\<lparr>pg_decoder_host := v\<rparr>)),
      (''--decoder-port'', store_int (\<lambda>v a. a\<lparr>pg_decoder_port := v\<rparr>)),
      (''--served-model-name'', store_str (\<lambda>v a. a\<lparr>pg_served_model_name := v\<rparr>)),
      (''--assert-first-token-matches'', store_str (\<lambda>v a. a\<lparr>pg_assert_first_token_matches := v\<rparr>))]"

text \<open>The application a started proxy serves, with the address it listens on.\<close>

definition proxy_command :: "string list \<Rightarrow> int + (proxy_app \<times> string \<times> int)" where
  "proxy_command argv =
     rbind (parse_args proxy_parser (\<lambda>a. True) default_proxy_args argv) (\<lambda>g. Inr (build_app g, pg_host g, pg_port g))"

section \<open>The drift probe\<close>

definition daemon_parser :: "daemon_args option_table" where
  "daemon_parser =
     [(''--base-url'', store_str (\<lambda>v a. a\<lparr>da_base_url := v\<rparr>)),
      (''--served-model-name'', store_str (\<lambda>v a. a\<lparr>da_served_model_name := v\<rparr>)),
      (''--fixture-dir'', store_str (\<lambda>v a. a\<lparr>da_fixture_dir := v\<rparr>)),
      (''--interval-seconds'', store_int (\<lambda>v a. a\<lparr>da_interval_seconds := v\<rparr>)),
      (''--metrics-port'', store_int (\<lambda>v a. a\<lparr>da_metrics_port := v\<rparr>)),
      (''--check-timeout'', store_float (\<lambda>v a. a\<lparr>da_check_timeout := v\<rparr>))]"

definition daemon_command :: "'w daemon_env \<Rightarrow> string list \<Rightarrow> 'w \<Rightarrow> (int \<times> int list \<times> 'w) option" where
  "daemon_command E argv w =
     (case parse_args daemon_parser (\<lambda>a. True) default_daemon_args argv of
        Inl code \<Rightarrow> Some (code, [], w)
      | Inr g \<Rightarrow> daemon_main E g w)"

section \<open>The live harnesses\<close>

record real_args =
  re_base_url :: string
  re_model :: string
  re_out :: string

definition default_real_args :: real_args where
  "default_real_args =
     \<lparr>re_base_url = ''http://localhost:8000/v1'', re_model = ''Qwen/Qwen2.5-7B-Instruct'', re_out = ''bench/results/real''\<rparr>"

definition real_parser :: "real_args option_table" where
  "real_parser =
     [(''--base-url'', store_str (\<lambda>v a. a\<lparr>re_base_url := v\<rparr>)),
      (''--model'', store_str (\<lambda>v a. a\<lparr>re_model := v\<rparr>)),
      (''--out'', store_str (\<lambda>v a. a\<lparr>re_out := v\<rparr>))]"

text \<open>The directories by name; a run changes the one its \<open>out\<close> names.\<close>

definition real_command :: "digest \<Rightarrow> 'w live_world \<Rightarrow> string list \<Rightarrow> (string \<Rightarrow> (string, live_file) odict) \<Rightarrow> 'w \<Rightarrow>
    (int \<times> (string \<Rightarrow> (string, live_file) odict) \<times> 'w) option" where
  "real_command sha W argv dirs w =
     (case parse_args real_parser (\<lambda>a. True) default_real_args argv of
        Inl code \<Rightarrow> Some (code, dirs, w)
      | Inr a \<Rightarrow>
          map_option (\<lambda>(code, files, w'). (code, dirs(re_out a := files), w'))
            (real_bench_main sha W (re_base_url a) (re_model a) (dirs (re_out a), w)))"

definition ollama_parser :: "(ollama_args \<times> string) option_table" where
  "ollama_parser =
     [(''--base-url'', store_str (\<lambda>v (a, out). (a\<lparr>og_base_url := v\<rparr>, out))),
      (''--model'', store_str (\<lambda>v (a, out). (a\<lparr>og_model := v\<rparr>, out))),
      (''--n'', store_int (\<lambda>v (a, out). (a\<lparr>og_n := v\<rparr>, out))),
      (''--rate'', store_float (\<lambda>v (a, out). (a\<lparr>og_rate := v\<rparr>, out))),
      (''--prompt-tokens'', store_int (\<lambda>v (a, out). (a\<lparr>og_prompt_tokens := v\<rparr>, out))),
      (''--output-tokens'', store_int (\<lambda>v (a, out). (a\<lparr>og_output_tokens := v\<rparr>, out))),
      (''--seed'', store_int (\<lambda>v (a, out). (a\<lparr>og_seed := v\<rparr>, out))),
      (''--out'', store_str (\<lambda>v (a, out). (a, v)))]"

definition ollama_command :: "'w live_world \<Rightarrow> string \<Rightarrow> string list \<Rightarrow> (string \<Rightarrow> (string, live_file) odict) \<Rightarrow> 'w \<Rightarrow>
    (int result \<times> (string \<Rightarrow> (string, live_file) odict) \<times> 'w) option" where
  "ollama_command W sysname argv dirs w =
     (case parse_args ollama_parser (\<lambda>a. True) (default_ollama_args, ''bench/results/ollama'') argv of
        Inl code \<Rightarrow> Some (Inr code, dirs, w)
      | Inr (a, out) \<Rightarrow>
          map_option (\<lambda>(res, files, w'). (res, dirs(out := files), w')) (ollama_run W sysname a (dirs out, w)))"

section \<open>What the arguments reach\<close>

text \<open>Without an argument that stands for the option, the first-token comparison stays off.\<close>

lemma only_sentinel:
  "\<forall>(k, act)\<in>set proxy_parser. k = ''--assert-first-token-matches'' \<or> action_keeps pg_assert_first_token_matches act"
  by (simp add: proxy_parser_def)

lemma proxy_sentinel_opt_in:
  assumes "proxy_command argv = Inr (app, host, port)" "pa_assert_first_token app \<noteq> []"
  shows "\<exists>s\<in>set argv. stands_for proxy_parser ''--assert-first-token-matches'' s"
proof -
  obtain g where g: "parse_args proxy_parser (\<lambda>a. True) default_proxy_args argv = Inr g" "app = build_app g"
    using assms(1) by (auto simp: proxy_command_def rbind_eq_Inr)
  then show ?thesis
    using parse_args_keeps [OF g(1) only_sentinel] assms(2) by (auto simp: build_app_def default_proxy_args_def)
qed

text \<open>An interval below one second is refused before the first probe; an abbreviation of an option is accepted.\<close>

lemma daemon_refuses_interval: "daemon_command E [''--interval'', ''0''] w = Some (2, [], w)"
proof -
  have "parse_args daemon_parser (\<lambda>a. True) default_daemon_args [''--interval'', ''0''] =
      Inr (default_daemon_args\<lparr>da_interval_seconds := 0\<rparr>)"
    by code_simp
  then show ?thesis by (simp add: daemon_command_def daemon_main_def)
qed

lemma smoke_number_of_requests:
  "parse_args ollama_parser (\<lambda>a. True) (default_ollama_args, ''o'') [''--n'', ''3'', ''--rate=2.5''] =
     Inr (default_ollama_args\<lparr>og_n := 3, og_rate := 5 / 2\<rparr>, ''o'')"
  by code_simp

end
