(* ===== verification/LiveExperiment.thy ===== *)
theory LiveExperiment
  imports AutoscalerLive ArgParse PyJson "HOL-Library.Sublist"
begin

text \<open>
  The rest of \<open>scripts/autoscaler_live.py\<close>: the traffic of a phase, the loop over the phases around the ticks of
  \<open>AutoscalerLive\<close>, the files and the command line. The clock, the scrape and sleeping act on a world \<open>'w\<close>. The traffic
  task runs beside the ticks on the same event loop: what it saw of the clock, of the stop event and of the server
  is its view \<open>'t\<close> of the world at the time it is awaited. A loop that never ends is \<open>None\<close>.
\<close>

section \<open>The phases\<close>

record phase =
  ph_name :: string
  ph_duration_s :: real
  ph_rate_rps :: real
  ph_prompt_words :: int
  ph_max_tokens :: int

definition prompt_heavy :: phase where
  "prompt_heavy = \<lparr>ph_name = ''prompt_heavy'', ph_duration_s = 60, ph_rate_rps = 24, ph_prompt_words = 6000, ph_max_tokens = 8\<rparr>"

definition decode_heavy :: phase where
  "decode_heavy = \<lparr>ph_name = ''decode_heavy'', ph_duration_s = 60, ph_rate_rps = 4, ph_prompt_words = 40, ph_max_tokens = 512\<rparr>"

definition DEFAULT_PHASES :: "phase list" where
  "DEFAULT_PHASES = [prompt_heavy, decode_heavy]"

section \<open>The traffic of a phase\<close>

record shift_payload =
  sp_model :: string
  sp_content :: string
  sp_max_tokens :: int
  sp_temperature :: real

definition base_prompt :: "phase \<Rightarrow> string" where
  "base_prompt ph = concat (replicate (nat (ph_prompt_words ph)) ''lorem '')"

definition request_prompt :: "phase \<Rightarrow> nat \<Rightarrow> string" where
  "request_prompt ph n = ''request '' @ nat_str n @ '' distinct: '' @ base_prompt ph"

definition request_payload :: "phase \<Rightarrow> nat \<Rightarrow> shift_payload" where
  "request_payload ph n =
     \<lparr>sp_model = ''goodputlab-model'', sp_content = request_prompt ph n, sp_max_tokens = ph_max_tokens ph, sp_temperature = 0\<rparr>"

text \<open>How a post ends: a status, an \<open>httpx.HTTPError\<close> of some class, or another exception.\<close>

datatype post_outcome = Answered int | HttpError string | OtherError

text \<open>An exception that is not an \<open>httpx.HTTPError\<close> ends the task before it counts; \<open>gather\<close> keeps it as a value.\<close>

definition count_outcome :: "post_outcome \<Rightarrow> (string, nat) odict \<Rightarrow> (string, nat) odict" where
  "count_outcome r counts =
     (let bump = (\<lambda>k. od_set k ((case od_get counts k of None \<Rightarrow> 0 | Some n \<Rightarrow> n) + 1) counts)
      in case r of Answered status \<Rightarrow> bump (int_str status) | HttpError name \<Rightarrow> bump name | OtherError \<Rightarrow> counts)"

record 't traffic_view =
  tv_monotonic :: "'t \<Rightarrow> real \<times> 't"
  tv_stopped :: "'t \<Rightarrow> bool"
  tv_sleep :: "real \<Rightarrow> 't \<Rightarrow> 't"
  tv_gather :: "string \<Rightarrow> shift_payload list \<Rightarrow> 't \<Rightarrow> post_outcome list"

text \<open>The launch loop: how many requests were sent, and the view after it.\<close>

partial_function (option) launch_loop :: "'t traffic_view \<Rightarrow> real \<Rightarrow> real \<Rightarrow> nat \<Rightarrow> 't \<Rightarrow> (nat \<times> 't) option" where
  "launch_loop T interval deadline n t =
     (if fst (tv_monotonic T t) < deadline \<and> \<not> tv_stopped T (snd (tv_monotonic T t))
      then launch_loop T interval deadline (Suc n) (tv_sleep T interval (snd (tv_monotonic T t)))
      else Some (n, snd (tv_monotonic T t)))"

definition fire_phase :: "'t traffic_view \<Rightarrow> string \<Rightarrow> phase \<Rightarrow> 't \<Rightarrow> (nat \<times> post_outcome list) result option" where
  "fire_phase T base_url ph t =
     (if ph_rate_rps ph = 0 then Some (Inl ZeroDivisionError)
      else map_option (\<lambda>(n, t'). Inr (n, tv_gather T (base_url @ ''/chat/completions'') (map (request_payload ph) [0..<n]) t'))
             (launch_loop T (1 / ph_rate_rps ph) (fst (tv_monotonic T t) + ph_duration_s ph) 0 (snd (tv_monotonic T t))))"

section \<open>The experiment\<close>

record ('w, 't) shift_world =
  sw_monotonic :: "'w \<Rightarrow> real \<times> 'w"
  sw_time :: "'w \<Rightarrow> real \<times> 'w"
  sw_get :: "string \<Rightarrow> 'w \<Rightarrow> string result \<times> 'w"
  sw_sleep :: "real \<Rightarrow> 'w \<Rightarrow> 'w"
  sw_spawn :: "phase \<Rightarrow> 'w \<Rightarrow> 'w"
  sw_view :: "phase \<Rightarrow> 'w \<Rightarrow> 't"
  sw_join :: "phase \<Rightarrow> 'w \<Rightarrow> 'w"

text \<open>\<open>base_url.removesuffix("/v1") + "/metrics"\<close>\<close>

definition removesuffix :: "string \<Rightarrow> string \<Rightarrow> string" where
  "removesuffix s x = (if x \<noteq> [] \<and> suffix x s then take (length s - length x) s else s)"

definition metrics_url :: "string \<Rightarrow> string" where
  "metrics_url base_url = removesuffix base_url ''/v1'' @ ''/metrics''"

text \<open>
  One tick: the scrape, the readings of the scaler's clock and of the wall clock, and the step of \<open>AutoscalerLive\<close>.
  (A step that raises did not read the wall clock any more; nothing reads the world after it.)
\<close>

definition observe :: "('w, 't) shift_world \<Rightarrow> string \<Rightarrow> string \<Rightarrow> 'w \<Rightarrow> observation result \<times> 'w" where
  "observe W url name w =
     (case sw_get W url w of
        (Inl e, w1) \<Rightarrow> (Inl e, w1)
      | (Inr body, w1) \<Rightarrow>
          (case sw_monotonic W w1 of (now, w2) \<Rightarrow>
           case sw_time W w2 of (wall, w3) \<Rightarrow>
             (Inr \<lparr>ob_phase = name, ob_now = now, ob_body = body, ob_wall = wall\<rparr>, w3)))"

partial_function (option) phase_loop ::
  "('w, 't) shift_world \<Rightarrow> prom_parser \<Rightarrow> string \<Rightarrow> real \<Rightarrow> int \<Rightarrow> real \<Rightarrow> string \<Rightarrow> live_state \<Rightarrow> 'w \<Rightarrow> (live_state result \<times> 'w) option" where
  "phase_loop W families url tick_s target deadline name st w =
     (if fst (sw_monotonic W w) < deadline
      then (case observe W url name (snd (sw_monotonic W w)) of
              (Inl e, w1) \<Rightarrow> Some (Inl e, w1)
            | (Inr ob, w1) \<Rightarrow>
                (case live_tick families tick_s target st ob of
                   Inl e \<Rightarrow> Some (Inl e, w1)
                 | Inr st' \<Rightarrow> phase_loop W families url tick_s target deadline name st' (sw_sleep W tick_s w1)))
      else Some (Inr st, snd (sw_monotonic W w)))"

fun phases_loop ::
  "('w, 't) shift_world \<Rightarrow> 't traffic_view \<Rightarrow> prom_parser \<Rightarrow> string \<Rightarrow> real \<Rightarrow> int \<Rightarrow> phase list \<Rightarrow>
   live_state \<times> (string, nat) odict \<Rightarrow> 'w \<Rightarrow> ((live_state \<times> (string, nat) odict) result \<times> 'w) option" where
  "phases_loop W T families base_url tick_s target [] s w = Some (Inr s, w)"
| "phases_loop W T families base_url tick_s target (ph # phs) (st, counts) w =
     (case sw_monotonic W (sw_spawn W ph w) of (now, w1) \<Rightarrow>
        (case phase_loop W families (metrics_url base_url) tick_s target (now + ph_duration_s ph - tick_s) (ph_name ph) st w1 of
           None \<Rightarrow> None
         | Some (Inl e, w2) \<Rightarrow> Some (Inl e, w2)
         | Some (Inr st', w2) \<Rightarrow>
             (case fire_phase T base_url ph (sw_view W ph w2) of
                None \<Rightarrow> None
              | Some (Inl e) \<Rightarrow> Some (Inl e, sw_join W ph w2)
              | Some (Inr (n, outcomes)) \<Rightarrow>
                  phases_loop W T families base_url tick_s target phs (st', fold count_outcome outcomes counts) (sw_join W ph w2))))"

text \<open>What is written: one object per tick, and the summary.\<close>

definition tick_json :: "tick_rec \<Rightarrow> json" where
  "tick_json t = JObj [(''ts'', JNum (tk_ts t)), (''phase'', JStr (tk_phase t)), (''queue_waiting'', JNum (real_of_int (tk_waiting t))),
     (''in_flight_running'', JNum (real_of_int (tk_running t))), (''replicas_virtual'', JNum (real_of_int (tk_replicas t))),
     (''decision_delta'', JNum (real_of_int (tk_delta t))), (''decision_reason'', JStr (tk_reason t))]"

definition shift_summary :: "real \<Rightarrow> string \<Rightarrow> phase list \<Rightarrow> live_state \<Rightarrow> (string, nat) odict \<Rightarrow> json" where
  "shift_summary tick_s out_path phases st counts =
     (let s = live_summarize tick_s st in
      JObj [(''ticks'', JNum (real (ls_ticks s))), (''flips'', JNum (real (ls_flips s))),
        (''flips_per_minute'', JNum (ls_flips_per_minute s)), (''drain_violations'', JNum (real (ls_drain_violations s))),
        (''max_queue_waiting'', JNum (real_of_int (ls_max_queue_waiting s))),
        (''response_status_counts'', JObj (map (\<lambda>(k, n). (k, JNum (real n))) counts)),
        (''phases'', JList (map (\<lambda>p. JStr (ph_name p)) phases)), (''records_path'', JStr out_path)])"

datatype live_output = JsonLines "json list" | JsonDoc json

text \<open>\<open>path.with_name(n)\<close> of a path with a last component\<close>

definition with_name :: "string \<Rightarrow> string \<Rightarrow> string" where
  "with_name path n = rev (dropWhile (\<lambda>c. c \<noteq> CHR ''/'') (rev path)) @ n"

definition shift_experiment ::
  "('w, 't) shift_world \<Rightarrow> 't traffic_view \<Rightarrow> prom_parser \<Rightarrow> string \<Rightarrow> string \<Rightarrow> phase list \<Rightarrow> real \<Rightarrow> int \<Rightarrow> real \<Rightarrow>
   (string, live_output) odict \<times> 'w \<Rightarrow> ((live_state \<times> json) result \<times> (string, live_output) odict \<times> 'w) option" where
  "shift_experiment W T families base_url out_path phases tick_s target min_dwell_s s =
     (case s of (files, w) \<Rightarrow>
        (case build_autoscaler min_dwell_s of
           Inl e \<Rightarrow> Some (Inl e, files, w)
         | Inr scaler \<Rightarrow>
             (case phases_loop W T families base_url tick_s target phases
                     (\<lparr>lv_scaler = scaler, lv_replicas = 1, lv_records = [], lv_drain_violations = 0, lv_flips = 0\<rparr>, []) w of
                None \<Rightarrow> None
              | Some (Inl e, w') \<Rightarrow> Some (Inl e, files, w')
              | Some (Inr (st, counts), w') \<Rightarrow>
                  (let summary = shift_summary tick_s out_path phases st counts in
                   Some (Inr (st, summary),
                         od_set (with_name out_path ''summary.json'') (JsonDoc summary)
                           (od_set out_path (JsonLines (map tick_json (lv_records st))) files), w')))))"

section \<open>The command line\<close>

record shift_args =
  sh_out :: string
  sh_tick_s :: real
  sh_target :: int
  sh_min_dwell_s :: real

definition default_shift_args :: shift_args where
  "default_shift_args = \<lparr>sh_out = ''bench/results/autoscaler_live/run.jsonl'', sh_tick_s = 2, sh_target = 4, sh_min_dwell_s = 10\<rparr>"

text \<open>\<open>base_url\<close> is the environment variable; an empty one counts as unset.\<close>

definition shift_main ::
  "('w, 't) shift_world \<Rightarrow> 't traffic_view \<Rightarrow> prom_parser \<Rightarrow> string option \<Rightarrow> shift_args \<Rightarrow>
   (string, live_output) odict \<times> 'w \<Rightarrow> (int result \<times> (string, live_output) odict \<times> 'w) option" where
  "shift_main W T families base_url args s =
     (case base_url of
        None \<Rightarrow> Some (Inr 2, s)
      | Some [] \<Rightarrow> Some (Inr 2, s)
      | Some url \<Rightarrow>
          map_option (\<lambda>(r, s'). (rbind r (\<lambda>(st, summary). Inr (if lv_drain_violations st \<noteq> 0 then 1 else 0)), s'))
            (shift_experiment W T families url (sh_out args) DEFAULT_PHASES (sh_tick_s args) (sh_target args)
               (sh_min_dwell_s args) s))"

definition shift_parser :: "shift_args option_table" where
  "shift_parser =
     [(''--out'', store_str (\<lambda>v a. a\<lparr>sh_out := v\<rparr>)),
      (''--tick-s'', store_float (\<lambda>v a. a\<lparr>sh_tick_s := v\<rparr>)),
      (''--target-queue-depth'', store_int (\<lambda>v a. a\<lparr>sh_target := v\<rparr>)),
      (''--min-dwell-s'', store_float (\<lambda>v a. a\<lparr>sh_min_dwell_s := v\<rparr>))]"

definition shift_command ::
  "('w, 't) shift_world \<Rightarrow> 't traffic_view \<Rightarrow> prom_parser \<Rightarrow> (string, string) odict \<Rightarrow> string list \<Rightarrow>
   (string, live_output) odict \<times> 'w \<Rightarrow> (int result \<times> (string, live_output) odict \<times> 'w) option" where
  "shift_command W T families env argv s =
     (case parse_args shift_parser (\<lambda>a. True) default_shift_args argv of
        Inl code \<Rightarrow> Some (Inr code, s)
      | Inr a \<Rightarrow> shift_main W T families (od_get env ''RUNPOD_VLLM_BASE_URL'') a s)"

section \<open>Loops end\<close>




section \<open>The ticks of a run\<close>






section \<open>The statuses\<close>





text \<open>A failure that is not an \<open>httpx.HTTPError\<close> is tolerated without being counted.\<close>

lemma other_errors_uncounted: "fold count_outcome (replicate n OtherError) counts = counts"
  by (induction n) (simp_all add: count_outcome_def)

section \<open>The prompts\<close>

text \<open>Within a phase all prompts differ.\<close>

lemma request_prompt_inj: "request_prompt ph m = request_prompt ph n \<longleftrightarrow> m = n"
  by (simp add: request_prompt_def)

text \<open>
  Across the phases they do not: the numbering starts again, and each prompt of the decode-heavy phase is a prefix of
  the prompt with the same number of the prompt-heavy phase before it.
\<close>

lemma base_prompt_prefix:
  assumes "ph_prompt_words p \<le> ph_prompt_words q"
  shows "prefix (base_prompt p) (base_prompt q)"
proof -
  have "replicate (nat (ph_prompt_words q)) ''lorem '' =
      replicate (nat (ph_prompt_words p)) ''lorem '' @ replicate (nat (ph_prompt_words q) - nat (ph_prompt_words p)) ''lorem ''"
    using assms by (simp flip: replicate_add)
  then show ?thesis by (simp add: base_prompt_def)
qed

lemma decode_prompts_repeat: "prefix (request_prompt decode_heavy n) (request_prompt prompt_heavy n)"
  using base_prompt_prefix [of decode_heavy prompt_heavy]
  by (simp add: request_prompt_def decode_heavy_def prompt_heavy_def)

section \<open>Properties\<close>






end
