(* ===== verification/Spec2Isabelle.thy ===== *)
theory Spec2Isabelle
  imports Prelude PyText PyRandom PyJson Registry Pools Pid Autoscaler AutoscalerLive Trace PromMetrics Reconcile
    Router RouterRuns RouterBench BenchStats CellSchema CellRunner MatrixAggregator RunpodMatrix MatrixReport
    Preflight RunMatrix Orchestrator KvTheory KvSchema KvEngine KvSampling KvFake KvFit KvResults KvCampaign DisaggProxy SpecDecoding LiveBench SentinelDaemon Figures KvFigures KvTier SynthText Workloads ChatWorkload RagWorkload AgenticWorkload Arrival Sse HttpClient ClientSlots ClientCell DryRun ArgParse KvCommand MatrixCommand ServiceCommands LiveExperiment
begin

text \<open>
  A verification library for goodputlab, a benchmark laboratory for goodput-oriented serving of language
  models: a control plane (router, autoscaler, PID controllers), load generators with an HTTP client,
  a reconciliation gate that compares the client's records with the server's counters, a matrix sweep
  that runs and stores benchmark cells, and a study of how the KV cache grows with the context.

  \<^bold>\<open>How the parts interact\<close>

  A workload generator builds a trace (requests with prompt text and token counts) from a seed; an
  arrival process turns the rate into a schedule. The client replays the schedule and yields one
  telemetry per request. A cell is one point (topology, model, rate, mix) of the sweep: the cell runner builds
  its trace, replays it, aggregates the telemetries and stores the result file atomically; the flag that calls a
  result reconciled is a success rate of at least 0.99. The gate of \<open>core/reconcile.py\<close>, which compares the
  telemetries with a scrape of the server, is called by nothing else under src/ than the tests. The matrix runner
  enumerates the cells, skips those whose
  files are valid, and, unless told to keep going, stops at a failed or unreconciled cell; preflights and a spend gate guard it, and an
  aggregator and a report read the directory afterwards. In front of the servers the router admits a request,
  picks the pool from a salted prefix cache or by load, and the autoscaler moves replicas between the
  pools by the error signals of their PID controllers, never shrinking a pool with requests in flight.
  The KV-cache study measures a cell on an engine through a driver protocol (a dry run has its own
  engine), fits bytes per token and publishes a campaign only behind its gates.

  \<^bold>\<open>Theories, in the order of the code\<close>

  \<^item> \<open>Prelude\<close>, \<open>PyText\<close>, \<open>PyRandom\<close>, \<open>PyJson\<close>: the parts of Python the program uses, that is exceptions as values
    (\<open>py_error\<close>, \<open>result\<close>), \<open>int()\<close> and \<open>round()\<close>, ordered dictionaries with the laws of a recency
    store (locale \<open>recency_dict\<close>), decimal rendering and splitting, the generator \<open>random.Random\<close>, JSON values.
  \<^item> \<open>Pools\<close>, \<open>Pid\<close>, \<open>Autoscaler\<close> (src/control/pool.py, pid.py, autoscaler.py), \<open>AutoscalerLive\<close>
    (src/scripts/autoscaler_live.py): \<open>pid\<close> is \<open>PidController\<close>, \<open>pid_update\<close> its \<open>update\<close>; \<open>tick_pool\<close> is the body of the
    loop of \<open>PoolAutoscaler.tick\<close>. Lemmas: the integral and the output stay in their bounds, a decision
    keeps the replicas in their range and takes none away while requests are in flight, flips keep the dwell time.
  \<^item> \<open>Router\<close>, \<open>RouterRuns\<close> (src/control/router.py), \<open>RouterBench\<close> (src/bench/router_bench.py): admission,
    the prefix cache with eviction, and \<open>route\<close> on every branch; reachable states, the origin of
    every cache hit, counters; streams of requests with an exact count of hits.
  \<^item> \<open>Registry\<close> (src/obs/registry.py), \<open>PromMetrics\<close> (src/core/metrics.py), \<open>Trace\<close> (src/core/trace.py),
    \<open>Reconcile\<close> (src/core/reconcile.py): recorded collector calls, the scrape totals, the model classes
    with their validators, the gate against a log of what the server did.
  \<^item> \<open>SynthText\<close>, \<open>Workloads\<close>, \<open>ChatWorkload\<close>, \<open>RagWorkload\<close>, \<open>AgenticWorkload\<close>, \<open>Arrival\<close>, \<open>Sse\<close>, \<open>HttpClient\<close>
    (src/loadgen/): the generators with the shape of every trace, arrival processes, the event parser, the client.
  \<^item> \<open>KvTier\<close> (src/kv/): the LRU tier, its statistics and the admission policy; the accounting invariant.
  \<^item> \<open>BenchStats\<close>, \<open>CellSchema\<close>, \<open>CellRunner\<close>, \<open>RunpodMatrix\<close>, \<open>MatrixAggregator\<close>, \<open>MatrixReport\<close>, \<open>Preflight\<close>,
    \<open>RunMatrix\<close>, \<open>Orchestrator\<close> (src/bench/, src/scripts/run_matrix.py and sweep_report.py): percentiles and
    aggregates, cell identity, the run of a cell and its store, the sweep and its resume, what the aggregate
    and the report contain, the gates before any paid run, exit codes, the dry-run pipeline.
  \<^item> \<open>KvTheory\<close>, \<open>KvSchema\<close>, \<open>KvEngine\<close>, \<open>KvSampling\<close>, \<open>KvFake\<close>, \<open>KvFit\<close>, \<open>KvResults\<close>, \<open>KvCampaign\<close>
    (src/bench/kv_scaling/): bytes per token from a configuration, the records, the drivers, the
    sampling loop, the closed form of a cell on a lock-step engine (locale \<open>decode_engine\<close>, interpreted
    by the fake driver), regression and gates, files, and the campaigns.
  \<^item> \<open>DisaggProxy\<close> (src/scripts/disagg_proxy.py), \<open>SpecDecoding\<close> (src/spec/eagle.py), \<open>LiveBench\<close>
    (src/scripts/real_bench.py, src/bench/ollama_smoke.py), \<open>SentinelDaemon\<close> (src/scripts/sentinel_daemon.py), \<open>Figures\<close>
    (src/bench/figures.py), \<open>KvFigures\<close> (src/bench/kv_scaling/figures.py): the front door of the
    two pools and the order of its upstream calls, the
    draft decoder and its switch, the harnesses over live servers, the drift probe, the loaders and the data of the plots.
  \<^item> \<open>ClientSlots\<close> (src/loadgen/client.py, \<open>run\<close>): the tasks of a client run as a step relation over a first-come semaphore
    (\<open>slot_queue\<close> is its contract); lemmas: the bound on the requests in flight, progress, and that the gathered
    list does not depend on the interleaving. \<open>ClientCell\<close>: a cell measured through that client, with the requests its result
    stands for. \<open>DryRun\<close>: the dry run of \<open>Orchestrator\<close> with that client against the mock application, from the traces to
    the reports. \<open>LiveExperiment\<close> (src/scripts/autoscaler_live.py): the phases with their
    traffic around the ticks of \<open>AutoscalerLive\<close>; its loops end because clocks advance (\<open>deadline_induct\<close> of \<open>Prelude\<close>).
  \<^item> \<open>ArgParse\<close> (the options of \<open>argparse\<close> the programs use), \<open>KvCommand\<close> (src/bench/kv_scaling/__main__.py),
    \<open>MatrixCommand\<close> (src/scripts/run_matrix.py, sweep_report.py), \<open>ServiceCommands\<close> (the proxy, the probe and the two live
    harnesses): the commands from their argument vectors on, so that the
    spend gates are stated of what the operator typed.


  \<^bold>\<open>Modelling decisions\<close>

  \<^item> A class with state is a record, a method a function from the state to the result and the new state. A
    \<open>raise\<close> is \<open>Inl\<close> of a \<open>py_error\<close>; where the state changed before the exception, both are returned.
  \<^item> Floats are \<open>real\<close>: rounding, infinities and NaN are outside. Python's integers are \<open>int\<close>; the 32-bit seeds
    are machine words, and strings are character lists (ASCII in the text functions).
  \<^item> Dictionaries are association lists in insertion order. Files are a map from names to contents;
    how a value is written and read back is a codec with the documented law that reading gives what was written.
  \<^item> Code outside the repository is a parameter: SHA-256, the twister (\<open>rng_ok\<close> is the documented range, \<open>rng_periodic\<close> the
    documented period), the
    metric parser, \<open>json.loads\<close>, YAML, pydantic's writer, \<open>httpx\<close>, the vLLM engine, tokenizers, the model hub. Each
    hypothesis on one of these has a witness on a concrete function.
  \<^item> A loop that may not end is a partial function, \<open>None\<close> when it does not return (the phases of the on/off
    process, the tiling of token identifiers); that it returns is a theorem. The step budget of the KV sampler,
    prefill chunks plus decode tokens plus 8, is the source's own and serves as fuel: a lock-step engine
    needs as many steps as decode tokens, so it is enough. The caps of the source (380 requests
    of a cell's trace, 124-word shared prefixes, six sampled cells of a preflight) are kept as written.

  \<^bold>\<open>Not modelled\<close>

  Drawing with matplotlib (the plots are the data handed to it), the serving of the applications by FastAPI and uvicorn, and printed progress lines. In argument vectors the separator of two dashes is outside the model. Printing and logging are left out of every command, as are asyncio's event
  loop (a component sees what a task delivers as its input) and the latency of real transports.
  So are an exception other than \<open>httpx.HTTPError\<close> and \<open>OSError\<close> in the readiness poll of the live harnesses, a
  metrics port of the drift probe that is already taken, and an exception of the count of unfinished requests
  that the KV sampler logs.
\<close>

end
